(* ===== verification/Prelude.thy ===== *)
theory Prelude
  imports Complex_Main "HOL-Library.List_Lexorder" "HOL-Library.Char_ord"
    "HOL-Library.Product_Lexorder" "HOL-Library.Signed_Division"
begin

text \<open>
  Shared vocabulary of the development: results of fallible Rust code, the loops that
  leave a function with the question-mark operator, and the collections of rewrite rules
  that the component theories extend.

  A Rust \<open>Result<T, E>\<close> is the sum type \<open>'e + 'a\<close> with the error on the left.
  In \<open>finance_model.rs\<close> the error is a string, so \<open>'a result\<close> fixes it to
  \<open>string\<close>; an \<open>anyhow::Error\<close> is represented by its message in the same way.
\<close>

type_synonym 'a result = "string + 'a"

named_theorems result_simps "rewriting of computations in the result type"
named_theorems money_simps "values of decimal texts"
named_theorems evaluate "unfolding of the operations on concrete databases"

section \<open>Sequencing fallible computations\<close>

text \<open>\<open>Result::and_then\<close>, which is also what the question-mark operator does.\<close>

definition and_then :: "'e + 'a \<Rightarrow> ('a \<Rightarrow> 'e + 'b) \<Rightarrow> 'e + 'b" where
  "and_then m f = (case m of Inl e \<Rightarrow> Inl e | Inr x \<Rightarrow> f x)"

text \<open>\<open>Option::ok_or\<close> and \<open>Context::context\<close>: an absent value becomes an error.\<close>

definition ok_or :: "'a option \<Rightarrow> 'e \<Rightarrow> 'e + 'a" where
  "ok_or m e = (case m of None \<Rightarrow> Inl e | Some x \<Rightarrow> Inr x)"

text \<open>\<open>Result::ok\<close>.\<close>

definition ok :: "'e + 'a \<Rightarrow> 'a option" where
  "ok m = (case m of Inl e \<Rightarrow> None | Inr x \<Rightarrow> Some x)"

definition unwrap_or :: "'a option \<Rightarrow> 'a \<Rightarrow> 'a" where
  "unwrap_or m d = (case m of None \<Rightarrow> d | Some x \<Rightarrow> x)"

text \<open>A \<open>for\<close> loop over a list whose body may leave the function with an error.\<close>

fun fold_result :: "('s \<Rightarrow> 'a \<Rightarrow> 'e + 's) \<Rightarrow> 's \<Rightarrow> 'a list \<Rightarrow> 'e + 's" where
  "fold_result f s [] = Inr s"
| "fold_result f s (x # xs) = and_then (f s x) (\<lambda>s'. fold_result f s' xs)"

text \<open>\<open>collect::<Result<Vec<_>, _>>()\<close>: the first error wins.\<close>

fun map_result :: "('a \<Rightarrow> 'e + 'b) \<Rightarrow> 'a list \<Rightarrow> 'e + 'b list" where
  "map_result f [] = Inr []"
| "map_result f (x # xs) =
     and_then (f x) (\<lambda>y. and_then (map_result f xs) (\<lambda>ys. Inr (y # ys)))"

lemma and_then_Inl [simp]: "and_then (Inl e) f = Inl e"
  by (simp add: and_then_def)

lemma and_then_Inr [simp]: "and_then (Inr x) f = f x"
  by (simp add: and_then_def)

lemma and_then_eq_Inr [result_simps]:
  "and_then m f = Inr y \<longleftrightarrow> (\<exists>x. m = Inr x \<and> f x = Inr y)"
  by (cases m) auto

lemma and_then_eq_Inl [result_simps]:
  "and_then m f = Inl e \<longleftrightarrow> m = Inl e \<or> (\<exists>x. m = Inr x \<and> f x = Inl e)"
  by (cases m) auto

lemma and_then_assoc: "and_then (and_then m f) g = and_then m (\<lambda>x. and_then (f x) g)"
  by (cases m) simp_all

lemma ok_or_simps [simp]: "ok_or None e = Inl e" "ok_or (Some x) e = Inr x"
  by (simp_all add: ok_or_def)

lemma ok_or_eq_Inr [result_simps]: "ok_or m e = Inr x \<longleftrightarrow> m = Some x"
  by (cases m) simp_all

lemma ok_simps [simp]: "ok (Inl e) = None" "ok (Inr x) = Some x"
  by (simp_all add: ok_def)

lemma unwrap_or_simps [simp]: "unwrap_or None d = d" "unwrap_or (Some x) d = x"
  by (simp_all add: unwrap_or_def)

lemma fold_result_append:
  "fold_result f s (xs @ ys) = and_then (fold_result f s xs) (\<lambda>s'. fold_result f s' ys)"
  by (induction xs arbitrary: s) (simp_all add: and_then_assoc)

text \<open>A loop invariant: kept by the body wherever the body returns normally.\<close>

lemma fold_result_invariant:
  assumes "fold_result f s xs = Inr s'" and "P s"
    and "\<And>s x t. x \<in> set xs \<Longrightarrow> P s \<Longrightarrow> f s x = Inr t \<Longrightarrow> P t"
  shows "P s'"
  using assms
proof (induction xs arbitrary: s)
  case Nil
  then show ?case by simp
next
  case (Cons x xs)
  from Cons.prems(1) obtain t where t: "f s x = Inr t" and rest: "fold_result f t xs = Inr s'"
    by (auto simp: result_simps)
  have "P t" using Cons.prems(2,3) t by auto
  with rest Cons.prems(3) show ?case by (intro Cons.IH [of t]) auto
qed

text \<open>A loop whose body never fails on the states it meets returns.\<close>

lemma fold_result_total:
  assumes "P s" and "\<And>s x. x \<in> set xs \<Longrightarrow> P s \<Longrightarrow> \<exists>t. f s x = Inr t \<and> P t"
  shows "\<exists>s'. fold_result f s xs = Inr s' \<and> P s'"
  using assms
proof (induction xs arbitrary: s)
  case Nil
  then show ?case by simp
next
  case (Cons x xs)
  from Cons.prems(1) Cons.prems(2) [of x s] obtain t where t: "f s x = Inr t" "P t" by auto
  have "\<exists>s'. fold_result f t xs = Inr s' \<and> P s'"
    using Cons.prems(2) by (intro Cons.IH t(2)) auto
  with t show ?case by simp
qed

text \<open>What the body establishes for its element and keeps for the others holds for all at the end.\<close>

lemma fold_result_establish:
  assumes "fold_result f s xs = Inr s'" and "distinct xs" and "x \<in> set xs" and "Inv s"
    and "\<And>s y t. Inv s \<Longrightarrow> f s y = Inr t \<Longrightarrow> Inv t \<and> Q y t"
    and "\<And>s y z t. y \<noteq> z \<Longrightarrow> Inv s \<Longrightarrow> Q z s \<Longrightarrow> f s y = Inr t \<Longrightarrow> Q z t"
  shows "Q x s'"
proof -
  have "Inv s' \<and> (\<forall>x\<in>set xs. Q x s')"
    using assms(1,2,4)
  proof (induction xs arbitrary: s' rule: rev_induct)
    case Nil
    then show ?case by simp
  next
    case (snoc y ys)
    then obtain u where u: "fold_result f s ys = Inr u" and y: "f u y = Inr s'"
      by (auto simp: fold_result_append result_simps)
    have ih: "Inv u \<and> (\<forall>x\<in>set ys. Q x u)" using snoc u by simp
    have "y \<notin> set ys" using snoc.prems(2) by simp
    have "Inv s'" "Q y s'" using assms(5) [of u y s'] ih y by auto
    moreover have "Q x s'" if "x \<in> set ys" for x
      using assms(6) [of y x u s'] ih y that \<open>y \<notin> set ys\<close> by blast
    ultimately show ?case by auto
  qed
  with assms(3) show ?thesis by blast
qed

text \<open>What one element establishes and no element destroys holds at the end.\<close>

lemma fold_result_eventually:
  assumes "fold_result f s xs = Inr s'" and "x \<in> set xs" and "Inv s"
    and "\<And>s y t. Inv s \<Longrightarrow> f s y = Inr t \<Longrightarrow> Inv t"
    and "\<And>s t. Inv s \<Longrightarrow> f s x = Inr t \<Longrightarrow> Q t"
    and "\<And>s y t. Inv s \<Longrightarrow> Q s \<Longrightarrow> f s y = Inr t \<Longrightarrow> Q t"
  shows "Q s'"
proof -
  have "Inv s' \<and> (x \<in> set xs \<longrightarrow> Q s')"
    using assms(1)
  proof (induction xs arbitrary: s' rule: rev_induct)
    case Nil
    with assms(3) show ?case by simp
  next
    case (snoc y ys)
    then obtain u where u: "fold_result f s ys = Inr u" and y: "f u y = Inr s'"
      by (auto simp: fold_result_append result_simps)
    from snoc.IH [OF u] have ih: "Inv u" "x \<in> set ys \<longrightarrow> Q u" by simp_all
    have "Inv s'" using assms(4) ih(1) y by blast
    moreover have "Q s'" if "x \<in> set (ys @ [y])"
      using that ih y assms(5) [of u s'] assms(6) [of u y s'] by auto
    ultimately show ?case by blast
  qed
  with assms(2) show ?thesis by blast
qed

lemma map_result_Inr_iff [result_simps]:
  "map_result f xs = Inr ys \<longleftrightarrow> list_all2 (\<lambda>x y. f x = Inr y) xs ys"
  by (induction xs arbitrary: ys) (auto simp: result_simps list_all2_Cons1)

lemma map_result_length: "map_result f xs = Inr ys \<Longrightarrow> length ys = length xs"
  by (auto simp: result_simps dest: list_all2_lengthD)

section \<open>Small facts on lists\<close>

lemma takeWhile_id [simp]: "(\<And>x. x \<in> set xs \<Longrightarrow> P x) \<Longrightarrow> takeWhile P xs = xs"
  by (induction xs) auto

lemma filter_key_empty: "k \<notin> f ` set xs \<Longrightarrow> filter (\<lambda>x. f x = k) xs = []"
  by (auto simp: filter_empty_conv)

end
