(* ===== verification/RustStd.thy ===== *)
theory RustStd
  imports Prelude
begin

text \<open>
  The parts of the Rust standard library that the server uses. A \<open>str\<close> is the list
  of its UTF-8 bytes (an Isabelle \<open>char\<close> is a byte), so \<open>length\<close> is \<open>str::len\<close> and
  the lexicographic order is the order of \<open>str\<close>. Operations of \<open>str\<close> that speak of
  Unicode scalar values are written out on their UTF-8 encodings.
\<close>

section \<open>Prefixes, trimming and splitting\<close>

definition starts_with :: "string \<Rightarrow> string \<Rightarrow> bool" where
  "starts_with s p \<longleftrightarrow> take (length p) s = p"

definition ends_with :: "string \<Rightarrow> string \<Rightarrow> bool" where
  "ends_with s p \<longleftrightarrow> starts_with (rev s) (rev p)"

definition strip_prefix :: "string \<Rightarrow> string \<Rightarrow> string option" where
  "strip_prefix s p = (if starts_with s p then Some (drop (length p) s) else None)"

text \<open>
  The characters with the Unicode property \<open>White_Space\<close>, each as its UTF-8 bytes:
  U+0009 to U+000D, U+0020, U+0085, U+00A0, U+1680, U+2000 to U+200A, U+2028, U+2029,
  U+202F, U+205F and U+3000.
\<close>

definition white_space :: "string list" where
  "white_space = map (map char_of)
     ([[9], [10], [11], [12], [13], [32], [194, 133], [194, 160], [225, 154, 128]]
      @ map (\<lambda>b. [226, 128, b]) [128, 129, 130, 131, 132, 133, 134, 135, 136, 137, 138, 168, 169, 175]
      @ [[226, 129, 159], [227, 128, 128 :: nat]])"

lemma white_space_nonempty: "w \<in> set white_space \<Longrightarrow> w \<noteq> []"
  by (auto simp: white_space_def)

function trim_start :: "string \<Rightarrow> string" where
  "trim_start s = (case find (starts_with s) white_space of
     None \<Rightarrow> s | Some w \<Rightarrow> trim_start (drop (length w) s))"
  by pat_completeness auto
termination
proof (relation "measure length")
  fix s w
  assume "find (starts_with s) white_space = Some w"
  then have "w \<in> set white_space" and "starts_with s w"
    by (auto simp: find_Some_iff)
  then have "w \<noteq> []" and "take (length w) s = w"
    by (auto simp: white_space_nonempty starts_with_def)
  then have "s \<noteq> []" by auto
  with \<open>w \<noteq> []\<close> show "(drop (length w) s, s) \<in> measure length" by simp
qed simp

declare trim_start.simps [simp del]

text \<open>Trimming the end drops white-space encodings from the back.\<close>

function trim_end :: "string \<Rightarrow> string" where
  "trim_end s = (case find (ends_with s) white_space of
     None \<Rightarrow> s | Some w \<Rightarrow> trim_end (take (length s - length w) s))"
  by pat_completeness auto
termination
proof (relation "measure length")
  fix s w
  assume "find (ends_with s) white_space = Some w"
  then have "w \<in> set white_space" and "ends_with s w"
    by (auto simp: find_Some_iff)
  then have "rev w \<noteq> []" and "take (length w) (rev s) = rev w"
    by (auto simp: white_space_nonempty ends_with_def starts_with_def)
  then have "s \<noteq> []" by auto
  with \<open>rev w \<noteq> []\<close> show "(take (length s - length w) s, s) \<in> measure length" by simp
qed simp

declare trim_end.simps [simp del]

definition trim :: "string \<Rightarrow> string" where
  "trim s = trim_end (trim_start s)"

text \<open>\<open>str::split\<close> on the characters that satisfy a predicate.\<close>

fun split_on :: "(char \<Rightarrow> bool) \<Rightarrow> string \<Rightarrow> string list" where
  "split_on P [] = [[]]"
| "split_on P (c # cs) =
     (if P c then [] # split_on P cs
      else (case split_on P cs of [] \<Rightarrow> [[c]] | x # xs \<Rightarrow> (c # x) # xs))"

lemma split_on_nonempty [simp]: "split_on P s \<noteq> []"
  by (cases s) (auto split: list.split)

lemma split_on_none: "(\<And>c. c \<in> set s \<Longrightarrow> \<not> P c) \<Longrightarrow> split_on P s = [s]"
  by (induction s) auto

lemma split_on_append_sep:
  "(\<And>c. c \<in> set s \<Longrightarrow> \<not> P c) \<Longrightarrow> P d \<Longrightarrow> split_on P (s @ d # t) = s # split_on P t"
  by (induction s) auto

section \<open>ASCII case and characters\<close>

definition ascii_lower :: "char \<Rightarrow> char" where
  "ascii_lower c = (if CHR ''A'' \<le> c \<and> c \<le> CHR ''Z'' then char_of (of_char c + 32 :: nat) else c)"

definition ascii_upper :: "char \<Rightarrow> char" where
  "ascii_upper c = (if 97 \<le> (of_char c :: nat) \<and> (of_char c :: nat) \<le> 122 then char_of (of_char c - 32 :: nat) else c)"

text \<open>\<open>chars().count()\<close>: the bytes that are not continuation bytes.\<close>

definition char_count :: "string \<Rightarrow> nat" where
  "char_count s = length (filter (\<lambda>c. \<not> (128 \<le> (of_char c :: nat) \<and> (of_char c :: nat) < 192)) s)"

section \<open>Digits and integers\<close>

definition is_digit :: "char \<Rightarrow> bool" where
  "is_digit c \<longleftrightarrow> 48 \<le> (of_char c :: nat) \<and> (of_char c :: nat) \<le> 57"

definition digit_value :: "char \<Rightarrow> nat" where
  "digit_value c = of_char c - 48"

definition digit_char :: "nat \<Rightarrow> char" where
  "digit_char n = char_of (48 + n)"

text \<open>The value of a string of digits, most significant first (\<open>BigInt::from_str\<close>).\<close>

definition digits_value :: "string \<Rightarrow> nat" where
  "digits_value ds = foldl (\<lambda>n c. 10 * n + digit_value c) 0 ds"

text \<open>\<open>to_string\<close> of a natural number.\<close>

fun nat_to_string :: "nat \<Rightarrow> string" where
  "nat_to_string n =
     (if n < 10 then [digit_char n] else nat_to_string (n div 10) @ [digit_char (n mod 10)])"

declare nat_to_string.simps [simp del]

definition int_to_string :: "int \<Rightarrow> string" where
  "int_to_string n = (if n < 0 then CHR ''-'' # nat_to_string (nat (- n))
     else nat_to_string (nat n))"

text \<open>
  The integer parsers of \<open>core\<close>: an optional sign (a minus sign for signed types
  only), at least one digit, and a value within the bounds of the type.
\<close>

definition parse_int_in :: "int \<Rightarrow> int \<Rightarrow> string \<Rightarrow> int option" where
  "parse_int_in lo hi s =
     (let (neg, ds) = (case s of
            [] \<Rightarrow> (False, [])
          | c # cs \<Rightarrow> if c = CHR ''+'' then (False, cs)
                      else if c = CHR ''-'' \<and> lo < 0 then (True, cs) else (False, s));
          v = (if neg then - int (digits_value ds) else int (digits_value ds))
      in if ds = [] \<or> \<not> list_all is_digit ds \<or> v < lo \<or> hi < v then None else Some v)"

definition parse_i32 :: "string \<Rightarrow> int option" where
  "parse_i32 = parse_int_in (- (2 ^ 31)) (2 ^ 31 - 1)"

definition parse_i64 :: "string \<Rightarrow> int option" where
  "parse_i64 = parse_int_in (- (2 ^ 63)) (2 ^ 63 - 1)"

definition parse_u32 :: "string \<Rightarrow> int option" where
  "parse_u32 = parse_int_in 0 (2 ^ 32 - 1)"

text \<open>Zero padding as in \<open>{:04}\<close>: the width counts the sign.\<close>

definition pad_zero :: "nat \<Rightarrow> int \<Rightarrow> string" where
  "pad_zero w n =
     (let ds = nat_to_string (nat \<bar>n\<bar>) in
      if n < 0 then CHR ''-'' # replicate (w - 1 - length ds) CHR ''0'' @ ds
      else replicate (w - length ds) CHR ''0'' @ ds)"

section \<open>Facts on digits\<close>

lemma is_digit_digit_char [simp]: "n < 10 \<Longrightarrow> is_digit (digit_char n)"
  by (simp add: is_digit_def digit_char_def)

lemma digit_value_digit_char [simp]: "n < 10 \<Longrightarrow> digit_value (digit_char n) = n"
  by (simp add: digit_value_def digit_char_def)

lemma digit_char_digit_value [simp]: "is_digit c \<Longrightarrow> digit_char (digit_value c) = c"
  by (simp add: is_digit_def digit_value_def digit_char_def)

lemma digit_value_less [simp]: "is_digit c \<Longrightarrow> digit_value c < 10"
  by (auto simp: is_digit_def digit_value_def)

text \<open>Evaluation of printing on numerals, by the simplifier.\<close>

lemma digit_char_eval:
  "digit_char 0 = CHR ''0''" "digit_char 1 = CHR ''1''" "digit_char 2 = CHR ''2''" "digit_char 3 = CHR ''3''"
  "digit_char 4 = CHR ''4''" "digit_char 5 = CHR ''5''" "digit_char 6 = CHR ''6''" "digit_char 7 = CHR ''7''"
  "digit_char 8 = CHR ''8''" "digit_char 9 = CHR ''9''" "digit_char (Suc 0) = CHR ''1''"
  by code_simp+

lemmas to_string_eval = nat_to_string.simps digit_char_eval

lemma digits_value_Nil [simp]: "digits_value [] = 0"
  by (simp add: digits_value_def)

lemma digits_value_snoc [simp]: "digits_value (ds @ [c]) = 10 * digits_value ds + digit_value c"
  by (simp add: digits_value_def)

lemma digits_value_append:
  "digits_value (xs @ ys) = digits_value xs * 10 ^ length ys + digits_value ys"
  by (induction ys rule: rev_induct) (simp_all flip: append_assoc add: algebra_simps)

lemma digits_value_zeros [simp]: "digits_value (replicate n CHR ''0'') = 0"
  by (induction n) (simp_all flip: replicate_append_same add: digit_value_def)

lemma digits_value_Cons:
  "digits_value (c # cs) = digit_value c * 10 ^ length cs + digits_value cs"
  using digits_value_append [of "[c]" cs] by (simp add: digits_value_def)

lemma digits_value_bound: "list_all is_digit ds \<Longrightarrow> digits_value ds < 10 ^ length ds"
proof (induction ds rule: rev_induct)
  case Nil
  then show ?case by simp
next
  case (snoc c ds)
  then have "digits_value ds < 10 ^ length ds" and "digit_value c < 10" by auto
  then show ?case by simp
qed

lemma nat_to_string_digits [simp]: "list_all is_digit (nat_to_string n)"
  by (induction n rule: nat_to_string.induct) (subst nat_to_string.simps, simp)

lemma nat_to_string_nonempty [simp]: "nat_to_string n \<noteq> []"
  by (subst nat_to_string.simps) simp

lemma digits_value_nat_to_string [simp]: "digits_value (nat_to_string n) = n"
proof (induction n rule: nat_to_string.induct)
  case (1 n)
  show ?case
  proof (cases "n < 10")
    case True
    then show ?thesis by (subst nat_to_string.simps) (simp add: digits_value_def)
  next
    case False
    with "1.IH" show ?thesis by (subst nat_to_string.simps) simp
  qed
qed

lemma nat_to_string_inject [simp]: "nat_to_string m = nat_to_string n \<longleftrightarrow> m = n"
  by (metis digits_value_nat_to_string)

lemma parse_int_in_bounds: "parse_int_in lo hi s = Some v \<Longrightarrow> lo \<le> v \<and> v \<le> hi"
  by (auto simp: parse_int_in_def Let_def split: prod.splits if_splits)

text \<open>No white-space encoding begins or ends with a printable ASCII byte.\<close>

lemma white_space_ends:
  "w \<in> set white_space \<Longrightarrow> of_char (hd w) \<notin> {33..127 :: nat} \<and> of_char (last w) \<notin> {33..127 :: nat}"
  by (auto simp: white_space_def)

lemma trim_start_id:
  assumes "s \<noteq> []" and "of_char (hd s) \<in> {33..127 :: nat}"
  shows "trim_start s = s"
proof -
  have "\<not> starts_with s w" if "w \<in> set white_space" for w
  proof
    assume "starts_with s w"
    with white_space_nonempty [OF that] assms(1) have "hd w = hd s"
      by (metis hd_take length_greater_0_conv starts_with_def)
    with white_space_ends [OF that] assms(2) show False by simp
  qed
  then have "find (starts_with s) white_space = None" by (simp add: find_None_iff)
  then show ?thesis by (simp add: trim_start.simps)
qed

lemma trim_end_id:
  assumes "s \<noteq> []" and "of_char (last s) \<in> {33..127 :: nat}"
  shows "trim_end s = s"
proof -
  have "\<not> ends_with s w" if "w \<in> set white_space" for w
  proof
    assume "ends_with s w"
    then have "take (length w) (rev s) = rev w" by (simp add: ends_with_def starts_with_def)
    with white_space_nonempty [OF that] assms(1) have "last w = last s"
      by (metis hd_rev hd_take length_greater_0_conv)
    with white_space_ends [OF that] assms(2) show False by simp
  qed
  then have "find (ends_with s) white_space = None" by (simp add: find_None_iff)
  then show ?thesis by (simp add: trim_end.simps)
qed

lemma trim_id:
  "s \<noteq> [] \<Longrightarrow> of_char (hd s) \<in> {33..127 :: nat} \<Longrightarrow> of_char (last s) \<in> {33..127 :: nat} \<Longrightarrow> trim s = s"
  by (simp add: trim_def trim_start_id trim_end_id)

text \<open>Trimming twice is trimming once.\<close>

lemma trim_start_trimmed: "w \<in> set white_space \<Longrightarrow> \<not> starts_with (trim_start s) w"
proof (induction s rule: trim_start.induct)
  case (1 s)
  show ?case
  proof (cases "find (starts_with s) white_space")
    case None
    then have "\<not> starts_with s w" using 1(2) by (auto simp: find_None_iff)
    then show ?thesis by (subst trim_start.simps) (simp add: None)
  next
    case (Some v)
    with 1 show ?thesis by (subst trim_start.simps) simp
  qed
qed

lemma trim_start_idem: "(\<And>w. w \<in> set white_space \<Longrightarrow> \<not> starts_with s w) \<Longrightarrow> trim_start s = s"
  by (subst trim_start.simps) (simp add: find_None_iff [THEN iffD2])

lemma trim_end_trimmed: "w \<in> set white_space \<Longrightarrow> \<not> ends_with (trim_end s) w"
proof (induction s rule: trim_end.induct)
  case (1 s)
  show ?case
  proof (cases "find (ends_with s) white_space")
    case None
    then have "\<not> ends_with s w" using 1(2) by (auto simp: find_None_iff)
    then show ?thesis by (subst trim_end.simps) (simp add: None)
  next
    case (Some v)
    with 1 show ?thesis by (subst trim_end.simps) simp
  qed
qed

lemma trim_end_idem: "(\<And>w. w \<in> set white_space \<Longrightarrow> \<not> ends_with s w) \<Longrightarrow> trim_end s = s"
  by (subst trim_end.simps) (simp add: find_None_iff [THEN iffD2])

lemma trim_end_prefix: "\<exists>n. trim_end s = take n s"
proof (induction s rule: trim_end.induct)
  case (1 s)
  show ?case
  proof (cases "find (ends_with s) white_space")
    case None
    then have "trim_end s = take (length s) s" by (subst trim_end.simps) simp
    then show ?thesis ..
  next
    case (Some v)
    with 1 obtain n where "trim_end (take (length s - length v) s) = take n (take (length s - length v) s)" by blast
    with Some show ?thesis by (subst trim_end.simps) auto
  qed
qed

lemma starts_with_take: "starts_with (take n s) w \<Longrightarrow> starts_with s w"
proof -
  assume a: "starts_with (take n s) w"
  then have e: "take (min (length w) n) s = w" by (simp add: starts_with_def)
  then have "length w = min (length s) (min (length w) n)" by (metis length_take)
  then have "min (length w) n = length w" by linarith
  with e show ?thesis by (simp add: starts_with_def)
qed

lemma trim_trim [simp]: "trim (trim s) = trim s"
proof -
  have "\<not> starts_with (trim s) w" if "w \<in> set white_space" for w
  proof
    assume a: "starts_with (trim s) w"
    obtain n where "trim s = take n (trim_start s)" using trim_end_prefix [of "trim_start s"] by (auto simp: trim_def)
    with a have "starts_with (trim_start s) w" using starts_with_take by metis
    with trim_start_trimmed [OF that] show False by blast
  qed
  then have "trim_start (trim s) = trim s" by (rule trim_start_idem)
  moreover have "trim_end (trim s) = trim s"
    unfolding trim_def by (rule trim_end_idem) (rule trim_end_trimmed)
  ultimately show ?thesis by (simp add: trim_def [of "trim s"])
qed

lemma ascii_lower_idem [simp]: "ascii_lower (ascii_lower c) = ascii_lower c"
  by (cases c) (auto simp: ascii_lower_def less_eq_char_def of_char_of)

lemma ascii_upper_idem [simp]: "ascii_upper (ascii_upper c) = ascii_upper c"
  by (auto simp: ascii_upper_def of_char_of)

end
