(* ===== verification/Decimal.thy ===== *)
theory Decimal
  imports RustStd
begin

text \<open>
  The exact decimals and rationals of \<open>server/src/finance_model.rs\<close>: parsing, the
  canonical form, addition, the conversion to a ratio, rounding and printing.
  \<open>BigInt\<close> is the type \<open>int\<close>. A scale (\<open>u32\<close>) is a \<open>nat\<close>: the parser refuses a scale
  above 10,000, addition takes a maximum of two scales and every call of \<open>round_decimal\<close>
  in the repository passes 2, so no scale comes near the width of the type. The two
  \<open>i32\<close> counters of the parser are \<open>int\<close>; \<open>scan_mantissa_bound\<close> bounds them by the
  length of the text, so they stay in range on every text shorter than two gigabytes.
\<close>

section \<open>Definitions\<close>

record decimal =
  coefficient :: int
  scale :: nat

definition ten_pow :: "nat \<Rightarrow> int" where
  "ten_pow s = 10 ^ s"

text \<open>\<open>Decimal::normalized\<close>: the \<open>while\<close> loop counts the scale down.\<close>

fun normalized_loop :: "int \<Rightarrow> nat \<Rightarrow> decimal" where
  "normalized_loop c 0 = \<lparr>coefficient = c, scale = 0\<rparr>"
| "normalized_loop c (Suc s) =
     (if c smod 10 = 0 then normalized_loop (c sdiv 10) s
      else \<lparr>coefficient = c, scale = Suc s\<rparr>)"

definition decimal_normalized :: "decimal \<Rightarrow> decimal" where
  "decimal_normalized d = normalized_loop (coefficient d) (scale d)"

text \<open>
  The character loop of \<open>Decimal::parse\<close>: whether a point was seen, the number of
  fractional digits, the digits collected so far.
\<close>

fun scan_mantissa :: "string \<Rightarrow> bool \<Rightarrow> int \<Rightarrow> string \<Rightarrow> (int \<times> string) result" where
  "scan_mantissa [] dot fd digits = Inr (fd, digits)"
| "scan_mantissa (c # cs) dot fd digits =
     (if c = CHR ''.'' \<and> \<not> dot then scan_mantissa cs True fd digits
      else if c = CHR ''.'' then Inl ''invalid decimal point''
      else if is_digit c then scan_mantissa cs dot (if dot then fd + 1 else fd) (digits @ [c])
      else Inl ''invalid decimal digit'')"

text \<open>The optional sign of a text: whether it is negative, and the rest.\<close>

definition split_sign :: "string \<Rightarrow> bool \<times> string" where
  "split_sign value =
     (case strip_prefix value ''-'' of
        Some rest \<Rightarrow> (True, rest)
      | None \<Rightarrow> (case strip_prefix value ''+'' of
          Some rest \<Rightarrow> (False, rest)
        | None \<Rightarrow> (False, value)))"

definition is_exponent_mark :: "char \<Rightarrow> bool" where
  "is_exponent_mark c \<longleftrightarrow> c = CHR ''e'' \<or> c = CHR ''E''"

definition parse_exponent :: "string list \<Rightarrow> int result" where
  "parse_exponent parts =
     and_then (case tl parts of [] \<Rightarrow> Inr 0 | part # _ \<Rightarrow> ok_or (parse_i32 part) ''invalid exponent'')
       (\<lambda>exponent. if 2 < length parts \<or> 10000 < \<bar>exponent\<bar>
                   then Inl ''unsupported decimal exponent'' else Inr exponent)"

text \<open>The last part of the parser: pad the digits for a negative scale, and normalize.\<close>

definition finish_decimal :: "bool \<Rightarrow> string \<Rightarrow> int \<Rightarrow> decimal result" where
  "finish_decimal negative digits scale0 =
     (let digits' = (if scale0 < 0 then digits @ replicate (nat (- scale0)) CHR ''0'' else digits);
          scale' = (if scale0 < 0 then 0 else scale0);
          magnitude = int (digits_value digits')
      in if 10000 < scale' then Inl ''decimal scale is too large''
         else Inr (decimal_normalized
           \<lparr>coefficient = (if negative then - magnitude else magnitude), scale = nat scale'\<rparr>))"

definition decimal_parse :: "string \<Rightarrow> decimal result" where
  "decimal_parse text =
     (let value = trim text in
      if value = [] then Inl ''empty decimal''
      else
        let (negative, unsigned) = split_sign value;
            parts = split_on is_exponent_mark unsigned
        in and_then (parse_exponent parts) (\<lambda>exponent.
           and_then (scan_mantissa (hd parts) False 0 []) (\<lambda>(fractional_digits, digits).
             if digits = [] then Inl ''decimal has no digits''
             else finish_decimal negative digits (fractional_digits - exponent))))"

definition decimal_add :: "decimal \<Rightarrow> decimal \<Rightarrow> decimal" where
  "decimal_add a b =
     (let s = max (scale a) (scale b);
          left = coefficient a * ten_pow (s - scale a);
          right = coefficient b * ten_pow (s - scale b)
      in decimal_normalized \<lparr>coefficient = left + right, scale = s\<rparr>)"

definition decimal_negated :: "decimal \<Rightarrow> decimal" where
  "decimal_negated d = \<lparr>coefficient = - coefficient d, scale = scale d\<rparr>"

definition decimal_format :: "decimal \<Rightarrow> string" where
  "decimal_format d =
     (let digits = nat_to_string (nat \<bar>coefficient d\<bar>);
          padded = (if length digits \<le> scale d
                    then replicate (scale d + 1 - length digits) CHR ''0'' @ digits else digits);
          text = (if 0 < scale d
                  then take (length padded - scale d) padded @ ''.'' @ drop (length padded - scale d) padded
                  else digits)
      in if coefficient d < 0 then ''-'' @ text else text)"

record ratio =
  numerator :: int
  denominator :: int

definition ratio_normalized :: "ratio \<Rightarrow> ratio" where
  "ratio_normalized r =
     (if denominator r < 0 then \<lparr>numerator = - numerator r, denominator = - denominator r\<rparr> else r)"

definition decimal_as_ratio :: "decimal \<Rightarrow> ratio" where
  "decimal_as_ratio d = ratio_normalized \<lparr>numerator = coefficient d, denominator = ten_pow (scale d)\<rparr>"

definition ratio_multiply :: "ratio \<Rightarrow> ratio \<Rightarrow> ratio" where
  "ratio_multiply a b = ratio_normalized
     \<lparr>numerator = numerator a * numerator b, denominator = denominator a * denominator b\<rparr>"

definition ratio_divide :: "ratio \<Rightarrow> ratio \<Rightarrow> ratio result" where
  "ratio_divide a b =
     (if numerator b = 0 then Inl ''cannot divide by a zero FX quote''
      else Inr (ratio_normalized
        \<lparr>numerator = numerator a * denominator b, denominator = denominator a * numerator b\<rparr>))"

datatype rounding_mode = HalfAwayFromZero | HalfEven | TowardZero

definition POSTING_ROUNDING_MODE :: rounding_mode where
  "POSTING_ROUNDING_MODE = HalfEven"

text \<open>
  \<open>Ratio::round_decimal\<close>. \<open>sdiv\<close> and \<open>smod\<close> truncate towards zero, as \<open>BigInt\<close> does. The
  Rust code panics on a zero denominator; \<open>ratio_ok\<close> below is the invariant that excludes it.
\<close>

definition round_increment :: "rounding_mode \<Rightarrow> bool \<Rightarrow> bool \<Rightarrow> int \<Rightarrow> bool" where
  "round_increment mode greater_half exact_half quot =
     (case mode of
        TowardZero \<Rightarrow> False
      | HalfAwayFromZero \<Rightarrow> greater_half \<or> exact_half
      | HalfEven \<Rightarrow> greater_half \<or> (exact_half \<and> quot smod 2 \<noteq> 0))"

definition rounded_coefficient :: "ratio \<Rightarrow> nat \<Rightarrow> rounding_mode \<Rightarrow> int" where
  "rounded_coefficient r s mode =
     (let scaled_numerator = numerator r * ten_pow s;
          quot = scaled_numerator sdiv denominator r;
          remainder = scaled_numerator smod denominator r
      in if remainder \<noteq> 0 then
           let twice_remainder = \<bar>remainder\<bar> * 2;
               greater_half = \<bar>denominator r\<bar> < twice_remainder;
               exact_half = (twice_remainder = \<bar>denominator r\<bar>)
           in if round_increment mode greater_half exact_half quot
              then (if numerator r < 0 then quot - 1 else quot + 1)
              else quot
         else quot)"

definition ratio_round_decimal :: "ratio \<Rightarrow> nat \<Rightarrow> rounding_mode \<Rightarrow> decimal" where
  "ratio_round_decimal r s mode =
     decimal_normalized \<lparr>coefficient = rounded_coefficient r s mode, scale = s\<rparr>"

definition decimal_round_decimal :: "decimal \<Rightarrow> nat \<Rightarrow> rounding_mode \<Rightarrow> decimal" where
  "decimal_round_decimal d s mode = ratio_round_decimal (decimal_as_ratio d) s mode"

section \<open>Values and the canonical form\<close>

definition dec_value :: "decimal \<Rightarrow> rat" where
  "dec_value d = of_int (coefficient d) / 10 ^ scale d"

definition ratio_value :: "ratio \<Rightarrow> rat" where
  "ratio_value r = of_int (numerator r) / of_int (denominator r)"

definition ratio_ok :: "ratio \<Rightarrow> bool" where
  "ratio_ok r \<longleftrightarrow> 0 < denominator r"

text \<open>No trailing zero after the point, and a scale that the parser accepts.\<close>

definition canonical :: "decimal \<Rightarrow> bool" where
  "canonical d \<longleftrightarrow> (scale d = 0 \<or> \<not> 10 dvd coefficient d) \<and> scale d \<le> 10000"

lemma sdiv_exact: "c smod (10 :: int) = 0 \<Longrightarrow> c = 10 * (c sdiv 10)"
  using mult_sdiv_smod_eq [of 10 c] by simp

lemma smod_10_eq_0_iff: "c smod (10 :: int) = 0 \<longleftrightarrow> 10 dvd c"
  by (cases "c = 0") (simp_all add: smod_int_alt_def sgn_eq_0_iff mod_eq_0_iff_dvd)

lemma normalized_loop_spec:
  "dec_value (normalized_loop c s) = of_int c / 10 ^ s
   \<and> scale (normalized_loop c s) \<le> s
   \<and> (scale (normalized_loop c s) = 0 \<or> \<not> 10 dvd coefficient (normalized_loop c s))"
proof (induction s arbitrary: c)
  case 0
  then show ?case by (simp add: dec_value_def)
next
  case (Suc s)
  show ?case
  proof (cases "c smod 10 = 0")
    case True
    from sdiv_exact [OF True] have "of_int c = (10 :: rat) * of_int (c sdiv 10)"
      by (metis of_int_mult of_int_numeral)
    with True Suc.IH [of "c sdiv 10"] show ?thesis by simp
  next
    case False
    then show ?thesis by (simp add: dec_value_def smod_10_eq_0_iff)
  qed
qed

lemma dec_value_normalized [money_simps]: "dec_value (decimal_normalized d) = dec_value d"
  using normalized_loop_spec [of "coefficient d" "scale d"]
  by (simp add: decimal_normalized_def dec_value_def)

lemma canonical_normalized: "scale d \<le> 10000 \<Longrightarrow> canonical (decimal_normalized d)"
  using normalized_loop_spec [of "coefficient d" "scale d"]
  by (auto simp: decimal_normalized_def canonical_def)

lemma normalized_canonical: "canonical d \<Longrightarrow> decimal_normalized d = d"
  by (cases "scale d") (auto simp: decimal_normalized_def canonical_def smod_10_eq_0_iff)

text \<open>The canonical form of a value is unique.\<close>

lemma canonical_unique_le:
  assumes "canonical a" "canonical b" "dec_value a = dec_value b" "scale a \<le> scale b"
  shows "a = b"
proof -
  from assms(4) have split: "(10 :: rat) ^ scale b = 10 ^ scale a * 10 ^ (scale b - scale a)"
    by (simp flip: power_add)
  have "of_int (coefficient a * 10 ^ (scale b - scale a)) = (of_int (coefficient b) :: rat)"
    using assms(3) unfolding dec_value_def split by (simp add: divide_simps)
  then have eq: "coefficient a * 10 ^ (scale b - scale a) = coefficient b"
    by (rule of_int_eq_iff [THEN iffD1])
  have "scale b - scale a = 0"
  proof (rule ccontr)
    assume "scale b - scale a \<noteq> 0"
    then have "10 dvd coefficient b" and "scale b \<noteq> 0"
      using eq by (auto simp flip: eq intro: dvd_mult dvd_power)
    with assms(2) show False by (simp add: canonical_def)
  qed
  with eq assms(4) show ?thesis by simp
qed

lemma canonical_unique:
  "canonical a \<Longrightarrow> canonical b \<Longrightarrow> dec_value a = dec_value b \<Longrightarrow> a = b"
  using canonical_unique_le [of a b] canonical_unique_le [of b a]
  by (cases "scale a \<le> scale b") auto

section \<open>Addition, negation, ratios\<close>

lemma dec_value_add [money_simps]: "dec_value (decimal_add a b) = dec_value a + dec_value b"
proof -
  have scaled: "of_int (coefficient d * ten_pow (s - scale d)) / 10 ^ s = dec_value d"
    if "scale d \<le> s" for d and s
  proof -
    from that have "(10 :: rat) ^ s = 10 ^ scale d * 10 ^ (s - scale d)"
      by (simp flip: power_add)
    then show ?thesis by (simp add: dec_value_def ten_pow_def)
  qed
  show ?thesis
    using scaled [of a "max (scale a) (scale b)"] scaled [of b "max (scale a) (scale b)"]
    by (simp add: decimal_add_def Let_def dec_value_normalized)
      (simp add: dec_value_def add_divide_distrib)
qed

lemma canonical_add: "canonical a \<Longrightarrow> canonical b \<Longrightarrow> canonical (decimal_add a b)"
  by (auto simp: decimal_add_def Let_def canonical_def intro!: canonical_normalized [unfolded canonical_def])

lemma dec_value_negated [money_simps]: "dec_value (decimal_negated d) = - dec_value d"
  by (simp add: decimal_negated_def dec_value_def)

lemma canonical_negated [simp]: "canonical (decimal_negated d) = canonical d"
  by (simp add: decimal_negated_def canonical_def)

lemma ratio_value_normalized [money_simps]: "ratio_value (ratio_normalized r) = ratio_value r"
  by (simp add: ratio_normalized_def ratio_value_def)

lemma ratio_ok_normalized: "denominator r \<noteq> 0 \<Longrightarrow> ratio_ok (ratio_normalized r)"
  by (auto simp: ratio_normalized_def ratio_ok_def)

lemma as_ratio [money_simps]: "ratio_value (decimal_as_ratio d) = dec_value d"
  by (simp add: decimal_as_ratio_def money_simps) (simp add: ratio_value_def dec_value_def ten_pow_def)

lemma ratio_ok_as_ratio [simp]: "ratio_ok (decimal_as_ratio d)"
  by (simp add: decimal_as_ratio_def ratio_ok_normalized ten_pow_def)

lemma ratio_value_multiply [money_simps]:
  "ratio_value (ratio_multiply a b) = ratio_value a * ratio_value b"
  by (simp add: ratio_multiply_def money_simps) (simp add: ratio_value_def)

lemma ratio_ok_multiply [simp]: "ratio_ok a \<Longrightarrow> ratio_ok b \<Longrightarrow> ratio_ok (ratio_multiply a b)"
  unfolding ratio_multiply_def by (rule ratio_ok_normalized) (simp add: ratio_ok_def)

lemma numerator_eq_0_iff: "ratio_ok r \<Longrightarrow> numerator r = 0 \<longleftrightarrow> ratio_value r = 0"
  by (auto simp: ratio_ok_def ratio_value_def)

lemma ratio_divide_Inr_iff:
  "ratio_ok b \<Longrightarrow> (\<exists>r. ratio_divide a b = Inr r) \<longleftrightarrow> ratio_value b \<noteq> 0"
  by (auto simp: ratio_divide_def numerator_eq_0_iff)

lemma ratio_divide_value:
  assumes "ratio_divide a b = Inr r" and "ratio_ok a" and "ratio_ok b"
  shows "ratio_value r = ratio_value a / ratio_value b" and "ratio_ok r"
  using assms
  by (auto simp: ratio_divide_def money_simps ratio_ok_def split: if_splits
      intro!: ratio_ok_normalized [unfolded ratio_ok_def]) (simp add: ratio_value_def)

section \<open>Rounding\<close>

text \<open>The sign of the numerator and the rounding of its magnitude.\<close>

definition round_magnitude :: "rounding_mode \<Rightarrow> int \<Rightarrow> int \<Rightarrow> int" where
  "round_magnitude mode n d =
     (if round_increment mode (d < 2 * (n mod d)) (2 * (n mod d) = d) (n div d) \<and> n mod d \<noteq> 0
      then n div d + 1 else n div d)"

lemma sdiv_div_nonneg: "0 \<le> a \<Longrightarrow> 0 \<le> b \<Longrightarrow> a sdiv b = a div (b :: int)"
  by (auto simp: signed_divide_int_def sgn_if)

lemma rounded_coefficient_magnitude:
  assumes "0 < denominator r"
  shows "rounded_coefficient r s mode =
    (if numerator r < 0 then - round_magnitude mode (- numerator r * 10 ^ s) (denominator r)
     else round_magnitude mode (numerator r * 10 ^ s) (denominator r))"
proof -
  define M where "M = \<bar>numerator r\<bar> * 10 ^ s"
  have M: "0 \<le> M" by (simp add: M_def)
  have q: "M sdiv denominator r = M div denominator r" "M smod denominator r = M mod denominator r"
    using M assms by (simp_all add: sdiv_div_nonneg smod_mod_positive)
  have q2: "(M div denominator r) smod 2 = (M div denominator r) mod 2"
    using M assms by (intro smod_mod_positive) (auto simp: pos_imp_zdiv_nonneg_iff)
  have m: "\<bar>M mod denominator r\<bar> = M mod denominator r" using assms by simp
  show ?thesis
  proof (cases "numerator r < 0")
    case True
    then have eqs: "numerator r * ten_pow s = - M" "- numerator r * 10 ^ s = M"
      by (simp_all add: M_def ten_pow_def)
    show ?thesis
      unfolding rounded_coefficient_def round_magnitude_def eqs
      using True assms
      by (cases mode) (auto simp: round_increment_def Let_def q q2 m simp del: mult_minus_left)
  next
    case False
    then have "numerator r * ten_pow s = M" "numerator r * 10 ^ s = M"
      by (simp_all add: M_def ten_pow_def)
    with False assms show ?thesis
      by (cases mode) (auto simp: rounded_coefficient_def round_magnitude_def round_increment_def
          Let_def q q2 m)
  qed
qed

text \<open>Each mode, characterised on magnitudes by the error it makes.\<close>

definition rounds_up :: "rounding_mode \<Rightarrow> int \<Rightarrow> int \<Rightarrow> bool" where
  "rounds_up mode n d \<longleftrightarrow>
     round_increment mode (d < 2 * (n mod d)) (2 * (n mod d) = d) (n div d) \<and> n mod d \<noteq> 0"

lemma round_magnitude_eq: "round_magnitude mode n d = n div d + of_bool (rounds_up mode n d)"
  by (simp add: round_magnitude_def rounds_up_def)

lemma round_magnitude_error:
  "round_magnitude mode n d * d - n = (if rounds_up mode n d then d else 0) - n mod d"
proof -
  have "n div d * d = n - n mod d" by (simp add: minus_mod_eq_div_mult)
  then show ?thesis by (simp add: round_magnitude_eq distrib_right)
qed

lemma rounds_up_nearest:
  assumes "0 < d" and "mode \<noteq> TowardZero"
  shows "d < 2 * (n mod d) \<Longrightarrow> rounds_up mode n d" and "2 * (n mod d) < d \<Longrightarrow> \<not> rounds_up mode n d"
  using assms by (cases mode; auto simp: rounds_up_def round_increment_def)+

lemma round_magnitude_nearest:
  assumes "0 < d" and "mode \<noteq> TowardZero"
  shows "2 * \<bar>round_magnitude mode n d * d - n\<bar> \<le> d"
proof -
  have "0 \<le> n mod d" "n mod d < d" using assms(1) by simp_all
  with rounds_up_nearest [OF assms, of n] show ?thesis
    unfolding round_magnitude_error
    by (cases "rounds_up mode n d"; cases "d < 2 * (n mod d)"; cases "2 * (n mod d) < d") auto
qed

lemma round_magnitude_tie:
  assumes "0 < d" and "2 * \<bar>round_magnitude mode n d * d - n\<bar> = d"
  shows "2 * (n mod d) = d"
proof -
  have "0 \<le> n mod d" "n mod d < d" using assms(1) by simp_all
  with assms show ?thesis
    unfolding round_magnitude_error by (cases "rounds_up mode n d") auto
qed

lemma round_magnitude_even:
  assumes "0 < d" and "0 \<le> n" and "2 * \<bar>round_magnitude HalfEven n d * d - n\<bar> = d"
  shows "even (round_magnitude HalfEven n d)"
proof -
  have "2 * (n mod d) = d" using round_magnitude_tie assms(1,3) .
  moreover have "(n div d) smod 2 = n div d mod 2"
    using assms(1,2) by (intro smod_mod_positive) (simp_all add: pos_imp_zdiv_nonneg_iff)
  ultimately show ?thesis
    using assms(1) by (auto simp: round_magnitude_eq rounds_up_def round_increment_def)
qed

lemma round_magnitude_toward_zero: "round_magnitude TowardZero n d = n div d"
  by (simp add: round_magnitude_def round_increment_def)

lemma round_magnitude_away:
  assumes "0 < d" and "2 * \<bar>round_magnitude HalfAwayFromZero n d * d - n\<bar> = d"
  shows "n < round_magnitude HalfAwayFromZero n d * d"
proof -
  have "2 * (n mod d) = d" using round_magnitude_tie assms .
  with assms(1) have "rounds_up HalfAwayFromZero n d" "0 < d - n mod d"
    by (auto simp: rounds_up_def round_increment_def)
  then show ?thesis using round_magnitude_error [of HalfAwayFromZero n d] by simp
qed

lemma round_magnitude_exact: "0 < d \<Longrightarrow> d dvd n \<Longrightarrow> round_magnitude mode n d = n div d"
  by (simp add: round_magnitude_eq rounds_up_def)

text \<open>
  The rounded coefficient against the scaled numerator, for both signs: the distance to it,
  and the parity of a tie.
\<close>

lemma rounded_coefficient_nearest:
  assumes "ratio_ok r" and "mode \<noteq> TowardZero"
  shows "2 * \<bar>rounded_coefficient r s mode * denominator r - numerator r * 10 ^ s\<bar> \<le> denominator r"
  using round_magnitude_nearest [of "denominator r" mode "\<bar>numerator r\<bar> * 10 ^ s"] assms
  by (auto simp: rounded_coefficient_magnitude ratio_ok_def abs_if split: if_splits)

lemma rounded_coefficient_tie_even:
  assumes "ratio_ok r"
    and "2 * \<bar>rounded_coefficient r s HalfEven * denominator r - numerator r * 10 ^ s\<bar> = denominator r"
  shows "even (rounded_coefficient r s HalfEven)"
proof (cases "numerator r < 0")
  case True
  then have "0 \<le> - numerator r * 10 ^ s" by (simp add: mult_nonpos_nonneg)
  with True have "even (round_magnitude HalfEven (- numerator r * 10 ^ s) (denominator r))"
    using assms by (intro round_magnitude_even)
      (auto simp: rounded_coefficient_magnitude ratio_ok_def abs_if split: if_splits)
  with True assms(1) show ?thesis by (simp add: rounded_coefficient_magnitude ratio_ok_def)
next
  case False
  then have "even (round_magnitude HalfEven (numerator r * 10 ^ s) (denominator r))"
    using assms by (intro round_magnitude_even)
      (auto simp: rounded_coefficient_magnitude ratio_ok_def)
  with False assms(1) show ?thesis by (simp add: rounded_coefficient_magnitude ratio_ok_def)
qed

lemma dec_value_round [money_simps]:
  "dec_value (ratio_round_decimal r s mode) = of_int (rounded_coefficient r s mode) / 10 ^ s"
  by (simp add: ratio_round_decimal_def money_simps) (simp add: dec_value_def)

lemma canonical_round: "s \<le> 10000 \<Longrightarrow> canonical (ratio_round_decimal r s mode)"
  by (simp add: ratio_round_decimal_def canonical_normalized)

text \<open>A value that already has at most \<open>s\<close> decimals is not changed by any mode.\<close>

lemma round_exact:
  assumes "ratio_ok r" and "ratio_value r * 10 ^ s = of_int k"
  shows "rounded_coefficient r s mode = k"
proof -
  have "of_int (numerator r * 10 ^ s) = (of_int (k * denominator r) :: rat)"
    using assms by (auto simp: ratio_value_def ratio_ok_def field_simps)
  then have eq: "numerator r * 10 ^ s = k * denominator r" by (rule of_int_eq_iff [THEN iffD1])
  have d: "0 < denominator r" using assms(1) by (simp add: ratio_ok_def)
  have neg: "- numerator r * 10 ^ s = - k * denominator r" using eq by simp
  show ?thesis
    unfolding rounded_coefficient_magnitude [OF d] eq neg
    using d by (simp add: round_magnitude_exact del: mult_minus_left)
qed

section \<open>Parsing inverts printing\<close>

lemma char_facts [simp]:
  "is_digit c \<Longrightarrow> c \<noteq> CHR ''.''" "is_digit c \<Longrightarrow> c \<noteq> CHR ''-''" "is_digit c \<Longrightarrow> c \<noteq> CHR ''+''"
  "is_digit c \<Longrightarrow> \<not> is_exponent_mark c" "is_digit c \<Longrightarrow> of_char c \<in> {33..127 :: nat}"
  by (auto simp: is_digit_def is_exponent_mark_def)

lemma scan_mantissa_digits:
  "list_all is_digit ds \<Longrightarrow> scan_mantissa (ds @ cs) dot f acc =
     scan_mantissa cs dot (f + (if dot then int (length ds) else 0)) (acc @ ds)"
  by (induction ds arbitrary: f acc) (auto simp: algebra_simps)

lemma scan_mantissa_bound:
  "scan_mantissa cs dot f acc = Inr (f', ds) \<Longrightarrow> f \<le> f' \<and> f' \<le> f + int (length cs)
     \<and> (list_all is_digit acc \<longrightarrow> list_all is_digit ds)"
  by (induction cs dot f acc rule: scan_mantissa.induct) (fastforce split: if_splits)+

text \<open>The unsigned text that \<open>format\<close> prints, and how the parser reads it back.\<close>

definition plain_text :: "nat \<Rightarrow> nat \<Rightarrow> string" where
  "plain_text n s = decimal_format \<lparr>coefficient = int n, scale = s\<rparr>"

lemma decimal_format_plain:
  "decimal_format d =
     (if coefficient d < 0 then ''-'' else []) @ plain_text (nat \<bar>coefficient d\<bar>) (scale d)"
  by (simp add: decimal_format_def plain_text_def Let_def)

lemma length_nat_to_string_pos: "0 < length (nat_to_string n)"
  by simp

lemma plain_text_shape:
  "\<exists>ip fp. list_all is_digit ip \<and> list_all is_digit fp \<and> ip \<noteq> [] \<and> length fp = s
     \<and> digits_value (ip @ fp) = n \<and> plain_text n s = ip @ (if s = 0 then [] else CHR ''.'' # fp)"
proof -
  define ds where "ds = nat_to_string n"
  define p where "p = replicate (s + 1 - length ds) CHR ''0'' @ ds"
  have p: "list_all is_digit p" "s < length p" "digits_value p = n"
    by (auto simp: p_def ds_def digits_value_append list_all_iff is_digit_def
        nat_to_string_digits [unfolded list_all_iff is_digit_def])
  have "plain_text n s = take (length p - s) p @ (if s = 0 then [] else CHR ''.'' # drop (length p - s) p)"
    using length_nat_to_string_pos [of n]
    by (auto simp: plain_text_def decimal_format_def Let_def p_def ds_def not_le Suc_diff_le
        simp del: length_greater_0_conv)
  with p show ?thesis
    by (intro exI [of _ "take (length p - s) p"] exI [of _ "drop (length p - s) p"])
      (auto simp: list_all_iff dest: in_set_takeD in_set_dropD)
qed

lemma parse_plain_text:
  assumes "s \<le> 10000"
  shows "decimal_parse ((if neg then ''-'' else []) @ plain_text n s) =
    Inr (decimal_normalized \<lparr>coefficient = (if neg then - int n else int n), scale = s\<rparr>)"
proof -
  obtain ip fp where d: "list_all is_digit ip" "list_all is_digit fp" "ip \<noteq> []" "length fp = s"
    "digits_value (ip @ fp) = n" and t: "plain_text n s = ip @ (if s = 0 then [] else CHR ''.'' # fp)"
    using plain_text_shape [of s n] by blast
  let ?t = "(if neg then ''-'' else []) @ plain_text n s"
  from d(1,3) obtain c cs where ip: "ip = c # cs" and c: "is_digit c" by (cases ip) auto
  have last: "is_digit (last (plain_text n s))"
    using d(1-4) by (auto simp: t list_all_iff)
  have "trim ?t = ?t"
    using char_facts(5) [OF c] char_facts(5) [OF last] by (intro trim_id) (auto simp: t ip)
  moreover have "split_sign ?t = (neg, plain_text n s)"
    using c by (auto simp: split_sign_def strip_prefix_def starts_with_def t ip)
  moreover have "split_on is_exponent_mark (plain_text n s) = [plain_text n s]"
    using d(1,2) by (intro split_on_none) (auto simp: t list_all_iff is_exponent_mark_def is_digit_def split: if_splits)
  moreover have "scan_mantissa (plain_text n s) False 0 [] = Inr (int s, ip @ fp)"
    using d(1,2,4) scan_mantissa_digits [of fp "[]"] by (auto simp: t scan_mantissa_digits)
  ultimately show ?thesis
    using assms d(3,5) by (simp add: decimal_parse_def parse_exponent_def finish_decimal_def t ip)
qed

theorem parse_format:
  assumes "canonical d"
  shows "decimal_parse (decimal_format d) = Inr d"
proof -
  have "decimal_parse (decimal_format d) = Inr (decimal_normalized d)"
    using assms parse_plain_text [of "scale d" "coefficient d < 0" "nat \<bar>coefficient d\<bar>"]
    by (auto simp: decimal_format_plain canonical_def decimal_normalized_def)
  with assms show ?thesis by (simp add: normalized_canonical)
qed

text \<open>Evaluation of the parser on a canonical literal.\<close>

lemma parse_literal: "t = decimal_format d \<Longrightarrow> canonical d \<Longrightarrow> decimal_parse t = Inr d"
  by (simp add: parse_format)

lemma format_inject: "canonical a \<Longrightarrow> canonical b \<Longrightarrow> decimal_format a = decimal_format b \<longleftrightarrow> a = b"
  by (metis parse_format sum.inject(2))

text \<open>Everything the parser accepts is canonical.\<close>

lemma finish_decimal_canonical: "finish_decimal neg ds s = Inr d \<Longrightarrow> canonical d"
  by (auto simp: finish_decimal_def Let_def split: if_splits intro!: canonical_normalized)

lemma parse_canonical: "decimal_parse t = Inr d \<Longrightarrow> canonical d"
  by (auto simp: decimal_parse_def Let_def result_simps split: if_splits prod.splits
      dest: finish_decimal_canonical)

text \<open>The sign of a value is the first byte of its text.\<close>

lemma starts_with_minus_format: "starts_with (decimal_format d) ''-'' \<longleftrightarrow> dec_value d < 0"
proof -
  obtain ip fp where "list_all is_digit ip" "ip \<noteq> []"
    and "plain_text (nat \<bar>coefficient d\<bar>) (scale d) = ip @ (if scale d = 0 then [] else CHR ''.'' # fp)"
    using plain_text_shape [of "scale d" "nat \<bar>coefficient d\<bar>"] by blast
  moreover from this obtain c cs where "ip = c # cs" "is_digit c" by (cases ip) auto
  ultimately show ?thesis
    by (auto simp: decimal_format_plain starts_with_def dec_value_def divide_less_0_iff)
qed

end
