(* ===== verification/DecimalText.thy ===== *)
theory DecimalText
  imports Decimal "HOL-Library.Multiset"
begin

text \<open>
  The decimal-text operations of \<open>server/src/finance_model.rs\<close>, which every other part of
  the server uses for money, and the interface \<open>exact_text\<close> that those parts rely on: sums
  of amounts are exact, and equal sums print as equal texts. The interface is stated once
  as a locale, with the consequences for loops that accumulate amounts, and interpreted on
  \<open>add_decimal_text\<close> and \<open>subtract_decimal_text\<close>.
\<close>

section \<open>Operations on decimal text\<close>

definition round_posted_decimal_text :: "string \<Rightarrow> nat \<Rightarrow> string result" where
  "round_posted_decimal_text value s =
     and_then (decimal_parse value) (\<lambda>d.
     Inr (decimal_format (decimal_round_decimal d s POSTING_ROUNDING_MODE)))"

definition add_decimal_text :: "string \<Rightarrow> string \<Rightarrow> string result" where
  "add_decimal_text left right =
     and_then (decimal_parse left) (\<lambda>l.
     and_then (decimal_parse right) (\<lambda>r.
     Inr (decimal_format (decimal_add l r))))"

definition subtract_decimal_text :: "string \<Rightarrow> string \<Rightarrow> string result" where
  "subtract_decimal_text left right =
     and_then (decimal_parse left) (\<lambda>l.
     and_then (decimal_parse right) (\<lambda>r.
     Inr (decimal_format (decimal_add l (decimal_negated r)))))"

definition multiply_decimal_text :: "string \<Rightarrow> string \<Rightarrow> string result" where
  "multiply_decimal_text left right =
     and_then (decimal_parse left) (\<lambda>l.
     and_then (decimal_parse right) (\<lambda>r.
     Inr (decimal_format (ratio_round_decimal
       (ratio_multiply (decimal_as_ratio l) (decimal_as_ratio r)) 2 POSTING_ROUNDING_MODE))))"

definition proportional_decimal_text :: "string \<Rightarrow> string \<Rightarrow> string \<Rightarrow> string result" where
  "proportional_decimal_text value num den =
     and_then (decimal_parse value) (\<lambda>v.
     and_then (decimal_parse num) (\<lambda>n.
     and_then (decimal_parse den) (\<lambda>d.
     and_then (ratio_divide (ratio_multiply (decimal_as_ratio v) (decimal_as_ratio n))
       (decimal_as_ratio d)) (\<lambda>r.
     Inr (decimal_format (ratio_round_decimal r 2 POSTING_ROUNDING_MODE))))))"

section \<open>Amounts and their values\<close>

definition amount :: "string \<Rightarrow> bool" where
  "amount t \<longleftrightarrow> (case decimal_parse t of Inl _ \<Rightarrow> False | Inr _ \<Rightarrow> True)"

definition text_value :: "string \<Rightarrow> rat" where
  "text_value t = (case decimal_parse t of Inl _ \<Rightarrow> 0 | Inr d \<Rightarrow> dec_value d)"

definition canonical_text :: "string \<Rightarrow> bool" where
  "canonical_text t \<longleftrightarrow> (case decimal_parse t of Inl _ \<Rightarrow> False | Inr d \<Rightarrow> decimal_format d = t)"

lemma amount_iff: "amount t \<longleftrightarrow> (\<exists>d. decimal_parse t = Inr d)"
  by (auto simp: amount_def split: sum.splits)

lemma text_value_parse [simp]: "decimal_parse t = Inr d \<Longrightarrow> text_value t = dec_value d"
  by (simp add: text_value_def)

lemma canonical_text_format [simp]: "canonical d \<Longrightarrow> canonical_text (decimal_format d)"
  by (simp add: canonical_text_def parse_format)

lemma text_value_format [simp]: "canonical d \<Longrightarrow> text_value (decimal_format d) = dec_value d"
  by (simp add: parse_format)

lemma canonical_text_E:
  assumes "canonical_text t"
  obtains d where "canonical d" "t = decimal_format d" "decimal_parse t = Inr d"
  using assms by (auto simp: canonical_text_def parse_canonical split: sum.splits)

section \<open>The interface\<close>

text \<open>
  What the budget code relies on. \<open>amt\<close> are the texts the operations accept, \<open>canon\<close> the
  texts they return, \<open>val\<close> the rational number a text denotes.
\<close>

locale exact_text =
  fixes add :: "string \<Rightarrow> string \<Rightarrow> string result"
    and sub :: "string \<Rightarrow> string \<Rightarrow> string result"
    and amt :: "string \<Rightarrow> bool"
    and canon :: "string \<Rightarrow> bool"
    and val :: "string \<Rightarrow> rat"
  assumes add_total: "amt a \<Longrightarrow> amt b \<Longrightarrow> \<exists>c. add a b = Inr c"
    and sub_total: "amt a \<Longrightarrow> amt b \<Longrightarrow> \<exists>c. sub a b = Inr c"
    and add_args: "add a b = Inr c \<Longrightarrow> amt a \<and> amt b"
    and sub_args: "sub a b = Inr c \<Longrightarrow> amt a \<and> amt b"
    and add_val: "add a b = Inr c \<Longrightarrow> canon c \<and> val c = val a + val b"
    and sub_val: "sub a b = Inr c \<Longrightarrow> canon c \<and> val c = val a - val b"
    and canon_amt: "canon a \<Longrightarrow> amt a"
    and canon_unique: "canon a \<Longrightarrow> canon b \<Longrightarrow> val a = val b \<Longrightarrow> a = b"
    and zero_canon: "canon ''0''"
    and zero_val: "val ''0'' = 0"
begin

lemma zero_amt: "amt ''0''"
  by (rule canon_amt [OF zero_canon])

lemma add_comm: "amt a \<Longrightarrow> amt b \<Longrightarrow> add a b = add b a"
proof -
  assume "amt a" "amt b"
  then obtain c d where cd: "add a b = Inr c" "add b a = Inr d"
    using add_total [of a b] add_total [of b a] by auto
  then have "c = d" using add_val [of a b c] add_val [of b a d] by (intro canon_unique) auto
  with cd show "add a b = add b a" by simp
qed

lemma add_assoc: "and_then (add a b) (\<lambda>s. add s c) = Inr t \<Longrightarrow> and_then (add b c) (add a) = Inr t"
proof -
  assume "and_then (add a b) (\<lambda>s. add s c) = Inr t"
  then obtain s where s: "add a b = Inr s" "add s c = Inr t" by (auto simp: result_simps)
  then obtain u where u: "add b c = Inr u" using add_args add_total by metis
  then obtain v where v: "add a u = Inr v" using s add_args add_total add_val canon_amt by metis
  have "v = t" using s u v add_val by (intro canon_unique) auto
  with u v show ?thesis by simp
qed

text \<open>Subtracting what was added gives back the canonical amount.\<close>

lemma add_sub_cancel: "canon a \<Longrightarrow> add a b = Inr c \<Longrightarrow> sub c b = Inr a"
proof -
  assume a: "canon a" and c: "add a b = Inr c"
  then obtain d where d: "sub c b = Inr d" using add_args add_val sub_total canon_amt by metis
  have "d = a" using a c d add_val [OF c] sub_val [OF d] by (intro canon_unique) auto
  with d show "sub c b = Inr a" by simp
qed

text \<open>The loops \<open>total = add(total, x)?\<close>: total on amounts, exact, independent of order.\<close>

lemma sum_total: "amt t \<Longrightarrow> (\<And>x. x \<in> set xs \<Longrightarrow> amt x) \<Longrightarrow> \<exists>s. fold_result add t xs = Inr s"
proof (induction xs arbitrary: t)
  case Nil
  then show ?case by simp
next
  case (Cons x xs)
  then obtain s where s: "add t x = Inr s" using add_total [of t x] by auto
  then have "amt s" using add_val canon_amt by blast
  with s Cons show ?case by simp
qed

lemma sum_val: "fold_result add t xs = Inr s \<Longrightarrow> val s = val t + sum_list (map val xs)"
  by (induction xs arbitrary: t) (auto simp: result_simps dest: add_val)

lemma sum_canon: "fold_result add t xs = Inr s \<Longrightarrow> canon t \<Longrightarrow> canon s"
  by (induction xs arbitrary: t) (auto simp: result_simps dest: add_val)

lemma sum_args: "fold_result add t xs = Inr s \<Longrightarrow> x \<in> set xs \<Longrightarrow> amt x"
  by (induction xs arbitrary: t) (auto simp: result_simps dest: add_args)

lemma sum_order:
  assumes "canon t" and "mset xs = mset ys" and "fold_result add t xs = Inr s"
  shows "fold_result add t ys = Inr s"
proof -
  have "set ys = set xs" using assms(2) by (metis set_mset_mset)
  then obtain u where u: "fold_result add t ys = Inr u"
    using sum_total [of t ys] sum_args [OF assms(3)] canon_amt [OF assms(1)] by auto
  have "sum_list (map val xs) = sum_list (map val ys)"
    using assms(2) by (metis mset_map sum_mset_sum_list)
  then have "u = s"
    using sum_val [OF u] sum_val [OF assms(3)] sum_canon [OF u] sum_canon [OF assms(3)] assms(1)
    by (intro canon_unique) auto
  with u show ?thesis by simp
qed

end

lemma dec_value_zero: "dec_value \<lparr>coefficient = 0, scale = s\<rparr> = 0"
  by (simp add: dec_value_def)

lemma zero_text: "canonical_text ''0''" "text_value ''0'' = 0"
proof -
  have "''0'' = decimal_format \<lparr>coefficient = 0, scale = 0\<rparr>"
    by code_simp
  moreover have "canonical \<lparr>coefficient = 0, scale = 0\<rparr>" by (simp add: canonical_def)
  ultimately show "canonical_text ''0''" "text_value ''0'' = 0"
    using canonical_text_format text_value_format by (metis, metis dec_value_zero)
qed

interpretation money: exact_text add_decimal_text subtract_decimal_text amount canonical_text text_value
proof unfold_locales
  show "canonical_text ''0''" by (rule zero_text(1))
  show "text_value ''0'' = 0" by (rule zero_text(2))
next
  fix a b c
  show "canonical_text a \<Longrightarrow> canonical_text b \<Longrightarrow> text_value a = text_value b \<Longrightarrow> a = b"
    by (auto elim!: canonical_text_E dest: canonical_unique)
  show "canonical_text a \<Longrightarrow> amount a"
    by (auto elim: canonical_text_E simp: amount_iff)
qed (auto simp: add_decimal_text_def subtract_decimal_text_def amount_iff result_simps money_simps
    canonical_add parse_canonical)

lemmas money_laws = money.add_val money.sub_val money.add_args money.sub_args

section \<open>Rounded operations\<close>

lemma round_2_value:
  assumes "ratio_ok r" and "mode \<noteq> TowardZero"
  shows "200 * \<bar>text_value (decimal_format (ratio_round_decimal r 2 mode)) - ratio_value r\<bar> \<le> 1"
proof -
  let ?k = "rounded_coefficient r 2 mode"
  have d: "(0 :: rat) < of_int (denominator r)" using assms by (simp add: ratio_ok_def)
  have "2 * \<bar>?k * denominator r - numerator r * 10 ^ 2\<bar> \<le> denominator r"
    using assms by (rule rounded_coefficient_nearest)
  then have "of_int (2 * \<bar>?k * denominator r - numerator r * 10 ^ 2\<bar>) \<le> (of_int (denominator r) :: rat)"
    by (rule of_int_le_iff [THEN iffD2])
  then have "2 * \<bar>of_int ?k * of_int (denominator r) - of_int (numerator r) * 100\<bar> \<le> (of_int (denominator r) :: rat)"
    by simp
  moreover have "of_int ?k * of_int (denominator r) - of_int (numerator r) * 100
      = 100 * of_int (denominator r) * (of_int ?k / 100 - ratio_value r)"
    using d by (simp add: ratio_value_def field_simps)
  ultimately have "2 * (100 * of_int (denominator r) * \<bar>of_int ?k / 100 - ratio_value r\<bar>) \<le> (of_int (denominator r) :: rat)"
    using d by (simp add: abs_mult)
  then have "of_int (denominator r) * (200 * \<bar>of_int ?k / 100 - ratio_value r\<bar>) \<le> of_int (denominator r) * (1 :: rat)"
    by (simp add: algebra_simps)
  then have "200 * \<bar>of_int ?k / 100 - ratio_value r\<bar> \<le> 1"
    using d by (simp only: mult_le_cancel_left_pos)
  then show ?thesis by (simp add: canonical_round dec_value_round)
qed

lemma posting_mode [simp]: "POSTING_ROUNDING_MODE \<noteq> TowardZero"
  by (simp add: POSTING_ROUNDING_MODE_def)

section \<open>Whole amounts\<close>

text \<open>Texts of whole numbers, for evaluating the operations on concrete amounts.\<close>

definition whole :: "int \<Rightarrow> string" where
  "whole z = decimal_format \<lparr>coefficient = z, scale = 0\<rparr>"

lemma whole_parse: "decimal_parse (whole z) = Inr \<lparr>coefficient = z, scale = 0\<rparr>"
  unfolding whole_def by (rule parse_format) (simp add: canonical_def)

lemma whole_text [simp]: "text_value (whole z) = of_int z" "canonical_text (whole z)" "amount (whole z)"
proof -
  have "canonical \<lparr>coefficient = z, scale = 0\<rparr>" by (simp add: canonical_def)
  then show "canonical_text (whole z)" by (simp add: whole_def)
  then show "amount (whole z)" by (rule money.canon_amt)
  show "text_value (whole z) = of_int z" by (simp add: whole_parse dec_value_def)
qed

lemma whole_inject [simp]: "whole a = whole b \<longleftrightarrow> a = b"
proof
  assume "whole a = whole b"
  then have "text_value (whole a) = text_value (whole b)" by (rule arg_cong)
  then show "a = b" by simp
qed simp

lemma add_whole: "add_decimal_text (whole a) (whole b) = Inr (whole (a + b))"
proof -
  obtain c where c: "add_decimal_text (whole a) (whole b) = Inr c"
    using money.add_total [of "whole a" "whole b"] by auto
  then have "c = whole (a + b)"
    using money.add_val [OF c] by (intro money.canon_unique) auto
  with c show ?thesis by simp
qed

lemma sub_whole: "subtract_decimal_text (whole a) (whole b) = Inr (whole (a - b))"
proof -
  obtain c where c: "subtract_decimal_text (whole a) (whole b) = Inr c"
    using money.sub_total [of "whole a" "whole b"] by auto
  then have "c = whole (a - b)"
    using money.sub_val [OF c] by (intro money.canon_unique) auto
  with c show ?thesis by simp
qed

lemma whole_eval: "whole z = (if z < 0 then ''-'' else []) @ nat_to_string (nat \<bar>z\<bar>)"
  by (simp add: whole_def decimal_format_def int_to_string_def Let_def)

lemma zero_whole: "''0'' = whole 0"
  by (simp add: whole_eval to_string_eval)

lemma whole_literals: "whole 100 = ''100''" "whole (-25) = ''-25''" "whole 0 = ''0''"
  by (simp_all add: whole_eval to_string_eval)

lemma proportional_whole:
  assumes "d \<noteq> 0" and "v * n = k * d"
  shows "proportional_decimal_text (whole v) (whole n) (whole d) = Inr (whole k)"
proof -
  let ?d = "\<lparr>coefficient = d, scale = 0\<rparr>" and ?v = "\<lparr>coefficient = v, scale = 0\<rparr>" and ?n = "\<lparr>coefficient = n, scale = 0\<rparr>"
  have vals: "dec_value ?d = of_int d" "dec_value ?v = of_int v" "dec_value ?n = of_int n"
    by (simp_all add: dec_value_def)
  with assms(1) obtain r where r: "ratio_divide (ratio_multiply (decimal_as_ratio ?v) (decimal_as_ratio ?n)) (decimal_as_ratio ?d) = Inr r"
    using ratio_divide_Inr_iff [of "decimal_as_ratio ?d"] by (auto simp: money_simps)
  have ok: "ratio_ok r" "ratio_value r = of_int v * of_int n / of_int d"
    using ratio_divide_value [OF r] vals by (simp_all add: money_simps)
  have "of_int v * of_int n = (of_int k * of_int d :: rat)"
    using assms(2) by (metis of_int_mult)
  with ok(2) assms(1) have "ratio_value r = of_int k" by simp
  then have "rounded_coefficient r 2 POSTING_ROUNDING_MODE = k * 100"
    by (intro round_exact) (simp_all add: ok)
  then have "decimal_format (ratio_round_decimal r 2 POSTING_ROUNDING_MODE) = whole k"
    by (intro money.canon_unique) (simp_all add: canonical_round dec_value_round)
  with r show ?thesis by (simp add: proportional_decimal_text_def whole_parse)
qed

lemma proportional_nearest:
  assumes "proportional_decimal_text v n d = Inr t"
  shows "canonical_text t" and "text_value d \<noteq> 0" and "amount v" and "amount n" and "amount d"
    and "200 * \<bar>text_value t - text_value v * text_value n / text_value d\<bar> \<le> 1"
proof -
  from assms obtain v' n' d' r where p: "decimal_parse v = Inr v'" "decimal_parse n = Inr n'" "decimal_parse d = Inr d'"
    and r: "ratio_divide (ratio_multiply (decimal_as_ratio v') (decimal_as_ratio n')) (decimal_as_ratio d') = Inr r"
    and t: "t = decimal_format (ratio_round_decimal r 2 POSTING_ROUNDING_MODE)"
    by (auto simp: proportional_decimal_text_def result_simps)
  have ok: "ratio_ok r" "ratio_value r = dec_value v' * dec_value n' / dec_value d'" "dec_value d' \<noteq> 0"
    using ratio_divide_value [OF r] ratio_divide_Inr_iff [of "decimal_as_ratio d'"] r
    by (auto simp: money_simps)
  from round_2_value [OF ok(1) posting_mode] ok p t
  show "200 * \<bar>text_value t - text_value v * text_value n / text_value d\<bar> \<le> 1" "text_value d \<noteq> 0"
    by simp_all
  show "canonical_text t" by (simp add: t canonical_round)
qed (use assms in \<open>auto simp: proportional_decimal_text_def result_simps amount_iff\<close>)

section \<open>Posting\<close>

lemma round_posted_nearest:
  assumes "round_posted_decimal_text v s = Inr t" and "s \<le> 10000"
  shows "\<exists>k. text_value t = of_int k / 10 ^ s \<and> 2 * \<bar>of_int k - text_value v * 10 ^ s\<bar> \<le> 1
    \<and> (2 * \<bar>of_int k - text_value v * 10 ^ s\<bar> = 1 \<longrightarrow> even k)"
proof -
  from assms(1) obtain d where d: "decimal_parse v = Inr d"
    and t: "t = decimal_format (ratio_round_decimal (decimal_as_ratio d) s HalfEven)"
    by (auto simp: round_posted_decimal_text_def decimal_round_decimal_def POSTING_ROUNDING_MODE_def result_simps)
  let ?r = "decimal_as_ratio d" and ?k = "rounded_coefficient (decimal_as_ratio d) s HalfEven"
  have den: "0 < denominator ?r" using ratio_ok_as_ratio [of d] by (simp add: ratio_ok_def)
  have v: "text_value v = of_int (numerator ?r) / of_int (denominator ?r)"
    using d as_ratio [of d] by (simp add: ratio_value_def)
  have scaled: "of_int (2 * \<bar>?k * denominator ?r - numerator ?r * 10 ^ s\<bar>)
      = of_int (denominator ?r) * (2 * \<bar>of_int ?k - text_value v * 10 ^ s\<bar> :: rat)"
  proof -
    have "of_int (?k * denominator ?r - numerator ?r * 10 ^ s)
        = of_int (denominator ?r) * (of_int ?k - text_value v * 10 ^ s :: rat)"
      using den by (simp add: v field_simps)
    then have "\<bar>of_int (?k * denominator ?r - numerator ?r * 10 ^ s)\<bar>
        = of_int (denominator ?r) * \<bar>of_int ?k - text_value v * 10 ^ s :: rat\<bar>"
      using den by (simp add: abs_mult)
    then show ?thesis by (simp only: of_int_mult of_int_abs of_int_numeral mult.left_commute)
  qed
  have "2 * \<bar>?k * denominator ?r - numerator ?r * 10 ^ s\<bar> \<le> denominator ?r"
    by (rule rounded_coefficient_nearest) simp_all
  then have "of_int (2 * \<bar>?k * denominator ?r - numerator ?r * 10 ^ s\<bar>) \<le> (of_int (denominator ?r) :: rat)"
    by (rule of_int_le_iff [THEN iffD2])
  then have "of_int (denominator ?r) * (2 * \<bar>of_int ?k - text_value v * 10 ^ s\<bar>) \<le> of_int (denominator ?r) * (1 :: rat)"
    unfolding scaled by simp
  then have near: "2 * \<bar>of_int ?k - text_value v * 10 ^ s\<bar> \<le> 1"
    using den by (simp only: mult_le_cancel_left_pos of_int_0_less_iff)
  have "even ?k" if "2 * \<bar>of_int ?k - text_value v * 10 ^ s\<bar> = 1"
  proof -
    have "of_int (2 * \<bar>?k * denominator ?r - numerator ?r * 10 ^ s\<bar>) = (of_int (denominator ?r) :: rat)"
      unfolding scaled that by simp
    then have "2 * \<bar>?k * denominator ?r - numerator ?r * 10 ^ s\<bar> = denominator ?r"
      by (rule of_int_eq_iff [THEN iffD1])
    then show ?thesis by (intro rounded_coefficient_tie_even) simp_all
  qed
  moreover have "text_value t = of_int ?k / 10 ^ s"
    using assms(2) by (simp add: t canonical_round dec_value_round)
  ultimately show ?thesis using near by blast
qed

text \<open>A posted text is a fixed point of posting.\<close>

lemma round_posted_stable:
  assumes "round_posted_decimal_text v s = Inr t" and "s \<le> 10000"
  shows "canonical_text t" and "round_posted_decimal_text t s = Inr t"
proof -
  from assms(1) obtain d where t: "t = decimal_format (ratio_round_decimal (decimal_as_ratio d) s HalfEven)"
    by (auto simp: round_posted_decimal_text_def decimal_round_decimal_def POSTING_ROUNDING_MODE_def result_simps)
  show c: "canonical_text t" using assms(2) by (simp add: t canonical_round)
  then have "\<exists>u. round_posted_decimal_text t s = Inr u"
    by (auto elim!: canonical_text_E simp: round_posted_decimal_text_def)
  then obtain u where u: "round_posted_decimal_text t s = Inr u" by blast
  from round_posted_nearest [OF assms] obtain k where k: "text_value t = of_int k / 10 ^ s" by blast
  from round_posted_nearest [OF u assms(2)] obtain k' where k': "text_value u = of_int k' / 10 ^ s"
    "2 * \<bar>of_int k' - text_value t * 10 ^ s\<bar> \<le> 1" by blast
  from u obtain e where ue: "u = decimal_format (ratio_round_decimal (decimal_as_ratio e) s HalfEven)"
    by (auto simp: round_posted_decimal_text_def decimal_round_decimal_def POSTING_ROUNDING_MODE_def result_simps)
  then have "canonical_text u" using assms(2) by (simp add: canonical_round)
  have "2 * \<bar>of_int k' - of_int k :: rat\<bar> \<le> 1" using k' k by simp
  then have "of_int (2 * \<bar>k' - k\<bar>) \<le> (of_int 1 :: rat)" by simp
  then have "2 * \<bar>k' - k\<bar> \<le> 1" by (simp only: of_int_le_iff)
  then have "k' = k" by presburger
  then have "u = t" using k k' c \<open>canonical_text u\<close> by (intro money.canon_unique) simp_all
  with u show "round_posted_decimal_text t s = Inr t" by simp
qed

end
