(* ===== verification/OrderedMap.thy ===== *)
theory OrderedMap
  imports DecimalText
begin

text \<open>
  \<open>BTreeMap\<close> as an association list with strictly increasing keys, its interface as a
  locale, and the idiom that the ledger code is made of: add an amount to the entry of a
  key, starting from zero when the key is absent. The contract of that loop (the entry of a
  key ends up holding the exact sum of what was added under the key) is proved once, over
  the two interfaces, and interpreted on the association lists and \<open>add_decimal_text\<close>.
\<close>

section \<open>Ordered association lists\<close>

type_synonym ('k, 'v) btree = "('k \<times> 'v) list"

fun bt_insert :: "'k::linorder \<Rightarrow> 'v \<Rightarrow> ('k, 'v) btree \<Rightarrow> ('k, 'v) btree" where
  "bt_insert k v [] = [(k, v)]"
| "bt_insert k v (e # m) =
     (if k < fst e then (k, v) # e # m
      else if fst e < k then e # bt_insert k v m
      else (k, v) # m)"

definition bt_get :: "('k, 'v) btree \<Rightarrow> 'k \<Rightarrow> 'v option" where
  "bt_get m k = map_of m k"

text \<open>\<open>entry(k).or_insert(v)\<close>, its result ignored.\<close>

definition bt_or_insert :: "'k::linorder \<Rightarrow> 'v \<Rightarrow> ('k, 'v) btree \<Rightarrow> ('k, 'v) btree" where
  "bt_or_insert k v m = (case bt_get m k of None \<Rightarrow> bt_insert k v m | Some _ \<Rightarrow> m)"

text \<open>Collecting pairs into a map: a later pair replaces an earlier one.\<close>

definition bt_collect :: "('k::linorder \<times> 'v) list \<Rightarrow> ('k, 'v) btree" where
  "bt_collect kvs = foldl (\<lambda>m (k, v). bt_insert k v m) [] kvs"

definition bt_ok :: "('k::linorder, 'v) btree \<Rightarrow> bool" where
  "bt_ok m \<longleftrightarrow> sorted_wrt (<) (map fst m)"

lemma keys_bt_insert: "fst ` set (bt_insert k v m) = insert k (fst ` set m)"
proof (induction m)
  case (Cons e m)
  then show ?case by (cases k "fst e" rule: linorder_cases) auto
qed simp

lemma bt_ok_insert: "bt_ok m \<Longrightarrow> bt_ok (bt_insert k v m)"
proof (induction m)
  case (Cons e m)
  then have "bt_ok m" by (simp add: bt_ok_def)
  with Cons have ih: "bt_ok (bt_insert k v m)" by simp
  have low: "\<forall>x\<in>fst ` set m. fst e < x" using Cons.prems by (simp add: bt_ok_def)
  show ?case
  proof (cases k "fst e" rule: linorder_cases)
    case less
    with Cons.prems low show ?thesis by (auto simp: bt_ok_def)
  next
    case equal
    with Cons.prems show ?thesis by (simp add: bt_ok_def)
  next
    case greater
    have "\<forall>x\<in>fst ` set (bt_insert k v m). fst e < x"
      using low greater by (auto simp: keys_bt_insert)
    with ih greater show ?thesis by (auto simp: bt_ok_def)
  qed
qed (simp add: bt_ok_def)

lemma bt_get_insert: "bt_get (bt_insert k v m) j = (if j = k then Some v else bt_get m j)"
proof (induction m)
  case (Cons e m)
  then show ?case by (cases k "fst e" rule: linorder_cases) (auto simp: bt_get_def)
qed (simp add: bt_get_def)

section \<open>The interfaces\<close>

locale finite_map =
  fixes empty :: 'm
    and insert_key :: "'k \<Rightarrow> 'v \<Rightarrow> 'm \<Rightarrow> 'm"
    and get :: "'m \<Rightarrow> 'k \<Rightarrow> 'v option"
    and invar :: "'m \<Rightarrow> bool"
  assumes get_empty: "get empty k = None"
    and get_insert: "invar m \<Longrightarrow> get (insert_key k v m) j = (if j = k then Some v else get m j)"
    and invar_empty: "invar empty"
    and invar_insert: "invar m \<Longrightarrow> invar (insert_key k v m)"
begin

lemma get_insert_same: "invar m \<Longrightarrow> get (insert_key k v m) k = Some v"
  by (simp add: get_insert)

lemma get_insert_other: "invar m \<Longrightarrow> j \<noteq> k \<Longrightarrow> get (insert_key k v m) j = get m j"
  by (simp add: get_insert)

text \<open>Collecting a list of pairs keeps the last value of each key.\<close>

lemma get_collect:
  "invar m \<Longrightarrow> get (foldl (\<lambda>m (k, v). insert_key k v m) m kvs) j =
     (case map_of (rev kvs) j of None \<Rightarrow> get m j | Some v \<Rightarrow> Some v)"
  by (induction kvs arbitrary: m) (auto simp: get_insert invar_insert map_add_def split: option.split)

end

text \<open>Maps of amounts: a map interface whose values are the texts of an exact arithmetic.\<close>

locale amount_map =
  finite_map empty insert_key get invar + exact_text add sub amt canon val
  for empty :: 'm and insert_key :: "'k \<Rightarrow> string \<Rightarrow> 'm \<Rightarrow> 'm" and get and invar
    and add and sub and amt and canon and val +
  fixes add_to :: "'m \<Rightarrow> 'k \<Rightarrow> string \<Rightarrow> string + 'm"
  assumes add_to: "add_to m k v = and_then (add (unwrap_or (get m k) ''0'') v) (\<lambda>s. Inr (insert_key k s m))"
begin

definition entry :: "'m \<Rightarrow> 'k \<Rightarrow> rat" where
  "entry m k = (case get m k of None \<Rightarrow> 0 | Some v \<Rightarrow> val v)"

lemma entry_unwrap: "val (unwrap_or (get m k) ''0'') = entry m k"
  by (auto simp: entry_def zero_val split: option.split)

lemma entry_add_to:
  "invar m \<Longrightarrow> add_to m k v = Inr m' \<Longrightarrow> invar m' \<and> entry m' j = entry m j + (if j = k then val v else 0)"
  by (auto simp: add_to result_simps invar_insert entry_def get_insert entry_unwrap [unfolded entry_def]
      dest!: add_val)

text \<open>The loop: after it, the entry of a key has grown by all that was added under the key.\<close>

lemma entry_add_all:
  "invar m \<Longrightarrow> fold_result (\<lambda>m (k, v). add_to m k v) m kvs = Inr m' \<Longrightarrow>
     invar m' \<and> entry m' j = entry m j + sum_list (map (\<lambda>(k, v). if k = j then val v else 0) kvs)"
proof (induction kvs arbitrary: m)
  case Nil
  then show ?case by simp
next
  case (Cons kv kvs)
  obtain k v where kv: "kv = (k, v)" by (cases kv)
  with Cons.prems(2) obtain t where t: "add_to m k v = Inr t"
    and rest: "fold_result (\<lambda>m (k, v). add_to m k v) t kvs = Inr m'"
    by (auto simp: result_simps)
  from entry_add_to [OF Cons.prems(1) t, of j] have "invar t"
    and "entry t j = entry m j + (if j = k then val v else 0)" by auto
  with Cons.IH [OF \<open>invar t\<close> rest] kv show ?case by auto
qed

end

interpretation btree: finite_map "[]" bt_insert bt_get bt_ok
  by unfold_locales (simp_all add: bt_get_insert bt_ok_insert, simp_all add: bt_get_def bt_ok_def)

definition bt_add_to :: "('k::linorder, string) btree \<Rightarrow> 'k \<Rightarrow> string \<Rightarrow> ('k, string) btree result" where
  "bt_add_to m k v =
     and_then (add_decimal_text (unwrap_or (bt_get m k) ''0'') v) (\<lambda>s. Inr (bt_insert k s m))"

interpretation ledger: amount_map "[]" bt_insert bt_get bt_ok
  add_decimal_text subtract_decimal_text amount canonical_text text_value bt_add_to
  by unfold_locales (simp add: bt_add_to_def)

definition bt_entry :: "('k, string) btree \<Rightarrow> 'k \<Rightarrow> rat" where
  "bt_entry m k = (case bt_get m k of None \<Rightarrow> 0 | Some v \<Rightarrow> text_value v)"

lemma ledger_entry: "ledger.entry = bt_entry"
  by (simp add: fun_eq_iff ledger.entry_def bt_entry_def)

lemmas bt_entry_add_to = ledger.entry_add_to [unfolded ledger_entry]

lemmas bt_entry_add_all = ledger.entry_add_all [unfolded ledger_entry]

lemma bt_ok_empty [simp]: "bt_ok []"
  by (simp add: bt_ok_def)

lemma bt_get_empty [simp]: "bt_get [] k = None"
  by (simp add: bt_get_def)

lemma bt_get_or_insert:
  "bt_get (bt_or_insert k v m) j =
     (if j = k then (case bt_get m k of None \<Rightarrow> Some v | Some w \<Rightarrow> Some w) else bt_get m j)"
  by (auto simp: bt_or_insert_def bt_get_insert split: option.split)

lemma bt_ok_or_insert: "bt_ok m \<Longrightarrow> bt_ok (bt_or_insert k v m)"
  by (simp add: bt_or_insert_def bt_ok_insert split: option.split)

lemma bt_get_collect: "bt_get (bt_collect kvs) j = map_of (rev kvs) j"
  using btree.get_collect [of "[]" kvs j] by (simp add: bt_collect_def split: option.split)

lemma bt_ok_distinct: "bt_ok m \<Longrightarrow> distinct (map fst m)"
  by (simp add: bt_ok_def strict_sorted_iff)

end
