(* ===== verification/CivilDate.thy ===== *)
theory CivilDate
  imports RustStd
begin

text \<open>
  The calendar arithmetic of \<open>server/src/finance_model.rs\<close>: dates as days since 1970-01-01,
  weekdays, Gregorian Easter and the operating days of TARGET, by which the age of an
  exchange rate is counted. The code computes in \<open>i64\<close>: its values are \<open>int\<close>, and \<open>wrap_i64\<close> stands
  wherever an operation can leave the type, as the release build wraps around there; every other
  intermediate value is bounded by the era, the year or the month it is taken in. \<open>days_from_civil\<close> and
  \<open>civil_date_from_days\<close> are the same calendar over all integers, the specification: the code's versions,
  with \<open>_i64\<close>, agree with it as long as the day numbers stay inside the type (\<open>days_from_civil_small\<close>,
  \<open>civil_date_from_days_small\<close>). \<open>sdiv\<close> and \<open>smod\<close> are
  Rust's \<open>/\<close> and \<open>%\<close>; \<open>div\<close> and \<open>mod\<close> are \<open>div_euclid\<close> and \<open>rem_euclid\<close> by a positive number.
\<close>

section \<open>Definitions\<close>

definition is_leap_year :: "int \<Rightarrow> bool" where
  "is_leap_year year \<longleftrightarrow> year smod 4 = 0 \<and> (year smod 100 \<noteq> 0 \<or> year smod 400 = 0)"

definition max_day_of :: "int \<Rightarrow> int \<Rightarrow> int" where
  "max_day_of year month =
     (if month = 2 \<and> is_leap_year year then 29
      else if month = 2 then 28
      else if month \<in> {4, 6, 9, 11} then 30
      else 31)"

text \<open>Two's complement addition, subtraction and multiplication end with this.\<close>

definition wrap_i64 :: "int \<Rightarrow> int" where
  "wrap_i64 n = (n + 2 ^ 63) mod 2 ^ 64 - 2 ^ 63"

text \<open>The arithmetic at the end of \<open>parse_date\<close>.\<close>

definition days_from_civil_i64 :: "int \<Rightarrow> int \<Rightarrow> int \<Rightarrow> int" where
  "days_from_civil_i64 year0 month day =
     (let year = wrap_i64 (year0 - of_bool (month \<le> 2));
          era = year div 400;
          year_of_era = wrap_i64 (year - wrap_i64 (era * 400));
          month_prime = month + (if month > 2 then - 3 else 9);
          day_of_year = (153 * month_prime + 2) sdiv 5 + day - 1;
          day_of_era = year_of_era * 365 + year_of_era sdiv 4 - year_of_era sdiv 100 + day_of_year
      in wrap_i64 (wrap_i64 (wrap_i64 (era * 146097) + day_of_era) - 719468))"

text \<open>The same over all integers.\<close>

definition days_from_civil :: "int \<Rightarrow> int \<Rightarrow> int \<Rightarrow> int" where
  "days_from_civil year0 month day =
     (let year = year0 - of_bool (month \<le> 2);
          era = year div 400;
          year_of_era = year - era * 400;
          month_prime = month + (if month > 2 then - 3 else 9);
          day_of_year = (153 * month_prime + 2) sdiv 5 + day - 1;
          day_of_era = year_of_era * 365 + year_of_era sdiv 4 - year_of_era sdiv 100 + day_of_year
      in era * 146097 + day_of_era - 719468)"

definition parse_date :: "string \<Rightarrow> int result" where
  "parse_date value =
     and_then (map_result (\<lambda>part. ok_or (parse_i64 part) ''invalid date'')
         (split_on (\<lambda>c. c = CHR ''-'') value)) (\<lambda>parts.
       if length parts \<noteq> 3 \<or> parts ! 1 < 1 \<or> 12 < parts ! 1 then Inl ''invalid date''
       else let year = parts ! 0; month = parts ! 1; day = parts ! 2
            in if day < 1 \<or> max_day_of year month < day then Inl ''invalid date''
               else Inr (days_from_civil_i64 year month day))"

definition weekday :: "int \<Rightarrow> int" where
  "weekday days_since_epoch = wrap_i64 (days_since_epoch + 3) mod 7"

definition year_of_era_from :: "int \<Rightarrow> int" where
  "year_of_era_from day_of_era =
     (day_of_era - day_of_era sdiv 1460 + day_of_era sdiv 36524 - day_of_era sdiv 146096) sdiv 365"

definition civil_date_from_days_i64 :: "int \<Rightarrow> int \<times> int \<times> int" where
  "civil_date_from_days_i64 days_since_epoch =
     (let days = wrap_i64 (days_since_epoch + 719468);
          era = days div 146097;
          day_of_era = wrap_i64 (days - wrap_i64 (era * 146097));
          year_of_era = year_of_era_from day_of_era;
          year = year_of_era + era * 400;
          day_of_year = day_of_era - (365 * year_of_era + year_of_era sdiv 4 - year_of_era sdiv 100);
          month_prime = (5 * day_of_year + 2) sdiv 153;
          day = day_of_year - (153 * month_prime + 2) sdiv 5 + 1;
          month = month_prime + (if month_prime < 10 then 3 else - 9)
      in (year + of_bool (month \<le> 2), month, day))"

text \<open>The same over all integers.\<close>

definition civil_date_from_days :: "int \<Rightarrow> int \<times> int \<times> int" where
  "civil_date_from_days days_since_epoch =
     (let days = days_since_epoch + 719468;
          era = days div 146097;
          day_of_era = days - era * 146097;
          year_of_era = year_of_era_from day_of_era;
          year = year_of_era + era * 400;
          day_of_year = day_of_era - (365 * year_of_era + year_of_era sdiv 4 - year_of_era sdiv 100);
          month_prime = (5 * day_of_year + 2) sdiv 153;
          day = day_of_year - (153 * month_prime + 2) sdiv 5 + 1;
          month = month_prime + (if month_prime < 10 then 3 else - 9)
      in (year + of_bool (month \<le> 2), month, day))"

definition gregorian_easter :: "int \<Rightarrow> int \<times> int" where
  "gregorian_easter year =
     (let a = year smod 19;
          b = year sdiv 100;
          c = year smod 100;
          d = b sdiv 4;
          e = b smod 4;
          f = (b + 8) sdiv 25;
          g = (b - f + 1) sdiv 3;
          h = (19 * a + b - d - g + 15) smod 30;
          i = c sdiv 4;
          k = c smod 4;
          l = (32 + 2 * e + 2 * i - h - k) smod 7;
          m = (a + 11 * h + 22 * l) sdiv 451;
          value = h + l - 7 * m + 114
      in (value sdiv 31, value smod 31 + 1))"

definition format_ymd :: "int \<Rightarrow> int \<Rightarrow> int \<Rightarrow> string" where
  "format_ymd year month day = pad_zero 4 year @ ''-'' @ pad_zero 2 month @ ''-'' @ pad_zero 2 day"

definition is_target_operating_day :: "int \<Rightarrow> bool result" where
  "is_target_operating_day days_since_epoch =
     (if 5 \<le> weekday days_since_epoch then Inr False
      else let (year, month, day) = civil_date_from_days_i64 days_since_epoch
           in if (month = 1 \<and> day = 1) \<or> (month = 5 \<and> day = 1) \<or> (month = 12 \<and> day \<in> {25, 26})
              then Inr False
              else let (easter_month, easter_day) = gregorian_easter year
                   in and_then (parse_date (format_ymd year easter_month easter_day)) (\<lambda>easter_sunday.
                      Inr (days_since_epoch \<noteq> wrap_i64 (easter_sunday - 2) \<and> days_since_epoch \<noteq> wrap_i64 (easter_sunday + 1))))"

text \<open>
  The \<open>while\<close> loop of \<open>target_business_days_between\<close>. The counter stays inside \<open>i64\<close> unless
  \<open>through\<close> is its last value, twenty-five thousand million million years ahead.
\<close>

function count_operating_days :: "int \<Rightarrow> int \<Rightarrow> nat \<Rightarrow> nat result" where
  "count_operating_days date through count =
     (if date \<le> through
      then and_then (is_target_operating_day date) (\<lambda>operating.
        count_operating_days (date + 1) through (if operating then count + 1 else count))
      else Inr count)"
  by pat_completeness auto
termination
  by (relation "measure (\<lambda>(date, through, count). nat (through + 1 - date))") auto

declare count_operating_days.simps [simp del]

definition target_business_days_between :: "string \<Rightarrow> string \<Rightarrow> nat result" where
  "target_business_days_between from through =
     and_then (parse_date from) (\<lambda>f.
     and_then (parse_date through) (\<lambda>t.
       if t \<le> f then Inr 0 else count_operating_days (f + 1) t 0))"

section \<open>The calendar is a bijection\<close>

definition valid_civil :: "int \<Rightarrow> int \<Rightarrow> int \<Rightarrow> bool" where
  "valid_civil year month day \<longleftrightarrow>
     1 \<le> month \<and> month \<le> 12 \<and> 1 \<le> day \<and> day \<le> max_day_of year month"

lemma sdiv_nonneg: "0 \<le> a \<Longrightarrow> 0 < b \<Longrightarrow> a sdiv b = a div (b :: int)"
  by (auto simp: signed_divide_int_def sgn_if)

lemma smod_eq_0_dvd: "a smod b = 0 \<longleftrightarrow> b dvd (a :: int)"
  by (cases "a = 0") (simp_all add: smod_int_alt_def sgn_eq_0_iff mod_eq_0_iff_dvd)

lemma is_leap_year_dvd: "is_leap_year y \<longleftrightarrow> 4 dvd y \<and> (\<not> 100 dvd y \<or> 400 dvd y)"
  by (simp add: is_leap_year_def smod_eq_0_dvd)

lemma div_eqI: "b * q \<le> a \<Longrightarrow> a < b * q + b \<Longrightarrow> a div b = (q :: int)"
  by (rule int_div_pos_eq [where r = "a - b * q"]) auto

text \<open>
  A day of an era is 36524 days for each of \<open>c\<close> centuries, 1461 for each of \<open>q\<close> four-year
  groups, 365 for each of \<open>r\<close> years, and a day of the year that is 365 only in a leap year
  (years begin in March).
\<close>

definition era_split :: "int \<Rightarrow> int \<Rightarrow> int \<Rightarrow> int \<Rightarrow> bool" where
  "era_split c q r doy \<longleftrightarrow> 0 \<le> c \<and> c \<le> 3 \<and> 0 \<le> q \<and> q \<le> 24 \<and> 0 \<le> r \<and> r \<le> 3 \<and> 0 \<le> doy
     \<and> (doy \<le> 364 \<or> doy = 365 \<and> r = 3 \<and> (q < 24 \<or> c = 3))"

lemma year_of_era_from_nonneg:
  assumes "0 \<le> x"
  shows "year_of_era_from x = (x - x div 1460 + x div 36524 - x div 146096) div 365"
proof -
  have "x div 1460 \<le> x" "x div 146096 \<le> x div 36524"
    using assms zdiv_mono2 [of x 36524 146096] by (simp_all add: div_le_dividend)
  then have "0 \<le> x - x div 1460 + x div 36524 - x div 146096" by simp
  with assms show ?thesis by (simp add: year_of_era_from_def sdiv_nonneg)
qed

lemma year_of_era_from_split:
  assumes "era_split c q r doy"
  shows "year_of_era_from (36524 * c + 1461 * q + 365 * r + doy) = 100 * c + 4 * q + r"
proof -
  let ?D = "36524 * c + 1461 * q + 365 * r + doy"
  define e1 :: int where "e1 = of_bool (1460 \<le> 24 * c + q + 365 * r + doy)"
  define e2 :: int where "e2 = of_bool (36524 \<le> 1461 * q + 365 * r + doy)"
  define e3 :: int where "e3 = of_bool (146096 \<le> ?D)"
  have b: "0 \<le> c" "c \<le> 3" "0 \<le> q" "q \<le> 24" "0 \<le> r" "r \<le> 3" "0 \<le> doy" "doy \<le> 365"
    using assms by (auto simp: era_split_def)
  have last: "doy = 365 \<Longrightarrow> r = 3 \<and> (q < 24 \<or> c = 3)"
    using assms by (simp add: era_split_def)
  have D: "0 \<le> ?D" "?D \<le> 146096" using b last by linarith+
  have E: "0 \<le> e1" "e1 \<le> 1" "0 \<le> e2" "e2 \<le> 1" "0 \<le> e3" "e3 \<le> 1"
    by (simp_all add: e1_def e2_def e3_def)
  have e1: "1460 * e1 \<le> 24 * c + q + 365 * r + doy" "24 * c + q + 365 * r + doy < 1460 * e1 + 1460"
    unfolding e1_def using b by (auto split: split_of_bool)
  have e2: "36524 * e2 \<le> 1461 * q + 365 * r + doy" "1461 * q + 365 * r + doy < 36524 * e2 + 36524"
    unfolding e2_def using b by (auto split: split_of_bool)
  have e3: "146096 * e3 \<le> ?D" "?D < 146096 * e3 + 146096"
    unfolding e3_def using D by (auto split: split_of_bool)
  have "?D div 1460 = 25 * c + q + e1"
    using b e1 by (intro div_eqI) simp_all
  moreover have "?D div 36524 = c + e2"
    using e2 by (intro div_eqI) simp_all
  moreover have "?D div 146096 = e3"
    using e3 by (intro div_eqI) simp_all
  moreover have "(365 * (100 * c + 4 * q + r) + (doy - e1 + e2 - e3)) div 365 = 100 * c + 4 * q + r"
  proof (rule div_eqI)
    have small: "e1 = 0" if "doy < 269" using b that by (simp add: e1_def)
    have mid: "e2 = 0" "e3 = 0" if "doy < 365" using b that by (simp_all add: e2_def e3_def)
    have large: "e1 = 1" "e2 = 0 \<or> e3 = 1" if "doy = 365"
      using b last that by (auto simp: e1_def e2_def e3_def)
    consider "doy < 269" | "269 \<le> doy" "doy < 365" | "doy = 365" using b by linarith
    then have "0 \<le> doy - e1 + e2 - e3 \<and> doy - e1 + e2 - e3 < 365"
      using b(7) E small mid large by cases auto
    then show "365 * (100 * c + 4 * q + r) \<le> 365 * (100 * c + 4 * q + r) + (doy - e1 + e2 - e3)"
      and "365 * (100 * c + 4 * q + r) + (doy - e1 + e2 - e3) < 365 * (100 * c + 4 * q + r) + 365"
      by simp_all
  qed
  ultimately have "(?D - ?D div 1460 + ?D div 36524 - ?D div 146096) div 365 = 100 * c + 4 * q + r"
    by (simp add: ring_distribs)
  then show ?thesis using D by (simp only: year_of_era_from_nonneg)
qed

text \<open>The month and day inside a year that begins in March.\<close>

definition month_prime_of :: "int \<Rightarrow> int" where
  "month_prime_of month = month + (if month > 2 then - 3 else 9)"

definition day_of_year_of :: "int \<Rightarrow> int \<Rightarrow> int" where
  "day_of_year_of month day = (153 * month_prime_of month + 2) div 5 + day - 1"

lemma month_cases:
  assumes "1 \<le> (m :: int)" "m \<le> 12"
  obtains "m = 1" | "m = 2" | "m = 3" | "m = 4" | "m = 5" | "m = 6"
    | "m = 7" | "m = 8" | "m = 9" | "m = 10" | "m = 11" | "m = 12"
proof -
  have "m = 1 \<or> m = 2 \<or> m = 3 \<or> m = 4 \<or> m = 5 \<or> m = 6
    \<or> m = 7 \<or> m = 8 \<or> m = 9 \<or> m = 10 \<or> m = 11 \<or> m = 12"
    using assms by presburger
  then show ?thesis using that by blast
qed

lemma day_of_year_facts:
  assumes "valid_civil y m d"
  shows "0 \<le> day_of_year_of m d" "day_of_year_of m d \<le> 365"
    "day_of_year_of m d = 365 \<Longrightarrow> m = 2 \<and> is_leap_year y"
    "(5 * day_of_year_of m d + 2) div 153 = month_prime_of m"
proof -
  have md: "1 \<le> m" "m \<le> 12" "1 \<le> d" "d \<le> max_day_of y m"
    using assms by (auto simp: valid_civil_def)
  show "0 \<le> day_of_year_of m d" "day_of_year_of m d \<le> 365"
    "day_of_year_of m d = 365 \<Longrightarrow> m = 2 \<and> is_leap_year y"
    "(5 * day_of_year_of m d + 2) div 153 = month_prime_of m"
    using md
    by (cases rule: month_cases [OF md(1,2)];
        simp add: day_of_year_of_def month_prime_of_def max_day_of_def split: if_splits;
        intro div_eqI; simp)+
qed

text \<open>A year as its era, century, four-year group and rest.\<close>

definition year_split :: "int \<Rightarrow> int \<Rightarrow> int \<Rightarrow> int \<Rightarrow> int \<Rightarrow> bool" where
  "year_split year E c q r \<longleftrightarrow> year = 400 * E + 100 * c + 4 * q + r
     \<and> 0 \<le> c \<and> c \<le> 3 \<and> 0 \<le> q \<and> q \<le> 24 \<and> 0 \<le> r \<and> r \<le> 3"

lemma year_split_exists: "\<exists>E c q r. year_split year E c q r"
proof -
  define E Y where "E = year div 400" and "Y = year mod 400"
  define c C where "c = Y div 100" and "C = Y mod 100"
  define q r where "q = C div 4" and "r = C mod 4"
  have "year = 400 * E + Y" "Y = 100 * c + C" "C = 4 * q + r"
    by (simp_all add: E_def Y_def c_def C_def q_def r_def)
  moreover have "0 \<le> Y" "Y < 400" "0 \<le> C" "C < 100" "0 \<le> r" "r < 4"
    by (simp_all add: Y_def C_def r_def)
  ultimately have "year_split year E c q r"
    unfolding year_split_def by linarith
  then show ?thesis by blast
qed

lemma era_split_of_valid:
  assumes "valid_civil y m d" and "year_split (y - of_bool (m \<le> 2)) E c q r"
  shows "era_split c q r (day_of_year_of m d)"
proof -
  have "r = 3 \<and> (q < 24 \<or> c = 3)" if "day_of_year_of m d = 365"
  proof -
    from day_of_year_facts(3) [OF assms(1) that] assms(2)
    have "y = 400 * E + 100 * c + 4 * q + r + 1" and "is_leap_year y"
      by (auto simp: year_split_def)
    then have four: "4 dvd 400 * E + 100 * c + 4 * q + r + 1"
      and hundred: "100 dvd 400 * E + 100 * c + 4 * q + r + 1 \<Longrightarrow> 400 dvd 400 * E + 100 * c + 4 * q + r + 1"
      by (auto simp: is_leap_year_dvd)
    have b: "0 \<le> c" "c \<le> 3" "q \<le> 24" "0 \<le> r" "r \<le> 3" using assms(2) by (auto simp: year_split_def)
    have "400 * E + 100 * c + 4 * q + r + 1 = 4 * (100 * E + 25 * c + q) + (r + 1)" by simp
    with four have "4 dvd r + 1" by (metis dvd_add_right_iff dvd_triv_left)
    then have "4 \<le> r + 1" using b(4) by (intro zdvd_imp_le) simp_all
    with b(5) have r: "r = 3" by simp
    have "c = 3" if q: "q = 24"
    proof -
      have eq: "400 * E + 100 * c + 4 * q + r + 1 = 100 * (4 * E + c + 1)" by (simp add: q r)
      have "400 dvd 100 * (4 * E + c + 1)" by (rule hundred [unfolded eq]) (rule dvd_triv_left)
      then have "(100 * 4 :: int) dvd 100 * (4 * E + (c + 1))" by (simp add: add.assoc)
      then have "4 dvd 4 * E + (c + 1)" unfolding dvd_mult_cancel_left by simp
      then have "4 dvd c + 1" by (metis dvd_add_right_iff dvd_triv_left)
      then have "4 \<le> c + 1" using b(1) by (intro zdvd_imp_le) simp_all
      with b(2) show ?thesis by simp
    qed
    with r b(3) show ?thesis by linarith
  qed
  with day_of_year_facts(1,2) [OF assms(1)] assms(2) show ?thesis
    by (auto simp: era_split_def year_split_def)
qed

lemma days_from_civil_split:
  assumes "valid_civil y m d" and "year_split (y - of_bool (m \<le> 2)) E c q r"
  shows "days_from_civil y m d =
    E * 146097 + (36524 * c + 1461 * q + 365 * r + day_of_year_of m d) - 719468"
proof -
  let ?Y = "100 * c + 4 * q + r"
  have b: "0 \<le> c" "c \<le> 3" "0 \<le> q" "q \<le> 24" "0 \<le> r" "r \<le> 3"
    and y: "y - of_bool (m \<le> 2) = 400 * E + ?Y"
    using assms(2) by (auto simp: year_split_def)
  have mp: "0 \<le> 153 * month_prime_of m + 2"
    using assms(1) by (auto simp: valid_civil_def month_prime_of_def)
  have E: "(400 * E + ?Y) div 400 = E" using b by (intro div_eqI) simp_all
  have "?Y div 4 = 25 * c + q" "?Y div 100 = c" using b by (intro div_eqI; simp)+
  with b have "?Y sdiv 4 = 25 * c + q" "?Y sdiv 100 = c" by (simp_all add: sdiv_nonneg)
  moreover have "400 * E + ?Y - E * 400 = ?Y" by simp
  ultimately show ?thesis
    using mp unfolding days_from_civil_def Let_def y E month_prime_of_def [symmetric]
    by (simp only: sdiv_nonneg day_of_year_of_def)
      (simp add: sdiv_nonneg)
qed

lemma civil_date_from_split:
  assumes "era_split c q r doy"
  defines "mp \<equiv> (5 * doy + 2) div 153"
  shows "civil_date_from_days (E * 146097 + (36524 * c + 1461 * q + 365 * r + doy) - 719468) =
    (100 * c + 4 * q + r + E * 400 + of_bool (mp + (if mp < 10 then 3 else - 9) \<le> 2),
     mp + (if mp < 10 then 3 else - 9), doy - (153 * mp + 2) div 5 + 1)"
proof -
  let ?doe = "36524 * c + 1461 * q + 365 * r + doy" and ?Y = "100 * c + 4 * q + r"
  have b: "0 \<le> c" "c \<le> 3" "0 \<le> q" "q \<le> 24" "0 \<le> r" "r \<le> 3" "0 \<le> doy" "doy \<le> 365"
    and last: "doy = 365 \<Longrightarrow> r = 3 \<and> (q < 24 \<or> c = 3)"
    using assms(1) by (auto simp: era_split_def)
  have doe: "0 \<le> ?doe" "?doe < 146097" using b last by linarith+
  have days: "E * 146097 + ?doe - 719468 + 719468 = E * 146097 + ?doe" by simp
  have E: "(E * 146097 + ?doe) div 146097 = E" using doe by (intro div_eqI) simp_all
  have rest: "E * 146097 + ?doe - E * 146097 = ?doe" by simp
  have yoe: "year_of_era_from ?doe = ?Y" using assms(1) by (rule year_of_era_from_split)
  have "?Y div 4 = 25 * c + q" "?Y div 100 = c" using b by (intro div_eqI; simp)+
  with b have "?Y sdiv 4 = 25 * c + q" "?Y sdiv 100 = c" by (simp_all add: sdiv_nonneg)
  then have doy: "?doe - (365 * ?Y + ?Y sdiv 4 - ?Y sdiv 100) = doy" by simp
  have mp: "(5 * doy + 2) sdiv 153 = mp" "0 \<le> mp"
    using b by (simp_all add: mp_def sdiv_nonneg pos_imp_zdiv_nonneg_iff)
  then have day: "(153 * mp + 2) sdiv 5 = (153 * mp + 2) div 5" by (simp add: sdiv_nonneg)
  show ?thesis
    unfolding civil_date_from_days_def Let_def days E rest yoe doy mp(1) day ..
qed

text \<open>Going to days and back gives the same date, and every day is the day of a date.\<close>

lemma civil_date_from_days_from_civil:
  assumes "valid_civil y m d"
  shows "civil_date_from_days (days_from_civil y m d) = (y, m, d)"
proof -
  obtain E c q r where s: "year_split (y - of_bool (m \<le> 2)) E c q r" using year_split_exists by blast
  have mp: "(5 * day_of_year_of m d + 2) div 153 = month_prime_of m"
    using assms by (rule day_of_year_facts)
  have "1 \<le> m" "m \<le> 12" using assms by (auto simp: valid_civil_def)
  then have "month_prime_of m + (if month_prime_of m < 10 then 3 else - 9) = m"
    by (auto simp: month_prime_of_def)
  then show ?thesis
    using s unfolding days_from_civil_split [OF assms s]
      civil_date_from_split [OF era_split_of_valid [OF assms s]] mp
    by (auto simp: day_of_year_of_def year_split_def)
qed

lemma era_split_exists:
  assumes "0 \<le> doe" and "doe < 146097"
  shows "\<exists>c q r doy. era_split c q r doy \<and> doe = 36524 * c + 1461 * q + 365 * r + doy"
proof -
  define k m where "k = doe div 36524" and "m = doe mod 36524"
  define c where "c = min 3 k"
  define D where "D = doe - 36524 * c"
  define q where "q = D div 1461"
  define R where "R = D mod 1461"
  define j n where "j = R div 365" and "n = R mod 365"
  define r where "r = min 3 j"
  define doy where "doy = R - 365 * r"
  have doe: "doe = 36524 * k + m" "0 \<le> m" "m < 36524" "0 \<le> k"
    using assms(1) by (simp_all add: k_def m_def pos_imp_zdiv_nonneg_iff)
  have D: "0 \<le> c" "c \<le> 3" "0 \<le> D" "D \<le> 36524" "D = 36524 \<Longrightarrow> c = 3"
    using doe assms unfolding D_def c_def by (cases "3 \<le> k"; simp)+
  have q: "D = 1461 * q + R" "0 \<le> R" "R < 1461" by (simp_all add: q_def R_def)
  have qb: "0 \<le> q" "q \<le> 24" using q D by linarith+
  have R: "R = 365 * j + n" "0 \<le> n" "n < 365" "0 \<le> j"
    using q by (simp_all add: j_def n_def pos_imp_zdiv_nonneg_iff)
  have r: "0 \<le> r" "r \<le> 3" "0 \<le> doy" "doy \<le> 365" "doy = 365 \<Longrightarrow> r = 3"
    using R q(3) unfolding doy_def r_def by (cases "3 \<le> j"; simp)+
  have "q < 24 \<or> c = 3" if "doy = 365"
  proof (cases "q = 24")
    case True
    with that r(5) q(1) have "D = 36524" by (simp add: doy_def)
    with D(5) show ?thesis by simp
  qed (use qb in simp)
  with D(1,2) qb r have "era_split c q r doy" by (auto simp: era_split_def)
  moreover have "doe = 36524 * c + 1461 * q + 365 * r + doy"
    using q(1) by (simp add: D_def doy_def)
  ultimately show ?thesis by blast
qed

lemma month_prime_cases:
  fixes doy :: int
  assumes "0 \<le> doy" and "doy \<le> 365"
  defines "mp \<equiv> (5 * doy + 2) div 153"
  shows "0 \<le> mp" "mp \<le> 11" "(153 * mp + 2) div 5 \<le> doy" "doy < (153 * (mp + 1) + 2) div 5"
proof -
  define x where "x = (5 * doy + 2) mod 153"
  define f f' where "f = (153 * mp + 2) div 5" and "f' = (153 * mp + 2) mod 5"
  define g g' where "g = (153 * (mp + 1) + 2) div 5" and "g' = (153 * (mp + 1) + 2) mod 5"
  have "5 * doy + 2 = 153 * mp + x" "0 \<le> x" "x < 153" by (simp_all add: mp_def x_def)
  moreover have "153 * mp + 2 = 5 * f + f'" "0 \<le> f'" "f' < 5" by (simp_all add: f_def f'_def)
  moreover have "153 * mp + 155 = 5 * g + g'" "0 \<le> g'" "g' < 5" by (simp_all add: g_def g'_def)
  ultimately show "0 \<le> mp" "mp \<le> 11" "f \<le> doy" "doy < g"
    using assms(1,2) by linarith+
qed

lemma valid_civil_of_split:
  assumes "era_split c q r doy"
  shows "case civil_date_from_days (E * 146097 + (36524 * c + 1461 * q + 365 * r + doy) - 719468) of
    (y, m, d) \<Rightarrow> valid_civil y m d \<and> y - of_bool (m \<le> 2) = 400 * E + 100 * c + 4 * q + r
      \<and> day_of_year_of m d = doy"
proof -
  define mp where "mp = (5 * doy + 2) div 153"
  have doy: "0 \<le> doy" "doy \<le> 365" and last: "doy = 365 \<Longrightarrow> r = 3 \<and> (q < 24 \<or> c = 3)"
    and c: "0 \<le> c" "c \<le> 3" "q \<le> 24"
    using assms by (auto simp: era_split_def)
  note mp = month_prime_cases [OF doy, folded mp_def]
  define m where "m = mp + (if mp < 10 then 3 else - 9)"
  define y where "y = 100 * c + 4 * q + r + E * 400 + of_bool (m \<le> 2)"
  define d where "d = doy - (153 * mp + 2) div 5 + 1"
  have m: "1 \<le> m" "m \<le> 12" "month_prime_of m = mp"
    using mp(1,2) by (auto simp: m_def month_prime_of_def)
  have leap: "is_leap_year y" if "doy = 365"
  proof -
    from that last have "r = 3" "q < 24 \<or> c = 3" by auto
    moreover have "m = 2" using that by (simp add: m_def mp_def)
    ultimately have y: "y = 100 * c + 4 * q + 4 + E * 400" by (simp add: y_def)
    have "y = 4 * (25 * c + q + 1 + 100 * E)" by (simp add: y)
    then have "4 dvd y" by (metis dvd_triv_left)
    moreover have "400 dvd y" if "100 dvd y"
    proof -
      have "y = 100 * (c + 4 * E) + 4 * (q + 1)" by (simp add: y)
      with that have "100 dvd 4 * (q + 1)" by (metis dvd_add_right_iff dvd_triv_left)
      moreover have "0 < 4 * (q + 1)" using assms by (simp add: era_split_def)
      ultimately have "100 \<le> 4 * (q + 1)" by (rule zdvd_imp_le)
      with c(3) have "q = 24" by simp
      with \<open>q < 24 \<or> c = 3\<close> have "y = 400 * (E + 1)" by (simp add: y)
      then show ?thesis by (metis dvd_triv_left)
    qed
    ultimately show ?thesis by (simp add: is_leap_year_dvd)
  qed
  have d: "1 \<le> d" using mp(3) by (simp add: d_def)
  have doy_eq: "day_of_year_of m d = doy" by (simp add: day_of_year_of_def m(3) d_def)
  have "d \<le> max_day_of y m"
  proof (cases "m = 2")
    case True
    then have "mp = 11" using mp(1,2) by (auto simp: m_def split: if_splits)
    with doy leap True show ?thesis by (cases "doy = 365") (auto simp: d_def max_day_of_def)
  next
    case False
    with mp(4) m(3) show ?thesis
      by (cases rule: month_cases [OF m(1,2)])
        (auto simp: d_def max_day_of_def month_prime_of_def)
  qed
  with m d have "valid_civil y m d" by (simp add: valid_civil_def)
  moreover have "civil_date_from_days (E * 146097 + (36524 * c + 1461 * q + 365 * r + doy) - 719468) = (y, m, d)"
    using civil_date_from_split [OF assms, of E] by (simp add: y_def m_def d_def mp_def)
  ultimately show ?thesis using doy_eq by (simp add: y_def)
qed

lemma days_from_civil_of_days:
  "case civil_date_from_days n of (y, m, d) \<Rightarrow> valid_civil y m d \<and> days_from_civil y m d = n"
proof -
  have "0 \<le> (n + 719468) mod 146097" "(n + 719468) mod 146097 < 146097" by simp_all
  then obtain c q r doy where s: "era_split c q r doy"
    and doe: "(n + 719468) mod 146097 = 36524 * c + 1461 * q + 365 * r + doy"
    using era_split_exists by blast
  define E where "E = (n + 719468) div 146097"
  have "n + 719468 = E * 146097 + (n + 719468) mod 146097"
    unfolding E_def by simp
  with doe have n: "n = E * 146097 + (36524 * c + 1461 * q + 365 * r + doy) - 719468" by simp
  obtain y m d where ymd: "civil_date_from_days n = (y, m, d)" by (cases "civil_date_from_days n")
  have v: "valid_civil y m d" "y - of_bool (m \<le> 2) = 400 * E + 100 * c + 4 * q + r"
    "day_of_year_of m d = doy"
    using valid_civil_of_split [OF s, of E] ymd by (simp_all flip: n)
  then have "year_split (y - of_bool (m \<le> 2)) E c q r"
    using s by (auto simp: year_split_def era_split_def)
  from days_from_civil_split [OF v(1) this] v(1,3) n ymd show ?thesis by simp
qed

section \<open>The calendar inside \<open>i64\<close>\<close>

lemma wrap_i64_id: "- (2 ^ 63) \<le> n \<Longrightarrow> n < 2 ^ 63 \<Longrightarrow> wrap_i64 n = n"
  by (simp add: wrap_i64_def)

lemma wrap_i64_ring:
  "wrap_i64 (wrap_i64 a + b) = wrap_i64 (a + b)" "wrap_i64 (wrap_i64 a - b) = wrap_i64 (a - b)"
  "wrap_i64 (a - wrap_i64 b) = wrap_i64 (a - b)"
proof -
  have w: "wrap_i64 a = a - 2 ^ 64 * ((a + 2 ^ 63) div 2 ^ 64)" for a
    unfolding wrap_i64_def by (simp add: minus_mult_div_eq_mod [symmetric])
  have s: "wrap_i64 (c + 2 ^ 64 * k) = wrap_i64 c" for c k
    by (simp add: wrap_i64_def add.assoc add.commute [of c])
  show "wrap_i64 (wrap_i64 a + b) = wrap_i64 (a + b)" "wrap_i64 (wrap_i64 a - b) = wrap_i64 (a - b)"
    "wrap_i64 (a - wrap_i64 b) = wrap_i64 (a - b)"
    using s [of "a + b" "- ((a + 2 ^ 63) div 2 ^ 64)"] s [of "a - b" "- ((a + 2 ^ 63) div 2 ^ 64)"]
      s [of "a - b" "(b + 2 ^ 63) div 2 ^ 64"]
    by (simp_all add: w [of a] w [of b] algebra_simps)
qed

lemma days_from_civil_wrapped:
  assumes "- (2 ^ 63) < y" "y < 2 ^ 63"
  shows "days_from_civil_i64 y m d = wrap_i64 (days_from_civil y m d)"
proof -
  let ?y = "y - of_bool (m \<le> 2)"
  have y: "wrap_i64 ?y = ?y" using assms by (intro wrap_i64_id) (simp_all split: split_of_bool)
  have "?y - ?y div 400 * 400 = ?y mod 400" by (simp add: minus_div_mult_eq_mod)
  moreover have "0 \<le> ?y mod 400" "?y mod 400 < 400" by simp_all
  ultimately have "wrap_i64 (?y - ?y div 400 * 400) = ?y - ?y div 400 * 400" by (intro wrap_i64_id) simp_all
  then show ?thesis by (simp only: days_from_civil_i64_def days_from_civil_def Let_def wrap_i64_ring y)
qed

lemma days_from_civil_bound:
  assumes "valid_civil y m d"
  shows "\<bar>days_from_civil y m d\<bar> \<le> 366 * \<bar>y\<bar> + 1012000"
proof -
  obtain E c q r where s: "year_split (y - of_bool (m \<le> 2)) E c q r" using year_split_exists by blast
  note day = day_of_year_facts(1,2) [OF assms] and days = days_from_civil_split [OF assms s]
  have b: "0 \<le> (of_bool (m \<le> 2) :: int)" "of_bool (m \<le> 2) \<le> (1 :: int)" by simp_all
  have split: "y - of_bool (m \<le> 2) = 400 * E + 100 * c + 4 * q + r" "0 \<le> c" "c \<le> 3" "0 \<le> q" "q \<le> 24" "0 \<le> r" "r \<le> 3"
    using s by (simp_all add: year_split_def)
  show ?thesis using day b split days by linarith
qed

lemma days_from_civil_small:
  assumes "valid_civil y m d" "\<bar>y\<bar> \<le> 25 * 10 ^ 15"
  shows "days_from_civil_i64 y m d = days_from_civil y m d"
    "- (2 ^ 63) \<le> days_from_civil y m d" "days_from_civil y m d < 2 ^ 63 - 719468"
proof -
  show n: "- (2 ^ 63) \<le> days_from_civil y m d" "days_from_civil y m d < 2 ^ 63 - 719468"
    using days_from_civil_bound [OF assms(1)] assms(2) by simp_all
  have "days_from_civil_i64 y m d = wrap_i64 (days_from_civil y m d)"
    using assms(2) by (intro days_from_civil_wrapped) simp_all
  with n show "days_from_civil_i64 y m d = days_from_civil y m d" by (simp add: wrap_i64_id)
qed

lemma civil_date_from_days_small:
  assumes "- (2 ^ 63) \<le> n" "n < 2 ^ 63 - 719468"
  shows "civil_date_from_days_i64 n = civil_date_from_days n"
proof -
  let ?n = "n + 719468"
  have n: "wrap_i64 ?n = ?n" using assms by (intro wrap_i64_id) simp_all
  have "?n - ?n div 146097 * 146097 = ?n mod 146097" by (simp add: minus_div_mult_eq_mod)
  moreover have "0 \<le> ?n mod 146097" "?n mod 146097 < 146097" by simp_all
  ultimately have "wrap_i64 (?n - ?n div 146097 * 146097) = ?n - ?n div 146097 * 146097" by (intro wrap_i64_id) simp_all
  then show ?thesis by (simp only: civil_date_from_days_i64_def civil_date_from_days_def Let_def wrap_i64_ring n)
qed

text \<open>Both directions of the bijection, for the code's versions.\<close>

lemma civil_roundtrip_i64:
  assumes "valid_civil y m d" "\<bar>y\<bar> \<le> 25 * 10 ^ 15"
  shows "civil_date_from_days_i64 (days_from_civil_i64 y m d) = (y, m, d)"
  by (simp only: days_from_civil_small [OF assms] civil_date_from_days_small civil_date_from_days_from_civil [OF assms(1)])

lemma days_roundtrip_i64:
  assumes "- (2 ^ 63) \<le> n" "n < 2 ^ 63 - 719468"
  shows "case civil_date_from_days_i64 n of (y, m, d) \<Rightarrow> valid_civil y m d \<and> days_from_civil_i64 y m d = n"
proof (cases "civil_date_from_days n")
  case (fields y m d)
  with days_from_civil_of_days [of n] have v: "valid_civil y m d" "days_from_civil y m d = n" by simp_all
  have "\<bar>y\<bar> < 2 ^ 63"
  proof -
    obtain E c q r where s: "year_split (y - of_bool (m \<le> 2)) E c q r" using year_split_exists by blast
    have "n = E * 146097 + (36524 * c + 1461 * q + 365 * r + day_of_year_of m d) - 719468"
      using days_from_civil_split [OF v(1) s] v(2) by simp
    moreover have "0 \<le> (of_bool (m \<le> 2) :: int)" "of_bool (m \<le> 2) \<le> (1 :: int)" by simp_all
    ultimately show ?thesis using s assms day_of_year_facts(1,2) [OF v(1)] unfolding year_split_def abs_less_iff by linarith
  qed
  then have "days_from_civil_i64 y m d = wrap_i64 n"
    using days_from_civil_wrapped [of y m d] v(2) by (simp add: abs_less_iff)
  then show ?thesis
    unfolding civil_date_from_days_small [OF assms] using fields v assms by (simp add: wrap_i64_id)
qed

section \<open>Printing and parsing a date\<close>

lemma pad_zero_digits: "0 \<le> n \<Longrightarrow> list_all is_digit (pad_zero w n)"
  using nat_to_string_digits [of "nat n"]
  by (auto simp: pad_zero_def Let_def list_all_iff is_digit_def)

lemma digits_value_pad_zero [simp]: "0 \<le> n \<Longrightarrow> digits_value (pad_zero w n) = nat n"
  by (simp add: pad_zero_def Let_def digits_value_append)

lemma pad_zero_nonempty [simp]: "pad_zero w n \<noteq> []"
  by (simp add: pad_zero_def Let_def)

lemma parse_int_in_digits:
  assumes "list_all is_digit ds" and "ds \<noteq> []" and "lo \<le> int (digits_value ds)" and "int (digits_value ds) \<le> hi"
  shows "parse_int_in lo hi ds = Some (int (digits_value ds))"
proof (cases ds)
  case (Cons c cs)
  with assms(1) have "c \<noteq> CHR ''+''" "c \<noteq> CHR ''-''" by (auto simp: is_digit_def)
  with Cons assms show ?thesis by (auto simp: parse_int_in_def Let_def)
qed (use assms in simp)

lemma parse_i64_pad_zero: "0 \<le> n \<Longrightarrow> n \<le> 9999 \<Longrightarrow> parse_i64 (pad_zero w n) = Some n"
  unfolding parse_i64_def by (subst parse_int_in_digits) (simp_all add: pad_zero_digits)

lemma digit_not_minus: "list_all is_digit ds \<Longrightarrow> c \<in> set ds \<Longrightarrow> \<not> c = CHR ''-''"
  by (auto simp: list_all_iff is_digit_def)

lemma split_format_ymd:
  assumes "0 \<le> y" "0 \<le> m" "0 \<le> d"
  shows "split_on (\<lambda>c. c = CHR ''-'') (format_ymd y m d) = [pad_zero 4 y, pad_zero 2 m, pad_zero 2 d]"
proof -
  note no = digit_not_minus [OF pad_zero_digits]
  have "split_on (\<lambda>c. c = CHR ''-'') (pad_zero 2 d) = [pad_zero 2 d]"
    by (rule split_on_none) (rule no [OF assms(3)])
  then show ?thesis
    using split_on_append_sep [of "pad_zero 4 y" "\<lambda>c. c = CHR ''-''" "CHR ''-''"]
      split_on_append_sep [of "pad_zero 2 m" "\<lambda>c. c = CHR ''-''" "CHR ''-''"] no assms
    by (simp add: format_ymd_def)
qed

lemma max_day_of_le: "max_day_of y m \<le> 31"
  by (simp add: max_day_of_def)

lemma parse_format_ymd:
  assumes "valid_civil y m d" and "0 \<le> y" and "y \<le> 9999"
  shows "parse_date (format_ymd y m d) = Inr (days_from_civil y m d)"
proof -
  have b: "1 \<le> m" "m \<le> 12" "1 \<le> d" "d \<le> max_day_of y m" "d \<le> 9999"
    using assms(1) max_day_of_le [of y m] by (auto simp: valid_civil_def)
  with assms(2,3) show ?thesis
    by (simp add: parse_date_def split_format_ymd parse_i64_pad_zero numeral_eq_Suc days_from_civil_small [OF assms(1)])
qed

text \<open>Whatever the parser accepts is the day number of a valid date.\<close>

lemma parse_date_valid:
  assumes "parse_date t = Inr n"
  shows "\<exists>y m d. valid_civil y m d \<and> n = days_from_civil_i64 y m d"
proof -
  obtain parts where p: "length parts = 3" "\<not> parts ! 1 < 1" "\<not> 12 < parts ! 1"
    "\<not> parts ! 2 < 1" "\<not> max_day_of (parts ! 0) (parts ! 1) < parts ! 2"
    "n = days_from_civil_i64 (parts ! 0) (parts ! 1) (parts ! 2)"
    using assms unfolding parse_date_def Let_def and_then_eq_Inr by (auto split: if_splits)
  then have "valid_civil (parts ! 0) (parts ! 1) (parts ! 2)" by (simp add: valid_civil_def)
  with p(6) show ?thesis by blast
qed

section \<open>Weekdays and Easter\<close>

text \<open>The epoch, 1970-01-01, was a Thursday (weekday 3, counting from Monday).\<close>

lemma weekday_epoch: "weekday (days_from_civil_i64 1970 1 1) = 3"
  by (simp add: weekday_def days_from_civil_i64_def wrap_i64_def)

lemma smod_nonneg: "0 \<le> a \<Longrightarrow> 0 < b \<Longrightarrow> a smod b = a mod (b :: int)"
  by (rule smod_mod_positive) simp_all

text \<open>
  Easter of a year \<open>400 d + 100 e + 4 i + k\<close>: the date is \<open>h + l - 7 m\<close> days after March 22,
  where \<open>l\<close> is chosen modulo 7 so that the day is a Sunday.
\<close>

lemma gregorian_easter_shape:
  assumes "0 \<le> year"
  shows "\<exists>d e i k h l m t. year_split year d e i k
    \<and> 0 \<le> h \<and> h \<le> 29 \<and> 0 \<le> l \<and> l \<le> 6 \<and> 0 \<le> m \<and> m \<le> 1 \<and> (h + l = 35 \<longrightarrow> m = 1)
    \<and> (m = 1 \<longrightarrow> 7 \<le> h + l) \<and> 32 + 2 * e + 2 * i - h - k = 7 * t + l
    \<and> gregorian_easter year = ((h + l - 7 * m + 114) div 31, (h + l - 7 * m + 114) mod 31 + 1)"
proof -
  define a b c where "a = year mod 19" and "b = year div 100" and "c = year mod 100"
  define d e where "d = b div 4" and "e = b mod 4"
  define f where "f = (b + 8) div 25"
  define g where "g = (b - f + 1) div 3"
  define h where "h = (19 * a + b - d - g + 15) mod 30"
  define i k where "i = c div 4" and "k = c mod 4"
  define l where "l = (32 + 2 * e + 2 * i - h - k) mod 7"
  define m where "m = (a + 11 * h + 22 * l) div 451"
  define t where "t = (32 + 2 * e + 2 * i - h - k) div 7"
  have y: "year = 100 * b + c" "b = 4 * d + e" "c = 4 * i + k"
    by (simp_all add: b_def c_def d_def e_def i_def k_def)
  have r: "0 \<le> a" "a < 19" "0 \<le> c" "c < 100" "0 \<le> e" "e < 4" "0 \<le> k" "k < 4"
    "0 \<le> h" "h < 30" "0 \<le> l" "l < 7"
    by (simp_all add: a_def c_def e_def k_def h_def l_def)
  have b: "0 \<le> b" "0 \<le> d" using assms by (simp_all add: b_def d_def pos_imp_zdiv_nonneg_iff)
  have i: "0 \<le> i" "i \<le> 24" using y(3) r by linarith+
  define f' g' m' where "f' = (b + 8) mod 25" and "g' = (b - f + 1) mod 3" and "m' = (a + 11 * h + 22 * l) mod 451"
  have f: "b + 8 = 25 * f + f'" "0 \<le> f'" "f' < 25" and g: "b - f + 1 = 3 * g + g'" "0 \<le> g'" "g' < 3"
    and m: "a + 11 * h + 22 * l = 451 * m + m'" "0 \<le> m'" "m' < 451"
    by (simp_all add: f_def f'_def g_def g'_def m_def m'_def)
  have nn: "0 \<le> b - f + 1" "0 \<le> 19 * a + b - d - g + 15" using f g b y(2) r by linarith+
  have l: "0 \<le> 32 + 2 * e + 2 * i - h - k" using r i by linarith
  have mb: "0 \<le> m" "m \<le> 1" "h + l = 35 \<longrightarrow> m = 1" "m = 1 \<longrightarrow> 7 \<le> h + l" using m r by linarith+
  have v: "0 \<le> h + l - 7 * m + 114" "0 \<le> a + 11 * h + 22 * l" using r mb by linarith+
  have "gregorian_easter year = ((h + l - 7 * m + 114) div 31, (h + l - 7 * m + 114) mod 31 + 1)"
    unfolding gregorian_easter_def Let_def
    using assms b r nn l v
    by (simp only: smod_nonneg sdiv_nonneg flip: a_def b_def c_def d_def e_def)
      (simp add: smod_nonneg sdiv_nonneg flip: f_def g_def h_def i_def k_def l_def m_def)
  moreover have "year_split year d e i k" using y r i by (simp add: year_split_def)
  moreover have "32 + 2 * e + 2 * i - h - k = 7 * t + l" by (simp add: t_def l_def)
  ultimately show ?thesis using r mb by (intro exI conjI) simp_all
qed

lemma easter_day_of_year:
  assumes "114 \<le> v" and "v \<le> 148"
  shows "valid_civil y (v div 31) (v mod 31 + 1)" "2 < v div 31"
    "day_of_year_of (v div 31) (v mod 31 + 1) = v - 93"
proof -
  have "v div 31 = 3 \<and> v mod 31 = v - 93 \<or> v div 31 = 4 \<and> v mod 31 = v - 124"
  proof (cases "v < 124")
    case True
    then have "v div 31 = 3" using assms by (intro div_eqI) simp_all
    then show ?thesis by (simp add: minus_div_mult_eq_mod [symmetric])
  next
    case False
    then have "v div 31 = 4" using assms by (intro div_eqI) simp_all
    then show ?thesis by (simp add: minus_div_mult_eq_mod [symmetric])
  qed
  then show "valid_civil y (v div 31) (v mod 31 + 1)" "2 < v div 31"
    "day_of_year_of (v div 31) (v mod 31 + 1) = v - 93"
    using assms by (auto simp: valid_civil_def max_day_of_def day_of_year_of_def month_prime_of_def)
qed

lemma gregorian_easter_sunday:
  assumes "0 \<le> year" and "gregorian_easter year = (month, day)"
  shows "valid_civil year month day" and "(days_from_civil year month day + 3) mod 7 = 6"
proof -
  obtain d e i k h l m t where y: "year_split year d e i k"
    and b: "0 \<le> h" "h \<le> 29" "0 \<le> l" "l \<le> 6" "0 \<le> m" "m \<le> 1" "h + l = 35 \<longrightarrow> m = 1" "m = 1 \<longrightarrow> 7 \<le> h + l"
    and t: "32 + 2 * e + 2 * i - h - k = 7 * t + l"
    and easter: "gregorian_easter year = ((h + l - 7 * m + 114) div 31, (h + l - 7 * m + 114) mod 31 + 1)"
    using gregorian_easter_shape [OF assms(1)] by blast
  define v where "v = h + l - 7 * m + 114"
  have "h + l - 7 * m \<le> 34" "0 \<le> h + l - 7 * m" using b by (cases "m = 1"; simp)+
  then have v: "114 \<le> v" "v \<le> 148" by (simp_all add: v_def)
  have md: "month = v div 31" "day = v mod 31 + 1"
    using easter assms(2) by (simp_all add: v_def)
  note E = easter_day_of_year(1) [OF v, of year, folded md] easter_day_of_year(2,3) [OF v, folded md]
  show "valid_civil year month day" by (rule E)
  have "year_split (year - of_bool (month \<le> 2)) d e i k" using y E(2) by simp
  note days = days_from_civil_split [OF E(1) this, unfolded E(3)]
  define K where "K = 20871 * d + 5218 * e + 209 * i + 52 * k - m - t - 102774"
  have "days_from_civil year month day + 3 = 7 * K + 6"
    using days t by (simp add: v_def K_def)
  then show "(days_from_civil year month day + 3) mod 7 = 6" by simp
qed

lemma easter_weekday:
  assumes "0 \<le> year" "year \<le> 9999" "gregorian_easter year = (month, day)"
  shows "weekday (days_from_civil_i64 year month day) = 6"
proof -
  note easter = gregorian_easter_sunday [OF assms(1,3)]
  have "\<bar>year\<bar> \<le> 25 * 10 ^ 15" using assms by simp
  note small = days_from_civil_small [OF easter(1) this]
  have "wrap_i64 (days_from_civil year month day + 3) = days_from_civil year month day + 3"
    using small(2,3) by (intro wrap_i64_id) simp_all
  with easter(2) small(1) show ?thesis by (simp add: weekday_def)
qed

section \<open>Operating days\<close>

text \<open>The parser never fails on the Easter date of a year that \<open>{:04}\<close> prints with four digits.\<close>

lemma is_target_operating_day_total:
  assumes "civil_date_from_days_i64 n = (y, m, d)" and "0 \<le> y" and "y \<le> 9999"
  shows "\<exists>b. is_target_operating_day n = Inr b"
proof (cases "gregorian_easter y")
  case (Pair em ed)
  with gregorian_easter_sunday(1) [OF assms(2)] assms show ?thesis
    by (auto simp: is_target_operating_day_def parse_format_ymd)
qed

text \<open>No Saturday or Sunday is an operating day, nor Good Friday or Easter Monday.\<close>

lemma is_target_operating_day_weekend: "5 \<le> weekday n \<Longrightarrow> is_target_operating_day n = Inr False"
  by (simp add: is_target_operating_day_def)

definition operating :: "int \<Rightarrow> bool" where
  "operating n \<longleftrightarrow> is_target_operating_day n = Inr True"

lemma count_operating_days_count:
  "count_operating_days date through count = Inr n \<Longrightarrow>
     n = count + card {day \<in> {date..through}. operating day}"
proof (induction date through count arbitrary: n rule: count_operating_days.induct)
  case (1 date through count)
  show ?case
  proof (cases "date \<le> through")
    case False
    with 1(2) show ?thesis by (simp add: count_operating_days.simps)
  next
    case True
    with 1(2) obtain b where b: "is_target_operating_day date = Inr b"
      and rest: "count_operating_days (date + 1) through (if b then count + 1 else count) = Inr n"
      by (subst (asm) count_operating_days.simps) (auto simp: result_simps)
    define S where "S = {day \<in> {date + 1..through}. operating day}"
    have S: "{day \<in> {date..through}. operating day} = (if b then insert date S else S)"
      using True b by (auto simp: operating_def S_def) (metis add1_zle_eq order_le_less sum.inject(2))+
    have "finite S" by (rule finite_subset [of _ "{date + 1..through}"]) (auto simp: S_def)
    moreover have "date \<notin> S" by (simp add: S_def)
    ultimately
    show ?thesis using 1(1) [OF True rest] unfolding S S_def [symmetric] by (cases b) simp_all
  qed
qed

lemma count_operating_days_total:
  assumes "\<And>n. date \<le> n \<Longrightarrow> n \<le> through \<Longrightarrow> \<exists>b. is_target_operating_day n = Inr b"
  shows "\<exists>n. count_operating_days date through count = Inr n"
  using assms
proof (induction date through count rule: count_operating_days.induct)
  case (1 date through count)
  show ?case
  proof (cases "date \<le> through")
    case True
    with 1(2) obtain b where b: "is_target_operating_day date = Inr b" by blast
    have "\<exists>n. count_operating_days (date + 1) through (if b then count + 1 else count) = Inr n"
      using 1(2) by (intro 1(1) [OF True]) auto
    with True b show ?thesis by (subst count_operating_days.simps) simp
  next
    case False
    then show ?thesis by (subst count_operating_days.simps) simp
  qed
qed

end
