(* ===== verification/Valuation.thy ===== *)
theory Valuation
  imports OrderedMap CivilDate
begin

text \<open>
  Exchange rates, the valuation of a transaction and its projection on accounts and
  categories, as in \<open>server/src/finance_model.rs\<close>. Currencies and dates are strings, as in
  the source; dates compare as strings.
\<close>

section \<open>Exchange rates\<close>

definition SOURCE_FX_ADJUSTMENT :: string where
  "SOURCE_FX_ADJUSTMENT = ''1.02''"

record rate_observation =
  obs_currency :: string
  obs_date :: string
  currency_units_per_eur :: string

record selected_rate =
  rate_quote :: string
  rate_date :: "string option"
  stale_business_days :: nat

text \<open>\<open>Iterator::max_by\<close>: of several greatest elements the last one is returned.\<close>

definition last_max :: "('a \<Rightarrow> 'b::linorder) \<Rightarrow> 'a list \<Rightarrow> 'a option" where
  "last_max key xs =
     (case xs of [] \<Rightarrow> None
      | x # rest \<Rightarrow> Some (foldl (\<lambda>best y. if key y < key best then best else y) x rest))"

definition select_prior_rate :: "string \<Rightarrow> string \<Rightarrow> rate_observation list \<Rightarrow> selected_rate result" where
  "select_prior_rate currency as_of observations =
     (if currency = ''EUR''
      then Inr \<lparr>rate_quote = ''1'', rate_date = None, stale_business_days = 0\<rparr>
      else
        and_then (ok_or (last_max obs_date
            (filter (\<lambda>r. obs_currency r = currency \<and> obs_date r \<le> as_of) observations))
          (''no prior ECB observation for '' @ currency)) (\<lambda>selected.
        and_then (decimal_parse (currency_units_per_eur selected)) (\<lambda>quote.
          if coefficient quote \<le> 0 then Inl ''ECB quote must be positive''
          else and_then (target_business_days_between (obs_date selected) as_of) (\<lambda>days.
            Inr \<lparr>rate_quote = currency_units_per_eur selected,
                 rate_date = Some (obs_date selected),
                 stale_business_days = days\<rparr>))))"

definition account_balance_eur ::
  "string \<Rightarrow> string \<Rightarrow> string \<Rightarrow> rate_observation list \<Rightarrow> string result" where
  "account_balance_eur native_balance currency as_of observations =
     and_then (decimal_parse native_balance) (\<lambda>balance.
     and_then (select_prior_rate currency as_of observations) (\<lambda>rate.
     and_then (decimal_parse (rate_quote rate)) (\<lambda>quote.
     and_then (ratio_divide (decimal_as_ratio balance) (decimal_as_ratio quote)) (\<lambda>r.
     Inr (decimal_format (ratio_round_decimal r 2 POSTING_ROUNDING_MODE))))))"

section \<open>Valuation of a transaction\<close>

record side_valuation =
  amount_native :: string
  amount_eur :: string
  exchange_to_eur_numerator :: string
  exchange_to_eur_denominator :: string
  exchange_to_native_numerator :: string
  exchange_to_native_denominator :: string
  applied_rate_dates :: "(string, string option) btree"
  stale :: bool

record transaction_valuation =
  from_side :: side_valuation
  to_side :: side_valuation

definition ratio_one :: ratio where
  "ratio_one = \<lparr>numerator = 1, denominator = 1\<rparr>"

text \<open>The arithmetic of the source side: the rates to EUR and to the account's currency.\<close>

definition source_rates ::
  "string \<Rightarrow> string \<Rightarrow> decimal \<Rightarrow> ratio \<Rightarrow> ratio \<Rightarrow> (ratio \<times> ratio) result" where
  "source_rates input_currency from_account_currency source_adjustment input_quote from_account_quote =
     (let adjustment = decimal_as_ratio source_adjustment in
      and_then (ratio_divide adjustment input_quote) (\<lambda>from_eur_rate.
      and_then (if input_currency = from_account_currency then Inr ratio_one
                else ratio_divide (ratio_multiply adjustment from_account_quote) input_quote)
        (\<lambda>from_native_rate. Inr (from_eur_rate, from_native_rate))))"

definition calculate_valuation ::
  "string \<Rightarrow> string \<Rightarrow> string \<Rightarrow> string \<Rightarrow> string \<Rightarrow> string \<Rightarrow> rate_observation list
    \<Rightarrow> rounding_mode \<Rightarrow> transaction_valuation result" where
  "calculate_valuation amount_text input_currency from_account_currency to_amount_text
       to_account_currency as_of observations rounding =
     and_then (decimal_parse amount_text) (\<lambda>amt.
     and_then (decimal_parse to_amount_text) (\<lambda>to_amount.
     and_then (select_prior_rate input_currency as_of observations) (\<lambda>input_rate.
     and_then (select_prior_rate from_account_currency as_of observations) (\<lambda>from_account_rate.
     and_then (select_prior_rate to_account_currency as_of observations) (\<lambda>to_account_rate.
     and_then (decimal_parse (if input_currency = ''EUR'' then ''1'' else SOURCE_FX_ADJUSTMENT))
       (\<lambda>source_adjustment.
     and_then (decimal_parse (rate_quote input_rate)) (\<lambda>input_decimal.
     and_then (decimal_parse (rate_quote from_account_rate)) (\<lambda>from_account_decimal.
     and_then (decimal_parse (rate_quote to_account_rate)) (\<lambda>to_account_decimal.
     and_then (source_rates input_currency from_account_currency source_adjustment
         (decimal_as_ratio input_decimal) (decimal_as_ratio from_account_decimal))
       (\<lambda>(from_eur_rate, from_native_rate).
     and_then (ratio_divide ratio_one (decimal_as_ratio to_account_decimal)) (\<lambda>to_eur_rate.
       let source_amount = decimal_as_ratio amt;
           from_eur = decimal_format (ratio_round_decimal (ratio_multiply source_amount from_eur_rate) 2 rounding);
           from_native = decimal_format (ratio_round_decimal (ratio_multiply source_amount from_native_rate) 2 rounding);
           to_eur = decimal_format (ratio_round_decimal
             (ratio_multiply (decimal_as_ratio to_amount) to_eur_rate) 2 rounding);
           to_native = decimal_format (decimal_round_decimal to_amount 2 rounding);
           dates = bt_collect [(input_currency, rate_date input_rate),
             (from_account_currency, rate_date from_account_rate),
             (to_account_currency, rate_date to_account_rate)];
           is_stale = list_ex (\<lambda>days. 3 < days) [stale_business_days input_rate,
             stale_business_days from_account_rate, stale_business_days to_account_rate]
       in Inr \<lparr>
         from_side = \<lparr>amount_native = from_native, amount_eur = from_eur,
           exchange_to_eur_numerator = int_to_string (numerator from_eur_rate),
           exchange_to_eur_denominator = int_to_string (denominator from_eur_rate),
           exchange_to_native_numerator = int_to_string (numerator from_native_rate),
           exchange_to_native_denominator = int_to_string (denominator from_native_rate),
           applied_rate_dates = dates, stale = is_stale\<rparr>,
         to_side = \<lparr>amount_native = to_native, amount_eur = to_eur,
           exchange_to_eur_numerator = int_to_string (numerator to_eur_rate),
           exchange_to_eur_denominator = int_to_string (denominator to_eur_rate),
           exchange_to_native_numerator = ''1'', exchange_to_native_denominator = ''1'',
           applied_rate_dates = dates, stale = is_stale\<rparr>\<rparr>)))))))))))"

section \<open>Projection on accounts and categories\<close>

record transaction_effect =
  from_account_id :: "string option"
  to_account_id :: "string option"
  from_category_id :: "string option"
  to_category_id :: "string option"
  effect_kind :: string
  effect_amount :: string
  effect_valuation :: transaction_valuation

record projection =
  account_deltas :: "(string, string) btree"
  category_expense_deltas :: "(string, string) btree"
  reallocation_impacts :: "(string, string) btree"

text \<open>\<open>add_delta\<close>: an entry that does not parse counts as zero.\<close>

definition add_delta :: "(string, string) btree \<Rightarrow> string \<Rightarrow> decimal \<Rightarrow> (string, string) btree" where
  "add_delta m key delta =
     (let current = (case bt_get m key of
            None \<Rightarrow> \<lparr>coefficient = 0, scale = 0\<rparr>
          | Some value \<Rightarrow> unwrap_or (ok (decimal_parse value)) \<lparr>coefficient = 0, scale = 0\<rparr>)
      in bt_insert key (decimal_format (decimal_add current delta)) m)"

text \<open>\<open>if let Some(id) = ...\<close> around one \<open>add_delta\<close> of a parsed amount.\<close>

definition add_parsed ::
  "string option \<Rightarrow> string \<Rightarrow> (decimal \<Rightarrow> decimal) \<Rightarrow> (string, string) btree \<Rightarrow> (string, string) btree result" where
  "add_parsed key text f m =
     (case key of None \<Rightarrow> Inr m
      | Some k \<Rightarrow> and_then (decimal_parse text) (\<lambda>d. Inr (add_delta m k (f d))))"

definition add_optional :: "string option \<Rightarrow> decimal \<Rightarrow> (string, string) btree \<Rightarrow> (string, string) btree" where
  "add_optional key d m = (case key of None \<Rightarrow> m | Some k \<Rightarrow> add_delta m k d)"

definition decimal_abs :: "decimal \<Rightarrow> decimal" where
  "decimal_abs d = (if coefficient d < 0 then decimal_negated d else d)"

definition project_transaction :: "transaction_effect \<Rightarrow> projection result" where
  "project_transaction e =
     (let fs = from_side (effect_valuation e); ts = to_side (effect_valuation e) in
      and_then (add_parsed (from_account_id e) (amount_native fs) decimal_negated []) (\<lambda>accounts1.
      and_then (add_parsed (to_account_id e) (amount_native ts) id accounts1) (\<lambda>accounts2.
      and_then (add_parsed (from_category_id e) (amount_eur fs) id []) (\<lambda>expenses1.
      and_then (add_parsed (to_category_id e) (amount_eur ts) decimal_negated expenses1) (\<lambda>expenses2.
      and_then (if effect_kind e = ''reallocate''
          then and_then (decimal_parse (effect_amount e)) (\<lambda>d.
            let absolute = decimal_abs d
            in Inr (add_optional (to_category_id e) (decimal_negated absolute)
                 (add_optional (from_category_id e) absolute [])))
          else Inr []) (\<lambda>impacts.
      Inr \<lparr>account_deltas = accounts2, category_expense_deltas = expenses2,
           reallocation_impacts = impacts\<rparr>))))))"

definition project_open_budget :: "string \<Rightarrow> string \<Rightarrow> string \<Rightarrow> bool \<Rightarrow> (string \<times> string) result" where
  "project_open_budget current_expense current_remaining expense_delta is_month_open =
     and_then (decimal_parse current_expense) (\<lambda>expense.
     and_then (decimal_parse current_remaining) (\<lambda>remaining.
       if \<not> is_month_open then Inr (decimal_format expense, decimal_format remaining)
       else and_then (decimal_parse expense_delta) (\<lambda>delta.
         Inr (decimal_format (decimal_add expense delta),
              decimal_format (decimal_add remaining (decimal_negated delta))))))"

section \<open>Which observation is selected\<close>

lemma last_max_foldl:
  "\<exists>pre post. x # xs = pre @ foldl (\<lambda>best y. if key y < key best then best else y) x xs # post
     \<and> (\<forall>y\<in>set pre. key y \<le> (key (foldl (\<lambda>best y. if key y < key best then best else y) x xs) :: 'b::linorder))
     \<and> (\<forall>y\<in>set post. key y < key (foldl (\<lambda>best y. if key y < key best then best else y) x xs))"
proof (induction xs rule: rev_induct)
  case Nil
  show ?case by (intro exI [of _ "[]"]) simp
next
  case (snoc y xs)
  let ?b = "foldl (\<lambda>best y. if key y < key best then best else y) x xs"
  from snoc obtain pre post where p: "x # xs = pre @ ?b # post"
    "\<forall>y\<in>set pre. key y \<le> key ?b" "\<forall>y\<in>set post. key y < key ?b" by blast
  show ?case
  proof (cases "key y < key ?b")
    case True
    with p show ?thesis by (intro exI [of _ pre] exI [of _ "post @ [y]"]) auto
  next
    case False
    with p show ?thesis by (intro exI [of _ "x # xs"] exI [of _ "[]"]) fastforce
  qed
qed

lemma last_max_split:
  assumes "last_max key xs = Some m"
  shows "\<exists>pre post. xs = pre @ m # post \<and> (\<forall>y\<in>set pre. key y \<le> key m) \<and> (\<forall>y\<in>set post. key y < key m)"
  using assms last_max_foldl [of _ _ key] by (cases xs) (auto simp: last_max_def)

lemma last_max_snoc:
  "last_max key (xs @ [y]) = Some (case last_max key xs of None \<Rightarrow> y | Some b \<Rightarrow> if key y < key b then b else y)"
  by (cases xs) (simp_all add: last_max_def)

lemma last_max_None: "last_max key xs = None \<longleftrightarrow> xs = []"
  by (simp add: last_max_def split: list.split)

lemma last_max_in: "last_max key xs = Some m \<Longrightarrow> m \<in> set xs \<and> (\<forall>y\<in>set xs. key y \<le> key m)"
  by (drule last_max_split) (auto simp: less_le)

lemma select_prior_rate_cases:
  assumes "select_prior_rate currency as_of observations = Inr s" and "currency \<noteq> ''EUR''"
  obtains r q where "r \<in> set observations" "obs_currency r = currency" "obs_date r \<le> as_of"
    "\<forall>x\<in>set observations. obs_currency x = currency \<and> obs_date x \<le> as_of \<longrightarrow> obs_date x \<le> obs_date r"
    "rate_quote s = currency_units_per_eur r" "rate_date s = Some (obs_date r)"
    "decimal_parse (currency_units_per_eur r) = Inr q" "0 < coefficient q"
    "target_business_days_between (obs_date r) as_of = Inr (stale_business_days s)"
  using assms
  by (fastforce simp: select_prior_rate_def result_simps not_le split: if_splits dest!: last_max_in)

lemma parse_one: "decimal_parse ''1'' = Inr \<lparr>coefficient = 1, scale = 0\<rparr>"
  by (rule parse_literal) (code_simp, simp add: canonical_def)

lemma parse_adjustment: "decimal_parse SOURCE_FX_ADJUSTMENT = Inr \<lparr>coefficient = 102, scale = 2\<rparr>"
  unfolding SOURCE_FX_ADJUSTMENT_def by (rule parse_literal) (code_simp, simp add: canonical_def)

text \<open>A selected quote is a positive decimal.\<close>

lemma select_prior_rate_positive:
  assumes "select_prior_rate currency as_of observations = Inr s"
  obtains q where "decimal_parse (rate_quote s) = Inr q" "0 < dec_value q" "0 < text_value (rate_quote s)"
proof (cases "currency = ''EUR''")
  case True
  with assms that [of "\<lparr>coefficient = 1, scale = 0\<rparr>"] show ?thesis
    by (auto simp: select_prior_rate_def parse_one dec_value_def)
next
  case False
  from assms False show ?thesis
    by (rule select_prior_rate_cases) (rule that, auto simp: dec_value_def)
qed

text \<open>Observations after the date do not matter.\<close>

lemma select_prior_rate_future:
  "select_prior_rate currency as_of (filter (\<lambda>r. obs_date r \<le> as_of) observations)
     = select_prior_rate currency as_of observations"
  by (simp add: select_prior_rate_def conj_commute conj_left_commute)

section \<open>Amounts in EUR\<close>

lemma ratio_value_one [money_simps]: "ratio_value ratio_one = 1" and ratio_ok_one [simp]: "ratio_ok ratio_one"
  by (simp_all add: ratio_one_def ratio_value_def ratio_ok_def)

lemma account_balance_eur_nearest:
  assumes "account_balance_eur native currency as_of observations = Inr t"
  obtains s where "select_prior_rate currency as_of observations = Inr s"
    "canonical_text t"
    "200 * \<bar>text_value t - text_value native / text_value (rate_quote s)\<bar> \<le> 1"
proof -
  obtain b s q r where b: "decimal_parse native = Inr b" and s: "select_prior_rate currency as_of observations = Inr s"
    and q: "decimal_parse (rate_quote s) = Inr q" and r: "ratio_divide (decimal_as_ratio b) (decimal_as_ratio q) = Inr r"
    and t: "t = decimal_format (ratio_round_decimal r 2 POSTING_ROUNDING_MODE)"
    using assms by (auto simp: account_balance_eur_def result_simps)
  have "ratio_value r = dec_value b / dec_value q" "ratio_ok r"
    using ratio_divide_value [OF r] by (simp_all add: money_simps)
  with round_2_value [of r, OF _ posting_mode] b q t s that show ?thesis by (simp add: canonical_round)
qed


text \<open>A whole amount in EUR is its own value.\<close>

lemma account_balance_eur_whole: "account_balance_eur (whole z) ''EUR'' date observations = Inr (whole z)"
proof -
  have one: "dec_value \<lparr>coefficient = 1, scale = 0\<rparr> = 1" and z: "dec_value \<lparr>coefficient = z, scale = 0\<rparr> = of_int z"
    by (simp_all add: dec_value_def)
  then obtain r where r: "ratio_divide (decimal_as_ratio \<lparr>coefficient = z, scale = 0\<rparr>)
      (decimal_as_ratio \<lparr>coefficient = 1, scale = 0\<rparr>) = Inr r"
    using ratio_divide_Inr_iff [of "decimal_as_ratio \<lparr>coefficient = 1, scale = 0\<rparr>"] by (auto simp: money_simps)
  have "ratio_value r = of_int z" "ratio_ok r"
    using ratio_divide_value [OF r] one z by (simp_all add: money_simps)
  then have "rounded_coefficient r 2 POSTING_ROUNDING_MODE = z * 100"
    by (intro round_exact) simp_all
  then have "decimal_format (ratio_round_decimal r 2 POSTING_ROUNDING_MODE) = whole z"
    by (intro money.canon_unique) (simp_all add: canonical_round dec_value_round)
  with r show ?thesis
    by (simp add: account_balance_eur_def select_prior_rate_def whole_parse parse_one)
qed

section \<open>Valuations are exact up to posting precision\<close>

text \<open>The rates of a currency, as numbers.\<close>

definition rate_of :: "string \<Rightarrow> string \<Rightarrow> rate_observation list \<Rightarrow> rat" where
  "rate_of currency as_of observations =
     (case select_prior_rate currency as_of observations of
        Inl _ \<Rightarrow> 0 | Inr s \<Rightarrow> text_value (rate_quote s))"

definition source_adjustment_of :: "string \<Rightarrow> rat" where
  "source_adjustment_of currency = (if currency = ''EUR'' then 1 else 102 / 100)"

lemma source_rates_value:
  assumes "source_rates ic fc adj iq fq = Inr (e, n)" and "ratio_ok iq" and "ratio_ok fq"
  shows "ratio_ok e" "ratio_value e = dec_value adj / ratio_value iq"
    "ratio_ok n" "ratio_value n = (if ic = fc then 1 else dec_value adj * ratio_value fq / ratio_value iq)"
proof -
  from assms(1) have e: "ratio_divide (decimal_as_ratio adj) iq = Inr e"
    and n: "ic = fc \<Longrightarrow> n = ratio_one"
      "ic \<noteq> fc \<Longrightarrow> ratio_divide (ratio_multiply (decimal_as_ratio adj) fq) iq = Inr n"
    by (auto simp: source_rates_def Let_def result_simps split: if_splits)
  show "ratio_ok e" "ratio_value e = dec_value adj / ratio_value iq"
    using ratio_divide_value [OF e] assms(2) by (simp_all add: money_simps)
  show "ratio_ok n" "ratio_value n = (if ic = fc then 1 else dec_value adj * ratio_value fq / ratio_value iq)"
    using n ratio_divide_value [OF n(2)] assms(2,3) by (cases "ic = fc"; simp add: money_simps)+
qed

definition nearest_cent :: "string \<Rightarrow> rat \<Rightarrow> bool" where
  "nearest_cent t x \<longleftrightarrow> canonical_text t \<and> 200 * \<bar>text_value t - x\<bar> \<le> 1"

lemma nearest_cent_round:
  "ratio_ok r \<Longrightarrow> mode \<noteq> TowardZero \<Longrightarrow> nearest_cent (decimal_format (ratio_round_decimal r 2 mode)) (ratio_value r)"
  using round_2_value [of r mode] by (simp add: nearest_cent_def canonical_round)

lemma calculate_valuation_cases:
  assumes "calculate_valuation a ic fc b tc as_of obs mode = Inr v"
  obtains da db ri rf rt di df dt e n t where
    "decimal_parse a = Inr da" "decimal_parse b = Inr db"
    "select_prior_rate ic as_of obs = Inr ri" "select_prior_rate fc as_of obs = Inr rf"
    "select_prior_rate tc as_of obs = Inr rt"
    "decimal_parse (rate_quote ri) = Inr di" "decimal_parse (rate_quote rf) = Inr df"
    "decimal_parse (rate_quote rt) = Inr dt"
    "ratio_ok e" "ratio_value e = source_adjustment_of ic / dec_value di"
    "ratio_ok n" "ratio_value n = (if ic = fc then 1 else source_adjustment_of ic * dec_value df / dec_value di)"
    "ratio_ok t" "ratio_value t = 1 / dec_value dt"
    "amount_eur (from_side v) = decimal_format (ratio_round_decimal (ratio_multiply (decimal_as_ratio da) e) 2 mode)"
    "amount_native (from_side v) = decimal_format (ratio_round_decimal (ratio_multiply (decimal_as_ratio da) n) 2 mode)"
    "amount_eur (to_side v) = decimal_format (ratio_round_decimal (ratio_multiply (decimal_as_ratio db) t) 2 mode)"
    "amount_native (to_side v) = decimal_format (ratio_round_decimal (decimal_as_ratio db) 2 mode)"
    "stale (from_side v) \<longleftrightarrow> 3 < stale_business_days ri \<or> 3 < stale_business_days rf \<or> 3 < stale_business_days rt"
    "stale (to_side v) = stale (from_side v)"
proof -
  obtain da db ri rf rt adj di df dt x t where p:
    "decimal_parse a = Inr da" "decimal_parse b = Inr db"
    "select_prior_rate ic as_of obs = Inr ri" "select_prior_rate fc as_of obs = Inr rf"
    "select_prior_rate tc as_of obs = Inr rt"
    "decimal_parse (if ic = ''EUR'' then ''1'' else SOURCE_FX_ADJUSTMENT) = Inr adj"
    "decimal_parse (rate_quote ri) = Inr di" "decimal_parse (rate_quote rf) = Inr df"
    "decimal_parse (rate_quote rt) = Inr dt"
    "source_rates ic fc adj (decimal_as_ratio di) (decimal_as_ratio df) = Inr x"
    "ratio_divide ratio_one (decimal_as_ratio dt) = Inr t"
    "amount_eur (from_side v) = decimal_format (ratio_round_decimal (ratio_multiply (decimal_as_ratio da) (fst x)) 2 mode)"
    "amount_native (from_side v) = decimal_format (ratio_round_decimal (ratio_multiply (decimal_as_ratio da) (snd x)) 2 mode)"
    "amount_eur (to_side v) = decimal_format (ratio_round_decimal (ratio_multiply (decimal_as_ratio db) t) 2 mode)"
    "amount_native (to_side v) = decimal_format (ratio_round_decimal (decimal_as_ratio db) 2 mode)"
    "stale (from_side v) \<longleftrightarrow> 3 < stale_business_days ri \<or> 3 < stale_business_days rf \<or> 3 < stale_business_days rt"
    "stale (to_side v) = stale (from_side v)"
    using assms unfolding calculate_valuation_def and_then_eq_Inr case_prod_beta Let_def decimal_round_decimal_def
    by (elim exE conjE) (rule that, assumption+, auto)
  obtain e n where x: "x = (e, n)" by (cases x)
  note p = p [unfolded x fst_conv snd_conv]
  have adj: "dec_value adj = source_adjustment_of ic"
    using p(6) by (auto simp: parse_one parse_adjustment source_adjustment_of_def dec_value_def split: if_splits)
  note sr = source_rates_value [OF p(10) ratio_ok_as_ratio ratio_ok_as_ratio]
  note td = ratio_divide_value [OF p(11) ratio_ok_one ratio_ok_as_ratio]
  show ?thesis
    by (rule that [OF p(1-5,7-9)]; (rule p)?) (use sr td adj in \<open>simp_all add: money_simps\<close>)
qed

section \<open>Projections\<close>

lemma ok_Some_iff: "ok m = Some x \<longleftrightarrow> m = Inr x"
  by (cases m) simp_all

lemma add_delta_entry:
  assumes "canonical d"
  shows "bt_entry (add_delta m k d) j = bt_entry m j + (if j = k then dec_value d else 0)"
    and "bt_ok m \<Longrightarrow> bt_ok (add_delta m k d)"
proof -
  define c where "c = (case bt_get m k of None \<Rightarrow> \<lparr>coefficient = 0, scale = 0\<rparr>
      | Some value \<Rightarrow> unwrap_or (ok (decimal_parse value)) \<lparr>coefficient = 0, scale = 0\<rparr>)"
  have zero: "canonical \<lparr>coefficient = 0, scale = 0\<rparr>" by (simp add: canonical_def)
  have "canonical c \<and> dec_value c = bt_entry m k"
  proof (cases "bt_get m k")
    case (Some t)
    then show ?thesis
      by (cases "decimal_parse t") (simp_all add: c_def zero dec_value_zero bt_entry_def text_value_def parse_canonical)
  qed (simp add: c_def zero dec_value_zero bt_entry_def)
  then have c: "canonical c" "dec_value c = bt_entry m k" by auto
  have eq: "add_delta m k d = bt_insert k (decimal_format (decimal_add c d)) m"
    by (simp add: add_delta_def c_def Let_def)
  have "text_value (decimal_format (decimal_add c d)) = bt_entry m k + dec_value d"
    using c assms by (simp add: canonical_add money_simps)
  then show "bt_entry (add_delta m k d) j = bt_entry m j + (if j = k then dec_value d else 0)"
    unfolding eq by (simp add: bt_entry_def bt_get_insert)
  show "bt_ok m \<Longrightarrow> bt_ok (add_delta m k d)" unfolding eq by (rule bt_ok_insert)
qed

lemma add_parsed_entry:
  assumes "add_parsed key t f m = Inr m'" and "\<And>d. canonical d \<Longrightarrow> canonical (f d)"
    and "\<And>d. dec_value (f d) = c * dec_value d"
  shows "bt_entry m' j = bt_entry m j + (if key = Some j then c * text_value t else 0)"
  using assms(1)
  by (auto simp: add_parsed_def result_simps add_delta_entry assms(2,3) parse_canonical split: option.splits)

lemma add_optional_entry:
  "canonical d \<Longrightarrow> bt_entry (add_optional key d m) j = bt_entry m j + (if key = Some j then dec_value d else 0)"
  by (auto simp: add_optional_def add_delta_entry split: option.split)

lemma dec_value_abs: "dec_value (decimal_abs d) = \<bar>dec_value d\<bar>"
  by (auto simp: decimal_abs_def money_simps) (auto simp: dec_value_def abs_if divide_less_0_iff)

lemma canonical_abs: "canonical d \<Longrightarrow> canonical (decimal_abs d)"
  by (simp add: decimal_abs_def)

lemma bt_entry_empty [simp]: "bt_entry [] j = 0"
  by (simp add: bt_entry_def)

lemma project_transaction_entries:
  assumes "project_transaction e = Inr p"
  defines "fs \<equiv> from_side (effect_valuation e)" and "ts \<equiv> to_side (effect_valuation e)"
  shows "bt_entry (account_deltas p) j =
      (if to_account_id e = Some j then text_value (amount_native ts) else 0)
      - (if from_account_id e = Some j then text_value (amount_native fs) else 0)"
    and "bt_entry (category_expense_deltas p) j =
      (if from_category_id e = Some j then text_value (amount_eur fs) else 0)
      - (if to_category_id e = Some j then text_value (amount_eur ts) else 0)"
    and "bt_entry (reallocation_impacts p) j =
      (if effect_kind e = ''reallocate'' then
         (if from_category_id e = Some j then \<bar>text_value (effect_amount e)\<bar> else 0)
         - (if to_category_id e = Some j then \<bar>text_value (effect_amount e)\<bar> else 0)
       else 0)"
proof -
  obtain a1 a2 x1 x2 im where
    a1: "add_parsed (from_account_id e) (amount_native fs) decimal_negated [] = Inr a1" and
    a2: "add_parsed (to_account_id e) (amount_native ts) id a1 = Inr a2" and
    x1: "add_parsed (from_category_id e) (amount_eur fs) id [] = Inr x1" and
    x2: "add_parsed (to_category_id e) (amount_eur ts) decimal_negated x1 = Inr x2" and
    im: "(if effect_kind e = ''reallocate''
          then and_then (decimal_parse (effect_amount e)) (\<lambda>d.
            Inr (add_optional (to_category_id e) (decimal_negated (decimal_abs d))
                 (add_optional (from_category_id e) (decimal_abs d) [])))
          else Inr []) = Inr im" and
    p: "p = \<lparr>account_deltas = a2, category_expense_deltas = x2, reallocation_impacts = im\<rparr>"
    using assms(1) unfolding project_transaction_def Let_def fs_def [symmetric] ts_def [symmetric]
      and_then_eq_Inr by (elim exE conjE) (rule that, assumption+, auto simp: and_then_eq_Inr)
  note neg = add_parsed_entry [where f = decimal_negated and c = "- 1"]
  note pos = add_parsed_entry [where f = id and c = 1]
  show "bt_entry (account_deltas p) j =
      (if to_account_id e = Some j then text_value (amount_native ts) else 0)
      - (if from_account_id e = Some j then text_value (amount_native fs) else 0)"
    using neg [OF a1] pos [OF a2] by (simp add: p money_simps)
  show "bt_entry (category_expense_deltas p) j =
      (if from_category_id e = Some j then text_value (amount_eur fs) else 0)
      - (if to_category_id e = Some j then text_value (amount_eur ts) else 0)"
    using pos [OF x1] neg [OF x2] by (simp add: p money_simps)
  show "bt_entry (reallocation_impacts p) j =
      (if effect_kind e = ''reallocate'' then
         (if from_category_id e = Some j then \<bar>text_value (effect_amount e)\<bar> else 0)
         - (if to_category_id e = Some j then \<bar>text_value (effect_amount e)\<bar> else 0)
       else 0)"
    using im
    by (auto simp: p result_simps add_optional_entry canonical_abs dec_value_abs money_simps
        parse_canonical split: if_splits)
qed

lemma project_open_budget_open:
  assumes "project_open_budget expense remaining delta True = Inr (e', r')"
  shows "text_value e' = text_value expense + text_value delta"
    and "text_value r' = text_value remaining - text_value delta"
    and "canonical_text e' \<and> canonical_text r'"
  using assms by (auto simp: project_open_budget_def result_simps money_simps canonical_add parse_canonical)

lemma project_open_budget_closed:
  assumes "project_open_budget expense remaining delta False = Inr (e', r')"
  shows "text_value e' = text_value expense" and "text_value r' = text_value remaining"
  using assms by (auto simp: project_open_budget_def result_simps parse_canonical)

end
