(* ===== verification/Platform.thy ===== *)
theory Platform
  imports CivilDate OrderedMap
begin

text \<open>
  The third-party code that the budget modules call, as parameters. \<open>chrono\<close> collects the
  operations of the \<open>chrono\<close> crate that \<open>budget.rs\<close> and \<open>budget_ledger.rs\<close> use on dates
  (\<open>'d\<close> is its date type); nothing is assumed of them in a definition. What the code
  relies on (the months that are formatted back are consecutive and sort as strings in
  calendar order up to the year 9999) is the locale \<open>month_calendar\<close>, which is interpreted
  on \<open>civil_chrono\<close>, a calendar over the model's own civil dates.
\<close>

section \<open>The date library\<close>

record 'd chrono =
  parse_ymd :: "string \<Rightarrow> string + 'd"
  add_one_month :: "'d \<Rightarrow> 'd option"
  sub_one_month :: "'d \<Rightarrow> 'd option"
  with_day_one :: "'d \<Rightarrow> 'd option"
  pred_opt :: "'d \<Rightarrow> 'd option"
  format_ym :: "'d \<Rightarrow> string"
  date_to_string :: "'d \<Rightarrow> string"

text \<open>\<open>month_date\<close>, \<open>next_month\<close> and \<open>previous_month_end\<close> of \<open>budget.rs\<close>.\<close>

definition month_date :: "'d chrono \<Rightarrow> string \<Rightarrow> 'd result" where
  "month_date C month = parse_ymd C (month @ ''-01'')"

definition next_month :: "'d chrono \<Rightarrow> string \<Rightarrow> string result" where
  "next_month C month =
     and_then (month_date C month) (\<lambda>d.
     and_then (ok_or (add_one_month C d) ''Month overflow'') (\<lambda>n.
     Inr (format_ym C n)))"

text \<open>The same month stepping backwards, as \<open>initialize\<close> and \<open>history_at\<close> write it out.\<close>

definition month_before :: "'d chrono \<Rightarrow> string \<Rightarrow> string result" where
  "month_before C month =
     and_then (month_date C month) (\<lambda>d.
     and_then (ok_or (sub_one_month C d) ''Month overflow'') (\<lambda>n.
     Inr (format_ym C n)))"

definition previous_month_end :: "'d chrono \<Rightarrow> string \<Rightarrow> string result" where
  "previous_month_end C date =
     and_then (parse_ymd C date) (\<lambda>d.
     and_then (ok_or (with_day_one C d) ''Invalid month'') (\<lambda>f.
     and_then (ok_or (pred_opt C f) ''Date overflow'') (\<lambda>p.
     Inr (date_to_string C p))))"

text \<open>\<open>next\<close> of \<open>budget_ledger.rs\<close>, the same computation.\<close>

definition ledger_next :: "'d chrono \<Rightarrow> string \<Rightarrow> string result" where
  "ledger_next C month =
     and_then (parse_ymd C (month @ ''-01'')) (\<lambda>d.
     and_then (ok_or (add_one_month C d) ''Month overflow'') (\<lambda>n.
     Inr (format_ym C n)))"

lemma ledger_next_eq: "ledger_next C month = next_month C month"
  by (simp add: ledger_next_def next_month_def month_date_def)

text \<open>
  The loop \<open>while cursor <= through { body; cursor = next_month(cursor)?; }\<close> of
  \<open>history_at\<close> and \<open>sync\<close>. \<open>None\<close> is a loop that does not end.
\<close>

partial_function (option) while_months ::
  "'d chrono \<Rightarrow> ('s \<Rightarrow> string \<Rightarrow> 's result) \<Rightarrow> string \<Rightarrow> string \<Rightarrow> 's \<Rightarrow> 's result option" where
  "while_months C body cursor through s =
     (if cursor \<le> through
      then (case body s cursor of
              Inl e \<Rightarrow> Some (Inl e)
            | Inr s' \<Rightarrow>
                (case next_month C cursor of
                   Inl e \<Rightarrow> Some (Inl e)
                 | Inr n \<Rightarrow> while_months C body n through s'))
      else Some (Inr s))"

lemma while_months_invariant:
  assumes "while_months C body c t s = Some (Inr s')" and "P s"
    and "\<And>s m s'. P s \<Longrightarrow> m \<le> t \<Longrightarrow> body s m = Inr s' \<Longrightarrow> P s'"
  shows "P s'"
proof -
  have "\<forall>s'. b' = body \<and> t' = t \<and> r = Inr s' \<and> P s \<longrightarrow> P s'"
    if "while_months C' b' c' t' s = Some r" for C' b' c' t' s r
    using that
  proof (induction rule: while_months.raw_induct [rotated 1, consumes 1, case_names step])
    case (step w C' b' c' t' s r)
    note ih = step(1) and eq = step(2)
    show ?case
    proof (cases "c' \<le> t'")
      case False
      with eq show ?thesis by auto
    next
      case True
      show ?thesis
      proof (intro allI impI, elim conjE)
        fix s'
        assume p: "b' = body" "t' = t" "r = Inr s'" "P s"
        from eq True p(3) obtain u n where u: "b' s c' = Inr u" "next_month C' c' = Inr n"
          and rest: "w C' b' n t' u = Some (Inr s')"
          by (auto split: sum.splits)
        have "P u" using assms(3) [OF p(4), of c' u] True u(1) p(1,2) by simp
        with ih [OF rest] p(1,2) show "P s'" by blast
      qed
    qed
  qed
  with assms(1,2) show ?thesis by blast
qed

text \<open>Continuing after a computation that may not return.\<close>

definition returned :: "('e + 'a) option \<Rightarrow> ('a \<Rightarrow> ('e + 'b) option) \<Rightarrow> ('e + 'b) option" where
  "returned m f = (case m of None \<Rightarrow> None | Some (Inl e) \<Rightarrow> Some (Inl e) | Some (Inr x) \<Rightarrow> f x)"

lemma returned_simps [simp]:
  "returned None f = None" "returned (Some (Inl e)) f = Some (Inl e)" "returned (Some (Inr x)) f = f x"
  by (simp_all add: returned_def)

lemma returned_eq_Inr [result_simps]:
  "returned m f = Some (Inr y) \<longleftrightarrow> (\<exists>x. m = Some (Inr x) \<and> f x = Some (Inr y))"
  by (auto simp: returned_def split: option.splits sum.splits)

section \<open>What the code relies on\<close>

locale month_calendar =
  fixes C :: "'d chrono"
    and valid_month :: "string \<Rightarrow> bool"
    and month_number :: "string \<Rightarrow> nat"
  assumes month_order: "valid_month m \<Longrightarrow> valid_month n \<Longrightarrow> m \<le> n \<longleftrightarrow> month_number m \<le> month_number n"
    and month_inj: "valid_month m \<Longrightarrow> valid_month n \<Longrightarrow> month_number m = month_number n \<Longrightarrow> m = n"
    and next_exists: "valid_month m \<Longrightarrow> m < ''9999-12'' \<Longrightarrow>
      \<exists>n. next_month C m = Inr n \<and> valid_month n \<and> month_number n = Suc (month_number m)"
begin

lemma next_valid:
  "valid_month m \<Longrightarrow> m < ''9999-12'' \<Longrightarrow> next_month C m = Inr n \<Longrightarrow>
     valid_month n \<and> month_number n = Suc (month_number m)"
  using next_exists by fastforce

lemma next_greater: "valid_month m \<Longrightarrow> m < ''9999-12'' \<Longrightarrow> next_month C m = Inr n \<Longrightarrow> m < n"
  by (metis linorder_not_le month_order next_valid Suc_n_not_le_n)

text \<open>
  The loop ends: it is the loop over the list of months from the cursor through the last
  one, in calendar order.
\<close>

lemma while_months_fold:
  assumes "valid_month c" and "valid_month t" and "t < ''9999-12''"
  shows "\<exists>ms. (\<forall>body (s :: 's). while_months C body c t s = Some (fold_result body s ms))
    \<and> (\<forall>m\<in>set ms. valid_month m \<and> c \<le> m \<and> m \<le> t) \<and> sorted_wrt (<) ms
    \<and> map month_number ms = [month_number c..<Suc (month_number t)]"
  using assms
proof (induction "Suc (month_number t) - month_number c" arbitrary: c)
  case 0
  then have "\<not> c \<le> t" using month_order by auto
  with 0 show ?case by (intro exI [of _ "[]"]) (auto simp: while_months.simps)
next
  case (Suc k)
  then have le: "c \<le> t" using month_order by auto
  with Suc.prems(3) have "c < ''9999-12''" by simp
  then obtain n where n: "next_month C c = Inr n" "valid_month n" "month_number n = Suc (month_number c)"
    using next_exists Suc.prems(1) by blast
  have k: "k = Suc (month_number t) - month_number n" using Suc.hyps(2) n(3) by simp
  from Suc.hyps(1) [OF k n(2) Suc.prems(2,3)] obtain ms where
    ms: "\<And>body (s :: 's). while_months C body n t s = Some (fold_result body s ms)"
      "\<forall>m\<in>set ms. valid_month m \<and> n \<le> m \<and> m \<le> t" "sorted_wrt (<) ms"
      "map month_number ms = [month_number n..<Suc (month_number t)]" by blast
  have "c < n" using next_greater Suc.prems(1) \<open>c < ''9999-12''\<close> n(1) by blast
  moreover have "while_months C body c t s = Some (fold_result body s (c # ms))" for body and s :: 's
    using le ms(1) n(1) by (simp add: while_months.simps [of C body c] split: sum.split)
  ultimately show ?case using le ms n Suc.prems(1) Suc.hyps(2)
    by (intro exI [of _ "c # ms"]) (auto simp: upt_rec)
qed

end

section \<open>A calendar over civil dates\<close>

text \<open>Dates as day numbers; a text is a date when \<open>parse_date\<close> accepts it.\<close>

definition civil_add_month :: "int \<Rightarrow> int \<Rightarrow> int" where
  "civil_add_month k n =
     (let (y, m, d) = civil_date_from_days n;
          i = 12 * y + (m - 1) + k; y' = i div 12; m' = i mod 12 + 1
      in days_from_civil y' m' (min d (max_day_of y' m')))"

definition civil_chrono :: "int chrono" where
  "civil_chrono = \<lparr>
     parse_ymd = parse_date,
     add_one_month = (\<lambda>n. Some (civil_add_month 1 n)),
     sub_one_month = (\<lambda>n. Some (civil_add_month (- 1) n)),
     with_day_one = (\<lambda>n. let (y, m, d) = civil_date_from_days n in Some (days_from_civil y m 1)),
     pred_opt = (\<lambda>n. Some (n - 1)),
     format_ym = (\<lambda>n. let (y, m, d) = civil_date_from_days n in pad_zero 4 y @ ''-'' @ pad_zero 2 m),
     date_to_string = (\<lambda>n. let (y, m, d) = civil_date_from_days n in format_ymd y m d)\<rparr>"

definition month_text :: "nat \<Rightarrow> string" where
  "month_text i = pad_zero 4 (int (i div 12)) @ ''-'' @ pad_zero 2 (int (i mod 12) + 1)"

text \<open>The months of the years 0 to 9999, numbered from January of year 0.\<close>

definition civil_month :: "string \<Rightarrow> bool" where
  "civil_month m \<longleftrightarrow> (\<exists>i < 120000. m = month_text i)"

definition civil_month_number :: "string \<Rightarrow> nat" where
  "civil_month_number m = 12 * digits_value (take 4 m) + digits_value (drop 5 m) - 1"

text \<open>Digit strings of one length compare as the numbers they denote.\<close>

lemma digit_less_iff: "is_digit c \<Longrightarrow> is_digit d \<Longrightarrow> c < d \<longleftrightarrow> digit_value c < digit_value d"
  by (auto simp: is_digit_def digit_value_def less_char_def)

lemma digits_less_iff:
  "list_all is_digit xs \<Longrightarrow> list_all is_digit ys \<Longrightarrow> length xs = length ys \<Longrightarrow>
     xs < ys \<longleftrightarrow> digits_value xs < digits_value ys"
proof (induction xs ys rule: list_induct2')
  case (4 x xs y ys)
  then have b: "digits_value xs < 10 ^ length ys" "digits_value ys < 10 ^ length ys"
    using digits_value_bound [of xs] digits_value_bound [of ys] by auto
  have d: "is_digit x" "is_digit y" using 4 by auto
  consider "x < y" | "x = y" | "y < x" by fastforce
  then show ?case
  proof cases
    case 1
    then have "Suc (digit_value x) \<le> digit_value y" using digit_less_iff [OF d] by simp
    then have "Suc (digit_value x) * 10 ^ length ys \<le> digit_value y * 10 ^ length ys" by (rule mult_le_mono1)
    with 1 4 b show ?thesis by (simp add: digits_value_Cons)
  next
    case 2
    with 4 show ?thesis by (simp add: digits_value_Cons)
  next
    case 3
    then have "Suc (digit_value y) \<le> digit_value x" using digit_less_iff [OF d(2,1)] by simp
    then have "Suc (digit_value y) * 10 ^ length ys \<le> digit_value x * 10 ^ length ys" by (rule mult_le_mono1)
    moreover have "\<not> x < y" "x \<noteq> y" using 3 by auto
    ultimately show ?thesis using 4 b by (simp add: digits_value_Cons)
  qed
qed simp_all

lemma append_less_same_length:
  "length xs = length ys \<Longrightarrow> xs @ us < ys @ (vs :: string) \<longleftrightarrow> xs < ys \<or> xs = ys \<and> us < vs"
  by (induction xs ys rule: list_induct2) auto

lemma length_nat_to_string_le: "n < 10 ^ k \<Longrightarrow> 0 < k \<Longrightarrow> length (nat_to_string n) \<le> k"
proof (induction n arbitrary: k rule: nat_to_string.induct)
  case (1 n)
  show ?case
  proof (cases "n < 10")
    case True
    with 1 show ?thesis by (subst nat_to_string.simps) simp
  next
    case False
    then obtain j where j: "k = Suc j" "0 < j" using 1(2,3) by (cases k; cases "k = 1") auto
    with 1(2) have "n div 10 < 10 ^ j" by (simp add: less_mult_imp_div_less mult.commute)
    with 1(1) [OF False _ j(2)] False j show ?thesis by (subst nat_to_string.simps) simp
  qed
qed

lemma length_pad_zero: "0 \<le> n \<Longrightarrow> n < 10 ^ w \<Longrightarrow> 0 < w \<Longrightarrow> length (pad_zero w n) = w"
  using length_nat_to_string_le [of "nat n" w] by (simp add: pad_zero_def Let_def nat_less_iff)

lemma month_text_parts:
  assumes "i < 120000"
  shows "length (pad_zero 4 (int (i div 12))) = 4" "length (pad_zero 2 (int (i mod 12) + 1)) = 2"
    "list_all is_digit (pad_zero 4 (int (i div 12)))" "list_all is_digit (pad_zero 2 (int (i mod 12) + 1))"
    "digits_value (pad_zero 4 (int (i div 12))) = i div 12"
    "digits_value (pad_zero 2 (int (i mod 12) + 1)) = i mod 12 + 1"
proof -
  have "i div 12 < 10000" "i mod 12 + 1 < 100" using assms by (auto simp: less_mult_imp_div_less)
  then show "length (pad_zero 4 (int (i div 12))) = 4" "length (pad_zero 2 (int (i mod 12) + 1)) = 2"
    by (simp_all add: length_pad_zero)
qed (simp_all add: pad_zero_digits nat_add_distrib)

lemma civil_month_number_text: "i < 120000 \<Longrightarrow> civil_month_number (month_text i) = i"
  using month_text_parts [of i] by (simp add: civil_month_number_def month_text_def)

lemma month_text_less:
  assumes "i < 120000" and "j < 120000"
  shows "month_text i < month_text j \<longleftrightarrow> i < j"
proof -
  note pi = month_text_parts [OF assms(1)] and pj = month_text_parts [OF assms(2)]
  let ?yi = "pad_zero 4 (int (i div 12))" and ?yj = "pad_zero 4 (int (j div 12))"
  have eq: "?yi = ?yj \<longleftrightarrow> i div 12 = j div 12" using pi(5) pj(5) by metis
  have "month_text i < month_text j \<longleftrightarrow> i div 12 < j div 12 \<or> i div 12 = j div 12 \<and> i mod 12 < j mod 12"
    using pi pj unfolding month_text_def
    by (simp add: append_less_same_length digits_less_iff eq)
  also have "\<dots> \<longleftrightarrow> i < j"
  proof -
    define a b a' b' where "a = i div 12" "b = i mod 12" "a' = j div 12" "b' = j mod 12"
    then have "i = 12 * a + b" "b < 12" "j = 12 * a' + b'" "b' < 12" by simp_all
    then show ?thesis by (fold \<open>a = _\<close> \<open>b = _\<close> \<open>a' = _\<close> \<open>b' = _\<close>) linarith
  qed
  finally show ?thesis .
qed


text \<open>Going to the first of a month and one month on, in the concrete calendar.\<close>

lemma parse_month_text:
  assumes "i < 120000"
  shows "month_date civil_chrono (month_text i) = Inr (days_from_civil (int (i div 12)) (int (i mod 12) + 1) 1)"
proof -
  have y: "int (i div 12) \<le> 9999" using assms by (simp add: less_mult_imp_div_less)
  have v: "valid_civil (int (i div 12)) (int (i mod 12) + 1) 1"
    by (auto simp: valid_civil_def max_day_of_def)
  have "pad_zero 2 1 = ''01''" by (simp add: pad_zero_def to_string_eval)
  then have "month_text i @ ''-01'' = format_ymd (int (i div 12)) (int (i mod 12) + 1) 1"
    by (simp add: month_text_def format_ymd_def)
  with parse_format_ymd [OF v _ y] show ?thesis
    by (simp add: month_date_def civil_chrono_def)
qed

lemma next_month_text:
  assumes "i < 119999"
  shows "next_month civil_chrono (month_text i) = Inr (month_text (Suc i))"
proof -
  have v: "valid_civil (int (i div 12)) (int (i mod 12) + 1) 1"
    "valid_civil (int (Suc i div 12)) (int (Suc i mod 12) + 1) 1"
    by (auto simp: valid_civil_def max_day_of_def)
  have "int (12 * (i div 12) + i mod 12 + 1) = int (Suc i)" by simp
  then have i: "12 * int (i div 12) + int (i mod 12) + 1 = int (Suc i)"
    by (simp only: of_nat_add of_nat_mult of_nat_numeral of_nat_1)
  have z: "int (Suc i) div 12 = int (Suc i div 12)" "int (Suc i) mod 12 = int (Suc i mod 12)"
    by (simp_all only: zdiv_int zmod_int of_nat_numeral)
  have sum: "12 * int (i div 12) + (int (i mod 12) + 1 - 1) + 1 = int (Suc i)" using i by linarith
  have m: "min 1 (max_day_of (int (Suc i div 12)) (int (Suc i mod 12) + 1)) = 1"
    by (auto simp: max_day_of_def)
  have "civil_add_month 1 (days_from_civil (int (i div 12)) (int (i mod 12) + 1) 1)
      = days_from_civil (int (Suc i div 12)) (int (Suc i mod 12) + 1) 1"
    unfolding civil_add_month_def civil_date_from_days_from_civil [OF v(1)] Let_def prod.case sum z m ..
  moreover have "civil_date_from_days (days_from_civil (int (Suc i div 12)) (int (Suc i mod 12) + 1) 1)
      = (int (Suc i div 12), int (Suc i mod 12) + 1, 1)"
    using v(2) by (rule civil_date_from_days_from_civil)
  ultimately show ?thesis
    using assms parse_month_text [of i]
    by (simp add: next_month_def civil_chrono_def month_text_def)
qed

lemma previous_month_text:
  assumes "Suc i < 120000"
  shows "month_before civil_chrono (month_text (Suc i)) = Inr (month_text i)"
proof -
  have v: "valid_civil (int (Suc i div 12)) (int (Suc i mod 12) + 1) 1"
    "valid_civil (int (i div 12)) (int (i mod 12) + 1) 1"
    by (auto simp: valid_civil_def max_day_of_def)
  have "int (12 * (Suc i div 12) + Suc i mod 12) = int (Suc i)" by simp
  then have "12 * int (Suc i div 12) + int (Suc i mod 12) = int (Suc i)"
    by (simp only: of_nat_add of_nat_mult of_nat_numeral)
  then have sum: "12 * int (Suc i div 12) + (int (Suc i mod 12) + 1 - 1) + (- 1) = int i" by linarith
  have z: "int i div 12 = int (i div 12)" "int i mod 12 = int (i mod 12)"
    by (simp_all only: zdiv_int zmod_int of_nat_numeral)
  have m: "min 1 (max_day_of (int (i div 12)) (int (i mod 12) + 1)) = 1"
    by (auto simp: max_day_of_def)
  have "civil_add_month (- 1) (days_from_civil (int (Suc i div 12)) (int (Suc i mod 12) + 1) 1)
      = days_from_civil (int (i div 12)) (int (i mod 12) + 1) 1"
    unfolding civil_add_month_def civil_date_from_days_from_civil [OF v(1)] Let_def prod.case sum z m ..
  moreover have "civil_date_from_days (days_from_civil (int (i div 12)) (int (i mod 12) + 1) 1)
      = (int (i div 12), int (i mod 12) + 1, 1)"
    using v(2) by (rule civil_date_from_days_from_civil)
  ultimately show ?thesis
    using assms parse_month_text [of "Suc i"]
    by (simp add: month_before_def civil_chrono_def month_text_def)
qed

interpretation civil: month_calendar civil_chrono civil_month civil_month_number
proof unfold_locales
  fix m n
  assume "civil_month m" "civil_month n"
  then obtain i j where "i < 120000" "j < 120000" "m = month_text i" "n = month_text j"
    by (auto simp: civil_month_def)
  then show "m \<le> n \<longleftrightarrow> civil_month_number m \<le> civil_month_number n"
    and "civil_month_number m = civil_month_number n \<Longrightarrow> m = n"
    using month_text_less [of j i] by (auto simp: civil_month_number_text simp flip: not_less)
next
  fix m
  assume "civil_month m" and less: "m < ''9999-12''"
  then obtain i where i: "i < 120000" "m = month_text i" by (auto simp: civil_month_def)
  have "''9999-12'' = month_text 119999" by (simp add: month_text_def pad_zero_def to_string_eval)
  with less i have "i < 119999" using month_text_less [of i 119999] by simp
  with i show "\<exists>n. next_month civil_chrono m = Inr n \<and> civil_month n
      \<and> civil_month_number n = Suc (civil_month_number m)"
    by (intro exI [of _ "month_text (Suc i)"])
      (auto simp: next_month_text civil_month_number_text civil_month_def intro!: exI [of _ "Suc i"])
qed

end
