(* ===== verification/Tables.thy ===== *)
theory Tables
  imports Valuation Platform
begin

text \<open>
  The database as the budget modules see it: one record per table of
  \<open>server/migrations\<close> with the columns those modules read or write, the result structures of
  \<open>finance_read_model.rs\<close> and \<open>budget_ledger.rs\<close> that they fill, and the queries that
  several operations share. A table is the list of its rows in storage order, which is also
  the order of a query without \<open>ORDER BY\<close>; a nullable column is an option. Texts compare
  byte by byte, as SQLite's default collation and Rust's \<open>str\<close> do.

  Parsing of stored JSON is third-party code and a parameter (\<open>platform\<close>), and so are the
  calendar and today's date.
\<close>

section \<open>Rows\<close>

record category_row =
  cat_id :: string
  cat_name :: string
  cat_is_real :: bool
  cat_source_row :: int

record period_row =
  per_category :: string
  per_start_month :: string
  per_base_monthly :: "string option"

record account_row =
  acc_id :: string
  acc_currency :: "string option"
  acc_is_real :: bool
  acc_is_active :: bool
  acc_native_balance :: "string option"
  acc_source_name :: string
  acc_eur_balance :: "string option"
  acc_revision :: int
  acc_type :: "string option"
  acc_source_row :: int
  acc_actual_native :: "string option"
  acc_actual_eur :: "string option"
  acc_reconciliation :: "string option"

record transaction_row =
  tx_id :: string
  tx_kind :: string
  tx_date :: string
  tx_amount :: string
  tx_input_currency :: "string option"
  tx_from_category :: "string option"
  tx_to_category :: "string option"
  tx_from_account :: "string option"
  tx_to_account :: "string option"
  tx_description :: string
  tx_to_amount :: "string option"
  tx_to_currency :: "string option"
  tx_currency_override :: bool
  tx_to_amount_override :: bool
  tx_created_at :: "string option"
  tx_created_by :: "string option"
  tx_revision :: nat
  tx_workbook :: string
  tx_sheet :: string
  tx_source_row :: int
  tx_fingerprint :: string
  tx_source_json :: string
  tx_occurred_at :: "string option"

record valuation_row =
  val_transaction :: string
  val_side :: string
  val_revision :: nat
  val_native :: "string option"
  val_eur :: "string option"
  val_currency :: "string option"
  val_exchange_to_eur :: "string option"
  val_exchange_to_native :: "string option"
  val_date :: string
  val_source :: string
  val_rate_set :: "string option"
  val_source_cells :: string

record snapshot_row =
  snap_category :: string
  snap_month :: string
  snap_expense :: "string option"
  snap_remaining :: "string option"
  snap_impact :: "string option"
  snap_source_cells :: string

record opening_row =
  open_category :: string
  open_before_month :: string
  open_remaining :: string
  open_verified_by :: string
  open_source :: string

record correction_row =
  cor_operation :: string
  cor_applied_month :: string
  cor_original :: string

record correction_item_row =
  item_operation :: string
  item_category :: string
  item_expense_delta :: string

record closure_row =
  clo_month :: string
  clo_snapshot :: string

record month_closure_row = closure_row +
  clo_operation :: string

record operation_row =
  op_id :: string
  op_actor :: string
  op_fingerprint :: string
  op_response :: string

record revision_row =
  rev_transaction :: string
  rev_revision :: nat
  rev_operation :: "string option"
  rev_snapshot :: string
  rev_recorded_at :: string

record batch_row =
  rb_id :: string
  rb_operation :: string
  rb_date :: string
  rb_actor :: string
  rb_submitted_at :: string
  rb_observed_at :: "string option"
  rb_observed_date :: "string option"

record batch_item_row =
  ri_batch :: string
  ri_account :: string
  ri_transaction :: "string option"
  ri_actual :: "string option"
  ri_variance :: "string option"
  ri_revision :: int
  ri_observed :: "string option"
  ri_activity :: "string option"
  ri_included :: "string option"

record import_row =
  imp_manifest :: string
  imp_committed_at :: string

record rate_row =
  xr_id :: string
  xr_date :: "string option"
  xr_base :: "string option"
  xr_quote :: "string option"
  xr_rate :: "string option"
  xr_provider :: "string option"

record ledger_state_row =
  st_start_month :: string
  st_opening_unallocated :: string

record plan_income_row =
  plan_month :: string
  plan_amount :: string
  plan_currency :: string
  plan_amount_eur :: string
  plan_arrival_day :: int
  plan_completed_month :: "string option"
  plan_shortfall :: "string option"

record receipt_row =
  rec_transaction :: string
  rec_treatment :: string
  rec_expected_month :: "string option"

record movement_row =
  mov_id :: nat
  mov_month :: string
  mov_category :: string
  mov_kind :: string
  mov_source_key :: string
  mov_amount :: string
  mov_operation :: "string option"

record expectation_row =
  exp_start_month :: string
  exp_amount :: string
  exp_currency :: string
  exp_arrival_day :: int

record db =
  categories_table :: "category_row list"
  periods_table :: "period_row list"
  accounts_table :: "account_row list"
  transactions_table :: "transaction_row list"
  valuations_table :: "valuation_row list"
  snapshots_table :: "snapshot_row list"
  openings_table :: "opening_row list"
  corrections_table :: "correction_row list"
  correction_items_table :: "correction_item_row list"
  closures_table :: "month_closure_row list"
  coverage_closures_table :: "closure_row list"
  imports_table :: "import_row list"
  rates_table :: "rate_row list"
  ledger_tables_exist :: bool
  ledger_state_table :: "ledger_state_row option"
  plan_income_table :: "plan_income_row list"
  receipts_table :: "receipt_row list"
  movements_table :: "movement_row list"
  expectations_table :: "expectation_row list"
  operations_table :: "operation_row list"
  revisions_table :: "revision_row list"
  batches_table :: "batch_row list"
  batch_items_table :: "batch_item_row list"

section \<open>Result structures\<close>

record budget_category =
  bc_id :: string
  bc_name :: string
  bc_monthly :: "string option"
  bc_expense :: "string option"
  bc_remaining :: "string option"
  bc_impact :: "string option"
  bc_carryover :: "string option"
  bc_adjustment :: "string option"
  bc_available :: "string option"
  bc_net_spending :: "string option"
  bc_correction :: "string option"

record budget_month =
  bm_month :: string
  bm_categories :: "budget_category list"
  bm_status :: string
  bm_provisional :: bool

record expected_income =
  ei_month :: string
  ei_amount :: string
  ei_currency :: string
  ei_amount_eur :: string
  ei_received_eur :: string
  ei_received_amount :: string
  ei_outstanding_eur :: string
  ei_arrival_day :: int
  ei_completed_month :: "string option"

record coverage_result =
  cov_actual_cash :: string
  cov_assigned_remaining :: string
  cov_unallocated :: string
  cov_outstanding :: string
  cov_current_gap :: string
  cov_projected_gap :: string
  cov_expectations :: "expected_income list"
  cov_frozen :: bool

text \<open>
  JSON values as the \<open>json!\<close> macro builds them. Their text is written and read by serde_json.
\<close>

datatype json = JNull | JBool bool | JInt int | JStr string | JArr "json list" | JObj "(string \<times> json) list"

definition json_field :: "json \<Rightarrow> string \<Rightarrow> json option" where
  "json_field j key = (case j of JObj kvs \<Rightarrow> map_of kvs key | _ \<Rightarrow> None)"

text \<open>
  The third-party operations and the clock. \<open>manifest_month\<close> reads an import manifest and its
  \<open>currentCanonicalMonth\<close> as a string; \<open>read_categories\<close> and \<open>read_coverage\<close> decode what a
  month close has stored, \<open>write_categories\<close> and \<open>write_coverage\<close> encode it; \<open>write_json\<close> and
  \<open>read_json\<close> are the text of the other JSON values, \<open>sha256_hex\<close> the digest, \<open>lowercase\<close> the
  lower case of the Unicode tables, \<open>now_text\<close> the UTC instant of SQLite's \<open>strftime\<close>.
\<close>

record 'd platform =
  calendar :: "'d chrono"
  manifest_month :: "string \<Rightarrow> string option result"
  read_categories :: "string \<Rightarrow> budget_category list result"
  read_coverage :: "string \<Rightarrow> coverage_result result"
  write_categories :: "budget_category list \<Rightarrow> string"
  write_coverage :: "coverage_result \<Rightarrow> string"
  read_json :: "string \<Rightarrow> json result"
  write_json :: "json \<Rightarrow> string"
  sha256_hex :: "string \<Rightarrow> string"
  lowercase :: "string \<Rightarrow> string"
  now_text :: string
  today :: string

definition this_month :: "'d platform \<Rightarrow> string" where
  "this_month P = take 7 (today P)"

section \<open>Shared queries\<close>

text \<open>The valuation of one side at its greatest revision (a \<open>LEFT JOIN\<close> in every query).\<close>

definition latest_valuation :: "db \<Rightarrow> string \<Rightarrow> string \<Rightarrow> valuation_row option" where
  "latest_valuation db t side =
     last_max val_revision (filter (\<lambda>v. val_transaction v = t \<and> val_side v = side) (valuations_table db))"

definition valuation_eur :: "db \<Rightarrow> string \<Rightarrow> string \<Rightarrow> string option" where
  "valuation_eur db t side = Option.bind (latest_valuation db t side) val_eur"

definition valuation_native :: "db \<Rightarrow> string \<Rightarrow> string \<Rightarrow> string option" where
  "valuation_native db t side = Option.bind (latest_valuation db t side) val_native"

definition month_closed :: "db \<Rightarrow> string \<Rightarrow> bool" where
  "month_closed db m = list_ex (\<lambda>c. clo_month c = m) (closures_table db)"

definition transactions_in :: "db \<Rightarrow> string \<Rightarrow> transaction_row list" where
  "transactions_in db m = filter (\<lambda>t. take 7 (tx_date t) = m) (transactions_table db)"

text \<open>The monthly allocation in force: \<open>ORDER BY effective_start_month DESC LIMIT 1\<close>.\<close>

definition base_monthly :: "db \<Rightarrow> string \<Rightarrow> string \<Rightarrow> string option" where
  "base_monthly db category m =
     Option.bind (last_max per_start_month
       (filter (\<lambda>p. per_category p = category \<and> per_start_month p \<le> m) (periods_table db)))
       per_base_monthly"

definition real_categories :: "db \<Rightarrow> category_row list" where
  "real_categories db = filter cat_is_real (categories_table db)"

text \<open>A column that must not be \<open>NULL\<close>.\<close>

definition not_null :: "'a option \<Rightarrow> 'a result" where
  "not_null v = ok_or v ''unexpected null''"

definition fetch_one :: "'a option \<Rightarrow> 'a result" where
  "fetch_one v = ok_or v ''no rows returned by a query that expected to return at least one row''"

definition first_row :: "'a list \<Rightarrow> 'a option" where
  "first_row xs = (case xs of [] \<Rightarrow> None | x # _ \<Rightarrow> Some x)"

section \<open>Facts on the queries\<close>

lemma not_null_eq_Inr [result_simps]: "not_null v = Inr x \<longleftrightarrow> v = Some x"
  by (simp add: not_null_def result_simps)

lemma fetch_one_eq_Inr [result_simps]: "fetch_one v = Inr x \<longleftrightarrow> v = Some x"
  by (simp add: fetch_one_def result_simps)

lemma not_null_Some [simp]: "not_null (Some x) = Inr x"
  by (simp add: not_null_def)

lemma fetch_one_Some [simp]: "fetch_one (Some x) = Inr x"
  by (simp add: fetch_one_def)

lemma first_row_filter: "first_row (filter P xs) = Some x \<Longrightarrow> x \<in> set xs \<and> P x"
  by (auto simp: first_row_def filter_eq_Cons_iff split: list.splits)

lemma first_row_append: "first_row (xs @ ys) = (case first_row xs of None \<Rightarrow> first_row ys | Some x \<Rightarrow> Some x)"
  by (simp add: first_row_def split: list.split)

lemma month_closed_iff: "month_closed db m \<longleftrightarrow> (\<exists>c\<in>set (closures_table db). clo_month c = m)"
  by (auto simp: month_closed_def list_ex_iff)

lemma latest_valuation_in:
  assumes "latest_valuation db t side = Some v"
  shows "v \<in> set (valuations_table db)" "val_transaction v = t" "val_side v = side"
    "\<And>w. w \<in> set (valuations_table db) \<Longrightarrow> val_transaction w = t \<Longrightarrow> val_side w = side
      \<Longrightarrow> val_revision w \<le> val_revision v"
  using last_max_in [OF assms [unfolded latest_valuation_def]] by auto

section \<open>A fresh database\<close>

definition empty_db :: db where
  "empty_db = \<lparr>categories_table = [], periods_table = [], accounts_table = [], transactions_table = [],
     valuations_table = [], snapshots_table = [], openings_table = [], corrections_table = [],
     correction_items_table = [], closures_table = [], coverage_closures_table = [], imports_table = [],
     rates_table = [], ledger_tables_exist = True, ledger_state_table = None, plan_income_table = [],
     receipts_table = [], movements_table = [], expectations_table = [], operations_table = [],
     revisions_table = [], batches_table = [], batch_items_table = []\<rparr>"

end
