(* ===== verification/PlanIncome.thy ===== *)
theory PlanIncome
  imports Tables
begin

text \<open>
  Expected income in \<open>server/src/budget_ledger.rs\<close>: the plan of a month, the receipts matched
  to it, what is outstanding, and the recording of a receipt. Each operation takes the
  database and returns it updated; a failed operation returns its error and no database, as
  the callers run in a transaction that is rolled back.
\<close>

section \<open>Helpers of the module\<close>

definition UNALLOCATED :: string where
  "UNALLOCATED = ''budget-unallocated''"

definition positive :: "string \<Rightarrow> string" where
  "positive a = (if starts_with a ''-'' then ''0'' else a)"

text \<open>\<open>rates\<close>: the ECB observations, ordered by date and id.\<close>

definition rates :: "db \<Rightarrow> rate_observation list result" where
  "rates db =
     map_result (\<lambda>r. and_then (not_null (xr_quote r)) (\<lambda>q.
         Inr \<lparr>obs_currency = q, obs_date = the (xr_date r), currency_units_per_eur = the (xr_rate r)\<rparr>))
       (sort_key (\<lambda>r. (the (xr_date r), xr_id r))
         (filter (\<lambda>r. xr_provider r = Some ''ECB'' \<and> xr_base r = Some ''EUR''
            \<and> xr_date r \<noteq> None \<and> xr_rate r \<noteq> None) (rates_table db)))"

definition start :: "db \<Rightarrow> string option" where
  "start db = (if ledger_tables_exist db then map_option st_start_month (ledger_state_table db) else None)"

section \<open>Expected income\<close>

text \<open>The recurring expectation in force, or the default of 10000 USD on day 7.\<close>

definition expectation_for :: "db \<Rightarrow> string \<Rightarrow> string \<times> string \<times> int" where
  "expectation_for db m =
     (case last_max exp_start_month (filter (\<lambda>e. exp_start_month e \<le> m) (expectations_table db)) of
        Some e \<Rightarrow> (exp_amount e, exp_currency e, exp_arrival_day e)
      | None \<Rightarrow> (''10000'', ''USD'', 7))"

definition plan_income_of :: "db \<Rightarrow> string \<Rightarrow> plan_income_row option" where
  "plan_income_of db m = first_row (filter (\<lambda>p. plan_month p = m) (plan_income_table db))"

definition ensure_income :: "db \<Rightarrow> string \<Rightarrow> db result" where
  "ensure_income db m =
     (if list_ex (\<lambda>p. plan_month p = m) (plan_income_table db) then Inr db
      else let (amt, currency, day) = expectation_for db m in
        and_then (rates db) (\<lambda>observations.
        and_then (account_balance_eur amt currency (m @ ''-01'') observations) (\<lambda>eur.
        Inr (db\<lparr>plan_income_table := plan_income_table db @
          [\<lparr>plan_month = m, plan_amount = amt, plan_currency = currency, plan_amount_eur = eur,
            plan_arrival_day = day, plan_completed_month = None, plan_shortfall = None\<rparr>]\<rparr>))))"

record matched_receipt =
  mr_date :: string
  mr_treatment :: string
  mr_actual_eur :: string
  mr_native :: string

text \<open>
  The join of receipts, transactions, accounts and valuations; an inner join drops a
  receipt that lacks any of them.
\<close>

definition receipt_joins ::
  "db \<Rightarrow> string \<Rightarrow> string \<Rightarrow> (receipt_row \<times> transaction_row \<times> account_row \<times> valuation_row) list" where
  "receipt_joins db m through =
     sort_key (\<lambda>(r, t, a, v). (tx_date t, tx_id t))
       [(r, t, a, v).
          r \<leftarrow> receipts_table db, rec_expected_month r = Some m,
          rec_treatment r = ''salary'' \<or> rec_treatment r = ''legacy'',
          t \<leftarrow> transactions_table db, tx_id t = rec_transaction r,
          tx_kind t = ''income'' \<and> take 7 (tx_date t) \<le> through,
          a \<leftarrow> accounts_table db, Some (acc_id a) = tx_to_account t,
          v \<leftarrow> valuations_table db, latest_valuation db (tx_id t) ''to'' = Some v]"

definition matched_receipt_of ::
  "string \<Rightarrow> string \<Rightarrow> string \<Rightarrow> receipt_row \<times> transaction_row \<times> account_row \<times> valuation_row
    \<Rightarrow> matched_receipt result" where
  "matched_receipt_of amt currency planned_eur =
     (\<lambda>(r, t, a, v).
      and_then (not_null (val_eur v)) (\<lambda>actual_eur.
      and_then (if tx_input_currency t = Some currency then Inr (tx_amount t)
                else if acc_currency a = Some currency then not_null (val_native v)
                else if planned_eur = ''0'' then Inr ''0''
                else proportional_decimal_text actual_eur amt planned_eur) (\<lambda>native.
      Inr \<lparr>mr_date = tx_date t, mr_treatment = rec_treatment r, mr_actual_eur = actual_eur,
           mr_native = native\<rparr>)))"

definition matched_receipts ::
  "db \<Rightarrow> string \<Rightarrow> string \<Rightarrow> string \<Rightarrow> string \<Rightarrow> string \<Rightarrow> matched_receipt list result" where
  "matched_receipts db m through amt currency planned_eur =
     map_result (matched_receipt_of amt currency planned_eur) (receipt_joins db m through)"

definition funding_portion :: "string \<Rightarrow> string \<Rightarrow> string \<Rightarrow> string result" where
  "funding_portion native amt eur =
     (if amt = ''0'' then Inr ''0'' else proportional_decimal_text native eur amt)"

definition add_receipt :: "string \<times> string \<Rightarrow> matched_receipt \<Rightarrow> (string \<times> string) result" where
  "add_receipt = (\<lambda>(received, received_amount) r.
     and_then (add_decimal_text received (mr_actual_eur r)) (\<lambda>received'.
     and_then (add_decimal_text received_amount (mr_native r)) (\<lambda>received_amount'.
     Inr (received', received_amount'))))"

definition completed_by :: "plan_income_row \<Rightarrow> string \<Rightarrow> bool" where
  "completed_by row through = (case plan_completed_month row of Some c \<Rightarrow> c \<le> through | None \<Rightarrow> False)"

definition outstanding_of :: "plan_income_row \<Rightarrow> string \<Rightarrow> string \<Rightarrow> string result" where
  "outstanding_of row received_amount through =
     (if completed_by row through then Inr ''0''
      else and_then (subtract_decimal_text (plan_amount row) received_amount) (\<lambda>rest.
        funding_portion (positive rest) (plan_amount row) (plan_amount_eur row)))"

definition income :: "db \<Rightarrow> string \<Rightarrow> string \<Rightarrow> expected_income option result" where
  "income db m through =
     (case plan_income_of db m of
        None \<Rightarrow> Inr None
      | Some row \<Rightarrow>
          and_then (matched_receipts db m through (plan_amount row) (plan_currency row) (plan_amount_eur row))
            (\<lambda>receipts.
          and_then (fold_result add_receipt (''0'', ''0'') receipts) (\<lambda>(received, received_amount).
          and_then (outstanding_of row received_amount through) (\<lambda>outstanding.
          Inr (Some \<lparr>ei_month = m, ei_amount = plan_amount row, ei_currency = plan_currency row,
            ei_amount_eur = plan_amount_eur row, ei_received_eur = received,
            ei_received_amount = received_amount, ei_outstanding_eur = outstanding,
            ei_arrival_day = plan_arrival_day row, ei_completed_month = plan_completed_month row\<rparr>)))))"

section \<open>Receipts\<close>

text \<open>\<open>INSERT ... ON CONFLICT(transaction_id) DO UPDATE\<close>.\<close>

definition upsert_receipt :: "receipt_row \<Rightarrow> receipt_row list \<Rightarrow> receipt_row list" where
  "upsert_receipt r rs =
     (if list_ex (\<lambda>x. rec_transaction x = rec_transaction r) rs
      then map (\<lambda>x. if rec_transaction x = rec_transaction r then r else x) rs
      else rs @ [r])"

text \<open>The month a salary settles, checked; \<open>None\<close> for other income.\<close>

definition receipt_target ::
  "db \<Rightarrow> string \<Rightarrow> string \<Rightarrow> string option \<Rightarrow> receipt_row option \<Rightarrow> (db \<times> string option) result" where
  "receipt_target db m treatment expected old =
     (if treatment = ''salary''
      then let target = unwrap_or expected m in
        if m < target \<or> (case start db of None \<Rightarrow> True | Some s \<Rightarrow> target < s)
        then Inl ''Choose an existing expected-income month on or before the receipt month.''
        else and_then (ensure_income db target) (\<lambda>db'.
          and_then (income db' target m) (\<lambda>i.
          and_then (ok_or i ''Expected income unavailable'') (\<lambda>expectation.
          let same_match = (case old of None \<Rightarrow> False
                | Some r \<Rightarrow> rec_treatment r = ''salary'' \<and> rec_expected_month r = Some target)
          in if ei_completed_month expectation \<noteq> None \<and> \<not> same_match
             then Inl ''This expectation is already complete; record extra income as unexpected income.''
             else Inr (db', Some target))))
      else if expected \<noteq> None then Inl ''Only salary can settle expected income.''
      else Inr (db, None))"

definition record_receipt ::
  "db \<Rightarrow> string \<Rightarrow> string \<Rightarrow> string \<Rightarrow> string option \<Rightarrow> receipt_row option \<Rightarrow> db result" where
  "record_receipt db i m treatment expected old =
     (if treatment \<notin> {''salary'', ''unexpected'', ''refund''}
      then Inl ''Choose salary, unexpected income, or refund.''
      else and_then (receipt_target db m treatment expected old) (\<lambda>(db', matching).
        Inr (db'\<lparr>receipts_table := upsert_receipt
          \<lparr>rec_transaction = i, rec_treatment = treatment, rec_expected_month = matching\<rparr>
          (receipts_table db')\<rparr>)))"

definition receipt :: "db \<Rightarrow> string \<Rightarrow> string option \<Rightarrow> string option \<Rightarrow> db result" where
  "receipt db i treatment expected =
     (if start db = None then Inr db
      else and_then (fetch_one (first_row (filter (\<lambda>t. tx_id t = i) (transactions_table db)))) (\<lambda>row.
        if tx_kind row \<noteq> ''income''
        then if treatment \<noteq> None \<or> expected \<noteq> None
             then Inl ''Income options require an income transaction.''
             else Inr (db\<lparr>receipts_table :=
               filter (\<lambda>r. \<not> (rec_transaction r = i \<and> rec_treatment r \<noteq> ''legacy'')) (receipts_table db)\<rparr>)
        else let m = take 7 (tx_date row);
                 old = first_row (filter (\<lambda>r. rec_transaction r = i) (receipts_table db))
             in if treatment = None \<and> expected = None \<and> old \<noteq> None then Inr db
                else record_receipt db i m (unwrap_or treatment ''salary'') expected old))"

section \<open>Values of the amounts\<close>

lemma positive_value: "canonical_text t \<Longrightarrow> text_value (positive t) = max 0 (text_value t)"
  by (auto elim!: canonical_text_E simp: positive_def starts_with_minus_format money.zero_val)

lemma positive_canonical: "canonical_text t \<Longrightarrow> canonical_text (positive t)"
  by (simp add: positive_def money.zero_canon)
lemma funding_portion_value:
  assumes "funding_portion native amt eur = Inr t"
  shows "canonical_text t" and "amt = ''0'' \<Longrightarrow> t = ''0''"
    and "amt \<noteq> ''0'' \<Longrightarrow> 200 * \<bar>text_value t - text_value native * text_value eur / text_value amt\<bar> \<le> 1"
  using assms proportional_nearest [of native eur amt t] money.zero_canon
  by (auto simp: funding_portion_def split: if_splits)

section \<open>Plans\<close>

lemma plan_income_of_in: "plan_income_of db m = Some p \<Longrightarrow> p \<in> set (plan_income_table db) \<and> plan_month p = m"
  by (auto simp: plan_income_of_def dest: first_row_filter)

lemma plan_income_exists: "list_ex (\<lambda>p. plan_month p = m) (plan_income_table db) \<longleftrightarrow> plan_income_of db m \<noteq> None"
  unfolding plan_income_of_def first_row_def list_ex_iff
  by (cases "filter (\<lambda>p. plan_month p = m) (plan_income_table db)")
    (auto simp: filter_empty_conv filter_eq_Cons_iff)

text \<open>A month gets a plan once, valued at the rates of its first day, and keeps it.\<close>

lemma ensure_income_plan:
  assumes "ensure_income db m = Inr db'"
  shows "\<exists>p. plan_income_of db' m = Some p" and "plan_income_of db k = Some p \<Longrightarrow> plan_income_of db' k = Some p"
    and "plan_income_of db m \<noteq> None \<Longrightarrow> db' = db" and "ensure_income db' m = Inr db'"
proof -
  have "plan_income_of db m \<noteq> None \<and> db' = db \<or>
    plan_income_of db m = None \<and> plan_month (last (plan_income_table db')) = m
      \<and> db' = db\<lparr>plan_income_table := plan_income_table db @ [last (plan_income_table db')]\<rparr>"
    using assms
    by (cases "plan_income_of db m = None")
      (auto simp: ensure_income_def plan_income_exists result_simps split: prod.splits)
  then consider "plan_income_of db m \<noteq> None" "db' = db"
    | p where "plan_income_of db m = None" "plan_month p = m"
        "db' = db\<lparr>plan_income_table := plan_income_table db @ [p]\<rparr>" by blast
  then have p: "(\<exists>p. plan_income_of db' m = Some p) \<and> (plan_income_of db k = Some p \<longrightarrow> plan_income_of db' k = Some p)
      \<and> (plan_income_of db m \<noteq> None \<longrightarrow> db' = db)"
  proof cases
    case 1
    then show ?thesis by auto
  next
    case (2 q)
    have "first_row [q] = Some q" by (simp add: first_row_def)
    with 2 show ?thesis by (auto simp: plan_income_of_def first_row_append split: option.splits)
  qed
  then show "\<exists>p. plan_income_of db' m = Some p" "plan_income_of db k = Some p \<Longrightarrow> plan_income_of db' k = Some p"
    "plan_income_of db m \<noteq> None \<Longrightarrow> db' = db" by blast+
  from p show "ensure_income db' m = Inr db'"
    by (auto simp: ensure_income_def plan_income_exists)
qed

section \<open>Outstanding income\<close>

lemma receipts_loop:
  assumes "fold_result add_receipt s rs = Inr s'"
  shows "text_value (fst s') = text_value (fst s) + sum_list (map (\<lambda>r. text_value (mr_actual_eur r)) rs)
    \<and> text_value (snd s') = text_value (snd s) + sum_list (map (\<lambda>r. text_value (mr_native r)) rs)"
  using assms
proof (induction rs arbitrary: s)
  case Nil
  then show ?case by simp
next
  case (Cons r rs)
  then obtain u where u: "add_receipt s r = Inr u" and rest: "fold_result add_receipt u rs = Inr s'"
    by (auto simp: result_simps)
  from u have "text_value (fst u) = text_value (fst s) + text_value (mr_actual_eur r)
      \<and> text_value (snd u) = text_value (snd s) + text_value (mr_native r)"
    by (auto simp: add_receipt_def result_simps split_beta dest!: money.add_val)
  with Cons.IH [OF rest] show ?case by simp
qed

lemma outstanding_value:
  assumes "outstanding_of row received through = Inr t"
  shows "if completed_by row through \<or> plan_amount row = ''0'' then t = ''0''
    else 200 * \<bar>text_value t - max 0 (text_value (plan_amount row) - text_value received)
      * text_value (plan_amount_eur row) / text_value (plan_amount row)\<bar> \<le> 1"
proof (cases "completed_by row through")
  case True
  with assms show ?thesis by (simp add: outstanding_of_def)
next
  case False
  with assms obtain rest where rest: "subtract_decimal_text (plan_amount row) received = Inr rest"
    and f: "funding_portion (positive rest) (plan_amount row) (plan_amount_eur row) = Inr t"
    by (auto simp: outstanding_of_def result_simps)
  from money.sub_val [OF rest] funding_portion_value [OF f] False show ?thesis
    by (auto simp: positive_value)
qed

text \<open>
  What is still expected: nothing once the expectation is completed, and otherwise the
  planned EUR amount in proportion to what has not been received, to the cent.
\<close>

lemma income_E:
  assumes "income db m through = Inr (Some e)"
  obtains row rs where "plan_income_of db m = Some row"
    "matched_receipts db m through (plan_amount row) (plan_currency row) (plan_amount_eur row) = Inr rs"
    "fold_result add_receipt (''0'', ''0'') rs = Inr (ei_received_eur e, ei_received_amount e)"
    "outstanding_of row (ei_received_amount e) through = Inr (ei_outstanding_eur e)"
    "ei_month e = m" "ei_amount e = plan_amount row" "ei_amount_eur e = plan_amount_eur row"
    "ei_currency e = plan_currency row" "ei_completed_month e = plan_completed_month row"
  using assms by (auto simp: income_def result_simps split: option.splits)

lemma income_values:
  assumes "income db m through = Inr (Some e)"
  obtains row rs where "plan_income_of db m = Some row"
    "matched_receipts db m through (plan_amount row) (plan_currency row) (plan_amount_eur row) = Inr rs"
    "text_value (ei_received_eur e) = sum_list (map (\<lambda>r. text_value (mr_actual_eur r)) rs)"
    "text_value (ei_received_amount e) = sum_list (map (\<lambda>r. text_value (mr_native r)) rs)"
    "if completed_by row through \<or> plan_amount row = ''0'' then ei_outstanding_eur e = ''0''
     else 200 * \<bar>text_value (ei_outstanding_eur e)
       - max 0 (text_value (plan_amount row) - text_value (ei_received_amount e))
         * text_value (plan_amount_eur row) / text_value (plan_amount row)\<bar> \<le> 1"
  using assms
proof (rule income_E)
  fix row rs
  assume "plan_income_of db m = Some row"
    "matched_receipts db m through (plan_amount row) (plan_currency row) (plan_amount_eur row) = Inr rs"
    "fold_result add_receipt (''0'', ''0'') rs = Inr (ei_received_eur e, ei_received_amount e)"
    "outstanding_of row (ei_received_amount e) through = Inr (ei_outstanding_eur e)"
  with receipts_loop [OF this(3)] outstanding_value [OF this(4)] show thesis
    by (intro that) (simp_all add: money.zero_val)
qed

section \<open>Receipts\<close>

lemma receipt_target_cases:
  assumes "receipt_target db m treatment expected old = Inr (db', matching)"
  shows "treatment \<noteq> ''salary'' \<Longrightarrow> matching = None \<and> db' = db \<and> expected = None"
    and "treatment = ''salary'' \<Longrightarrow> \<exists>t s p. matching = Some t \<and> t = unwrap_or expected m \<and> t \<le> m
      \<and> start db = Some s \<and> s \<le> t \<and> ensure_income db t = Inr db' \<and> plan_income_of db' t = Some p
      \<and> (plan_completed_month p = None \<or> (\<exists>r. old = Some r \<and> rec_treatment r = ''salary'' \<and> rec_expected_month r = Some t))"
proof -
  show "treatment \<noteq> ''salary'' \<Longrightarrow> matching = None \<and> db' = db \<and> expected = None"
    using assms by (auto simp: receipt_target_def split: if_splits)
  assume "treatment = ''salary''"
  with assms have t: "\<not> m < unwrap_or expected m" and s: "\<exists>s. start db = Some s \<and> \<not> unwrap_or expected m < s"
    and "\<exists>e. ensure_income db (unwrap_or expected m) = Inr db' \<and> income db' (unwrap_or expected m) m = Inr (Some e)
      \<and> matching = Some (unwrap_or expected m)
      \<and> (ei_completed_month e = None \<or> (\<exists>r. old = Some r \<and> rec_treatment r = ''salary''
          \<and> rec_expected_month r = Some (unwrap_or expected m)))"
    by (auto simp: receipt_target_def Let_def result_simps split: if_splits option.splits)
  then obtain e where e: "ensure_income db (unwrap_or expected m) = Inr db'"
    "income db' (unwrap_or expected m) m = Inr (Some e)" "matching = Some (unwrap_or expected m)"
    "ei_completed_month e = None \<or> (\<exists>r. old = Some r \<and> rec_treatment r = ''salary''
          \<and> rec_expected_month r = Some (unwrap_or expected m))" by blast
  from e(2) obtain row where row: "plan_income_of db' (unwrap_or expected m) = Some row"
    "ei_completed_month e = plan_completed_month row" by (rule income_E)
  from s obtain s0 where "start db = Some s0" "\<not> unwrap_or expected m < s0" by blast
  with t e row show "\<exists>t s p. matching = Some t \<and> t = unwrap_or expected m \<and> t \<le> m
      \<and> start db = Some s \<and> s \<le> t \<and> ensure_income db t = Inr db' \<and> plan_income_of db' t = Some p
      \<and> (plan_completed_month p = None \<or> (\<exists>r. old = Some r \<and> rec_treatment r = ''salary'' \<and> rec_expected_month r = Some t))"
    by (simp add: not_less)
qed

text \<open>The receipts of other transactions are never touched, and one transaction has one receipt.\<close>

definition replace_receipt :: "receipt_row \<Rightarrow> receipt_row \<Rightarrow> receipt_row" where
  "replace_receipt r x = (if rec_transaction x = rec_transaction r then r else x)"

lemma upsert_receipt_eq:
  "upsert_receipt r rs = (if rec_transaction r \<in> rec_transaction ` set rs then map (replace_receipt r) rs else rs @ [r])"
  by (auto simp: upsert_receipt_def replace_receipt_def list_ex_iff intro: rev_image_eqI)

lemma replace_receipt_transaction [simp]: "rec_transaction (replace_receipt r x) = rec_transaction x"
  by (simp add: replace_receipt_def)

lemma upsert_receipt_other:
  "rec_transaction r \<noteq> i \<Longrightarrow>
     filter (\<lambda>x. rec_transaction x = i) (upsert_receipt r rs) = filter (\<lambda>x. rec_transaction x = i) rs"
proof -
  assume "rec_transaction r \<noteq> i"
  then have "filter (\<lambda>x. rec_transaction x = i) (map (replace_receipt r) rs) = filter (\<lambda>x. rec_transaction x = i) rs"
    by (induction rs) (auto simp: replace_receipt_def)
  with \<open>rec_transaction r \<noteq> i\<close> show ?thesis by (simp add: upsert_receipt_eq)
qed

lemma upsert_receipt_distinct:
  "distinct (map rec_transaction rs) \<Longrightarrow> distinct (map rec_transaction (upsert_receipt r rs))"
  by (auto simp: upsert_receipt_eq comp_def)

lemma upsert_receipt_same:
  assumes "distinct (map rec_transaction rs)"
  shows "filter (\<lambda>x. rec_transaction x = rec_transaction r) (upsert_receipt r rs) = [r]"
proof (cases "rec_transaction r \<in> rec_transaction ` set rs")
  case True
  have "filter (\<lambda>x. rec_transaction x = rec_transaction r) (map (replace_receipt r) rs) = [r]"
    using True assms
  proof (induction rs)
    case (Cons x rs)
    then show ?case
      by (cases "rec_transaction x = rec_transaction r") (auto simp: replace_receipt_def filter_empty_conv intro: rev_image_eqI)
  qed simp
  with True show ?thesis by (simp add: upsert_receipt_eq)
next
  case False
  then have "filter (\<lambda>x. rec_transaction x = rec_transaction r) rs = []"
    by (auto simp: filter_empty_conv intro: rev_image_eqI)
  with False show ?thesis by (simp add: upsert_receipt_eq)
qed

lemma record_receipt_E:
  assumes "record_receipt db i m treatment expected old = Inr db'"
  obtains d matching where "treatment \<in> {''salary'', ''unexpected'', ''refund''}"
    "receipt_target db m treatment expected old = Inr (d, matching)"
    "db' = d\<lparr>receipts_table := upsert_receipt
       \<lparr>rec_transaction = i, rec_treatment = treatment, rec_expected_month = matching\<rparr> (receipts_table d)\<rparr>"
proof -
  have "treatment \<in> {''salary'', ''unexpected'', ''refund''}"
    using assms unfolding record_receipt_def by (auto split: if_splits)
  moreover from this assms have "\<exists>d matching. receipt_target db m treatment expected old = Inr (d, matching)
      \<and> db' = d\<lparr>receipts_table := upsert_receipt
       \<lparr>rec_transaction = i, rec_treatment = treatment, rec_expected_month = matching\<rparr> (receipts_table d)\<rparr>"
    unfolding record_receipt_def by (auto simp: result_simps)
  ultimately show ?thesis using that by blast
qed

lemma positive_whole: "positive (whole z) = whole (max 0 z)"
  by (rule money.canon_unique) (simp_all add: positive_canonical positive_value)

end
