(* ===== verification/Movements.thy ===== *)
theory Movements
  imports PlanIncome
begin

text \<open>
  The append-only movements of \<open>server/src/budget_ledger.rs\<close>: \<open>movement\<close> reconciles the desired
  effect of a source with what was already recorded for it, and \<open>sync\<close> does so for the plan,
  the transactions and the corrections of every open month and for the excess income of
  every expectation.
\<close>

section \<open>Movements\<close>

text \<open>
  \<open>INSERT INTO budget_ledger_movements\<close>: a new row identifier, and the trigger
  \<open>budget_ledger_movements_closed\<close>.
\<close>

definition insert_movement ::
  "db \<Rightarrow> string \<Rightarrow> string \<Rightarrow> string \<Rightarrow> string \<Rightarrow> string \<Rightarrow> string option \<Rightarrow> db result" where
  "insert_movement db m category kind key amt operation =
     (if month_closed db m then Inl ''budget month is closed''
      else Inr (db\<lparr>movements_table := movements_table db @
        [\<lparr>mov_id = (case last_max mov_id (movements_table db) of None \<Rightarrow> 1 | Some r \<Rightarrow> Suc (mov_id r)),
          mov_month = m, mov_category = category, mov_kind = kind, mov_source_key = key,
          mov_amount = amt, mov_operation = operation\<rparr>]\<rparr>))"

definition source_movements :: "db \<Rightarrow> string \<Rightarrow> string \<Rightarrow> string \<Rightarrow> string \<Rightarrow> movement_row list" where
  "source_movements db m category kind key =
     filter (\<lambda>r. mov_month r = m \<and> mov_category r = category \<and> mov_kind r = kind
        \<and> mov_source_key r = key) (movements_table db)"

definition movement ::
  "db \<Rightarrow> string \<Rightarrow> string \<Rightarrow> string \<Rightarrow> string \<Rightarrow> string \<Rightarrow> string option \<Rightarrow> db result" where
  "movement db m category kind key wanted operation =
     and_then (fold_result add_decimal_text ''0''
       (map mov_amount (source_movements db m category kind key))) (\<lambda>prior.
     and_then (subtract_decimal_text wanted prior) (\<lambda>delta.
       if delta \<noteq> ''0'' then insert_movement db m category kind key delta operation else Inr db))"

section \<open>Synchronising movements with the transactions of a month\<close>

type_synonym movement_key = "string \<times> string \<times> string"

definition receipt_treatment :: "db \<Rightarrow> string \<Rightarrow> string option" where
  "receipt_treatment db i =
     map_option rec_treatment (first_row (filter (\<lambda>r. rec_transaction r = i) (receipts_table db)))"

definition transaction_key :: "string \<Rightarrow> string" where
  "transaction_key i = ''transaction:'' @ i"

text \<open>One side of a transaction: its category, when real, is charged or credited.\<close>

definition want_side ::
  "db \<Rightarrow> transaction_row \<Rightarrow> string option \<Rightarrow> string \<Rightarrow> bool
    \<Rightarrow> (movement_key, string) btree \<Rightarrow> (movement_key, string) btree result" where
  "want_side db t category side incoming wanted =
     (case category of
        None \<Rightarrow> Inr wanted
      | Some c \<Rightarrow>
          if c \<notin> set (map cat_id (real_categories db)) then Inr wanted
          else
            and_then (if tx_kind t = ''reallocate''
                then Inr (dropWhile (\<lambda>x. x = CHR ''-'') (tx_amount t))
                else ok_or (valuation_eur db (tx_id t) side) ''Missing category valuation'') (\<lambda>amt.
            and_then (if incoming then Inr amt else subtract_decimal_text ''0'' amt) (\<lambda>effect.
            bt_add_to wanted
              (c, if tx_kind t = ''reallocate'' then ''reallocation'' else ''spending'', transaction_key (tx_id t))
              effect)))"

definition want_transaction ::
  "db \<Rightarrow> (movement_key, string) btree \<Rightarrow> transaction_row \<Rightarrow> (movement_key, string) btree result" where
  "want_transaction db wanted t =
     (let treatment = receipt_treatment db (tx_id t) in
      if tx_kind t = ''transfer'' \<or> tx_kind t = ''reconciliation'' then Inr wanted
      else if tx_kind t = ''income'' \<and> treatment \<noteq> Some ''refund'' \<and> treatment \<noteq> Some ''legacy''
      then if treatment = Some ''unexpected'' \<or> treatment = None
           then and_then (ok_or (valuation_eur db (tx_id t) ''to'') ''Missing income valuation'') (\<lambda>amt.
             Inr (bt_insert (UNALLOCATED, ''income'', transaction_key (tx_id t)) amt wanted))
           else Inr wanted
      else and_then (want_side db t (tx_from_category t) ''from'' False wanted) (\<lambda>wanted'.
        want_side db t (tx_to_category t) ''to'' True wanted'))"

text \<open>SQLite's \<open>LIKE 'prefix%'\<close> ignores the case of ASCII letters.\<close>

definition like_prefix :: "string \<Rightarrow> string \<Rightarrow> bool" where
  "like_prefix p s \<longleftrightarrow> map ascii_lower (take (length p) s) = map ascii_lower p"

definition existing_transaction_keys :: "db \<Rightarrow> string \<Rightarrow> movement_key list" where
  "existing_transaction_keys db m =
     remdups (map (\<lambda>r. (mov_category r, mov_kind r, mov_source_key r))
       (filter (\<lambda>r. mov_month r = m \<and> like_prefix ''transaction:'' (mov_source_key r)) (movements_table db)))"

text \<open>The map \<open>wanted\<close> of \<open>sync_transactions\<close>: the desired effects, zero for vanished sources.\<close>

definition wanted_effects :: "db \<Rightarrow> string \<Rightarrow> (movement_key, string) btree result" where
  "wanted_effects db m =
     and_then (fold_result (want_transaction db) [] (transactions_in db m)) (\<lambda>wanted.
     Inr (foldl (\<lambda>w k. bt_or_insert k ''0'' w) wanted (existing_transaction_keys db m)))"

definition sync_transactions :: "db \<Rightarrow> string \<Rightarrow> string option \<Rightarrow> db result" where
  "sync_transactions db m operation =
     and_then (wanted_effects db m) (\<lambda>wanted.
     fold_result (\<lambda>d ((category, kind, key), amt). movement d m category kind key amt operation) db wanted)"

section \<open>Synchronising the ledger\<close>

definition expected_key :: "string \<Rightarrow> string" where
  "expected_key m = ''expected:'' @ m"

definition allocation_key :: "string \<Rightarrow> string \<Rightarrow> string" where
  "allocation_key m category = ''allocation:'' @ m @ '':'' @ category"

definition allocations_key :: "string \<Rightarrow> string" where
  "allocations_key m = ''allocations:'' @ m"

definition correction_key :: "string \<Rightarrow> string \<Rightarrow> string" where
  "correction_key operation category = ''correction:'' @ operation @ '':'' @ category"

definition excess_key :: "string \<Rightarrow> string" where
  "excess_key m = ''excess:'' @ m"

definition complete_key :: "string \<Rightarrow> string" where
  "complete_key m = ''complete:'' @ m"

definition allocated_categories :: "db \<Rightarrow> category_row list" where
  "allocated_categories db = filter (\<lambda>c. cat_id c \<noteq> UNALLOCATED) (real_categories db)"

text \<open>The allocation of every real category, and its total taken out of Unallocated.\<close>

definition allocation_step ::
  "db \<Rightarrow> string \<Rightarrow> string option \<Rightarrow> db \<times> string \<Rightarrow> category_row \<Rightarrow> (db \<times> string) result" where
  "allocation_step db m operation = (\<lambda>(d, sum) c.
     and_then (ok_or (base_monthly db (cat_id c) m) ''Missing allocation'') (\<lambda>amt.
     and_then (add_decimal_text sum amt) (\<lambda>sum'.
     and_then (movement d m (cat_id c) ''allocation'' (allocation_key m (cat_id c)) amt operation) (\<lambda>d'.
     Inr (d', sum')))))"

definition sync_allocations :: "db \<Rightarrow> string \<Rightarrow> string option \<Rightarrow> db result" where
  "sync_allocations db m operation =
     and_then (fold_result (allocation_step db m operation) (db, ''0'') (allocated_categories db)) (\<lambda>(d, sum).
     and_then (subtract_decimal_text ''0'' sum) (\<lambda>out.
     movement d m UNALLOCATED ''allocation'' (allocations_key m) out operation))"

definition corrections_in :: "db \<Rightarrow> string \<Rightarrow> correction_item_row list" where
  "corrections_in db m =
     filter (\<lambda>i. list_ex (\<lambda>c. cor_operation c = item_operation i \<and> cor_applied_month c = m)
       (corrections_table db)) (correction_items_table db)"

definition sync_corrections :: "db \<Rightarrow> string \<Rightarrow> string option \<Rightarrow> db result" where
  "sync_corrections db m operation =
     fold_result (\<lambda>d i.
       and_then (subtract_decimal_text ''0'' (item_expense_delta i)) (\<lambda>amt.
       movement d m (item_category i) ''correction''
         (correction_key (item_operation i) (item_category i)) amt operation))
       db (corrections_in db m)"

text \<open>The body of the loop over the months from the activation to the current one.\<close>

definition sync_month :: "string option \<Rightarrow> db \<Rightarrow> string \<Rightarrow> db result" where
  "sync_month operation db m =
     (if month_closed db m then Inr db
      else
        and_then (ensure_income db m) (\<lambda>d1.
        and_then (fetch_one (plan_income_of d1 m)) (\<lambda>row.
        and_then (movement d1 m UNALLOCATED ''funding'' (expected_key m) (plan_amount_eur row) operation) (\<lambda>d2.
        and_then (sync_allocations d2 m operation) (\<lambda>d3.
        and_then (sync_transactions d3 m operation) (\<lambda>d4.
        sync_corrections d4 m operation))))))"

text \<open>
  One receipt: the part of the expectation it covers, capped at the planned amount, and the
  excess of what was received over it, in the month it was received.
\<close>

definition excess_step ::
  "string \<Rightarrow> string \<Rightarrow> string \<times> (string, string) btree \<Rightarrow> matched_receipt
    \<Rightarrow> (string \<times> (string, string) btree) result" where
  "excess_step native_plan planned = (\<lambda>(received, wanted) r.
     and_then (subtract_decimal_text native_plan received) (\<lambda>rest.
     and_then (subtract_decimal_text native_plan (positive rest)) (\<lambda>before.
     and_then (add_decimal_text received (mr_native r)) (\<lambda>received'.
     and_then (subtract_decimal_text native_plan received') (\<lambda>rest'.
     and_then (subtract_decimal_text native_plan (positive rest')) (\<lambda>after.
     and_then (funding_portion after native_plan planned) (\<lambda>fa.
     and_then (funding_portion before native_plan planned) (\<lambda>fb.
     and_then (subtract_decimal_text fa fb) (\<lambda>covered.
     and_then (subtract_decimal_text (mr_actual_eur r) covered) (\<lambda>difference.
       if mr_treatment r \<noteq> ''legacy''
       then and_then (bt_add_to wanted (take 7 (mr_date r)) difference) (\<lambda>wanted'. Inr (received', wanted'))
       else Inr (received', wanted)))))))))))"

text \<open>The excess per month of receipt, zero where a movement of the expectation has vanished.\<close>

definition wanted_excess :: "string \<Rightarrow> db \<Rightarrow> string \<Rightarrow> (string, string) btree result" where
  "wanted_excess current db m =
     and_then (fetch_one (plan_income_of db m)) (\<lambda>row.
     and_then (matched_receipts db m current (plan_amount row) (plan_currency row) (plan_amount_eur row))
       (\<lambda>receipts.
     and_then (fold_result (excess_step (plan_amount row) (plan_amount_eur row)) (''0'', []) receipts)
       (\<lambda>(received, wanted).
     Inr (foldl (\<lambda>w k. bt_or_insert k ''0'' w) wanted
       (remdups (map mov_month (filter (\<lambda>r. mov_source_key r = excess_key m) (movements_table db))))))))"

text \<open>Completing a short expectation takes the shortfall out in the completion month.\<close>

definition sync_completion :: "string option \<Rightarrow> db \<Rightarrow> string \<Rightarrow> db result" where
  "sync_completion operation db m =
     and_then (fetch_one (plan_income_of db m)) (\<lambda>completion.
       case plan_completed_month completion of
         None \<Rightarrow> Inr db
       | Some k \<Rightarrow>
           and_then (ok_or (plan_shortfall completion) ''Missing completion amount'') (\<lambda>shortfall.
             if month_closed db k then Inr db
             else and_then (subtract_decimal_text ''0'' shortfall) (\<lambda>out.
               movement db k UNALLOCATED ''settlement'' (complete_key m) out operation)))"

definition sync_excess :: "string \<Rightarrow> string option \<Rightarrow> db \<Rightarrow> string \<Rightarrow> db result" where
  "sync_excess current operation db m =
     and_then (wanted_excess current db m) (\<lambda>wanted.
     and_then (fold_result (\<lambda>d (k, v).
         if month_closed d k then Inr d
         else movement d k UNALLOCATED ''income'' (excess_key m) v operation) db wanted) (\<lambda>db'.
     sync_completion operation db' m))"

definition sync :: "'d platform \<Rightarrow> db \<Rightarrow> string option \<Rightarrow> db result option" where
  "sync P db operation =
     (case start db of
        None \<Rightarrow> Some (Inr db)
      | Some begin_month \<Rightarrow>
          returned (while_months (calendar P) (sync_month operation) begin_month (this_month P) db) (\<lambda>d.
          Some (fold_result (sync_excess (this_month P) operation) d
            (sort_key id (map plan_month (plan_income_table d))))))"

section \<open>The contract of a ledger operation\<close>

definition source_total :: "db \<Rightarrow> string \<Rightarrow> string \<Rightarrow> string \<Rightarrow> string \<Rightarrow> rat" where
  "source_total db m category kind key =
     sum_list (map (\<lambda>r. text_value (mov_amount r)) (source_movements db m category kind key))"

text \<open>
  The database only grows: movements of open months and plans of new months are appended,
  nothing else changes.
\<close>

definition grows_to :: "db \<Rightarrow> db \<Rightarrow> bool" where
  "grows_to db db' \<longleftrightarrow> (\<exists>new plans.
     db' = db\<lparr>movements_table := movements_table db @ new, plan_income_table := plan_income_table db @ plans\<rparr>
     \<and> (\<forall>r\<in>set new. \<not> month_closed db (mov_month r) \<and> canonical_text (mov_amount r) \<and> mov_amount r \<noteq> ''0'')
     \<and> (\<forall>p\<in>set plans. plan_month p \<notin> plan_month ` set (plan_income_table db)))"

lemma grows_to_refl [simp]: "grows_to db db"
  by (auto simp: grows_to_def intro!: exI [of _ "[]"])

lemma grows_to_trans: "grows_to a b \<Longrightarrow> grows_to b c \<Longrightarrow> grows_to a c"
proof -
  assume "grows_to a b" "grows_to b c"
  then obtain n p n' p' where
    b: "b = a\<lparr>movements_table := movements_table a @ n, plan_income_table := plan_income_table a @ p\<rparr>"
      "\<forall>r\<in>set n. \<not> month_closed a (mov_month r) \<and> canonical_text (mov_amount r) \<and> mov_amount r \<noteq> ''0''"
      "\<forall>x\<in>set p. plan_month x \<notin> plan_month ` set (plan_income_table a)" and
    c: "c = b\<lparr>movements_table := movements_table b @ n', plan_income_table := plan_income_table b @ p'\<rparr>"
      "\<forall>r\<in>set n'. \<not> month_closed b (mov_month r) \<and> canonical_text (mov_amount r) \<and> mov_amount r \<noteq> ''0''"
      "\<forall>x\<in>set p'. plan_month x \<notin> plan_month ` set (plan_income_table b)"
    unfolding grows_to_def by blast
  have "month_closed b = month_closed a" by (simp add: fun_eq_iff month_closed_def b(1))
  with b c show "grows_to a c"
    unfolding grows_to_def
    by (intro exI [of _ "n @ n'"] exI [of _ "p @ p'"]) (auto simp: image_Un)
qed

lemma grows_to_fold:
  assumes "fold_result f db xs = Inr db'"
    and "\<And>d x d'. x \<in> set xs \<Longrightarrow> f d x = Inr d' \<Longrightarrow> grows_to d d'"
  shows "grows_to db db'"
  using assms(1) by (rule fold_result_invariant [where P = "grows_to db"])
    (auto dest: assms(2) intro: grows_to_trans)

lemma grows_to_tables:
  assumes "grows_to db db'"
  shows "categories_table db' = categories_table db" "periods_table db' = periods_table db"
    "transactions_table db' = transactions_table db" "valuations_table db' = valuations_table db"
    "receipts_table db' = receipts_table db" "closures_table db' = closures_table db"
    "accounts_table db' = accounts_table db" "rates_table db' = rates_table db"
    "corrections_table db' = corrections_table db" "correction_items_table db' = correction_items_table db"
    "start db' = start db" "month_closed db' = month_closed db" "valuation_eur db' = valuation_eur db"
    "base_monthly db' = base_monthly db" "real_categories db' = real_categories db"
    "allocated_categories db' = allocated_categories db" "corrections_in db' = corrections_in db"
    "transactions_in db' = transactions_in db" "receipt_treatment db' = receipt_treatment db"
  using assms
  by (auto simp: grows_to_def start_def month_closed_def fun_eq_iff valuation_eur_def latest_valuation_def
      base_monthly_def real_categories_def allocated_categories_def corrections_in_def transactions_in_def
      receipt_treatment_def)

locale ledger_operation =
  fixes step :: "db \<Rightarrow> db result"
  assumes grows: "step db = Inr db' \<Longrightarrow> grows_to db db'"
begin

lemma closed_movements_kept:
  "step db = Inr db' \<Longrightarrow> month_closed db m \<Longrightarrow>
     filter (\<lambda>r. mov_month r = m) (movements_table db') = filter (\<lambda>r. mov_month r = m) (movements_table db)"
  by (drule grows) (auto simp: grows_to_def filter_empty_conv)

lemma closed_total_kept:
  "step db = Inr db' \<Longrightarrow> month_closed db m \<Longrightarrow> source_total db' m c k key = source_total db m c k key"
proof -
  assume "step db = Inr db'" "month_closed db m"
  then have eq: "filter (\<lambda>r. mov_month r = m) (movements_table db') = filter (\<lambda>r. mov_month r = m) (movements_table db)"
    by (rule closed_movements_kept)
  have split: "source_movements d m c k key = filter (\<lambda>r. mov_category r = c \<and> mov_kind r = k \<and> mov_source_key r = key)
      (filter (\<lambda>r. mov_month r = m) (movements_table d))" for d
    by (simp add: source_movements_def conj_commute conj_left_commute)
  show ?thesis by (simp add: source_total_def split eq)
qed

lemma movements_prefix:
  "step db = Inr db' \<Longrightarrow> take (length (movements_table db)) (movements_table db') = movements_table db"
  by (drule grows) (auto simp: grows_to_def)

lemma plan_kept: "step db = Inr db' \<Longrightarrow> plan_income_of db m = Some p \<Longrightarrow> plan_income_of db' m = Some p"
  by (drule grows) (auto simp: grows_to_def plan_income_of_def first_row_append split: option.splits)

end

section \<open>Movements\<close>

lemma movement_E:
  assumes "movement db m c k key w operation = Inr db'"
  obtains p d where "fold_result add_decimal_text ''0'' (map mov_amount (source_movements db m c k key)) = Inr p"
    "subtract_decimal_text w p = Inr d" "canonical_text d" "text_value d = text_value w - source_total db m c k key"
    "if d = ''0'' then db' = db else insert_movement db m c k key d operation = Inr db'"
proof -
  from assms obtain p d where p: "fold_result add_decimal_text ''0'' (map mov_amount (source_movements db m c k key)) = Inr p"
    and d: "subtract_decimal_text w p = Inr d" "if d = ''0'' then db' = db else insert_movement db m c k key d operation = Inr db'"
    by (auto simp: movement_def result_simps split: if_splits)
  have "text_value p = source_total db m c k key"
    using money.sum_val [OF p] by (simp add: source_total_def money.zero_val comp_def)
  with p d show ?thesis using that money.sub_val [OF d(1)] by auto
qed

lemma insert_movement_grows:
  "insert_movement db m c k key d operation = Inr db' \<Longrightarrow> canonical_text d \<Longrightarrow> d \<noteq> ''0'' \<Longrightarrow> grows_to db db'"
  unfolding grows_to_def
  by (rule exI [of _ "drop (length (movements_table db)) (movements_table db')"], rule exI [of _ "[]"])
    (auto simp: insert_movement_def split: if_splits)

lemma movement_grows: "movement db m c k key w operation = Inr db' \<Longrightarrow> grows_to db db'"
  by (erule movement_E) (auto dest: insert_movement_grows split: if_splits)

interpretation movement: ledger_operation "\<lambda>db. movement db m c k key w operation"
  for m c k key w operation
  by unfold_locales (rule movement_grows)

text \<open>The source ends up with the wanted effect, and no other source is touched.\<close>

lemma movement_total:
  assumes "movement db m c k key w operation = Inr db'"
  shows "source_total db' m' c' k' key' =
    (if (m', c', k', key') = (m, c, k, key) then text_value w else source_total db m' c' k' key')"
  using assms
proof (rule movement_E)
  fix p d
  assume v: "text_value d = text_value w - source_total db m c k key" and "canonical_text d"
    and d: "if d = ''0'' then db' = db else insert_movement db m c k key d operation = Inr db'"
  show ?thesis
  proof (cases "d = ''0''")
    case True
    with d v show ?thesis by (simp add: money.zero_val)
  next
    case False
    with d v show ?thesis
      by (auto simp: insert_movement_def source_total_def source_movements_def split: if_splits)
  qed
qed

text \<open>Repeating a movement changes nothing.\<close>

lemma movement_again:
  assumes "movement db m c k key w operation = Inr db'"
  shows "movement db' m c k key w operation' = Inr db'"
proof -
  from assms obtain p d where p: "fold_result add_decimal_text ''0'' (map mov_amount (source_movements db m c k key)) = Inr p"
    and d: "subtract_decimal_text w p = Inr d" "canonical_text d" "text_value d = text_value w - source_total db m c k key"
      "if d = ''0'' then db' = db else insert_movement db m c k key d operation = Inr db'"
    by (rule movement_E)
  have w: "amount w" using d(1) money.sub_args by blast
  have sources: "source_movements db' m c k key = source_movements db m c k key \<or>
    (\<exists>r. mov_amount r = d \<and> source_movements db' m c k key = source_movements db m c k key @ [r])"
    using d(4) by (auto simp: insert_movement_def source_movements_def split: if_splits)
  have "\<And>x. x \<in> set (map mov_amount (source_movements db' m c k key)) \<Longrightarrow> amount x"
    using sources money.sum_args [OF p] money.canon_amt [OF d(2)] by auto
  then obtain q where q: "fold_result add_decimal_text ''0'' (map mov_amount (source_movements db' m c k key)) = Inr q"
    using money.sum_total money.zero_amt by blast
  have "text_value q = source_total db' m c k key"
    using money.sum_val [OF q] by (simp add: source_total_def money.zero_val comp_def)
  then have "text_value q = text_value w" using movement_total [OF assms] by simp
  moreover obtain e where e: "subtract_decimal_text w q = Inr e"
    using money.sub_total w money.sum_canon [OF q money.zero_canon] money.canon_amt by blast
  ultimately have "e = ''0''"
    using money.sub_val [OF e] money.canon_unique money.zero_canon money.zero_val by auto
  with q e show ?thesis by (simp add: movement_def)
qed

text \<open>A batch of movements with different sources leaves each with its wanted effect.\<close>

lemma settle_all:
  assumes "fold_result (\<lambda>d ((c, k, key), a). movement d m c k key a operation) db kvs = Inr db'"
    and "distinct (map fst kvs)"
  shows "source_total db' m' c k key =
    (if m' = m then case map_of kvs (c, k, key) of Some a \<Rightarrow> text_value a | None \<Rightarrow> source_total db m c k key
     else source_total db m' c k key)"
  using assms
proof (induction kvs arbitrary: db)
  case Nil
  then show ?case by simp
next
  case (Cons kv kvs)
  obtain c1 k1 key1 a where kv: "kv = ((c1, k1, key1), a)" by (cases kv) auto
  with Cons.prems(1) obtain d where d: "movement db m c1 k1 key1 a operation = Inr d"
    and rest: "fold_result (\<lambda>d ((c, k, key), a). movement d m c k key a operation) d kvs = Inr db'"
    by (auto simp: result_simps)
  from Cons.prems(2) kv have "map_of kvs (c1, k1, key1) = None"
    by (auto simp: map_of_eq_None_iff)
  with Cons.IH [OF rest] Cons.prems(2) kv movement_total [OF d] show ?case
    by (auto split: option.splits)
qed

section \<open>The operations of the ledger grow it\<close>

lemma ensure_income_grows: "ensure_income db m = Inr db' \<Longrightarrow> grows_to db db'"
  unfolding grows_to_def
  by (rule exI [of _ "[]"], rule exI [of _ "drop (length (plan_income_table db)) (plan_income_table db')"])
    (auto simp: ensure_income_def result_simps list_ex_iff split: if_splits prod.splits)

lemma sync_allocations_grows: "sync_allocations db m operation = Inr db' \<Longrightarrow> grows_to db db'"
proof -
  assume "sync_allocations db m operation = Inr db'"
  then obtain d t out where loop: "fold_result (allocation_step db m operation) (db, ''0'') (allocated_categories db) = Inr (d, t)"
    and last: "movement d m UNALLOCATED ''allocation'' (allocations_key m) out operation = Inr db'"
    by (auto simp: sync_allocations_def result_simps)
  have "grows_to db (fst (d, t))"
  proof (rule fold_result_invariant [OF loop])
    fix s u and c :: category_row
    assume s: "grows_to db (fst s)" and "allocation_step db m operation s c = Inr u"
    then obtain amt where "movement (fst s) m (cat_id c) ''allocation'' (allocation_key m (cat_id c)) amt operation = Inr (fst u)"
      by (cases s) (auto simp: allocation_step_def result_simps)
    with s show "grows_to db (fst u)" by (blast intro: grows_to_trans movement_grows)
  qed simp
  with last show ?thesis by (auto intro: grows_to_trans movement_grows)
qed

lemma sync_transactions_grows: "sync_transactions db m operation = Inr db' \<Longrightarrow> grows_to db db'"
  by (auto simp: sync_transactions_def result_simps elim!: grows_to_fold dest: movement_grows)

lemma sync_corrections_grows: "sync_corrections db m operation = Inr db' \<Longrightarrow> grows_to db db'"
  unfolding sync_corrections_def
  by (erule grows_to_fold) (auto simp: result_simps dest: movement_grows)

lemma sync_month_E:
  assumes "sync_month operation db m = Inr db'" and "\<not> month_closed db m"
  obtains d1 row d2 d3 d4 where "ensure_income db m = Inr d1" "plan_income_of d1 m = Some row"
    "movement d1 m UNALLOCATED ''funding'' (expected_key m) (plan_amount_eur row) operation = Inr d2"
    "sync_allocations d2 m operation = Inr d3" "sync_transactions d3 m operation = Inr d4"
    "sync_corrections d4 m operation = Inr db'"
  using assms that unfolding sync_month_def by (simp add: result_simps) blast

lemma sync_month_grows:
  assumes "sync_month operation db m = Inr db'"
  shows "grows_to db db'"
proof (cases "month_closed db m")
  case True
  with assms show ?thesis by (simp add: sync_month_def)
next
  case False
  from assms False show ?thesis
  proof (rule sync_month_E)
    fix d1 row d2 d3 d4
    assume "ensure_income db m = Inr d1" and "sync_corrections d4 m operation = Inr db'"
      "movement d1 m UNALLOCATED ''funding'' (expected_key m) (plan_amount_eur row) operation = Inr d2"
      "sync_allocations d2 m operation = Inr d3" "sync_transactions d3 m operation = Inr d4"
    then have "grows_to db d1" "grows_to d1 d2" "grows_to d2 d3" "grows_to d3 d4" "grows_to d4 db'"
      by (blast intro: ensure_income_grows movement_grows sync_allocations_grows sync_transactions_grows
          sync_corrections_grows)+
    then show ?thesis by (meson grows_to_trans)
  qed
qed

lemma sync_completion_grows: "sync_completion operation db m = Inr db' \<Longrightarrow> grows_to db db'"
  by (auto simp: sync_completion_def result_simps split: option.splits if_splits dest: movement_grows)

lemma sync_excess_grows:
  assumes "sync_excess current operation db m = Inr db'"
  shows "grows_to db db'"
proof -
  from assms obtain kvs d where loop: "fold_result (\<lambda>d (k, v). if month_closed d k then Inr d
            else movement d k UNALLOCATED ''income'' (excess_key m) v operation) db kvs = Inr d"
    and rest: "sync_completion operation d m = Inr db'"
    by (auto simp: sync_excess_def result_simps)
  from loop have "grows_to db d"
    by (rule grows_to_fold) (auto split: if_splits dest: movement_grows)
  with rest show ?thesis by (blast intro: grows_to_trans sync_completion_grows)
qed

lemma sync_grows:
  assumes "sync P db operation = Some (Inr db')"
  shows "grows_to db db'"
proof (cases "start db")
  case None
  with assms show ?thesis by (simp add: sync_def)
next
  case (Some s)
  with assms obtain d where d: "while_months (calendar P) (sync_month operation) s (this_month P) db = Some (Inr d)"
    and rest: "fold_result (sync_excess (this_month P) operation) d (sort_key id (map plan_month (plan_income_table d))) = Inr db'"
    by (auto simp: sync_def result_simps)
  have "grows_to db d"
    by (rule while_months_invariant [OF d]) (blast intro: grows_to_refl grows_to_trans sync_month_grows)+
  moreover have "grows_to d db'"
    using rest by (rule grows_to_fold) (rule sync_excess_grows)
  ultimately show ?thesis by (rule grows_to_trans)
qed

interpretation sync_transactions: ledger_operation "\<lambda>db. sync_transactions db m operation" for m operation
  by unfold_locales (rule sync_transactions_grows)

interpretation sync_month: ledger_operation "\<lambda>db. sync_month operation db m" for m operation
  by unfold_locales (rule sync_month_grows)

interpretation sync: ledger_operation
  "\<lambda>db. case sync P db operation of Some r \<Rightarrow> r | None \<Rightarrow> Inl ''no result''" for P operation
  by unfold_locales (auto dest: sync_grows split: option.splits)

section \<open>What a synchronisation establishes\<close>

lemma allocation_loop:
  assumes "fold_result (allocation_step db m operation) (d0, t0) cs = Inr (d, t)"
    and "distinct (map cat_id cs)"
  shows "text_value t = text_value t0 + sum_list (map (\<lambda>c. text_value (the (base_monthly db (cat_id c) m))) cs)"
    and "source_total d m i ''allocation'' (allocation_key m i) =
      (if i \<in> set (map cat_id cs) then text_value (the (base_monthly db i m))
       else source_total d0 m i ''allocation'' (allocation_key m i))"
proof -
  have "text_value t = text_value t0 + sum_list (map (\<lambda>c. text_value (the (base_monthly db (cat_id c) m))) cs)
    \<and> source_total d m i ''allocation'' (allocation_key m i) =
      (if i \<in> set (map cat_id cs) then text_value (the (base_monthly db i m))
       else source_total d0 m i ''allocation'' (allocation_key m i))"
    using assms
  proof (induction cs arbitrary: d0 t0)
    case Nil
    then show ?case by simp
  next
    case (Cons c cs)
    from Cons.prems(1) obtain amt t1 d1 where b: "base_monthly db (cat_id c) m = Some amt"
      "add_decimal_text t0 amt = Inr t1"
      and d1: "movement d0 m (cat_id c) ''allocation'' (allocation_key m (cat_id c)) amt operation = Inr d1"
      and rest: "fold_result (allocation_step db m operation) (d1, t1) cs = Inr (d, t)"
      by (auto simp: allocation_step_def result_simps)
    from Cons.IH [OF rest] Cons.prems(2) movement_total [OF d1, of m i "''allocation''" "allocation_key m i"]
      money.add_val [OF b(2)] b(1)
    show ?case by auto
  qed
  then show "text_value t = text_value t0 + sum_list (map (\<lambda>c. text_value (the (base_monthly db (cat_id c) m))) cs)"
    and "source_total d m i ''allocation'' (allocation_key m i) =
      (if i \<in> set (map cat_id cs) then text_value (the (base_monthly db i m))
       else source_total d0 m i ''allocation'' (allocation_key m i))" by simp_all
qed

text \<open>
  The allocations of a month: every real category is credited its base amount, and
  Unallocated is debited with their total.
\<close>

lemma sync_allocations_total:
  assumes s: "sync_allocations db m operation = Inr db'" and dist: "distinct (map cat_id (categories_table db))"
  shows "c \<in> set (allocated_categories db) \<Longrightarrow>
      source_total db' m (cat_id c) ''allocation'' (allocation_key m (cat_id c))
        = text_value (the (base_monthly db (cat_id c) m))"
    and "source_total db' m UNALLOCATED ''allocation'' (allocations_key m)
        = - sum_list (map (\<lambda>c. text_value (the (base_monthly db (cat_id c) m))) (allocated_categories db))"
proof -
  from s obtain d t out where loop: "fold_result (allocation_step db m operation) (db, ''0'') (allocated_categories db) = Inr (d, t)"
    and out: "subtract_decimal_text ''0'' t = Inr out"
    and last: "movement d m UNALLOCATED ''allocation'' (allocations_key m) out operation = Inr db'"
    by (auto simp: sync_allocations_def result_simps)
  have "distinct (map cat_id (allocated_categories db))"
    using dist by (auto simp: allocated_categories_def real_categories_def distinct_map
        intro: inj_on_subset)
  note l = allocation_loop [OF loop this]
  show "source_total db' m UNALLOCATED ''allocation'' (allocations_key m)
        = - sum_list (map (\<lambda>c. text_value (the (base_monthly db (cat_id c) m))) (allocated_categories db))"
    using l(1) money.sub_val [OF out] movement_total [OF last] by (simp add: money.zero_val)
  show "source_total db' m (cat_id c) ''allocation'' (allocation_key m (cat_id c))
        = text_value (the (base_monthly db (cat_id c) m))" if "c \<in> set (allocated_categories db)"
    using l(2) [of "cat_id c"] that movement_total [OF last]
    by (auto simp: allocated_categories_def)
qed

section \<open>The effects of a transaction\<close>

text \<open>
  What a transaction means for the plan, without maps or previous movements: every side
  with a real category charges or credits it, unexpected income credits Unallocated, and a
  salary, a transfer or a reconciliation has no effect of its own.
\<close>

definition side_effects ::
  "db \<Rightarrow> transaction_row \<Rightarrow> string option \<Rightarrow> string \<Rightarrow> rat \<Rightarrow> (movement_key \<times> rat) list" where
  "side_effects db t category side sign =
     (case category of
        None \<Rightarrow> []
      | Some c \<Rightarrow>
          if c \<notin> set (map cat_id (real_categories db)) then []
          else [((c, if tx_kind t = ''reallocate'' then ''reallocation'' else ''spending'', transaction_key (tx_id t)),
                 sign * text_value (if tx_kind t = ''reallocate'' then dropWhile (\<lambda>x. x = CHR ''-'') (tx_amount t)
                                    else the (valuation_eur db (tx_id t) side)))])"

definition transaction_effects :: "db \<Rightarrow> transaction_row \<Rightarrow> (movement_key \<times> rat) list" where
  "transaction_effects db t =
     (let treatment = receipt_treatment db (tx_id t) in
      if tx_kind t \<in> {''transfer'', ''reconciliation''} then []
      else if tx_kind t = ''income'' \<and> treatment \<notin> {None, Some ''unexpected'', Some ''refund'', Some ''legacy''}
      then []
      else if tx_kind t = ''income'' \<and> (treatment = None \<or> treatment = Some ''unexpected'')
      then [((UNALLOCATED, ''income'', transaction_key (tx_id t)), text_value (the (valuation_eur db (tx_id t) ''to'')))]
      else side_effects db t (tx_from_category t) ''from'' (- 1) @ side_effects db t (tx_to_category t) ''to'' 1)"

definition effect_on :: "movement_key \<Rightarrow> (movement_key \<times> rat) list \<Rightarrow> rat" where
  "effect_on j es = sum_list (map (\<lambda>(k, v). if k = j then v else 0) es)"

lemma effect_on_simps [simp]:
  "effect_on j [] = 0" "effect_on j (e # es) = (if fst e = j then snd e else 0) + effect_on j es"
  "effect_on j (es @ fs) = effect_on j es + effect_on j fs"
  by (auto simp: effect_on_def split: prod.split)

lemma transaction_key_inject [simp]: "transaction_key i = transaction_key j \<longleftrightarrow> i = j"
  by (simp add: transaction_key_def)

lemma bt_get_none: "bt_get w k = None \<longleftrightarrow> k \<notin> fst ` set w"
  by (auto simp: bt_get_def map_of_eq_None_iff)

lemma keys_bt_add_to: "bt_add_to w k v = Inr w' \<Longrightarrow> fst ` set w' = insert k (fst ` set w)"
  using keys_bt_insert [of k _ w] by (cases "add_decimal_text (unwrap_or (bt_get w k) ''0'') v") (auto simp only: bt_add_to_def and_then_Inl and_then_Inr sum.simps)

text \<open>The invariant of the loop: the map is ordered and speaks of the transactions seen.\<close>

definition about :: "string set \<Rightarrow> (movement_key, string) btree \<Rightarrow> bool" where
  "about I w \<longleftrightarrow> bt_ok w \<and> (\<forall>k\<in>fst ` set w. snd (snd k) \<in> transaction_key ` I)"

lemma want_side_entry:
  assumes "want_side db t category side incoming w = Inr w'" and "about I w"
  shows "about (insert (tx_id t) I) w' \<and> bt_entry w' j = bt_entry w j
    + effect_on j (side_effects db t category side (if incoming then 1 else - 1))"
proof (cases "\<exists>c. category = Some c \<and> c \<in> set (map cat_id (real_categories db))")
  case False
  then have "side_effects db t category side s = []" and "w' = w" for s
    using assms(1) by (auto simp: want_side_def side_effects_def split: option.splits)
  with assms(2) show ?thesis by (auto simp: about_def)
next
  case True
  then obtain c where c: "category = Some c" "c \<in> set (map cat_id (real_categories db))" by blast
  let ?k = "(c, if tx_kind t = ''reallocate'' then ''reallocation'' else ''spending'', transaction_key (tx_id t))"
  let ?a = "if tx_kind t = ''reallocate'' then dropWhile (\<lambda>x. x = CHR ''-'') (tx_amount t)
            else the (valuation_eur db (tx_id t) side)"
  have "\<exists>e. (if incoming then Inr ?a else subtract_decimal_text ''0'' ?a) = Inr e \<and> bt_add_to w ?k e = Inr w'"
    using assms(1) c
    by (cases incoming; cases "tx_kind t = ''reallocate''") (auto simp: want_side_def result_simps)
  then obtain e where e: "(if incoming then Inr ?a else subtract_decimal_text ''0'' ?a) = Inr e"
    and add: "bt_add_to w ?k e = Inr w'" by blast
  have v: "text_value e = (if incoming then 1 else - 1) * text_value ?a"
    using e money.sub_val [of "''0''" ?a e] by (auto simp: money.zero_val split: if_splits)
  from add have keys: "fst ` set w' = insert ?k (fst ` set w)"
    by (rule keys_bt_add_to)
  have "bt_ok w" using assms(2) by (simp add: about_def)
  from bt_entry_add_to [OF this add, of j] v c assms(2) keys show ?thesis
    by (auto simp: about_def side_effects_def)
qed

lemma want_transaction_entry:
  assumes "want_transaction db w t = Inr w'" and "about I w" and "tx_id t \<notin> I"
  shows "about (insert (tx_id t) I) w' \<and> bt_entry w' j = bt_entry w j + effect_on j (transaction_effects db t)"
proof -
  let ?tr = "receipt_treatment db (tx_id t)"
  consider (none) "tx_kind t \<in> {''transfer'', ''reconciliation''} \<or> tx_kind t = ''income''
      \<and> ?tr \<notin> {None, Some ''unexpected'', Some ''refund'', Some ''legacy''}"
    | (income) "tx_kind t = ''income''" "?tr = None \<or> ?tr = Some ''unexpected''"
    | (sides) "tx_kind t \<notin> {''transfer'', ''reconciliation''}"
        "tx_kind t = ''income'' \<longrightarrow> ?tr = Some ''refund'' \<or> ?tr = Some ''legacy''"
    by blast
  then show ?thesis
  proof cases
    case none
    with assms show ?thesis
      by (auto simp: want_transaction_def transaction_effects_def about_def)
  next
    case income
    let ?k = "(UNALLOCATED, ''income'', transaction_key (tx_id t))"
    from income assms(1) obtain a where a: "valuation_eur db (tx_id t) ''to'' = Some a" "w' = bt_insert ?k a w"
      by (auto simp: want_transaction_def result_simps)
    have "?k \<notin> fst ` set w" using assms(2,3) by (auto simp: about_def)
    then have "bt_get w ?k = None" by (simp add: bt_get_none)
    with a income assms(2) show ?thesis
      by (auto simp: transaction_effects_def bt_entry_def bt_get_insert about_def bt_ok_insert keys_bt_insert)
  next
    case sides
    then obtain w1 where w1: "want_side db t (tx_from_category t) ''from'' False w = Inr w1"
      "want_side db t (tx_to_category t) ''to'' True w1 = Inr w'"
      using assms(1) by (auto simp: want_transaction_def result_simps)
    have eff: "transaction_effects db t = side_effects db t (tx_from_category t) ''from'' (- 1)
        @ side_effects db t (tx_to_category t) ''to'' 1"
      using sides by (auto simp: transaction_effects_def)
    from want_side_entry [OF w1(1) assms(2), of j] have 1: "about (insert (tx_id t) I) w1"
      "bt_entry w1 j = bt_entry w j + effect_on j (side_effects db t (tx_from_category t) ''from'' (- 1))"
      by simp_all
    from want_side_entry [OF w1(2) 1(1), of j] 1(2) eff show ?thesis by simp
  qed
qed

lemma want_all_entry:
  assumes "fold_result (want_transaction db) w ts = Inr w'" and "about I w"
    and "distinct (map tx_id ts)" and "I \<inter> tx_id ` set ts = {}"
  shows "about (I \<union> tx_id ` set ts) w' \<and> bt_entry w' j
    = bt_entry w j + sum_list (map (\<lambda>t. effect_on j (transaction_effects db t)) ts)"
  using assms
proof (induction ts arbitrary: w I)
  case Nil
  then show ?case by simp
next
  case (Cons t ts)
  from Cons.prems(1) obtain w1 where w1: "want_transaction db w t = Inr w1"
    and rest: "fold_result (want_transaction db) w1 ts = Inr w'" by (auto simp: result_simps)
  from want_transaction_entry [OF w1 Cons.prems(2), of j] Cons.prems(4)
  have 1: "about (insert (tx_id t) I) w1" "bt_entry w1 j = bt_entry w j + effect_on j (transaction_effects db t)"
    by auto
  from Cons.IH [OF rest 1(1)] Cons.prems(3,4) 1(2) show ?case by auto
qed

lemma or_insert_all:
  "bt_ok w \<Longrightarrow> bt_ok (foldl (\<lambda>w k. bt_or_insert k v w) w ks)"
  "bt_get (foldl (\<lambda>w k. bt_or_insert k v w) w ks) j =
     (case bt_get w j of Some x \<Rightarrow> Some x | None \<Rightarrow> if j \<in> set ks then Some v else None)"
  by (induction ks arbitrary: w) (auto simp: bt_ok_or_insert bt_get_or_insert split: option.splits)

lemma like_transaction_key [simp]: "like_prefix ''transaction:'' (transaction_key i)"
  by (simp add: like_prefix_def transaction_key_def)

text \<open>
  After synchronising a month, what is recorded under a transaction's key is the effect of
  that transaction as it is now, and nothing if it is no longer in the month.
\<close>

lemma sync_transactions_total:
  assumes s: "sync_transactions db m operation = Inr db'" and "distinct (map tx_id (transactions_table db))"
  shows "source_total db' m c k (transaction_key i)
    = sum_list (map (\<lambda>t. effect_on (c, k, transaction_key i) (transaction_effects db t)) (transactions_in db m))"
proof -
  let ?j = "(c, k, transaction_key i)"
  from s obtain w where w: "fold_result (want_transaction db) [] (transactions_in db m) = Inr w"
    and moves: "fold_result (\<lambda>d ((category, kind, key), amt). movement d m category kind key amt operation) db
      (foldl (\<lambda>w k. bt_or_insert k ''0'' w) w (existing_transaction_keys db m)) = Inr db'"
    by (auto simp: sync_transactions_def wanted_effects_def result_simps)
  let ?w = "foldl (\<lambda>w k. bt_or_insert k ''0'' w) w (existing_transaction_keys db m)"
  have "distinct (map tx_id (transactions_in db m))"
    using assms(2) by (auto simp: transactions_in_def distinct_map intro: inj_on_subset)
  from want_all_entry [OF w _ this, of "{}" ?j]
  have ok: "bt_ok w" and entry: "bt_entry w ?j
    = sum_list (map (\<lambda>t. effect_on ?j (transaction_effects db t)) (transactions_in db m))"
    by (auto simp: about_def bt_entry_def)
  have "source_total db' m c k (transaction_key i)
      = (case bt_get ?w ?j of Some a \<Rightarrow> text_value a | None \<Rightarrow> source_total db m c k (transaction_key i))"
    using settle_all [OF moves bt_ok_distinct [OF or_insert_all(1) [OF ok]], of m c k "transaction_key i"]
    by (simp add: bt_get_def)
  also have "\<dots> = bt_entry w ?j"
  proof (cases "?j \<in> set (existing_transaction_keys db m)")
    case True
    then show ?thesis by (auto simp: or_insert_all bt_entry_def money.zero_val split: option.split)
  next
    case False
    then have "source_movements db m c k (transaction_key i) = []"
      by (auto simp: existing_transaction_keys_def source_movements_def filter_empty_conv)
    with False show ?thesis
      by (auto simp: or_insert_all bt_entry_def source_total_def split: option.split)
  qed
  finally show ?thesis using entry by simp
qed

section \<open>A synchronised month\<close>

text \<open>
  The recorded movements of a month say what the plan and the facts say: the funding is the
  planned income, every category has its base allocation and Unallocated pays for all of
  them, and every transaction has its effect.
\<close>

definition month_synced :: "db \<Rightarrow> string \<Rightarrow> bool" where
  "month_synced db m \<longleftrightarrow>
     (\<exists>row. plan_income_of db m = Some row
        \<and> source_total db m UNALLOCATED ''funding'' (expected_key m) = text_value (plan_amount_eur row))
     \<and> (\<forall>c\<in>set (allocated_categories db).
          source_total db m (cat_id c) ''allocation'' (allocation_key m (cat_id c))
            = text_value (the (base_monthly db (cat_id c) m)))
     \<and> source_total db m UNALLOCATED ''allocation'' (allocations_key m)
         = - sum_list (map (\<lambda>c. text_value (the (base_monthly db (cat_id c) m))) (allocated_categories db))
     \<and> (\<forall>c k i. source_total db m c k (transaction_key i)
         = sum_list (map (\<lambda>t. effect_on (c, k, transaction_key i) (transaction_effects db t)) (transactions_in db m)))"

lemma transaction_effects_grows: "grows_to db db' \<Longrightarrow> transaction_effects db' = transaction_effects db"
  unfolding fun_eq_iff transaction_effects_def side_effects_def by (simp only: grows_to_tables simp_thms)

text \<open>A growth that leaves the sources of a month alone keeps it synchronised.\<close>

definition same_sources :: "string \<Rightarrow> db \<Rightarrow> db \<Rightarrow> bool" where
  "same_sources m db db' \<longleftrightarrow>
     (\<forall>c k key. k \<in> {''funding'', ''allocation''} \<or> (\<exists>i. key = transaction_key i) \<longrightarrow>
        source_total db' m c k key = source_total db m c k key)"

lemma grows_to_plan: "plan_income_of db m = Some row \<Longrightarrow> grows_to db db' \<Longrightarrow> plan_income_of db' m = Some row"
  by (auto simp: grows_to_def plan_income_of_def first_row_append split: option.splits)

lemma month_synced_kept:
  assumes "month_synced db m" and g: "grows_to db db'" and "same_sources m db db'"
  shows "month_synced db' m"
proof -
  have plan: "plan_income_of db m = Some row \<Longrightarrow> plan_income_of db' m = Some row" for row
    using g by (rule grows_to_plan [rotated])
  note src = assms(3) [unfolded same_sources_def, rule_format]
  show ?thesis
    using assms(1) plan
    unfolding month_synced_def grows_to_tables [OF g] transaction_effects_grows [OF g]
    by (auto simp: src)
qed

lemma same_sources_movement:
  assumes "movement db m' c k key w operation = Inr db'"
    and "m' \<noteq> m \<or> k \<notin> {''funding'', ''allocation''} \<and> (\<forall>i. key \<noteq> transaction_key i)"
  shows "same_sources m db db'"
  using assms(2) movement_total [OF assms(1)] by (auto simp: same_sources_def)

lemma keys_differ [simp]:
  "excess_key m \<noteq> transaction_key i" "complete_key m \<noteq> transaction_key i"
  "correction_key x y \<noteq> transaction_key i" "expected_key m \<noteq> transaction_key i"
  "allocation_key m c \<noteq> transaction_key i" "allocations_key m \<noteq> transaction_key i"
  by (simp_all add: excess_key_def complete_key_def correction_key_def expected_key_def allocation_key_def
      allocations_key_def transaction_key_def)

text \<open>Synchronising one month leaves the recorded movements of the others alone.\<close>

lemma grows_other_month:
  assumes "movement d m' c k key w operation = Inr d'" and "m' \<noteq> m"
  shows "source_total d' m c' k' key' = source_total d m c' k' key'"
  using movement_total [OF assms(1), of m c' k' key'] assms(2) by auto

lemma ensure_income_total: "ensure_income db m' = Inr db' \<Longrightarrow> source_total db' m c k key = source_total db m c k key"
  by (auto simp: ensure_income_def result_simps source_total_def source_movements_def split: if_splits prod.splits)

lemma allocations_other:
  assumes "sync_allocations db m' operation = Inr db'" and "m' \<noteq> m \<or> k \<noteq> ''allocation''"
  shows "source_total db' m c k key = source_total db m c k key"
proof -
  from assms(1) obtain d t out where loop: "fold_result (allocation_step db m' operation) (db, ''0'') (allocated_categories db) = Inr (d, t)"
    and last: "movement d m' UNALLOCATED ''allocation'' (allocations_key m') out operation = Inr db'"
    by (auto simp: sync_allocations_def result_simps)
  have "source_total (fst (d, t)) m c k key = source_total db m c k key"
  proof (rule fold_result_invariant [OF loop])
    fix s u and x :: category_row
    assume s: "source_total (fst s) m c k key = source_total db m c k key" and "allocation_step db m' operation s x = Inr u"
    then obtain amt where "movement (fst s) m' (cat_id x) ''allocation'' (allocation_key m' (cat_id x)) amt operation = Inr (fst u)"
      by (cases s) (auto simp: allocation_step_def result_simps)
    from movement_total [OF this, of m c k key] s assms(2) show "source_total (fst u) m c k key = source_total db m c k key"
      by auto
  qed simp
  with movement_total [OF last, of m c k key] assms(2) show ?thesis by auto
qed

lemma transactions_other:
  assumes "sync_transactions db m' operation = Inr db'"
    and "m' \<noteq> m \<or> \<not> like_prefix ''transaction:'' key" and "distinct (map tx_id (transactions_table db))"
  shows "source_total db' m c k key = source_total db m c k key"
proof -
  from assms(1) obtain w where w: "fold_result (want_transaction db) [] (transactions_in db m') = Inr w"
    and moves: "fold_result (\<lambda>d ((category, kind, key), amt). movement d m' category kind key amt operation) db
      (foldl (\<lambda>w k. bt_or_insert k ''0'' w) w (existing_transaction_keys db m')) = Inr db'"
    by (auto simp: sync_transactions_def wanted_effects_def result_simps)
  let ?w = "foldl (\<lambda>w k. bt_or_insert k ''0'' w) w (existing_transaction_keys db m')"
  have "distinct (map tx_id (transactions_in db m'))"
    using assms(3) by (auto simp: transactions_in_def distinct_map intro: inj_on_subset)
  from want_all_entry [OF w _ this, of "{}"]
  have about: "about (tx_id ` set (transactions_in db m')) w" by (auto simp: about_def)
  then have ok: "bt_ok w" by (simp add: about_def)
  have "bt_get ?w (c, k, key) = None" if "\<not> like_prefix ''transaction:'' key"
  proof -
    have "(c, k, key) \<notin> fst ` set w" using about that by (force simp: about_def)
    moreover have "(c, k, key) \<notin> set (existing_transaction_keys db m')"
      using that by (auto simp: existing_transaction_keys_def)
    ultimately show ?thesis using bt_get_none [of w "(c, k, key)"] by (simp add: or_insert_all)
  qed
  then show ?thesis
    using settle_all [OF moves bt_ok_distinct [OF or_insert_all(1) [OF ok]], of m c k key] assms(2)
    by (auto simp: bt_get_def split: option.splits)
qed

lemma corrections_other:
  assumes "sync_corrections db m' operation = Inr db'" and "m' \<noteq> m \<or> k \<noteq> ''correction'' \<or> (\<forall>x y. key \<noteq> correction_key x y)"
  shows "source_total db' m c k key = source_total db m c k key"
  using assms(1) unfolding sync_corrections_def
proof (rule fold_result_invariant [where P = "\<lambda>d. source_total d m c k key = source_total db m c k key"])
  fix d i d'
  assume d: "source_total d m c k key = source_total db m c k key"
    and "and_then (subtract_decimal_text ''0'' (item_expense_delta i)) (\<lambda>amt.
       movement d m' (item_category i) ''correction''
         (correction_key (item_operation i) (item_category i)) amt operation) = Inr d'"
  then obtain amt where "movement d m' (item_category i) ''correction''
         (correction_key (item_operation i) (item_category i)) amt operation = Inr d'"
    by (auto simp: result_simps)
  from movement_total [OF this, of m c k key] d assms(2) show "source_total d' m c k key = source_total db m c k key"
    by auto
qed simp

text \<open>One open month is synchronised by its step; the step keeps the other months as they are.\<close>

lemma sync_month_synced:
  assumes s: "sync_month operation db m = Inr db'" and open_month: "\<not> month_closed db m"
    and cats: "distinct (map cat_id (categories_table db))" and txs: "distinct (map tx_id (transactions_table db))"
  shows "month_synced db' m"
  using s open_month
proof (rule sync_month_E)
  fix d1 row d2 d3 d4
  assume 1: "ensure_income db m = Inr d1" and row: "plan_income_of d1 m = Some row"
    and 2: "movement d1 m UNALLOCATED ''funding'' (expected_key m) (plan_amount_eur row) operation = Inr d2"
    and 3: "sync_allocations d2 m operation = Inr d3" and 4: "sync_transactions d3 m operation = Inr d4"
    and 5: "sync_corrections d4 m operation = Inr db'"
  have g: "grows_to db d1" "grows_to d1 d2" "grows_to d2 d3" "grows_to d3 d4" "grows_to d4 db'"
    using 1 2 3 4 5 by (blast intro: ensure_income_grows movement_grows sync_allocations_grows
        sync_transactions_grows sync_corrections_grows)+
  have cats2: "distinct (map cat_id (categories_table d2))" and txs3: "distinct (map tx_id (transactions_table d3))"
    using cats txs grows_to_tables [OF g(1)] grows_to_tables [OF g(2)] grows_to_tables [OF g(3)] by simp_all
  have g2: "grows_to d2 db'" and g3: "grows_to d3 db'" using g by (meson grows_to_trans)+
  have after2: "source_total db' m c ''funding'' (expected_key m) = source_total d2 m c ''funding'' (expected_key m)" for c
    using allocations_other [OF 3] transactions_other [OF 4 _ txs3] corrections_other [OF 5]
    by (simp add: expected_key_def like_prefix_def ascii_lower_def)
  have after3: "source_total db' m c ''allocation'' key = source_total d3 m c ''allocation'' key"
    if "\<not> like_prefix ''transaction:'' key" for c key
    using transactions_other [OF 4 _ txs3] corrections_other [OF 5] that by simp
  have no_like: "\<not> like_prefix ''transaction:'' (allocation_key m c)" "\<not> like_prefix ''transaction:'' (allocations_key m)" for c
    by (simp_all add: allocation_key_def allocations_key_def like_prefix_def ascii_lower_def)
  have after4: "source_total db' m c k (transaction_key i) = source_total d4 m c k (transaction_key i)" for c k i
    using corrections_other [OF 5, of m k "transaction_key i"] keys_differ(3) by metis
  have plan: "plan_income_of db' m = Some row"
    using row g by (blast intro: grows_to_plan grows_to_trans)
  show ?thesis
    unfolding month_synced_def
    using plan after2 after3 [OF no_like(1)] after3 [OF no_like(2)] after4 movement_total [OF 2]
      sync_allocations_total [OF 3 cats2] sync_transactions_total [OF 4 txs3] grows_to_tables [OF g2] grows_to_tables [OF g3]
      transaction_effects_grows [OF g3]
    by simp
qed

lemma sync_month_other:
  assumes s: "sync_month operation db m' = Inr db'" and "m' \<noteq> m"
    and txs: "distinct (map tx_id (transactions_table db))"
  shows "source_total db' m c k key = source_total db m c k key"
proof (cases "month_closed db m'")
  case True
  with s show ?thesis by (simp add: sync_month_def)
next
  case False
  from s False show ?thesis
  proof (rule sync_month_E)
    fix d1 row d2 d3 d4
    assume 1: "ensure_income db m' = Inr d1"
      and 2: "movement d1 m' UNALLOCATED ''funding'' (expected_key m') (plan_amount_eur row) operation = Inr d2"
      and 3: "sync_allocations d2 m' operation = Inr d3" and 4: "sync_transactions d3 m' operation = Inr d4"
      and 5: "sync_corrections d4 m' operation = Inr db'"
    have "distinct (map tx_id (transactions_table d3))"
      using txs grows_to_tables(3) [OF ensure_income_grows [OF 1]] grows_to_tables(3) [OF movement_grows [OF 2]]
        grows_to_tables(3) [OF sync_allocations_grows [OF 3]] by simp
    then show ?thesis
      using ensure_income_total [OF 1] grows_other_month [OF 2] allocations_other [OF 3] transactions_other [OF 4]
        corrections_other [OF 5] assms(2) by simp
  qed
qed

lemma sync_excess_keeps:
  assumes s: "sync_excess current operation db m' = Inr db'" and "month_synced db m"
  shows "month_synced db' m"
proof -
  from s obtain kvs d where loop: "fold_result (\<lambda>d (k, v). if month_closed d k then Inr d
            else movement d k UNALLOCATED ''income'' (excess_key m') v operation) db kvs = Inr d"
    and rest: "sync_completion operation d m' = Inr db'"
    by (auto simp: sync_excess_def result_simps)
  have step: "month_synced e' m" if "month_synced e m" "movement e k UNALLOCATED kind key v operation = Inr e'"
    "kind \<notin> {''funding'', ''allocation''}" "\<forall>i. key \<noteq> transaction_key i" for e e' k kind key v
    using that by (blast intro: month_synced_kept movement_grows same_sources_movement)
  have steps: "month_synced e m \<Longrightarrow> movement e k UNALLOCATED ''income'' (excess_key m') v operation = Inr e' \<Longrightarrow> month_synced e' m"
    "month_synced e m \<Longrightarrow> movement e k UNALLOCATED ''settlement'' (complete_key m') v operation = Inr e' \<Longrightarrow> month_synced e' m"
    for e e' k v
    by (erule step, assumption, simp, simp)+
  have "month_synced d m"
    using loop by (rule fold_result_invariant [where P = "\<lambda>d. month_synced d m"])
      (use assms(2) in \<open>auto intro: steps split: if_splits\<close>)
  with rest show ?thesis
    by (auto simp: sync_completion_def result_simps intro: steps split: option.splits if_splits)
qed

context month_calendar
begin

lemma sync_synced:
  assumes "calendar P = C" and "start db = Some s" and "valid_month s" and "valid_month (this_month P)"
    and "this_month P < ''9999-12''" and result: "sync P db operation = Some (Inr db')"
    and m: "valid_month m" "s \<le> m" "m \<le> this_month P" and open_month: "\<not> month_closed db m"
    and dist: "distinct (map cat_id (categories_table db))" "distinct (map tx_id (transactions_table db))"
  shows "month_synced db' m"
proof -
  from while_months_fold [OF assms(3,4,5)] obtain ms where
    ms: "\<And>body (d :: db). while_months C body s (this_month P) d = Some (fold_result body d ms)"
      "\<forall>m\<in>set ms. valid_month m" "sorted_wrt (<) ms" "map month_number ms = [month_number s..<Suc (month_number (this_month P))]"
    by blast
  have "month_number m \<in> set (map month_number ms)"
    unfolding ms(4) using m month_order assms(3,4) by auto
  then have in_ms: "m \<in> set ms" using ms(2) m(1) month_inj by fastforce
  from result assms(1,2) obtain d where d: "fold_result (sync_month operation) db ms = Inr d"
    and rest: "fold_result (sync_excess (this_month P) operation) d (sort_key id (map plan_month (plan_income_table d))) = Inr db'"
    by (auto simp: sync_def result_simps ms(1))
  have "\<not> month_closed d m \<longrightarrow> month_synced d m"
  proof (rule fold_result_establish [OF d _ in_ms, where Inv = "grows_to db"])
    show "distinct ms" using ms(3) by (simp add: strict_sorted_iff)
    show "grows_to db db" by simp
  next
    fix e y e'
    assume e: "grows_to db e" and step: "sync_month operation e y = Inr e'"
    note tables = grows_to_tables [OF e] grows_to_tables [OF sync_month_grows [OF step]]
    show "grows_to db e' \<and> (\<not> month_closed e' y \<longrightarrow> month_synced e' y)"
      using e step sync_month_synced [OF step] dist tables by (auto intro: grows_to_trans sync_month_grows)
    fix z
    assume "y \<noteq> z" and z: "\<not> month_closed e z \<longrightarrow> month_synced e z"
    with sync_month_other [OF step] dist tables have "same_sources z e e'"
      by (simp add: same_sources_def)
    with z tables show "\<not> month_closed e' z \<longrightarrow> month_synced e' z"
      using month_synced_kept [OF _ sync_month_grows [OF step]] by simp
  qed
  moreover have "grows_to db d"
    using d by (rule grows_to_fold) (rule sync_month_grows)
  ultimately have "month_synced d m" using open_month by (simp add: grows_to_tables)
  with rest show ?thesis
    by (rule fold_result_invariant [where P = "\<lambda>d. month_synced d m"]) (rule sync_excess_keeps)
qed

end

end
