(* ===== verification/Coverage.thy ===== *)
theory Coverage
  imports Movements
begin

text \<open>
  The views of \<open>server/src/budget_ledger.rs\<close>: \<open>apply\<close> reconstructs the Unallocated category
  from the movements, \<open>cash\<close> the account balances at a date, and \<open>coverage\<close> compares the
  assigned budgets with the cash and the outstanding income.
\<close>

section \<open>Reconstructing the Unallocated category\<close>

text \<open>The sums of the month's movements per category and kind.\<close>

definition month_components :: "db \<Rightarrow> string \<Rightarrow> (string \<times> string, string) btree result" where
  "month_components db m =
     fold_result (\<lambda>w r. bt_add_to w (mov_category r, mov_kind r) (mov_amount r)) []
       (sort_key mov_id (filter (\<lambda>r. mov_month r = m) (movements_table db)))"

text \<open>A month without a funding movement is provisional: its expectation and allocations count.\<close>

definition provisional_components ::
  "db \<Rightarrow> budget_month \<Rightarrow> (string \<times> string, string) btree \<Rightarrow> (string \<times> string, string) btree result" where
  "provisional_components db bm components =
     (if bt_get components (UNALLOCATED, ''funding'') \<noteq> None then Inr components
      else let (amt, currency, _) = expectation_for db (bm_month bm) in
        and_then (rates db) (\<lambda>observations.
        and_then (account_balance_eur amt currency (bm_month bm @ ''-01'') observations) (\<lambda>eur.
        and_then (fold_result (\<lambda>total c.
            and_then (ok_or (bc_monthly c) ''Missing allocation'') (add_decimal_text total)) ''0''
            (bm_categories bm)) (\<lambda>allocated.
        and_then (subtract_decimal_text ''0'' allocated) (\<lambda>out.
        Inr (bt_insert (UNALLOCATED, ''allocation'') out
          (bt_insert (UNALLOCATED, ''funding'') eur components)))))))"

definition unallocated_delta :: "(string \<times> string, string) btree \<Rightarrow> string result" where
  "unallocated_delta components =
     fold_result add_decimal_text ''0'' (map snd (filter (\<lambda>(k, v). fst k = UNALLOCATED) components))"

definition unallocated_category :: "string \<Rightarrow> string \<Rightarrow> string \<Rightarrow> string \<Rightarrow> budget_category" where
  "unallocated_category carry delta balance impact =
     \<lparr>bc_id = UNALLOCATED, bc_name = ''Unallocated'', bc_monthly = Some ''0'', bc_expense = Some ''0'',
      bc_remaining = Some balance, bc_impact = Some impact, bc_carryover = Some carry,
      bc_adjustment = Some delta, bc_available = Some balance, bc_net_spending = Some ''0'',
      bc_correction = Some ''0''\<rparr>"

definition apply_month ::
  "db \<Rightarrow> string \<Rightarrow> string \<times> budget_month list \<Rightarrow> budget_month \<Rightarrow> (string \<times> budget_month list) result" where
  "apply_month db first = (\<lambda>(unallocated, applied) bm.
     if bm_month bm < first then Inr (unallocated, applied @ [bm])
     else if bm_status bm = ''closed''
     then (case first_row (filter (\<lambda>c. bc_id c = UNALLOCATED) (bm_categories bm)) of
             None \<Rightarrow> Inr (unallocated, applied @ [bm])
           | Some u \<Rightarrow> and_then (ok_or (bc_remaining u) ''Missing frozen Unallocated'') (\<lambda>r.
               Inr (r, applied @ [bm])))
     else
       and_then (month_components db (bm_month bm)) (\<lambda>movements.
       and_then (provisional_components db bm movements) (\<lambda>components.
       and_then (unallocated_delta components) (\<lambda>delta.
       and_then (add_decimal_text unallocated delta) (\<lambda>balance.
       and_then (subtract_decimal_text ''0'' (unwrap_or (bt_get components (UNALLOCATED, ''reallocation'')) ''0''))
         (\<lambda>impact.
       Inr (balance, applied @ [bm\<lparr>bm_categories := bm_categories bm @
         [unallocated_category unallocated delta balance impact]\<rparr>])))))))"

definition apply_ledger :: "db \<Rightarrow> budget_month list \<Rightarrow> budget_month list result" where
  "apply_ledger db hist =
     (case start db of
        None \<Rightarrow> Inr hist
      | Some first \<Rightarrow>
          and_then (fetch_one (map_option st_opening_unallocated (ledger_state_table db))) (\<lambda>opening.
          and_then (fold_result (apply_month db first) (opening, []) hist) (\<lambda>(unallocated, applied).
          Inr applied)))"

section \<open>Cash and coverage\<close>

text \<open>The balance of an account with the transactions after the date undone.\<close>

definition undo_transaction :: "db \<Rightarrow> string \<Rightarrow> string \<Rightarrow> transaction_row \<Rightarrow> string result" where
  "undo_transaction db account balance t =
     and_then (if tx_from_account t = Some account
         then and_then (ok_or (valuation_native db (tx_id t) ''from'') ''Missing account valuation'')
           (add_decimal_text balance)
         else Inr balance) (\<lambda>balance'.
       if tx_to_account t = Some account
       then and_then (ok_or (valuation_native db (tx_id t) ''to'') ''Missing account valuation'')
         (subtract_decimal_text balance')
       else Inr balance')"

definition account_balance_at :: "db \<Rightarrow> string \<Rightarrow> account_row \<Rightarrow> string result" where
  "account_balance_at db date a =
     and_then (ok_or (acc_native_balance a) ''Missing cash account balance'') (\<lambda>balance.
     fold_result (undo_transaction db (acc_id a)) balance
       (filter (\<lambda>t. date < tx_date t \<and> (tx_from_account t = Some (acc_id a) \<or> tx_to_account t = Some (acc_id a)))
         (transactions_table db)))"

definition cash :: "db \<Rightarrow> string \<Rightarrow> string result" where
  "cash db date =
     and_then (rates db) (\<lambda>observations.
     fold_result (\<lambda>total a.
         and_then (account_balance_at db date a) (\<lambda>balance.
         and_then (account_balance_eur balance (unwrap_or (acc_currency a) ''EUR'') date observations)
           (add_decimal_text total))) ''0''
       (filter (\<lambda>a. acc_is_real a \<and> acc_is_active a) (accounts_table db)))"

text \<open>The closing date of a month: today in the current month, its last day otherwise.\<close>

definition coverage_date :: "'d platform \<Rightarrow> string \<Rightarrow> string result" where
  "coverage_date P m =
     (if m = this_month P then Inr (today P)
      else and_then (ledger_next (calendar P) m) (\<lambda>n.
        and_then (parse_ymd (calendar P) (n @ ''-01'')) (\<lambda>d.
        and_then (ok_or (pred_opt (calendar P) d) ''Date overflow'') (\<lambda>p.
        Inr (date_to_string (calendar P) p)))))"

text \<open>The assigned total and the Unallocated balance of the categories.\<close>

definition coverage_balances :: "budget_category list \<Rightarrow> (string \<times> string) result" where
  "coverage_balances cats =
     fold_result (\<lambda>(assigned, unallocated) c.
       and_then (ok_or (bc_remaining c) ''Missing remaining category budget'') (\<lambda>balance.
         if bc_id c = UNALLOCATED then Inr (assigned, balance)
         else and_then (add_decimal_text assigned balance) (\<lambda>assigned'. Inr (assigned', unallocated))))
       (''0'', ''0'') cats"

definition coverage_expectations :: "db \<Rightarrow> string \<Rightarrow> (string \<times> expected_income list) result" where
  "coverage_expectations db m =
     fold_result (\<lambda>(outstanding, expectations) k.
       and_then (income db k m) (\<lambda>i.
       and_then (ok_or i ''Missing expectation'') (\<lambda>e.
       and_then (add_decimal_text outstanding (ei_outstanding_eur e)) (\<lambda>outstanding'.
       Inr (outstanding', expectations @ [e]))))) (''0'', [])
       (sort_key id (map plan_month (filter (\<lambda>p. plan_month p \<le> m) (plan_income_table db))))"

definition coverage :: "'d platform \<Rightarrow> db \<Rightarrow> string \<Rightarrow> budget_category list \<Rightarrow> coverage_result option result" where
  "coverage P db m cats =
     (if (case start db of None \<Rightarrow> True | Some s \<Rightarrow> m < s) then Inr None
      else case first_row (filter (\<lambda>c. clo_month c = m) (coverage_closures_table db)) of
        Some c \<Rightarrow> and_then (read_coverage P (clo_snapshot c)) (\<lambda>r. Inr (Some (r\<lparr>cov_frozen := True\<rparr>)))
      | None \<Rightarrow>
          and_then (coverage_date P m) (\<lambda>date.
          and_then (cash db date) (\<lambda>actual.
          and_then (coverage_balances cats) (\<lambda>(assigned, unallocated).
          and_then (coverage_expectations db m) (\<lambda>(outstanding, expectations).
          and_then (subtract_decimal_text actual assigned) (\<lambda>gap.
          and_then (add_decimal_text gap outstanding) (\<lambda>projected.
          Inr (Some \<lparr>cov_actual_cash = actual, cov_assigned_remaining = assigned,
            cov_unallocated = unallocated, cov_outstanding = outstanding, cov_current_gap = gap,
            cov_projected_gap = projected, cov_expectations = expectations, cov_frozen = False\<rparr>))))))))"

section \<open>The components of Unallocated\<close>

text \<open>The sum of the entries of a map of amounts whose keys satisfy a condition.\<close>

definition bt_sum :: "('k \<Rightarrow> bool) \<Rightarrow> ('k, string) btree \<Rightarrow> rat" where
  "bt_sum Q m = sum_list (map (\<lambda>(k, v). if Q k then text_value v else 0) m)"

lemma bt_sum_insert:
  "bt_ok m \<Longrightarrow> bt_sum Q (bt_insert k v m) = bt_sum Q m + (if Q k then text_value v - bt_entry m k else 0)"
proof (induction m)
  case Nil
  then show ?case by (simp add: bt_sum_def bt_entry_def)
next
  case (Cons e m)
  then have ok: "bt_ok m" and low: "\<forall>x\<in>fst ` set m. fst e < x" by (auto simp: bt_ok_def)
  obtain k' v' where e: "e = (k', v')" by (cases e)
  show ?case
  proof (cases k k' rule: linorder_cases)
    case less
    with low e have "bt_get m k = None" by (auto simp: bt_get_def map_of_eq_None_iff)
    with less e show ?thesis by (auto simp: bt_sum_def bt_entry_def bt_get_def)
  next
    case equal
    with e show ?thesis by (auto simp: bt_sum_def bt_entry_def bt_get_def)
  next
    case greater
    with Cons.IH [OF ok] e show ?thesis by (auto simp: bt_sum_def bt_entry_def bt_get_def)
  qed
qed

lemma bt_sum_add_to:
  assumes "bt_add_to m k v = Inr m'" and "bt_ok m"
  shows "bt_ok m' \<and> bt_sum Q m' = bt_sum Q m + (if Q k then text_value v else 0)"
proof -
  from assms(1) obtain s where s: "add_decimal_text (unwrap_or (bt_get m k) ''0'') v = Inr s" "m' = bt_insert k s m"
    by (auto simp: bt_add_to_def result_simps)
  have "text_value (unwrap_or (bt_get m k) ''0'') = bt_entry m k"
    by (auto simp: bt_entry_def money.zero_val split: option.split)
  with s assms(2) money.add_val [OF s(1)] show ?thesis by (simp add: bt_sum_insert bt_ok_insert)
qed

lemma unallocated_delta_value:
  assumes "unallocated_delta m = Inr d"
  shows "canonical_text d \<and> text_value d = bt_sum (\<lambda>k. fst k = UNALLOCATED) m"
proof -
  have "sum_list (map text_value (map snd (filter (\<lambda>(k, v). fst k = UNALLOCATED) m)))
      = bt_sum (\<lambda>k. fst k = UNALLOCATED) m"
    by (induction m) (auto simp: bt_sum_def)
  with assms money.sum_val [of "''0''" _ d] money.sum_canon [of "''0''" _ d] money.zero_canon
  show ?thesis by (simp add: unallocated_delta_def money.zero_val)
qed

definition month_movements :: "db \<Rightarrow> string \<Rightarrow> movement_row list" where
  "month_movements db m = filter (\<lambda>r. mov_month r = m) (movements_table db)"

lemma month_components_sum:
  assumes "month_components db m = Inr w"
  shows "bt_ok w" and "bt_sum (\<lambda>k. fst k = c) w
      = sum_list (map (\<lambda>r. if mov_category r = c then text_value (mov_amount r) else 0) (month_movements db m))"
    and "fst ` set w = (\<lambda>r. (mov_category r, mov_kind r)) ` set (month_movements db m)"
proof -
  have loop: "bt_ok w \<and> bt_sum (\<lambda>k. fst k = c) w = bt_sum (\<lambda>k. fst k = c) w0
      + sum_list (map (\<lambda>r. if mov_category r = c then text_value (mov_amount r) else 0) rs)
      \<and> fst ` set w = fst ` set w0 \<union> (\<lambda>r. (mov_category r, mov_kind r)) ` set rs"
    if "fold_result (\<lambda>w r. bt_add_to w (mov_category r, mov_kind r) (mov_amount r)) w0 rs = Inr w" "bt_ok w0" for rs w0
    using that
  proof (induction rs arbitrary: w0)
    case Nil
    then show ?case by simp
  next
    case (Cons r rs)
    then obtain u where u: "bt_add_to w0 (mov_category r, mov_kind r) (mov_amount r) = Inr u"
      and rest: "fold_result (\<lambda>w r. bt_add_to w (mov_category r, mov_kind r) (mov_amount r)) u rs = Inr w"
      by (auto simp: result_simps)
    from bt_sum_add_to [OF u Cons.prems(2), of "\<lambda>k. fst k = c"] Cons.IH [OF rest] keys_bt_add_to [OF u]
    show ?case by auto
  qed
  let ?rs = "sort_key mov_id (month_movements db m)"
  note l = loop [OF assms [unfolded month_components_def, folded month_movements_def]]
  have "sum_list (map f ?rs) = sum_list (map f (month_movements db m))" for f :: "movement_row \<Rightarrow> rat"
    by (metis mset_map mset_sort sum_mset_sum_list)
  with l show "bt_ok w" "bt_sum (\<lambda>k. fst k = c) w
      = sum_list (map (\<lambda>r. if mov_category r = c then text_value (mov_amount r) else 0) (month_movements db m))"
    "fst ` set w = (\<lambda>r. (mov_category r, mov_kind r)) ` set (month_movements db m)"
    by (simp_all add: bt_sum_def)
qed

section \<open>The chain of Unallocated balances\<close>

text \<open>The balance of Unallocated after some months: the last one stated since the activation.\<close>

definition unallocated_after :: "string \<Rightarrow> string \<Rightarrow> budget_month list \<Rightarrow> string" where
  "unallocated_after first =
     foldl (\<lambda>u bm. if bm_month bm < first then u
       else case first_row (filter (\<lambda>c. bc_id c = UNALLOCATED) (bm_categories bm)) of
         None \<Rightarrow> u | Some c \<Rightarrow> unwrap_or (bc_remaining c) u)"

definition applied :: "db \<Rightarrow> string \<Rightarrow> string \<Rightarrow> budget_month \<Rightarrow> budget_month \<Rightarrow> bool" where
  "applied db first u bm bm' \<longleftrightarrow>
     (if bm_month bm < first \<or> bm_status bm = ''closed'' then bm' = bm
      else \<exists>delta balance impact.
        bm' = bm\<lparr>bm_categories := bm_categories bm @ [unallocated_category u delta balance impact]\<rparr>
        \<and> text_value balance = text_value u + text_value delta
        \<and> ((\<exists>r\<in>set (month_movements db (bm_month bm)). mov_category r = UNALLOCATED \<and> mov_kind r = ''funding'')
           \<longrightarrow> text_value delta = sum_list (map (\<lambda>r. if mov_category r = UNALLOCATED then text_value (mov_amount r) else 0)
                (month_movements db (bm_month bm)))))"

lemma apply_month_applied:
  assumes "apply_month db first (u, done) bm = Inr (u', done')"
    and "bm_status bm \<noteq> ''closed'' \<Longrightarrow> UNALLOCATED \<notin> bc_id ` set (bm_categories bm)"
  shows "\<exists>bm'. done' = done @ [bm'] \<and> applied db first u bm bm' \<and> u' = unallocated_after first u [bm']"
proof -
  consider "bm_month bm < first" | "\<not> bm_month bm < first" "bm_status bm = ''closed''"
    | "\<not> bm_month bm < first" "bm_status bm \<noteq> ''closed''" by blast
  then show ?thesis
  proof cases
    case 1
    with assms(1) show ?thesis by (auto simp: apply_month_def applied_def unallocated_after_def)
  next
    case 2
    with assms(1) show ?thesis
      by (auto simp: apply_month_def applied_def unallocated_after_def result_simps split: option.splits)
  next
    case 3
    with assms(1) obtain w w' delta impact where w: "month_components db (bm_month bm) = Inr w"
      "provisional_components db bm w = Inr w'" "unallocated_delta w' = Inr delta" and b: "add_decimal_text u delta = Inr u'"
      and d: "done' = done @ [bm\<lparr>bm_categories := bm_categories bm @ [unallocated_category u delta u' impact]\<rparr>]"
      by (auto simp: apply_month_def result_simps)
    let ?c = "unallocated_category u delta u' impact"
    have "first_row (filter (\<lambda>c. bc_id c = UNALLOCATED) (bm_categories bm @ [?c])) = Some ?c"
    proof -
      have "filter (\<lambda>c. bc_id c = UNALLOCATED) (bm_categories bm) = []"
        using assms(2) [OF 3(2)] by (auto simp: filter_empty_conv intro: rev_image_eqI)
      then show ?thesis by (simp add: first_row_def unallocated_category_def)
    qed
    moreover have "text_value delta = sum_list (map (\<lambda>r. if mov_category r = UNALLOCATED then text_value (mov_amount r) else 0)
                (month_movements db (bm_month bm)))"
      if "\<exists>r\<in>set (month_movements db (bm_month bm)). mov_category r = UNALLOCATED \<and> mov_kind r = ''funding''"
    proof -
      from that have "(UNALLOCATED, ''funding'') \<in> fst ` set w" unfolding month_components_sum(3) [OF w(1)] by force
      then have "bt_get w (UNALLOCATED, ''funding'') \<noteq> None" by (simp add: bt_get_none)
      with w(2) have "w' = w" by (simp add: provisional_components_def)
      with unallocated_delta_value [OF w(3)] month_components_sum(2) [OF w(1)] show ?thesis by simp
    qed
    ultimately show ?thesis
      using 3 d money.add_val [OF b]
      by (auto simp: applied_def unallocated_after_def unallocated_category_def)
  qed
qed

lemma apply_fold:
  assumes "fold_result (apply_month db first) (u0, []) hist = Inr (u, out)"
    and "\<And>bm. bm \<in> set hist \<Longrightarrow> bm_status bm \<noteq> ''closed'' \<Longrightarrow> UNALLOCATED \<notin> bc_id ` set (bm_categories bm)"
  shows "length out = length hist \<and> u = unallocated_after first u0 out
    \<and> (\<forall>k<length hist. applied db first (unallocated_after first u0 (take k out)) (hist ! k) (out ! k))"
  using assms
proof (induction hist arbitrary: u out rule: rev_induct)
  case Nil
  then show ?case by (simp add: unallocated_after_def)
next
  case (snoc bm hist)
  then obtain v d where v: "fold_result (apply_month db first) (u0, []) hist = Inr (v, d)"
    and step: "apply_month db first (v, d) bm = Inr (u, out)"
    by (auto simp: fold_result_append result_simps)
  from snoc.IH [OF v] snoc.prems(2) have ih: "length d = length hist" "v = unallocated_after first u0 d"
    "\<forall>k<length hist. applied db first (unallocated_after first u0 (take k d)) (hist ! k) (d ! k)" by auto
  from apply_month_applied [OF step] snoc.prems(2) obtain bm' where
    bm': "out = d @ [bm']" "applied db first v bm bm'" "u = unallocated_after first v [bm']" by auto
  with ih show ?case
    by (auto simp: nth_append unallocated_after_def less_Suc_eq)
qed

text \<open>What \<open>apply_ledger\<close> does to a history without Unallocated entries of its own.\<close>

lemma apply_ledger_cases:
  assumes "apply_ledger db hist = Inr out"
    and "\<And>bm. bm \<in> set hist \<Longrightarrow> bm_status bm \<noteq> ''closed'' \<Longrightarrow> UNALLOCATED \<notin> bc_id ` set (bm_categories bm)"
  obtains (inactive) "start db = None" "out = hist"
  | (active) st where "ledger_state_table db = Some st" "start db = Some (st_start_month st)" "length out = length hist"
      "\<And>k. k < length hist \<Longrightarrow> applied db (st_start_month st)
        (unallocated_after (st_start_month st) (st_opening_unallocated st) (take k out)) (hist ! k) (out ! k)"
proof (cases "start db")
  case None
  with assms(1) inactive show ?thesis by (simp add: apply_ledger_def)
next
  case (Some first)
  with assms(1) obtain st u where st: "ledger_state_table db = Some st"
    and loop: "fold_result (apply_month db first) (st_opening_unallocated st, []) hist = Inr (u, out)"
    by (auto simp: apply_ledger_def result_simps)
  have "first = st_start_month st" using Some st by (auto simp: start_def split: if_splits)
  with apply_fold [OF loop assms(2)] Some st active show ?thesis by auto
qed

section \<open>Balances and gaps\<close>

definition undone :: "db \<Rightarrow> string \<Rightarrow> transaction_row \<Rightarrow> rat" where
  "undone db account t =
     (if tx_from_account t = Some account then text_value (the (valuation_native db (tx_id t) ''from'')) else 0)
     - (if tx_to_account t = Some account then text_value (the (valuation_native db (tx_id t) ''to'')) else 0)"

lemma undo_transaction_value:
  assumes "undo_transaction db account b t = Inr b'"
  shows "text_value b' = text_value b + undone db account t"
  using assms
  by (auto simp: undo_transaction_def undone_def result_simps split: if_splits dest!: money.add_val money.sub_val)

lemma account_balance_at_value:
  assumes "account_balance_at db date a = Inr b"
  shows "\<exists>s. acc_native_balance a = Some s \<and> text_value b = text_value s + sum_list (map (undone db (acc_id a))
    (filter (\<lambda>t. date < tx_date t \<and> (tx_from_account t = Some (acc_id a) \<or> tx_to_account t = Some (acc_id a)))
      (transactions_table db)))"
proof -
  have loop: "text_value b' = text_value s + sum_list (map (undone db (acc_id a)) ts)"
    if "fold_result (undo_transaction db (acc_id a)) s ts = Inr b'" for s ts b'
    using that by (induction ts arbitrary: s) (auto simp: result_simps dest!: undo_transaction_value)
  from assms show ?thesis by (auto simp: account_balance_at_def result_simps dest!: loop)
qed

lemma coverage_balances_value:
  assumes "coverage_balances cats = Inr (assigned, unallocated)"
  shows "text_value assigned
    = sum_list (map (\<lambda>c. text_value (the (bc_remaining c))) (filter (\<lambda>c. bc_id c \<noteq> UNALLOCATED) cats))"
proof -
  have "text_value a' = text_value a
      + sum_list (map (\<lambda>c. text_value (the (bc_remaining c))) (filter (\<lambda>c. bc_id c \<noteq> UNALLOCATED) cats))"
    if "fold_result (\<lambda>(assigned, unallocated) c.
       and_then (ok_or (bc_remaining c) ''Missing remaining category budget'') (\<lambda>balance.
         if bc_id c = UNALLOCATED then Inr (assigned, balance)
         else and_then (add_decimal_text assigned balance) (\<lambda>assigned'. Inr (assigned', unallocated))))
       (a, u) cats = Inr (a', u')" for a u a' u'
    using that by (induction cats arbitrary: a u) (auto simp: result_simps split: if_splits dest!: money.add_val)
  with assms show ?thesis by (fastforce simp: coverage_balances_def money.zero_val)
qed

lemma coverage_expectations_value:
  assumes "coverage_expectations db m = Inr (outstanding, es)"
  shows "text_value outstanding = sum_list (map (\<lambda>e. text_value (ei_outstanding_eur e)) es)"
    and "map ei_month es = sort_key id (map plan_month (filter (\<lambda>p. plan_month p \<le> m) (plan_income_table db)))"
proof -
  have loop: "text_value o' - sum_list (map (\<lambda>e. text_value (ei_outstanding_eur e)) es')
      = text_value o0 - sum_list (map (\<lambda>e. text_value (ei_outstanding_eur e)) es0)
      \<and> map ei_month es' = map ei_month es0 @ ks"
    if "fold_result (\<lambda>(outstanding, expectations) k.
       and_then (income db k m) (\<lambda>i.
       and_then (ok_or i ''Missing expectation'') (\<lambda>e.
       and_then (add_decimal_text outstanding (ei_outstanding_eur e)) (\<lambda>outstanding'.
       Inr (outstanding', expectations @ [e]))))) (o0, es0) ks = Inr (o', es')" for o0 es0 ks o' es'
    using that
    by (induction ks arbitrary: o0 es0) (fastforce simp: result_simps dest!: money.add_val elim!: income_E)+
  from loop [OF assms [unfolded coverage_expectations_def]]
  show "text_value outstanding = sum_list (map (\<lambda>e. text_value (ei_outstanding_eur e)) es)"
    "map ei_month es = sort_key id (map plan_month (filter (\<lambda>p. plan_month p \<le> m) (plan_income_table db)))"
    by (simp_all add: money.zero_val)
qed

lemma coverage_E:
  assumes "coverage P db m cats = Inr (Some r)" and "\<not> cov_frozen r"
  obtains date where "coverage_date P m = Inr date" "cash db date = Inr (cov_actual_cash r)"
    "coverage_balances cats = Inr (cov_assigned_remaining r, cov_unallocated r)"
    "coverage_expectations db m = Inr (cov_outstanding r, cov_expectations r)"
    "subtract_decimal_text (cov_actual_cash r) (cov_assigned_remaining r) = Inr (cov_current_gap r)"
    "add_decimal_text (cov_current_gap r) (cov_outstanding r) = Inr (cov_projected_gap r)"
  using assms
  by (auto simp: coverage_def result_simps split: if_splits option.splits)

end
