(* ===== verification/History.thy ===== *)
theory History
  imports Coverage
begin

text \<open>
  \<open>server/src/budget.rs\<close>: the opening of the canonical budget, the guard on open months, the
  month-by-month calculation of the category budgets (\<open>history_at\<close>) and the lookup of one
  month. The calculation is kept in the order of the source: the months, then per month
  either the frozen snapshot, the imported snapshot, or the facts of every category.
\<close>

section \<open>Opening of the budget\<close>

text \<open>\<open>first_month\<close>: the earliest canonical month of the import manifests.\<close>

definition earlier :: "string option \<Rightarrow> string \<Rightarrow> string option" where
  "earlier first m = (case first of None \<Rightarrow> Some m | Some previous \<Rightarrow> if m < previous then Some m else first)"

definition first_month :: "'d platform \<Rightarrow> db \<Rightarrow> string option result" where
  "first_month P db =
     fold_result (\<lambda>first r.
       and_then (manifest_month P (imp_manifest r)) (\<lambda>value.
       and_then (ok_or value ''Import canonical month missing'') (\<lambda>m.
       and_then (month_date (calendar P) m) (\<lambda>_. Inr (earlier first m))))) None
       (sort_key imp_committed_at (imports_table db))"

definition opening_missing :: "db \<Rightarrow> string \<Rightarrow> bool" where
  "opening_missing db first =
     list_ex (\<lambda>c. cat_is_real c \<and> cat_id c \<noteq> UNALLOCATED
       \<and> \<not> list_ex (\<lambda>o'. open_category o' = cat_id c \<and> open_before_month o' = first) (openings_table db))
       (categories_table db)"

text \<open>\<open>INSERT ... ON CONFLICT DO NOTHING\<close> into the openings.\<close>

definition insert_opening :: "opening_row \<Rightarrow> opening_row list \<Rightarrow> opening_row list" where
  "insert_opening o' os =
     (if list_ex (\<lambda>x. open_category x = open_category o' \<and> open_before_month x = open_before_month o') os
      then os else os @ [o'])"

definition initialize :: "'d platform \<Rightarrow> db \<Rightarrow> db result" where
  "initialize P db =
     and_then (first_month P db) (\<lambda>f.
       case f of None \<Rightarrow> Inr db
       | Some first \<Rightarrow>
           if \<not> opening_missing db first then Inr db
           else and_then (month_before (calendar P) first) (\<lambda>prior.
             fold_result (\<lambda>d s.
               and_then (ok_or (snap_remaining s) ''Imported opening balance unavailable'') (\<lambda>balance.
               Inr (d\<lparr>openings_table := insert_opening
                 \<lparr>open_category = snap_category s, open_before_month = first, open_remaining = balance,
                  open_verified_by = ''verified-canonical-import'', open_source = snap_source_cells s\<rparr>
                 (openings_table d)\<rparr>))) db
               (filter (\<lambda>s. snap_month s = prior
                  \<and> list_ex (\<lambda>c. cat_id c = snap_category s \<and> cat_is_real c) (categories_table db))
                 (snapshots_table db))))"

definition require_open :: "'d platform \<Rightarrow> db \<Rightarrow> string \<Rightarrow> unit result" where
  "require_open P db m =
     and_then (first_month P db) (\<lambda>f.
     and_then (ok_or f ''No canonical budget opening'') (\<lambda>first.
     and_then (month_date (calendar P) m) (\<lambda>_.
       if m < first \<or> this_month P < m
       then Inl (''Transactions require an open month from '' @ first @ '' through the current Madrid month.'')
       else if month_closed db m
       then Inl ''This budget month is closed. Record a correction in an open month.''
       else Inr ())))"

section \<open>The calculation of a category\<close>

text \<open>
  The expense and reallocation totals of a category from the transactions of a month. The
  pair is \<open>(expense, impact)\<close>.
\<close>

definition charge_reallocation ::
  "string \<Rightarrow> string \<times> string \<Rightarrow> transaction_row \<Rightarrow> (string \<times> string) result" where
  "charge_reallocation i = (\<lambda>(expense, impact) t.
     let amt = unwrap_or (strip_prefix (tx_amount t) ''-'') (tx_amount t) in
     and_then (if tx_from_category t = Some i then add_decimal_text impact amt else Inr impact) (\<lambda>impact'.
     and_then (if tx_to_category t = Some i then subtract_decimal_text impact' amt else Inr impact') (\<lambda>impact''.
     Inr (expense, impact''))))"

definition charge_valuation ::
  "db \<Rightarrow> string \<Rightarrow> string \<times> string \<Rightarrow> transaction_row \<Rightarrow> (string \<times> string) result" where
  "charge_valuation db i = (\<lambda>(expense, impact) t.
     and_then (if tx_from_category t = Some i
         then and_then (ok_or (valuation_eur db (tx_id t) ''from'') ''Missing transaction EUR valuation'')
           (add_decimal_text expense)
         else Inr expense) (\<lambda>expense'.
     and_then (if tx_to_category t = Some i
         then and_then (ok_or (valuation_eur db (tx_id t) ''to'') ''Missing transaction EUR valuation'')
           (subtract_decimal_text expense')
         else Inr expense') (\<lambda>expense''.
     Inr (expense'', impact))))"

definition charge_entry ::
  "db \<Rightarrow> string \<Rightarrow> string \<times> string \<Rightarrow> transaction_row \<Rightarrow> (string \<times> string) result" where
  "charge_entry db i s t =
     (if tx_kind t = ''reallocate'' then charge_reallocation i s t else charge_valuation db i s t)"

definition category_entries :: "db \<Rightarrow> string \<Rightarrow> string \<Rightarrow> transaction_row list" where
  "category_entries db m i =
     filter (\<lambda>t. tx_from_category t = Some i \<or> tx_to_category t = Some i) (transactions_in db m)"

definition category_movements :: "db \<Rightarrow> string \<Rightarrow> string \<Rightarrow> string list \<Rightarrow> movement_row list" where
  "category_movements db m i kinds =
     filter (\<lambda>r. mov_month r = m \<and> mov_category r = i \<and> mov_kind r \<in> set kinds) (movements_table db)"

text \<open>
  From the activation of the ledger on, the three totals come from the movements; the
  allocation only once the month has been materialised.
\<close>

definition ledger_allocation :: "db \<Rightarrow> string \<Rightarrow> string \<Rightarrow> string \<Rightarrow> string result" where
  "ledger_allocation db m i monthly =
     (if list_ex (\<lambda>p. plan_month p = m) (plan_income_table db)
      then fold_result add_decimal_text ''0'' (map mov_amount (category_movements db m i [''allocation'']))
      else Inr monthly)"

definition ledger_spending :: "db \<Rightarrow> string \<Rightarrow> string \<Rightarrow> (string \<times> string) result" where
  "ledger_spending db m i =
     fold_result (\<lambda>(expense, impact) r.
       if mov_kind r = ''spending''
       then and_then (subtract_decimal_text expense (mov_amount r)) (\<lambda>expense'. Inr (expense', impact))
       else and_then (subtract_decimal_text impact (mov_amount r)) (\<lambda>impact'. Inr (expense, impact')))
       (''0'', ''0'') (category_movements db m i [''spending'', ''reallocation''])"

definition category_deltas :: "db \<Rightarrow> string \<Rightarrow> string \<Rightarrow> string list" where
  "category_deltas db m i =
     map item_expense_delta (filter (\<lambda>x. item_category x = i) (corrections_in db m))"

text \<open>The imported balance that a category starts from in the first month.\<close>

definition snapshot_of :: "db \<Rightarrow> string \<Rightarrow> string \<Rightarrow> snapshot_row option" where
  "snapshot_of db i m = first_row (filter (\<lambda>s. snap_category s = i \<and> snap_month s = m) (snapshots_table db))"

definition opening_of :: "db \<Rightarrow> string \<Rightarrow> string \<Rightarrow> string option" where
  "opening_of db i first =
     map_option open_remaining
       (first_row (filter (\<lambda>o'. open_category o' = i \<and> open_before_month o' = first) (openings_table db)))"

definition carryover_of ::
  "'d platform \<Rightarrow> db \<Rightarrow> string \<Rightarrow> (string, string) btree \<Rightarrow> string \<Rightarrow> string \<Rightarrow> string option result" where
  "carryover_of P db first balances m i =
     (if first = m
      then (case opening_of db i first of
              Some seed \<Rightarrow> Inr (Some seed)
            | None \<Rightarrow> and_then (month_before (calendar P) m) (\<lambda>previous.
                Inr (Option.bind (snapshot_of db i previous) snap_remaining)))
      else Inr (bt_get balances i))"

definition open_category_month ::
  "'d platform \<Rightarrow> db \<Rightarrow> string \<Rightarrow> string
    \<Rightarrow> (string, string) btree \<times> budget_category list \<Rightarrow> category_row
    \<Rightarrow> ((string, string) btree \<times> budget_category list) result" where
  "open_category_month P db first m = (\<lambda>(balances, results) c.
     let i = cat_id c in
     and_then (carryover_of P db first balances m i) (\<lambda>carry.
     and_then (ok_or carry (''Missing opening balance for '' @ cat_name c @ '' in '' @ m)) (\<lambda>carryover.
     and_then (ok_or (base_monthly db i m) (''Missing monthly allocation for '' @ cat_name c @ '' in '' @ m))
       (\<lambda>base.
     and_then (fold_result (charge_entry db i) (''0'', ''0'') (category_entries db m i)) (\<lambda>facts.
     and_then (if (case start db of Some s \<Rightarrow> s \<le> m | None \<Rightarrow> False)
         then and_then (ledger_allocation db m i base) (\<lambda>monthly.
              and_then (ledger_spending db m i) (\<lambda>(expense, impact). Inr (monthly, expense, impact)))
         else Inr (base, facts)) (\<lambda>(monthly, net_spending, impact).
     and_then (fold_result add_decimal_text ''0'' (category_deltas db m i)) (\<lambda>correction.
     and_then (add_decimal_text net_spending correction) (\<lambda>expense.
     and_then (subtract_decimal_text ''0'' impact) (\<lambda>negated.
     and_then (subtract_decimal_text negated correction) (\<lambda>adjustment.
     and_then (add_decimal_text carryover monthly) (\<lambda>funded.
     and_then (add_decimal_text funded adjustment) (\<lambda>available.
     and_then (subtract_decimal_text available net_spending) (\<lambda>remaining.
     Inr (bt_insert i remaining balances, results @
       [\<lparr>bc_id = i, bc_name = cat_name c, bc_monthly = Some monthly, bc_expense = Some expense,
         bc_remaining = Some remaining, bc_impact = Some impact, bc_carryover = Some carryover,
         bc_adjustment = Some adjustment, bc_available = Some available,
         bc_net_spending = Some net_spending, bc_correction = Some correction\<rparr>])))))))))))))) "

definition historical_category_month ::
  "db \<Rightarrow> string \<Rightarrow> (string, string) btree \<times> budget_category list \<Rightarrow> category_row
    \<Rightarrow> (string, string) btree \<times> budget_category list" where
  "historical_category_month db m = (\<lambda>(balances, results) c.
     let i = cat_id c; row = snapshot_of db i m; remaining = Option.bind row snap_remaining
     in ((case remaining of None \<Rightarrow> balances | Some r \<Rightarrow> bt_insert i r balances),
         results @ [\<lparr>bc_id = i, bc_name = cat_name c, bc_monthly = base_monthly db i m,
           bc_expense = Option.bind row snap_expense, bc_remaining = remaining,
           bc_impact = Option.bind row snap_impact, bc_carryover = None, bc_adjustment = None,
           bc_available = None, bc_net_spending = None, bc_correction = None\<rparr>]))"

section \<open>The calculation of a month\<close>

text \<open>State of the loop over the months: the balances, the months so far, \<open>provisional\<close>.\<close>

type_synonym history_state = "(string, string) btree \<times> budget_month list \<times> bool"

definition frozen_balances ::
  "(string, string) btree \<Rightarrow> budget_category list \<Rightarrow> (string, string) btree" where
  "frozen_balances =
     foldl (\<lambda>balances c. case bc_remaining c of None \<Rightarrow> balances | Some r \<Rightarrow> bt_insert (bc_id c) r balances)"

definition history_categories :: "db \<Rightarrow> category_row list" where
  "history_categories db = sort_key (\<lambda>c. (cat_source_row c, cat_id c)) (allocated_categories db)"

definition history_month ::
  "'d platform \<Rightarrow> db \<Rightarrow> string option \<Rightarrow> string \<Rightarrow> history_state \<Rightarrow> string \<Rightarrow> history_state result" where
  "history_month P db first calendar_month = (\<lambda>(balances, hist, provisional) m.
     let dynamic = (case first of None \<Rightarrow> False | Some f \<Rightarrow> f \<le> m) in
     case first_row (filter (\<lambda>c. clo_month c = m) (closures_table db)) of
       Some closure \<Rightarrow>
         and_then (read_categories P (clo_snapshot closure)) (\<lambda>cats.
         Inr (frozen_balances balances cats,
           hist @ [\<lparr>bm_month = m, bm_categories = cats, bm_status = ''closed'', bm_provisional = False\<rparr>],
           provisional))
     | None \<Rightarrow>
         and_then (case first of
             Some f \<Rightarrow>
               if f \<le> m
               then fold_result (open_category_month P db f m) (balances, []) (history_categories db)
               else Inr (foldl (historical_category_month db m) (balances, []) (history_categories db))
           | None \<Rightarrow> Inr (foldl (historical_category_month db m) (balances, []) (history_categories db)))
           (\<lambda>(balances', results).
         Inr (balances',
           hist @ [\<lparr>bm_month = m, bm_categories = results,
             bm_status = (if dynamic then ''open'' else ''historical''),
             bm_provisional = (dynamic \<and> provisional)\<rparr>],
           provisional \<or> (dynamic \<and> m < calendar_month))))"

definition snapshot_months :: "db \<Rightarrow> string \<Rightarrow> string list" where
  "snapshot_months db through =
     sort_key id (remdups (filter (\<lambda>m. m \<le> through) (map snap_month (snapshots_table db))))"

text \<open>The imported months and those from the first canonical month through the last one.\<close>

definition history_months :: "'d platform \<Rightarrow> db \<Rightarrow> string option \<Rightarrow> string \<Rightarrow> string list result option" where
  "history_months P db first through =
     returned (case first of
         None \<Rightarrow> Some (Inr (snapshot_months db through))
       | Some f \<Rightarrow> while_months (calendar P)
           (\<lambda>ms m. Inr (if m \<in> set ms then ms else ms @ [m])) f through (snapshot_months db through))
       (\<lambda>ms. Some (Inr (sort_key id ms)))"

definition opening_balances :: "db \<Rightarrow> string option \<Rightarrow> (string, string) btree" where
  "opening_balances db first =
     (case first of
        None \<Rightarrow> []
      | Some f \<Rightarrow> bt_collect (map (\<lambda>o'. (open_category o', open_remaining o'))
          (filter (\<lambda>o'. open_before_month o' = f) (openings_table db))))"

definition history_at :: "'d platform \<Rightarrow> db \<Rightarrow> string \<Rightarrow> string \<Rightarrow> budget_month list result option" where
  "history_at P db through calendar_month =
     returned (Some (and_then (month_date (calendar P) through) (\<lambda>_.
         and_then (month_date (calendar P) calendar_month) (\<lambda>_.
           if calendar_month < through
           then Inl ''Future budget months are plans, not available balances.''
           else first_month P db)))) (\<lambda>first.
     returned (history_months P db first through) (\<lambda>months.
     Some (and_then (fold_result (history_month P db first calendar_month)
         (opening_balances db first, [], False) months) (\<lambda>(_, hist, _).
       apply_ledger db hist))))"

definition history :: "'d platform \<Rightarrow> db \<Rightarrow> string \<Rightarrow> budget_month list result option" where
  "history P db through = history_at P db through (this_month P)"

definition budget_categories :: "'d platform \<Rightarrow> db \<Rightarrow> string \<Rightarrow> budget_category list result option" where
  "budget_categories P db m =
     returned (history P db m) (\<lambda>h.
     Some (ok_or (map_option bm_categories (first_row (filter (\<lambda>b. bm_month b = m) h)))
       ''Budget month unavailable''))"

section \<open>The equations of a category\<close>

definition field :: "string option \<Rightarrow> rat" where
  "field v = (case v of None \<Rightarrow> 0 | Some t \<Rightarrow> text_value t)"

lemma field_Some [simp]: "field (Some t) = text_value t"
  by (simp add: field_def)

text \<open>
  What a computed category promises: what remains is what was carried over, plus the month's
  allocation, plus adjustments, less the net spending; a category with facts of its own
  adjusts by reallocations and corrections only.
\<close>

definition balanced :: "budget_category \<Rightarrow> bool" where
  "balanced c \<longleftrightarrow>
     None \<notin> {bc_monthly c, bc_expense c, bc_remaining c, bc_impact c, bc_carryover c, bc_adjustment c,
        bc_available c, bc_net_spending c, bc_correction c}
     \<and> field (bc_available c) = field (bc_carryover c) + field (bc_monthly c) + field (bc_adjustment c)
     \<and> field (bc_remaining c) = field (bc_available c) - field (bc_net_spending c)
     \<and> (bc_id c \<noteq> UNALLOCATED \<longrightarrow>
          field (bc_adjustment c) = - field (bc_impact c) - field (bc_correction c)
          \<and> field (bc_expense c) = field (bc_net_spending c) + field (bc_correction c))"

lemma open_category_month_E:
  assumes "open_category_month P db first m (balances, results) c = Inr (balances', results')"
  obtains e carryover base facts where "results' = results @ [e]" "balances' = bt_insert (cat_id c) (the (bc_remaining e)) balances"
    "bc_id e = cat_id c" "bc_name e = cat_name c" "balanced e"
    "carryover_of P db first balances m (cat_id c) = Inr (Some carryover)" "bc_carryover e = Some carryover"
    "base_monthly db (cat_id c) m = Some base"
    "fold_result (charge_entry db (cat_id c)) (''0'', ''0'') (category_entries db m (cat_id c)) = Inr facts"
    "if (case start db of Some s \<Rightarrow> s \<le> m | None \<Rightarrow> False)
     then ledger_allocation db m (cat_id c) base = Inr (the (bc_monthly e))
       \<and> ledger_spending db m (cat_id c) = Inr (the (bc_net_spending e), the (bc_impact e))
     else bc_monthly e = Some base \<and> (the (bc_net_spending e), the (bc_impact e)) = facts"
    "fold_result add_decimal_text ''0'' (category_deltas db m (cat_id c)) = Inr (the (bc_correction e))"
proof -
  let ?i = "cat_id c"
  from assms obtain carryover base facts monthly net impact correction expense negated adjustment funded available remaining
    where *: "carryover_of P db first balances m ?i = Inr (Some carryover)"
      "base_monthly db ?i m = Some base"
      "fold_result (charge_entry db ?i) (''0'', ''0'') (category_entries db m ?i) = Inr facts"
    and tot: "(if (case start db of Some s \<Rightarrow> s \<le> m | None \<Rightarrow> False)
         then and_then (ledger_allocation db m ?i base) (\<lambda>monthly.
              and_then (ledger_spending db m ?i) (\<lambda>(expense, impact). Inr (monthly, expense, impact)))
         else Inr (base, facts)) = Inr (monthly, net, impact)"
    and cor: "fold_result add_decimal_text ''0'' (category_deltas db m ?i) = Inr correction"
    and ar: "add_decimal_text net correction = Inr expense" "subtract_decimal_text ''0'' impact = Inr negated"
      "subtract_decimal_text negated correction = Inr adjustment" "add_decimal_text carryover monthly = Inr funded"
      "add_decimal_text funded adjustment = Inr available" "subtract_decimal_text available net = Inr remaining"
    and out: "balances' = bt_insert ?i remaining balances" "results' = results @
       [\<lparr>bc_id = ?i, bc_name = cat_name c, bc_monthly = Some monthly, bc_expense = Some expense,
         bc_remaining = Some remaining, bc_impact = Some impact, bc_carryover = Some carryover,
         bc_adjustment = Some adjustment, bc_available = Some available,
         bc_net_spending = Some net, bc_correction = Some correction\<rparr>]"
    unfolding open_category_month_def Let_def prod.case and_then_eq_Inr ok_or_eq_Inr split_beta
    by clarsimp
  let ?e = "\<lparr>bc_id = ?i, bc_name = cat_name c, bc_monthly = Some monthly, bc_expense = Some expense,
         bc_remaining = Some remaining, bc_impact = Some impact, bc_carryover = Some carryover,
         bc_adjustment = Some adjustment, bc_available = Some available,
         bc_net_spending = Some net, bc_correction = Some correction\<rparr>"
  have "balanced ?e"
    using money.add_val [OF ar(1)] money.sub_val [OF ar(2)] money.sub_val [OF ar(3)] money.add_val [OF ar(4)]
      money.add_val [OF ar(5)] money.sub_val [OF ar(6)] by (simp add: balanced_def money.zero_val)
  moreover from tot have "if (case start db of Some s \<Rightarrow> s \<le> m | None \<Rightarrow> False)
     then ledger_allocation db m ?i base = Inr monthly \<and> ledger_spending db m ?i = Inr (net, impact)
     else Some monthly = Some base \<and> (net, impact) = facts"
    by (auto simp: result_simps split: if_splits)
  ultimately show ?thesis using that [of ?e carryover base facts] out * cor by simp
qed

section \<open>Where the totals come from\<close>

definition spending_of :: "db \<Rightarrow> string \<Rightarrow> transaction_row \<Rightarrow> rat" where
  "spending_of db i t =
     (if tx_kind t = ''reallocate'' then 0
      else (if tx_from_category t = Some i then text_value (the (valuation_eur db (tx_id t) ''from'')) else 0)
         - (if tx_to_category t = Some i then text_value (the (valuation_eur db (tx_id t) ''to'')) else 0))"

definition moved_out :: "string \<Rightarrow> transaction_row \<Rightarrow> rat" where
  "moved_out i t =
     (if tx_kind t = ''reallocate''
      then (let v = text_value (unwrap_or (strip_prefix (tx_amount t) ''-'') (tx_amount t))
            in (if tx_from_category t = Some i then v else 0) - (if tx_to_category t = Some i then v else 0))
      else 0)"

lemma charge_entry_value:
  assumes "charge_entry db i s t = Inr s'"
  shows "text_value (fst s') = text_value (fst s) + spending_of db i t
    \<and> text_value (snd s') = text_value (snd s) + moved_out i t"
  using assms
  by (cases s) (auto simp: charge_entry_def charge_reallocation_def charge_valuation_def spending_of_def
      moved_out_def Let_def result_simps split: if_splits dest!: money.add_val money.sub_val)

lemma charges_value:
  "fold_result (charge_entry db i) s ts = Inr s' \<Longrightarrow>
     text_value (fst s') = text_value (fst s) + sum_list (map (spending_of db i) ts)
     \<and> text_value (snd s') = text_value (snd s) + sum_list (map (moved_out i) ts)"
  by (induction ts arbitrary: s) (auto simp: result_simps dest!: charge_entry_value)

definition movement_sum :: "db \<Rightarrow> string \<Rightarrow> string \<Rightarrow> string \<Rightarrow> rat" where
  "movement_sum db m i kind = sum_list (map (\<lambda>r. text_value (mov_amount r)) (category_movements db m i [kind]))"

lemma ledger_spending_value:
  assumes "ledger_spending db m i = Inr (expense, impact)"
  shows "text_value expense = - movement_sum db m i ''spending''"
    and "text_value impact = - movement_sum db m i ''reallocation''"
proof -
  have loop: "text_value (fst s') = text_value (fst s)
        - sum_list (map (\<lambda>r. text_value (mov_amount r)) (filter (\<lambda>r. mov_kind r = ''spending'') rs))
      \<and> text_value (snd s') = text_value (snd s)
        - sum_list (map (\<lambda>r. text_value (mov_amount r)) (filter (\<lambda>r. mov_kind r \<noteq> ''spending'') rs))"
    if "fold_result (\<lambda>(expense, impact) r.
       if mov_kind r = ''spending''
       then and_then (subtract_decimal_text expense (mov_amount r)) (\<lambda>expense'. Inr (expense', impact))
       else and_then (subtract_decimal_text impact (mov_amount r)) (\<lambda>impact'. Inr (expense, impact')))
       s rs = Inr s'" for s rs s'
    using that
    by (induction rs arbitrary: s) (auto simp: result_simps split: if_splits dest!: money.sub_val)
  have kinds: "filter (\<lambda>r. mov_kind r = ''spending'') (category_movements db m i [''spending'', ''reallocation''])
      = category_movements db m i [''spending'']"
    "filter (\<lambda>r. mov_kind r \<noteq> ''spending'') (category_movements db m i [''spending'', ''reallocation''])
      = category_movements db m i [''reallocation'']"
    by (auto simp: category_movements_def intro!: filter_cong)
  from loop [OF assms [unfolded ledger_spending_def]]
  show "text_value expense = - movement_sum db m i ''spending''"
    "text_value impact = - movement_sum db m i ''reallocation''"
    by (simp_all add: kinds movement_sum_def money.zero_val)
qed

text \<open>
  The totals of an open category: before the activation of the ledger from the transactions and
  the base allocation, afterwards from the movements.
\<close>

definition totals_of :: "db \<Rightarrow> string \<Rightarrow> budget_category \<Rightarrow> bool" where
  "totals_of db m e \<longleftrightarrow>
     (let i = bc_id e; base = text_value (the (base_monthly db i m)) in
      field (bc_correction e) = sum_list (map text_value (category_deltas db m i))
      \<and> (if (case start db of Some s \<Rightarrow> s \<le> m | None \<Rightarrow> False)
         then field (bc_net_spending e) = - movement_sum db m i ''spending''
            \<and> field (bc_impact e) = - movement_sum db m i ''reallocation''
            \<and> field (bc_monthly e) = (if plan_income_of db m = None then base else movement_sum db m i ''allocation'')
         else field (bc_net_spending e) = sum_list (map (spending_of db i) (category_entries db m i))
            \<and> field (bc_impact e) = sum_list (map (moved_out i) (category_entries db m i))
            \<and> field (bc_monthly e) = base))"

lemma open_category_month_totals:
  assumes "open_category_month P db first m (balances, results) c = Inr (balances', results')"
  shows "\<exists>e. results' = results @ [e] \<and> balances' = bt_insert (cat_id c) (the (bc_remaining e)) balances
    \<and> bc_id e = cat_id c \<and> bc_name e = cat_name c \<and> balanced e \<and> totals_of db m e
    \<and> carryover_of P db first balances m (cat_id c) = Inr (bc_carryover e) \<and> bc_remaining e \<noteq> None"
  using assms
proof (rule open_category_month_E)
  fix e carryover base facts
  assume 1: "results' = results @ [e]" "balances' = bt_insert (cat_id c) (the (bc_remaining e)) balances"
    "bc_id e = cat_id c" "bc_name e = cat_name c" "balanced e"
    "carryover_of P db first balances m (cat_id c) = Inr (Some carryover)" "bc_carryover e = Some carryover"
    and base: "base_monthly db (cat_id c) m = Some base"
    and facts: "fold_result (charge_entry db (cat_id c)) (''0'', ''0'') (category_entries db m (cat_id c)) = Inr facts"
    and tot: "if (case start db of Some s \<Rightarrow> s \<le> m | None \<Rightarrow> False)
     then ledger_allocation db m (cat_id c) base = Inr (the (bc_monthly e))
       \<and> ledger_spending db m (cat_id c) = Inr (the (bc_net_spending e), the (bc_impact e))
     else bc_monthly e = Some base \<and> (the (bc_net_spending e), the (bc_impact e)) = facts"
    and cor: "fold_result add_decimal_text ''0'' (category_deltas db m (cat_id c)) = Inr (the (bc_correction e))"
  have fields: "field (bc_monthly e) = text_value (the (bc_monthly e))" "field (bc_net_spending e) = text_value (the (bc_net_spending e))"
    "field (bc_impact e) = text_value (the (bc_impact e))" "field (bc_correction e) = text_value (the (bc_correction e))"
    "bc_remaining e \<noteq> None"
    using 1(5) by (auto simp: balanced_def field_def split: option.splits)
  have alloc: "text_value t = (if plan_income_of db m = None then text_value base else movement_sum db m (cat_id c) ''allocation'')"
    if "ledger_allocation db m (cat_id c) base = Inr t" for t
    using that money.sum_val [of "''0''" "map mov_amount (category_movements db m (cat_id c) [''allocation''])" t]
    by (auto simp: ledger_allocation_def plan_income_exists movement_sum_def money.zero_val comp_def split: if_splits)
  have "totals_of db m e"
    using tot 1(3) base fields money.sum_val [OF cor] charges_value [OF facts] alloc ledger_spending_value
    by (cases "case start db of Some s \<Rightarrow> s \<le> m | None \<Rightarrow> False")
      (auto simp: totals_of_def money.zero_val)
  with 1 fields(5) show ?thesis by auto
qed

section \<open>Balances along the months\<close>

text \<open>The last balance of a category stated in a list of entries.\<close>

definition latest_remaining :: "string option \<Rightarrow> string \<Rightarrow> budget_category list \<Rightarrow> string option" where
  "latest_remaining =
     (\<lambda>r i. foldl (\<lambda>r c. if bc_id c = i \<and> bc_remaining c \<noteq> None then bc_remaining c else r) r)"

lemma latest_remaining_simps [simp]:
  "latest_remaining r i [] = r"
  "latest_remaining r i (cs @ ds) = latest_remaining (latest_remaining r i cs) i ds"
  "latest_remaining r i (c # cs) =
     latest_remaining (if bc_id c = i \<and> bc_remaining c \<noteq> None then bc_remaining c else r) i cs"
  by (simp_all add: latest_remaining_def)

lemma latest_remaining_other: "i \<notin> bc_id ` set cs \<Longrightarrow> latest_remaining r i cs = r"
  by (induction cs arbitrary: r) auto

lemma frozen_balances_get: "bt_get (frozen_balances b cats) i = latest_remaining (bt_get b i) i cats"
  unfolding frozen_balances_def
  by (induction cats arbitrary: b) (auto simp: bt_get_insert split: option.split)

lemma historical_months:
  "foldl (historical_category_month db m) (b, rs) cs = (b', rs') \<Longrightarrow>
     \<exists>new. rs' = rs @ new \<and> map bc_id new = map cat_id cs \<and> (\<forall>i. bt_get b' i = latest_remaining (bt_get b i) i new)"
proof (induction cs arbitrary: b rs)
  case Nil
  then show ?case by simp
next
  case (Cons c cs)
  obtain b1 rs1 where step: "historical_category_month db m (b, rs) c = (b1, rs1)" by (cases "historical_category_month db m (b, rs) c")
  from step obtain e where e: "rs1 = rs @ [e]" "bc_id e = cat_id c"
    "bt_get b1 i = latest_remaining (bt_get b i) i [e]" for i
    by (auto simp: historical_category_month_def Let_def bt_get_insert split: option.splits)
  from Cons.prems step have "foldl (historical_category_month db m) (b1, rs1) cs = (b', rs')" by simp
  from Cons.IH [OF this] obtain new where new: "rs' = rs1 @ new" "map bc_id new = map cat_id cs"
    "\<And>i. bt_get b' i = latest_remaining (bt_get b1 i) i new" by blast
  with e show ?case by (intro exI [of _ "e # new"]) simp
qed

lemma carryover_of_cong:
  "bt_get b i = bt_get b' i \<Longrightarrow> carryover_of P db first b m i = carryover_of P db first b' m i"
  by (simp add: carryover_of_def)

lemma open_months:
  "fold_result (open_category_month P db f m) (b, rs) cs = Inr (b', rs') \<Longrightarrow> distinct (map cat_id cs) \<Longrightarrow>
     \<exists>new. rs' = rs @ new \<and> map bc_id new = map cat_id cs \<and> (\<forall>i. bt_get b' i = latest_remaining (bt_get b i) i new)
       \<and> (\<forall>e\<in>set new. balanced e \<and> totals_of db m e \<and> carryover_of P db f b m (bc_id e) = Inr (bc_carryover e))"
proof (induction cs arbitrary: b rs)
  case Nil
  then show ?case by simp
next
  case (Cons c cs)
  then obtain b1 rs1 where step: "open_category_month P db f m (b, rs) c = Inr (b1, rs1)"
    and rest: "fold_result (open_category_month P db f m) (b1, rs1) cs = Inr (b', rs')"
    by (auto simp: result_simps)
  from open_category_month_totals [OF step] obtain e where e: "rs1 = rs @ [e]"
    "b1 = bt_insert (cat_id c) (the (bc_remaining e)) b" "bc_id e = cat_id c" "balanced e" "totals_of db m e"
    "carryover_of P db f b m (cat_id c) = Inr (bc_carryover e)" "bc_remaining e \<noteq> None"
    by (elim exE conjE) (rule that)
  have "distinct (map cat_id cs)" using Cons.prems(2) by simp
  from Cons.IH [OF rest this] obtain new where new: "rs' = rs1 @ new" "map bc_id new = map cat_id cs"
    and got: "\<forall>i. bt_get b' i = latest_remaining (bt_get b1 i) i new"
    and each: "\<forall>e\<in>set new. balanced e \<and> totals_of db m e \<and> carryover_of P db f b1 m (bc_id e) = Inr (bc_carryover e)"
    by (elim exE conjE) (rule that)
  have "bt_get b1 (bc_id x) = bt_get b (bc_id x)" if "x \<in> set new" for x
  proof -
    have "bc_id x \<in> set (map cat_id cs)" using new(2) that by (metis image_eqI list.set_map)
    with Cons.prems(2) show ?thesis by (auto simp: e(2) bt_get_insert)
  qed
  then have "carryover_of P db f b m (bc_id x) = Inr (bc_carryover x)" if "x \<in> set new" for x
    using each that carryover_of_cong [of b "bc_id x" b1 P db f m] by auto
  with each e(3-6) have "\<forall>x\<in>set (e # new). balanced x \<and> totals_of db m x \<and> carryover_of P db f b m (bc_id x) = Inr (bc_carryover x)"
    by simp
  moreover have "\<forall>i. bt_get b' i = latest_remaining (bt_get b i) i (e # new)"
    using got e by (simp add: bt_get_insert)
  ultimately show ?case
    using new e(1,3) by (intro exI [of _ "e # new"]) simp
qed

section \<open>The months of a history\<close>

definition closure_of :: "db \<Rightarrow> string \<Rightarrow> month_closure_row option" where
  "closure_of db m = first_row (filter (\<lambda>c. clo_month c = m) (closures_table db))"

definition dynamic :: "string option \<Rightarrow> string \<Rightarrow> bool" where
  "dynamic first m = (case first of None \<Rightarrow> False | Some f \<Rightarrow> f \<le> m)"

definition earlier_open :: "string \<Rightarrow> budget_month list \<Rightarrow> bool" where
  "earlier_open calendar_month pre \<longleftrightarrow> (\<exists>b\<in>set pre. bm_status b = ''open'' \<and> bm_month b < calendar_month)"

text \<open>
  The contract of one month, given the months before it: a closed month is its frozen
  snapshot; an open month has one balanced entry per category, whose carryover is the opening
  in the first month and the last balance before the month later on.
\<close>

definition month_contract ::
  "'d platform \<Rightarrow> db \<Rightarrow> string option \<Rightarrow> string \<Rightarrow> budget_month list \<Rightarrow> budget_month \<Rightarrow> bool" where
  "month_contract P db first calendar_month pre bm \<longleftrightarrow>
     (case closure_of db (bm_month bm) of
        Some c \<Rightarrow> bm_status bm = ''closed'' \<and> \<not> bm_provisional bm
          \<and> read_categories P (clo_snapshot c) = Inr (bm_categories bm)
      | None \<Rightarrow>
          map bc_id (bm_categories bm) = map cat_id (history_categories db)
          \<and> (if dynamic first (bm_month bm)
             then bm_status bm = ''open'' \<and> bm_provisional bm = earlier_open calendar_month pre
               \<and> (\<forall>e\<in>set (bm_categories bm). balanced e \<and> totals_of db (bm_month bm) e
                    \<and> (if first = Some (bm_month bm)
                       then carryover_of P db (bm_month bm) [] (bm_month bm) (bc_id e) = Inr (bc_carryover e)
                       else bc_carryover e = latest_remaining (bt_get (opening_balances db first) (bc_id e)) (bc_id e)
                         (concat (map bm_categories pre))))
             else bm_status bm = ''historical'' \<and> \<not> bm_provisional bm))"

lemma history_month_contract:
  assumes "history_month P db first calendar_month (b, pre, p) m = Inr (b', hist, p')"
    and "distinct (map cat_id (categories_table db))"
    and "\<And>i. bt_get b i = latest_remaining (bt_get (opening_balances db first) i) i (concat (map bm_categories pre))"
    and "p = earlier_open calendar_month pre"
  shows "\<exists>bm. hist = pre @ [bm] \<and> bm_month bm = m \<and> month_contract P db first calendar_month pre bm
    \<and> (\<forall>i. bt_get b' i = latest_remaining (bt_get (opening_balances db first) i) i (concat (map bm_categories hist)))
    \<and> p' = earlier_open calendar_month hist"
proof -
  have dist: "distinct (map cat_id (history_categories db))"
    using assms(2) by (auto simp: history_categories_def allocated_categories_def real_categories_def distinct_map
        intro: inj_on_subset)
  consider (closed) c where "closure_of db m = Some c"
    | (open_month) f where "closure_of db m = None" "first = Some f" "f \<le> m"
    | (historical) "closure_of db m = None" "\<not> dynamic first m"
    by (cases "closure_of db m"; cases first) (auto simp: dynamic_def)
  then show ?thesis
  proof cases
    case closed
    with assms(1) obtain cats where cats: "read_categories P (clo_snapshot c) = Inr cats"
      "hist = pre @ [\<lparr>bm_month = m, bm_categories = cats, bm_status = ''closed'', bm_provisional = False\<rparr>]"
      "b' = frozen_balances b cats" "p' = p"
      by (auto simp: history_month_def closure_of_def Let_def result_simps)
    with closed assms(3,4) show ?thesis
      by (auto simp: month_contract_def frozen_balances_get earlier_open_def)
  next
    case open_month
    with assms(1) obtain cats where cats: "fold_result (open_category_month P db f m) (b, []) (history_categories db) = Inr (b', cats)"
      "hist = pre @ [\<lparr>bm_month = m, bm_categories = cats, bm_status = ''open'', bm_provisional = p\<rparr>]"
      "p' = (p \<or> m < calendar_month)"
      by (auto simp: history_month_def closure_of_def Let_def result_simps)
    from open_months [OF cats(1) dist] have new: "map bc_id cats = map cat_id (history_categories db)"
      "\<forall>i. bt_get b' i = latest_remaining (bt_get b i) i cats"
      "\<forall>e\<in>set cats. balanced e \<and> totals_of db m e \<and> carryover_of P db f b m (bc_id e) = Inr (bc_carryover e)"
      by auto
    have "month_contract P db first calendar_month pre
        \<lparr>bm_month = m, bm_categories = cats, bm_status = ''open'', bm_provisional = p\<rparr>"
    proof (cases "f = m")
      case True
      with new open_month assms(4) show ?thesis
        by (auto simp: month_contract_def dynamic_def carryover_of_def)
    next
      case False
      with new open_month assms(3,4) show ?thesis
        by (auto simp: month_contract_def dynamic_def carryover_of_def)
    qed
    with cats new(2) assms(3,4) show ?thesis
      by (auto simp: earlier_open_def)
  next
    case historical
    then have "\<not> (\<exists>f. first = Some f \<and> f \<le> m)" by (auto simp: dynamic_def)
    with historical assms(1) obtain cats where cats: "foldl (historical_category_month db m) (b, []) (history_categories db) = (b', cats)"
      "hist = pre @ [\<lparr>bm_month = m, bm_categories = cats, bm_status = ''historical'', bm_provisional = False\<rparr>]" "p' = p"
      by (auto simp: history_month_def closure_of_def dynamic_def Let_def result_simps split: option.splits)
    from historical_months [OF cats(1)] have "map bc_id cats = map cat_id (history_categories db)"
      "\<forall>i. bt_get b' i = latest_remaining (bt_get b i) i cats" by auto
    with cats historical assms(3,4) show ?thesis
      by (auto simp: month_contract_def earlier_open_def)
  qed
qed

lemma history_fold_contract:
  assumes "fold_result (history_month P db first calendar_month) (opening_balances db first, [], False) ms = Inr (b, hist, p)"
    and "distinct (map cat_id (categories_table db))"
  shows "map bm_month hist = ms \<and> (\<forall>k<length hist. month_contract P db first calendar_month (take k hist) (hist ! k))"
proof -
  have "map bm_month hist = ms \<and> (\<forall>k<length hist. month_contract P db first calendar_month (take k hist) (hist ! k))
    \<and> (\<forall>i. bt_get b i = latest_remaining (bt_get (opening_balances db first) i) i (concat (map bm_categories hist)))
    \<and> p = earlier_open calendar_month hist"
    using assms(1)
  proof (induction ms arbitrary: b hist p rule: rev_induct)
    case Nil
    then show ?case by (simp add: earlier_open_def)
  next
    case (snoc m ms)
    then obtain b0 pre p0 where pre: "fold_result (history_month P db first calendar_month)
        (opening_balances db first, [], False) ms = Inr (b0, pre, p0)"
      and step: "history_month P db first calendar_month (b0, pre, p0) m = Inr (b, hist, p)"
      by (auto simp: fold_result_append result_simps)
    note ih = snoc.IH [OF pre]
    have get: "\<And>i. bt_get b0 i = latest_remaining (bt_get (opening_balances db first) i) i (concat (map bm_categories pre))"
      and p0: "p0 = earlier_open calendar_month pre" using ih by blast+
    from history_month_contract [OF step assms(2) get p0] obtain bm where
      bm: "hist = pre @ [bm]" "bm_month bm = m" "month_contract P db first calendar_month pre bm"
      and rest: "\<forall>i. bt_get b i = latest_remaining (bt_get (opening_balances db first) i) i (concat (map bm_categories hist))"
        "p = earlier_open calendar_month hist"
      by (elim exE conjE) (rule that)
    have "month_contract P db first calendar_month (take k hist) (hist ! k)" if "k < length hist" for k
      using that ih bm by (cases "k = length pre") (auto simp: nth_append)
    with ih bm rest show ?case by simp
  qed
  then show ?thesis by blast
qed

lemma history_at_E:
  assumes "history_at P db through calendar_month = Some (Inr h)"
  obtains first months b hist p where "through \<le> calendar_month" "first_month P db = Inr first"
    "history_months P db first through = Some (Inr months)"
    "fold_result (history_month P db first calendar_month) (opening_balances db first, [], False) months = Inr (b, hist, p)"
    "apply_ledger db hist = Inr h"
  using assms
  by (auto simp: history_at_def result_simps split: if_splits)

text \<open>No month of the calculation has an entry of Unallocated, unless it is closed.\<close>

lemma contract_no_unallocated:
  assumes "month_contract P db first calendar_month pre bm" and "bm_status bm \<noteq> ''closed''"
  shows "UNALLOCATED \<notin> bc_id ` set (bm_categories bm)"
proof -
  have "map bc_id (bm_categories bm) = map cat_id (history_categories db)"
    using assms by (auto simp: month_contract_def split: option.splits)
  then have "bc_id ` set (bm_categories bm) = cat_id ` set (history_categories db)"
    by (metis list.set_map)
  then show ?thesis by (auto simp: history_categories_def allocated_categories_def)
qed

text \<open>
  The contract of a published month: the same, with the Unallocated entry that the ledger adds
  to open months from its activation on.
\<close>

definition published_month ::
  "'d platform \<Rightarrow> db \<Rightarrow> string option \<Rightarrow> string \<Rightarrow> budget_month list \<Rightarrow> budget_month \<Rightarrow> bool" where
  "published_month P db first calendar_month pre bm \<longleftrightarrow>
     (case closure_of db (bm_month bm) of
        Some c \<Rightarrow> bm_status bm = ''closed'' \<and> \<not> bm_provisional bm
          \<and> read_categories P (clo_snapshot c) = Inr (bm_categories bm)
      | None \<Rightarrow>
          filter (\<lambda>i. i \<noteq> UNALLOCATED) (map bc_id (bm_categories bm)) = map cat_id (history_categories db)
          \<and> (if dynamic first (bm_month bm)
             then bm_status bm = ''open'' \<and> bm_provisional bm = earlier_open calendar_month pre
               \<and> (\<forall>e\<in>set (bm_categories bm). balanced e \<and> (bc_id e \<noteq> UNALLOCATED \<longrightarrow>
                    totals_of db (bm_month bm) e
                    \<and> (if first = Some (bm_month bm)
                       then carryover_of P db (bm_month bm) [] (bm_month bm) (bc_id e) = Inr (bc_carryover e)
                       else bc_carryover e = latest_remaining (bt_get (opening_balances db first) (bc_id e)) (bc_id e)
                         (concat (map bm_categories pre)))))
             else bm_status bm = ''historical'' \<and> \<not> bm_provisional bm))"

lemma applied_same:
  assumes "applied db s u bm bm'"
  shows "bm_month bm' = bm_month bm" "bm_status bm' = bm_status bm" "bm_provisional bm' = bm_provisional bm"
    "i \<noteq> UNALLOCATED \<Longrightarrow> latest_remaining r i (bm_categories bm') = latest_remaining r i (bm_categories bm)"
  using assms by (auto simp: applied_def unallocated_category_def split: if_splits)

lemma published_of_contract:
  assumes c: "month_contract P db first calendar_month pre bm" and a: "bm' = bm \<or> (\<exists>s u. applied db s u bm bm')"
    and pre: "earlier_open calendar_month pre' = earlier_open calendar_month pre"
      "\<And>i r. i \<noteq> UNALLOCATED \<Longrightarrow> latest_remaining r i (concat (map bm_categories pre'))
        = latest_remaining r i (concat (map bm_categories pre))"
  shows "published_month P db first calendar_month pre' bm'"
proof (cases "bm_status bm = ''closed''")
  case True
  then have "bm' = bm" using a by (auto simp: applied_def split: if_splits)
  with True c show ?thesis by (auto simp: month_contract_def published_month_def split: option.splits if_splits)
next
  case False
  with c have none: "closure_of db (bm_month bm) = None" by (auto simp: month_contract_def split: option.splits)
  have no_u: "UNALLOCATED \<notin> set (map bc_id (bm_categories bm))"
    using contract_no_unallocated [OF c False] by simp
  have ids: "filter (\<lambda>i. i \<noteq> UNALLOCATED) (map bc_id (bm_categories bm)) = map bc_id (bm_categories bm)"
    using no_u by (intro filter_True ballI notI) simp
  have same: "bm_month bm' = bm_month bm" "bm_status bm' = bm_status bm" "bm_provisional bm' = bm_provisional bm"
    using a applied_same(1-3) by blast+
  have "bm_categories bm' = bm_categories bm
      \<or> (\<exists>e. bm_categories bm' = bm_categories bm @ [e] \<and> bc_id e = UNALLOCATED \<and> balanced e)"
    using a by (auto simp: applied_def unallocated_category_def balanced_def money.zero_val split: if_splits)
  then show ?thesis
  proof (elim disjE exE conjE)
    assume "bm_categories bm' = bm_categories bm"
    with c none ids no_u same pre show ?thesis
      by (auto simp: month_contract_def published_month_def)
  next
    fix e
    assume "bm_categories bm' = bm_categories bm @ [e]" "bc_id e = UNALLOCATED" "balanced e"
    with c none ids no_u same pre show ?thesis
      by (auto simp: month_contract_def published_month_def)
  qed
qed

lemma history_at_published:
  assumes h: "history_at P db through calendar_month = Some (Inr h)" and dist: "distinct (map cat_id (categories_table db))"
  obtains first where "first_month P db = Inr first" "history_months P db first through = Some (Inr (map bm_month h))"
    "\<And>k. k < length h \<Longrightarrow> published_month P db first calendar_month (take k h) (h ! k)"
proof -
  from h obtain first months b hist p where f: "first_month P db = Inr first"
    "history_months P db first through = Some (Inr months)"
    "fold_result (history_month P db first calendar_month) (opening_balances db first, [], False) months = Inr (b, hist, p)"
    "apply_ledger db hist = Inr h" by (rule history_at_E)
  from history_fold_contract [OF f(3) dist] have months: "map bm_month hist = months"
    and contract: "\<And>k. k < length hist \<Longrightarrow> month_contract P db first calendar_month (take k hist) (hist ! k)" by auto
  have no_u: "\<And>bm. bm \<in> set hist \<Longrightarrow> bm_status bm \<noteq> ''closed'' \<Longrightarrow> UNALLOCATED \<notin> bc_id ` set (bm_categories bm)"
    using contract contract_no_unallocated by (metis in_set_conv_nth)
  from f(4) no_u have rel: "length h = length hist \<and> (\<forall>k<length hist. h ! k = hist ! k \<or> (\<exists>s u. applied db s u (hist ! k) (h ! k)))"
    by (rule apply_ledger_cases) auto
  have same: "bm_month (h ! k) = bm_month (hist ! k)" "bm_status (h ! k) = bm_status (hist ! k)"
    "i \<noteq> UNALLOCATED \<Longrightarrow> latest_remaining r i (bm_categories (h ! k)) = latest_remaining r i (bm_categories (hist ! k))"
    if "k < length hist" for k i r
    using rel that applied_same by metis+
  have take_ok: "earlier_open calendar_month (take k h) = earlier_open calendar_month (take k hist)
      \<and> (\<forall>i r. i \<noteq> UNALLOCATED \<longrightarrow> latest_remaining r i (concat (map bm_categories (take k h)))
        = latest_remaining r i (concat (map bm_categories (take k hist))))" if "k \<le> length hist" for k
    using that
  proof (induction k)
    case 0
    then show ?case by simp
  next
    case (Suc k)
    then have "take (Suc k) h = take k h @ [h ! k]" "take (Suc k) hist = take k hist @ [hist ! k]"
      using rel by (simp_all add: take_Suc_conv_app_nth)
    with Suc same [of k] show ?case by (simp add: earlier_open_def)
  qed
  have "map bm_month h = map bm_month hist"
    using rel same(1) by (intro nth_equalityI) auto
  moreover have "published_month P db first calendar_month (take k h) (h ! k)" if "k < length h" for k
    using rel that take_ok [of k] by (intro published_of_contract [OF contract [of k]]) auto
  ultimately show ?thesis using that f(1,2) months by simp
qed

section \<open>Which months\<close>

lemma snapshot_months_set: "set (snapshot_months db through) = {m \<in> snap_month ` set (snapshots_table db). m \<le> through}"
  and snapshot_months_distinct: "distinct (snapshot_months db through)"
  by (auto simp: snapshot_months_def)

lemma push_months:
  "fold_result (\<lambda>ms m. Inr (if m \<in> set ms then ms else ms @ [m])) ms0 xs = Inr ms \<Longrightarrow> distinct ms0 \<Longrightarrow>
     distinct ms \<and> set ms = set ms0 \<union> set xs"
  by (induction xs arbitrary: ms0) auto

context month_calendar
begin

lemma history_months_range:
  assumes "history_months P db first through = Some (Inr ms)" and "calendar P = C"
    and "case first of None \<Rightarrow> True | Some f \<Rightarrow> valid_month f" and "valid_month through" and "through < ''9999-12''"
  shows "sorted_wrt (<) ms" and "set ms = {m \<in> snap_month ` set (snapshots_table db). m \<le> through}
    \<union> {m. \<exists>f. first = Some f \<and> valid_month m \<and> f \<le> m \<and> m \<le> through}"
proof -
  have srt: "sorted (sort_key id xs)" for xs :: "string list"
    using sorted_sort_key [of id xs] by simp
  have "distinct ms \<and> sorted ms \<and> set ms = {m \<in> snap_month ` set (snapshots_table db). m \<le> through}
    \<union> {m. \<exists>f. first = Some f \<and> valid_month m \<and> f \<le> m \<and> m \<le> through}"
  proof (cases first)
    case None
    with assms(1) show ?thesis
      by (auto simp: history_months_def snapshot_months_set snapshot_months_distinct srt)
  next
    case (Some f)
    with assms(3) have f: "valid_month f" by simp
    from while_months_fold [OF f assms(4,5)] obtain xs where
      xs: "\<And>body (s :: string list). while_months C body f through s = Some (fold_result body s xs)"
        "\<forall>m\<in>set xs. valid_month m \<and> f \<le> m \<and> m \<le> through"
        "map month_number xs = [month_number f..<Suc (month_number through)]" by blast
    have all: "set xs = {m. valid_month m \<and> f \<le> m \<and> m \<le> through}"
    proof
      show "set xs \<subseteq> {m. valid_month m \<and> f \<le> m \<and> m \<le> through}" using xs(2) by auto
      show "{m. valid_month m \<and> f \<le> m \<and> m \<le> through} \<subseteq> set xs"
      proof
        fix m
        assume m: "m \<in> {m. valid_month m \<and> f \<le> m \<and> m \<le> through}"
        then have "month_number m \<in> set (map month_number xs)"
          unfolding xs(3) using month_order f assms(4) by auto
        then show "m \<in> set xs" using xs(2) m month_inj by fastforce
      qed
    qed
    have "\<exists>ms0. fold_result (\<lambda>ms m. Inr (if m \<in> set ms then ms else ms @ [m])) (snapshot_months db through) xs = (Inr ms0 :: string list result)
        \<and> ms = sort_key id ms0"
      using assms(1,2) Some by (auto simp: history_months_def xs(1) result_simps)
    then obtain ms0 where
      ms0: "fold_result (\<lambda>ms m. Inr (if m \<in> set ms then ms else ms @ [m])) (snapshot_months db through) xs = (Inr ms0 :: string list result)"
      and ms: "ms = sort_key id ms0" by blast
    from push_months [OF ms0 snapshot_months_distinct] ms all Some show ?thesis
      by (auto simp: snapshot_months_set srt)
  qed
  then show "sorted_wrt (<) ms" "set ms = {m \<in> snap_month ` set (snapshots_table db). m \<le> through}
    \<union> {m. \<exists>f. first = Some f \<and> valid_month m \<and> f \<le> m \<and> m \<le> through}"
    by (auto simp: strict_sorted_iff)
qed

end

section \<open>Opening\<close>

lemma insert_opening_keeps:
  "o' \<in> set os \<Longrightarrow> o' \<in> set (insert_opening x os)"
  "distinct (map (\<lambda>o'. (open_category o', open_before_month o')) os) \<Longrightarrow>
     distinct (map (\<lambda>o'. (open_category o', open_before_month o')) (insert_opening x os))"
  by (auto simp: insert_opening_def list_ex_iff)

text \<open>A month with a closure is published exactly as it was frozen.\<close>

lemma history_at_closed:
  assumes "history_at P db through calendar_month = Some (Inr h)" and "distinct (map cat_id (categories_table db))"
    and "bm \<in> set h"
  shows "case closure_of db (bm_month bm) of
      Some closure \<Rightarrow> bm_status bm = ''closed'' \<and> \<not> bm_provisional bm
        \<and> read_categories P (clo_snapshot closure) = Inr (bm_categories bm)
    | None \<Rightarrow> bm_status bm \<noteq> ''closed''"
  using assms(1,2)
proof (rule history_at_published)
  fix first
  assume pub: "\<And>k. k < length h \<Longrightarrow> published_month P db first calendar_month (take k h) (h ! k)"
  from assms(3) obtain k where "k < length h" "h ! k = bm" by (auto simp: in_set_conv_nth)
  with pub [of k] show ?thesis by (auto simp: published_month_def split: option.splits if_splits)
qed

lemma initialize_fold:
  assumes "fold_result (\<lambda>d s.
               and_then (ok_or (snap_remaining s) ''Imported opening balance unavailable'') (\<lambda>balance.
               Inr (d\<lparr>openings_table := insert_opening
                 \<lparr>open_category = snap_category s, open_before_month = first, open_remaining = balance,
                  open_verified_by = ''verified-canonical-import'', open_source = snap_source_cells s\<rparr>
                 (openings_table d)\<rparr>))) db ss = Inr db'"
  shows "\<exists>new. openings_table db' = openings_table db @ new \<and> db' = db\<lparr>openings_table := openings_table db @ new\<rparr>
    \<and> (\<forall>o'\<in>set new. open_before_month o' = first
        \<and> (\<exists>s\<in>set ss. open_category o' = snap_category s \<and> snap_remaining s = Some (open_remaining o')))
    \<and> (distinct (map (\<lambda>o'. (open_category o', open_before_month o')) (openings_table db)) \<longrightarrow>
        distinct (map (\<lambda>o'. (open_category o', open_before_month o')) (openings_table db')))"
  using assms
proof (induction ss arbitrary: db)
  case Nil
  then show ?case by (intro exI [of _ "[]"]) simp
next
  case (Cons s ss)
  then obtain balance where b: "snap_remaining s = Some balance" by (auto simp: result_simps)
  let ?o = "\<lparr>open_category = snap_category s, open_before_month = first, open_remaining = balance,
                  open_verified_by = ''verified-canonical-import'', open_source = snap_source_cells s\<rparr>"
  let ?d = "db\<lparr>openings_table := insert_opening ?o (openings_table db)\<rparr>"
  from Cons.prems b have rest: "fold_result (\<lambda>d s.
               and_then (ok_or (snap_remaining s) ''Imported opening balance unavailable'') (\<lambda>balance.
               Inr (d\<lparr>openings_table := insert_opening
                 \<lparr>open_category = snap_category s, open_before_month = first, open_remaining = balance,
                  open_verified_by = ''verified-canonical-import'', open_source = snap_source_cells s\<rparr>
                 (openings_table d)\<rparr>))) ?d ss = Inr db'" by simp
  have ins: "insert_opening ?o (openings_table db) = openings_table db
      \<or> insert_opening ?o (openings_table db) = openings_table db @ [?o]" by (simp add: insert_opening_def)
  have dist: "distinct (map (\<lambda>o'. (open_category o', open_before_month o')) (openings_table db)) \<longrightarrow>
        distinct (map (\<lambda>o'. (open_category o', open_before_month o')) (openings_table ?d))"
    using insert_opening_keeps(2) [of "openings_table db" ?o] by simp
  from Cons.IH [OF rest] obtain new where new: "openings_table db' = openings_table ?d @ new"
    "db' = ?d\<lparr>openings_table := openings_table ?d @ new\<rparr>"
    "\<forall>o'\<in>set new. open_before_month o' = first
        \<and> (\<exists>s\<in>set ss. open_category o' = snap_category s \<and> snap_remaining s = Some (open_remaining o'))"
    "distinct (map (\<lambda>o'. (open_category o', open_before_month o')) (openings_table ?d)) \<longrightarrow>
        distinct (map (\<lambda>o'. (open_category o', open_before_month o')) (openings_table db'))" by (elim exE conjE) (rule that)
  from ins show ?case
  proof
    assume eq: "insert_opening ?o (openings_table db) = openings_table db"
    with new dist show ?thesis by (intro exI [of _ new]) auto
  next
    assume eq: "insert_opening ?o (openings_table db) = openings_table db @ [?o]"
    with new dist b show ?thesis by (intro exI [of _ "?o # new"]) auto
  qed
qed

end
