(* ===== verification/Samples.thy ===== *)
theory Samples
  imports History
begin

text \<open>
  A small household with one category, one expense and an activated ledger, on the calendar
  of \<open>Platform\<close>. The properties of the budget modules are applied to it; \<open>evaluate\<close> collects
  the rules that run the operations on it.
\<close>

definition sample_platform :: "int platform" where
  "sample_platform = \<lparr>calendar = civil_chrono, manifest_month = (\<lambda>m. Inr (Some m)),
     read_categories = (\<lambda>_. Inl ''no snapshot''), read_coverage = (\<lambda>_. Inl ''no coverage''),
     write_categories = (\<lambda>_. ''frozen''), write_coverage = (\<lambda>_. ''covered''),
     read_json = (\<lambda>_. Inr JNull), write_json = (\<lambda>_. ''json''), sha256_hex = (\<lambda>s. s), lowercase = (\<lambda>s. s),
     now_text = ''2026-01-20T09:00:00.000Z'', today = ''2026-01-20''\<rparr>"

definition sample_db :: db where
  "sample_db = empty_db\<lparr>
     categories_table := [\<lparr>cat_id = ''food'', cat_name = ''Food'', cat_is_real = True, cat_source_row = 1\<rparr>,
       \<lparr>cat_id = UNALLOCATED, cat_name = ''Unallocated'', cat_is_real = True, cat_source_row = 1000000\<rparr>],
     periods_table := [\<lparr>per_category = ''food'', per_start_month = ''2025-01'', per_base_monthly = Some (whole 300)\<rparr>],
     accounts_table := [\<lparr>acc_id = ''bank'', acc_currency = Some ''EUR'', acc_is_real = True, acc_is_active = True,
       acc_native_balance = Some (whole 500), acc_source_name = ''Bank'', acc_eur_balance = Some (whole 500), acc_revision = 0,
         acc_type = None, acc_source_row = 1, acc_actual_native = None, acc_actual_eur = None, acc_reconciliation = None\<rparr>],
     transactions_table := [\<lparr>tx_id = ''t1'', tx_kind = ''expense'', tx_date = ''2026-01-05'', tx_amount = whole 25,
       tx_input_currency = Some ''EUR'', tx_from_category = Some ''food'', tx_to_category = None,
       tx_from_account = Some ''bank'', tx_to_account = None,
       tx_description = '''', tx_to_amount = None, tx_to_currency = None, tx_currency_override = False,
       tx_to_amount_override = False, tx_created_at = None, tx_created_by = None, tx_revision = 1,
       tx_workbook = ''canonical-live'', tx_sheet = ''Transactions'', tx_source_row = 1, tx_fingerprint = '''',
       tx_source_json = '''', tx_occurred_at = None\<rparr>],
     valuations_table := [\<lparr>val_transaction = ''t1'', val_side = ''from'', val_revision = 1,
       val_native = Some (whole 25), val_eur = Some (whole 25), val_currency = Some ''EUR'', val_exchange_to_eur = None,
       val_exchange_to_native = None, val_date = ''2026-01-05'', val_source = ''canonical-db-policy'', val_rate_set = None,
       val_source_cells = ''''\<rparr>],
     openings_table := [\<lparr>open_category = ''food'', open_before_month = ''2026-01'', open_remaining = whole 40,
       open_verified_by = ''verified-canonical-import'', open_source = ''''\<rparr>],
     imports_table := [\<lparr>imp_manifest = ''2026-01'', imp_committed_at = ''2026-01-01''\<rparr>],
     ledger_state_table := Some \<lparr>st_start_month = ''2026-01'', st_opening_unallocated = whole 100\<rparr>,
     expectations_table := [\<lparr>exp_start_month = ''2025-01'', exp_amount = whole 2000, exp_currency = ''EUR'',
       exp_arrival_day = 7\<rparr>]\<rparr>"

declare sample_db_def [evaluate] empty_db_def [evaluate] sample_platform_def [evaluate]

declare start_def [evaluate] month_closed_def [evaluate] plan_income_of_def [evaluate] first_row_def [evaluate]
  expectation_for_def [evaluate] rates_def [evaluate] real_categories_def [evaluate]
  allocated_categories_def [evaluate] base_monthly_def [evaluate] transactions_in_def [evaluate]
  latest_valuation_def [evaluate] valuation_eur_def [evaluate] valuation_native_def [evaluate]
  receipt_treatment_def [evaluate] corrections_in_def [evaluate] last_max_def [evaluate]
  this_month_def [evaluate] UNALLOCATED_def [evaluate]

declare zero_whole [evaluate] sub_whole [evaluate] add_whole [evaluate] account_balance_eur_whole [evaluate]

declare ensure_income_def [evaluate] movement_def [evaluate] source_movements_def [evaluate]
  insert_movement_def [evaluate] sync_month_def [evaluate] sync_allocations_def [evaluate]
  allocation_step_def [evaluate] sync_transactions_def [evaluate] wanted_effects_def [evaluate]
  want_transaction_def [evaluate] want_side_def [evaluate] bt_add_to_def [evaluate] bt_get_def [evaluate]
  bt_or_insert_def [evaluate] existing_transaction_keys_def [evaluate] like_prefix_def [evaluate]
  ascii_lower_def [evaluate] sync_corrections_def [evaluate] expected_key_def [evaluate]
  allocation_key_def [evaluate] allocations_key_def [evaluate] transaction_key_def [evaluate]
  excess_key_def [evaluate] complete_key_def [evaluate] sync_excess_def [evaluate] wanted_excess_def [evaluate]
  sync_completion_def [evaluate] matched_receipts_def [evaluate] receipt_joins_def [evaluate] sync_def [evaluate]

text \<open>The months of the sample.\<close>

lemma sample_month_texts: "''2026-01'' = month_text 24312" "''2026-02'' = month_text 24313"
  "''2026-03'' = month_text 24314"
  by (simp_all add: month_text_def pad_zero_def to_string_eval)

lemma sample_months [evaluate]:
  "next_month civil_chrono ''2026-01'' = Inr ''2026-02''"
  "next_month civil_chrono ''2026-02'' = Inr ''2026-03''"
  "month_date civil_chrono ''2026-01'' = Inr (days_from_civil 2026 1 1)"
  "month_date civil_chrono ''2026-02'' = Inr (days_from_civil 2026 2 1)"
  using next_month_text [of 24312] next_month_text [of 24313] parse_month_text [of 24312] parse_month_text [of 24313]
  by (simp_all add: sample_month_texts)

lemma civil_sample_month: "civil_month ''2026-01''" "civil_month ''2026-02''"
  unfolding civil_month_def
  by (rule exI [of _ 24312], simp add: sample_month_texts) (rule exI [of _ 24313], simp add: sample_month_texts)

declare while_months.simps [evaluate]

declare first_month_def [evaluate] earlier_def [evaluate] history_months_def [evaluate] snapshot_months_def [evaluate]
  opening_balances_def [evaluate] bt_collect_def [evaluate] history_month_def [evaluate] history_categories_def [evaluate]
  open_category_month_def [evaluate] carryover_of_def [evaluate] opening_of_def [evaluate] category_entries_def [evaluate]
  charge_entry_def [evaluate] charge_valuation_def [evaluate] charge_reallocation_def [evaluate]
  category_movements_def [evaluate] ledger_allocation_def [evaluate] ledger_spending_def [evaluate]
  category_deltas_def [evaluate] apply_ledger_def [evaluate] apply_month_def [evaluate] month_components_def [evaluate]
  provisional_components_def [evaluate] unallocated_delta_def [evaluate] unallocated_category_def [evaluate]
  history_at_def [evaluate] Let_def [evaluate]

lemma month_before_sample: "month_before civil_chrono ''2026-02'' = Inr ''2026-01''"
  using previous_month_text [of 24312] by (simp add: sample_month_texts)

text \<open>The history of the sample.\<close>

lemma sample_history:
  obtains a b ea ra eb rb where "history_at sample_platform sample_db ''2026-02'' ''2026-02'' = Some (Inr [a, b])"
    "bm_month a = ''2026-01''" "bm_month b = ''2026-02''" "bm_status a = ''open''" "bm_status b = ''open''"
    "bm_categories a = ea # ra" "bm_categories b = eb # rb" "bc_id ea = ''food''" "bc_id eb = ''food''"
    "bc_id (last ra) = UNALLOCATED" "last ra \<in> set ra"
proof -
  have "\<exists>a b ea ra eb rb. history_at sample_platform sample_db ''2026-02'' ''2026-02'' = Some (Inr [a, b])
    \<and> bm_month a = ''2026-01'' \<and> bm_month b = ''2026-02'' \<and> bm_status a = ''open'' \<and> bm_status b = ''open''
    \<and> bm_categories a = ea # ra \<and> bm_categories b = eb # rb \<and> bc_id ea = ''food'' \<and> bc_id eb = ''food''
    \<and> bc_id (last ra) = UNALLOCATED \<and> last ra \<in> set ra"
    by (simp add: evaluate)
  then show ?thesis using that by blast
qed

lemma sample_distinct: "distinct (map cat_id (categories_table sample_db))"
  by (simp add: evaluate)

lemma sample_categories: "categories_table sample_db \<noteq> []" "closures_table sample_db = []" "start sample_db = Some ''2026-01''"
  by (simp_all add: evaluate)

end
