(* ===== verification/LedgerProperties.thy ===== *)
theory LedgerProperties
  imports Samples
begin

text \<open>
  The properties of the plan ledger (\<open>budget_ledger.rs\<close>): movements, synchronisation,
  expected income and receipts, each applied to the sample household.
\<close>

section \<open>Movements\<close>

text \<open>
  C12: A movement reconciles its source: afterwards the recorded amounts of the source add up
  exactly to the wanted effect, every other source has the total it had, and at most one row
  was appended to the ledger.
\<close>

theorem movement_settles:
  assumes "movement db m c k key w operation = Inr db'"
  shows "(\<forall>m' c' k' key'. source_total db' m' c' k' key' =
      (if (m', c', k', key') = (m, c, k, key) then text_value w else source_total db m' c' k' key'))
    \<and> (\<exists>new. movements_table db' = movements_table db @ new \<and> length new \<le> 1)"
proof -
  have "\<exists>new. movements_table db' = movements_table db @ new \<and> length new \<le> 1"
    using assms by (rule movement_E) (auto simp: insert_movement_def split: if_splits)
  with movement_total [OF assms] show ?thesis by blast
qed

theorem movement_settles_witness:
  "\<exists>db'. movement sample_db ''2026-01'' ''food'' ''spending'' ''transaction:t1'' (whole (- 25)) None = Inr db'
     \<and> source_total db' ''2026-01'' ''food'' ''spending'' ''transaction:t1'' = - 25"
proof -
  have "\<exists>db'. movement sample_db ''2026-01'' ''food'' ''spending'' ''transaction:t1'' (whole (- 25)) None = Inr db'"
    by (simp add: evaluate)
  then show ?thesis using movement_settles by fastforce
qed

text \<open>
  Synchronising a source twice is the same as synchronising it once: a repeated movement
  finds nothing to correct and returns the database unchanged.
\<close>

theorem movement_idempotent:
  assumes "movement db m c k key w operation = Inr db'"
  shows "movement db' m c k key w operation' = Inr db'"
  using assms by (rule movement_again)

theorem movement_idempotent_witness:
  "\<exists>db'. movement sample_db ''2026-01'' ''food'' ''spending'' ''transaction:t1'' (whole (- 25)) None = Inr db'
     \<and> db' \<noteq> sample_db
     \<and> movement db' ''2026-01'' ''food'' ''spending'' ''transaction:t1'' (whole (- 25)) (Some ''again'') = Inr db'"
proof -
  have "\<exists>db'. movement sample_db ''2026-01'' ''food'' ''spending'' ''transaction:t1'' (whole (- 25)) None = Inr db'
     \<and> movements_table db' \<noteq> movements_table sample_db"
    by (simp add: evaluate)
  then show ?thesis using movement_idempotent by blast
qed

section \<open>Synchronisation\<close>

text \<open>
  C7: The ledger is append-only and closed months are frozen: a synchronisation keeps every
  existing movement in place, adds only nonzero amounts to open months, leaves the movements of
  a closed month exactly as they were, and touches no transaction, receipt or closure.
\<close>

theorem sync_append_only:
  assumes "sync P db operation = Some (Inr db')"
  shows "(\<exists>new. movements_table db' = movements_table db @ new
       \<and> (\<forall>r\<in>set new. \<not> month_closed db (mov_month r) \<and> mov_amount r \<noteq> ''0''))
    \<and> (\<forall>m. month_closed db m \<longrightarrow> filter (\<lambda>r. mov_month r = m) (movements_table db')
         = filter (\<lambda>r. mov_month r = m) (movements_table db))
    \<and> transactions_table db' = transactions_table db \<and> receipts_table db' = receipts_table db
    \<and> closures_table db' = closures_table db"
proof -
  have g: "grows_to db db'" using assms by (rule sync_grows)
  then have "\<exists>new. movements_table db' = movements_table db @ new
       \<and> (\<forall>r\<in>set new. \<not> month_closed db (mov_month r) \<and> mov_amount r \<noteq> ''0'')"
    by (auto simp: grows_to_def)
  moreover have "month_closed db m \<Longrightarrow> filter (\<lambda>r. mov_month r = m) (movements_table db')
         = filter (\<lambda>r. mov_month r = m) (movements_table db)" for m
    using sync.closed_movements_kept [of P db operation db' m] assms by simp
  ultimately show ?thesis using grows_to_tables [OF g] by blast
qed

theorem sync_append_only_witness:
  "\<exists>db'. sync sample_platform sample_db None = Some (Inr db') \<and> movements_table db' \<noteq> []
     \<and> transactions_table db' = transactions_table sample_db"
proof -
  have "\<exists>db'. sync sample_platform sample_db None = Some (Inr db') \<and> movements_table db' \<noteq> []"
    by (simp add: evaluate)
  then show ?thesis using sync_append_only by blast
qed

text \<open>
  C14: After synchronising a month, what the ledger holds under a transaction's key, in any
  category and kind, is the effect of that transaction as it is now: edited transactions are
  corrected by differences and transactions that left the month are taken back to zero.
\<close>

theorem sync_transactions_mirror:
  assumes "sync_transactions db m operation = Inr db'" and "distinct (map tx_id (transactions_table db))"
  shows "source_total db' m c k (transaction_key i)
    = sum_list (map (\<lambda>t. effect_on (c, k, transaction_key i) (transaction_effects db t)) (transactions_in db m))"
  using assms by (rule sync_transactions_total)

theorem sync_transactions_mirror_witness:
  "\<exists>db'. sync_transactions sample_db ''2026-01'' None = Inr db'
     \<and> source_total db' ''2026-01'' ''food'' ''spending'' (transaction_key ''t1'') = - 25"
proof -
  have "\<exists>db'. sync_transactions sample_db ''2026-01'' None = Inr db'"
    by (simp add: evaluate)
  then obtain db' where db': "sync_transactions sample_db ''2026-01'' None = Inr db'" by blast
  have "distinct (map tx_id (transactions_table sample_db))" by (simp add: evaluate)
  from sync_transactions_mirror [OF db' this, of "''food''" "''spending''" "''t1''"] db' show ?thesis
    by (simp add: transaction_effects_def side_effects_def evaluate)
qed

text \<open>
  C13: Allocating a month neither creates nor destroys money: the allocations recorded for the
  real categories are the base amounts in force, and Unallocated is debited with exactly their
  total.
\<close>

theorem allocations_balance:
  assumes "sync_allocations db m operation = Inr db'" and "distinct (map cat_id (categories_table db))"
  shows "(\<forall>c\<in>set (allocated_categories db). source_total db' m (cat_id c) ''allocation'' (allocation_key m (cat_id c))
       = text_value (the (base_monthly db (cat_id c) m)))
    \<and> sum_list (map (\<lambda>c. source_total db' m (cat_id c) ''allocation'' (allocation_key m (cat_id c))) (allocated_categories db))
       + source_total db' m UNALLOCATED ''allocation'' (allocations_key m) = 0"
proof -
  note totals = sync_allocations_total [OF assms]
  have "map (\<lambda>c. source_total db' m (cat_id c) ''allocation'' (allocation_key m (cat_id c))) (allocated_categories db)
      = map (\<lambda>c. text_value (the (base_monthly db (cat_id c) m))) (allocated_categories db)"
    using totals(1) by simp
  then have "sum_list (map (\<lambda>c. source_total db' m (cat_id c) ''allocation'' (allocation_key m (cat_id c))) (allocated_categories db))
      = - source_total db' m UNALLOCATED ''allocation'' (allocations_key m)"
    by (simp only: totals(2) minus_minus)
  with totals(1) show ?thesis by simp
qed

theorem allocations_balance_witness:
  "\<exists>db'. sync_allocations sample_db ''2026-01'' None = Inr db'
     \<and> source_total db' ''2026-01'' ''food'' ''allocation'' (allocation_key ''2026-01'' ''food'')
       + source_total db' ''2026-01'' UNALLOCATED ''allocation'' (allocations_key ''2026-01'') = 0"
proof -
  have "\<exists>db'. sync_allocations sample_db ''2026-01'' None = Inr db'" by (simp add: evaluate)
  moreover have "distinct (map cat_id (categories_table sample_db))" by (simp add: evaluate)
  moreover have "map cat_id (allocated_categories sample_db) = [''food'']" by (simp add: evaluate)
  ultimately show ?thesis using allocations_balance by (fastforce simp: map_eq_Cons_conv)
qed

text \<open>
  C8: A synchronisation establishes the ledger's contract: every open month from the
  activation to the current month is recorded exactly as the plan and the facts say (its
  funding, the allocation of each category, the counter-entry of Unallocated, and the effect of
  every transaction), whatever was recorded before.
\<close>

theorem sync_establishes:
  assumes "sync P db operation = Some (Inr db')" and "calendar P = civil_chrono"
    and "start db = Some s" and "civil_month s" and "civil_month (this_month P)" and "this_month P < ''9999-12''"
    and "civil_month m" and "s \<le> m" and "m \<le> this_month P" and "\<not> month_closed db m"
    and "distinct (map cat_id (categories_table db))" and "distinct (map tx_id (transactions_table db))"
  shows "month_synced db' m"
  using civil.sync_synced [OF assms(2-6,1,7-12)] .

theorem sync_establishes_witness:
  "\<exists>db'. sync sample_platform sample_db None = Some (Inr db') \<and> month_synced db' ''2026-01''"
proof -
  have "\<exists>db'. sync sample_platform sample_db None = Some (Inr db')" by (simp add: evaluate)
  then obtain db' where db': "sync sample_platform sample_db None = Some (Inr db')" by blast
  have m: "civil_month ''2026-01''"
    by (rule civil_sample_month)
  have facts: "calendar sample_platform = civil_chrono" "start sample_db = Some ''2026-01''"
    "this_month sample_platform = ''2026-01''" "\<not> month_closed sample_db ''2026-01''"
    "distinct (map cat_id (categories_table sample_db))" "distinct (map tx_id (transactions_table sample_db))"
    by (simp_all add: evaluate)
  have "month_synced db' ''2026-01''"
    using sync_establishes [OF db' facts(1,2) m _ _ m _ _ facts(4-6)] m unfolding facts(3) by simp
  with db' show ?thesis by blast
qed

text \<open>
  C29: Synchronisation always returns: with a calendar whose months follow one another, the
  month loop from the activation through the current month ends, with a database or an error.
\<close>

theorem sync_returns:
  assumes "calendar P = civil_chrono" and "\<forall>s. start db = Some s \<longrightarrow> civil_month s"
    and "civil_month (this_month P)" and "this_month P < ''9999-12''"
  shows "\<exists>r. sync P db operation = Some r"
proof (cases "start db")
  case None
  then show ?thesis by (simp add: sync_def)
next
  case (Some s)
  with assms(2) have "civil_month s" by simp
  from civil.while_months_fold [OF \<open>civil_month s\<close> assms(3,4)] obtain ms where
    "\<And>body (d :: db). while_months civil_chrono body s (this_month P) d = Some (fold_result body d ms)" by blast
  then obtain r where "while_months civil_chrono (sync_month operation) s (this_month P) db = Some r" by blast
  with Some assms(1) show ?thesis by (cases r) (simp_all add: sync_def)
qed

theorem sync_returns_witness: "\<exists>r. sync sample_platform sample_db (Some ''op'') = Some r"
proof (rule sync_returns)
  have "civil_month ''2026-01''"
    by (rule civil_sample_month)
  then show "\<forall>s. start sample_db = Some s \<longrightarrow> civil_month s" "civil_month (this_month sample_platform)"
    by (simp_all add: evaluate)
qed (simp_all add: evaluate)

section \<open>Expected income and receipts\<close>

text \<open>
  The income still expected from a plan: nothing once it is completed, and otherwise its
  EUR amount in proportion to the part of the native amount not yet received, to half a cent;
  the received amounts are the exact sums over the matched receipts, and income received in
  excess never makes the expectation negative.
\<close>

theorem income_outstanding:
  assumes "income db m through = Inr (Some e)"
  shows "\<exists>row rs. plan_income_of db m = Some row
    \<and> matched_receipts db m through (plan_amount row) (plan_currency row) (plan_amount_eur row) = Inr rs
    \<and> text_value (ei_received_eur e) = sum_list (map (\<lambda>r. text_value (mr_actual_eur r)) rs)
    \<and> text_value (ei_received_amount e) = sum_list (map (\<lambda>r. text_value (mr_native r)) rs)
    \<and> (if completed_by row through \<or> plan_amount row = ''0'' then ei_outstanding_eur e = ''0''
       else 200 * \<bar>text_value (ei_outstanding_eur e)
         - max 0 (text_value (plan_amount row) - text_value (ei_received_amount e))
           * text_value (plan_amount_eur row) / text_value (plan_amount row)\<bar> \<le> 1)"
  using assms by (rule income_values) blast

theorem income_outstanding_witness:
  "\<exists>db' e. ensure_income sample_db ''2026-01'' = Inr db' \<and> income db' ''2026-01'' ''2026-01'' = Inr (Some e)
     \<and> text_value (ei_received_eur e) = 0"
proof -
  define db' where "db' = sample_db\<lparr>plan_income_table := [\<lparr>plan_month = ''2026-01'', plan_amount = whole 2000,
     plan_currency = ''EUR'', plan_amount_eur = whole 2000, plan_arrival_day = 7, plan_completed_month = None,
     plan_shortfall = None\<rparr>]\<rparr>"
  have 1: "ensure_income sample_db ''2026-01'' = Inr db'" by (simp add: db'_def evaluate)
  have none: "receipts_table db' = []" by (simp add: db'_def evaluate)
  have "outstanding_of (hd (plan_income_table db')) ''0'' ''2026-01'' = Inr (whole 2000)"
    by (simp add: outstanding_of_def completed_by_def db'_def funding_portion_def zero_whole sub_whole positive_whole
        proportional_whole)
  then have "\<exists>e. income db' ''2026-01'' ''2026-01'' = Inr (Some e) \<and> ei_received_eur e = ''0''"
    using none by (auto simp: income_def matched_receipts_def receipt_joins_def db'_def plan_income_of_def first_row_def)
  with 1 show ?thesis using income_outstanding by (fastforce simp: money.zero_val)
qed

text \<open>
  Recording a receipt. Unless the ledger is inactive or the transaction is not income, the
  receipt says how the income counts: a salary settles exactly one month, which has a plan, lies
  between the activation and the month of receipt and is not already completed (except by the
  receipt being edited), and unexpected income and refunds settle none. The receipts of other
  transactions are untouched.
\<close>

theorem receipt_recorded:
  assumes "receipt db i treatment expected = Inr db'" and "start db \<noteq> None"
    and "first_row (filter (\<lambda>t. tx_id t = i) (transactions_table db)) = Some t" and "tx_kind t = ''income''"
    and "treatment \<noteq> None \<or> expected \<noteq> None" and "distinct (map rec_transaction (receipts_table db))"
  shows "\<exists>r. filter (\<lambda>r. rec_transaction r = i) (receipts_table db') = [r]
      \<and> rec_treatment r = unwrap_or treatment ''salary''
      \<and> (if rec_treatment r = ''salary''
         then \<exists>target s p. rec_expected_month r = Some target \<and> target = unwrap_or expected (take 7 (tx_date t))
           \<and> start db = Some s \<and> s \<le> target \<and> target \<le> take 7 (tx_date t) \<and> plan_income_of db' target = Some p
           \<and> (plan_completed_month p = None \<or> (\<exists>old\<in>set (receipts_table db). rec_transaction old = i
                \<and> rec_treatment old = ''salary'' \<and> rec_expected_month old = Some target))
         else rec_expected_month r = None \<and> rec_treatment r \<in> {''unexpected'', ''refund''})
      \<and> (\<forall>j. j \<noteq> i \<longrightarrow> filter (\<lambda>r. rec_transaction r = j) (receipts_table db')
           = filter (\<lambda>r. rec_transaction r = j) (receipts_table db))"
proof -
  let ?tr = "unwrap_or treatment ''salary''" and ?m = "take 7 (tx_date t)"
  let ?old = "first_row (filter (\<lambda>r. rec_transaction r = i) (receipts_table db))"
  from assms have "record_receipt db i ?m ?tr expected ?old = Inr db'"
    by (auto simp: receipt_def Let_def)
  then obtain d matching where tr: "?tr \<in> {''salary'', ''unexpected'', ''refund''}"
    and target: "receipt_target db ?m ?tr expected ?old = Inr (d, matching)"
    and db': "db' = d\<lparr>receipts_table := upsert_receipt
       \<lparr>rec_transaction = i, rec_treatment = ?tr, rec_expected_month = matching\<rparr> (receipts_table d)\<rparr>"
    by (rule record_receipt_E)
  have d: "receipts_table d = receipts_table db"
  proof (cases "?tr = ''salary''")
    case True
    with receipt_target_cases(2) [OF target] obtain k where "ensure_income db k = Inr d" by blast
    then show ?thesis by (simp add: grows_to_tables [OF ensure_income_grows])
  next
    case False
    with receipt_target_cases(1) [OF target] show ?thesis by simp
  qed
  have plan: "plan_income_of db' k = plan_income_of d k" for k by (simp add: db' plan_income_of_def)
  have old: "r \<in> set (receipts_table db) \<and> rec_transaction r = i" if "?old = Some r" for r
    using that by (rule first_row_filter)
  let ?r = "\<lparr>rec_transaction = i, rec_treatment = ?tr, rec_expected_month = matching\<rparr>"
  have "if ?tr = ''salary''
      then \<exists>target s p. matching = Some target \<and> target = unwrap_or expected ?m
           \<and> start db = Some s \<and> s \<le> target \<and> target \<le> ?m \<and> plan_income_of db' target = Some p
           \<and> (plan_completed_month p = None \<or> (\<exists>old\<in>set (receipts_table db). rec_transaction old = i
                \<and> rec_treatment old = ''salary'' \<and> rec_expected_month old = Some target))
      else matching = None \<and> ?tr \<in> {''unexpected'', ''refund''}"
  proof (cases "?tr = ''salary''")
    case True
    with receipt_target_cases(2) [OF target] plan old show ?thesis by (simp only: if_True) metis
  next
    case False
    with receipt_target_cases(1) [OF target] tr show ?thesis by auto
  qed
  moreover have "filter (\<lambda>r. rec_transaction r = i) (receipts_table db') = [?r]"
    using upsert_receipt_same [OF assms(6), of ?r] by (simp add: db' d)
  moreover have "filter (\<lambda>r. rec_transaction r = j) (receipts_table db')
           = filter (\<lambda>r. rec_transaction r = j) (receipts_table db)" if "j \<noteq> i" for j
    using upsert_receipt_other [of ?r j "receipts_table db"] that by (simp add: db' d)
  ultimately show ?thesis
    by (intro exI [of _ ?r] conjI allI impI) (simp_all only: receipt_row.simps)
qed

theorem receipt_recorded_witness:
  "\<exists>db db' p r. receipt db ''t2'' (Some ''salary'') None = Inr db'
     \<and> filter (\<lambda>r. rec_transaction r = ''t2'') (receipts_table db') = [r] \<and> rec_expected_month r = Some ''2026-01''
     \<and> plan_income_of db' ''2026-01'' = Some p"
proof -
  let ?t = "\<lparr>tx_id = ''t2'', tx_kind = ''income'', tx_date = ''2026-01-12'', tx_amount = whole 1500,
       tx_input_currency = Some ''EUR'', tx_from_category = None, tx_to_category = None,
       tx_from_account = None, tx_to_account = Some ''bank'',
       tx_description = '''', tx_to_amount = None, tx_to_currency = None, tx_currency_override = False,
       tx_to_amount_override = False, tx_created_at = None, tx_created_by = None, tx_revision = 1,
       tx_workbook = ''canonical-live'', tx_sheet = ''Transactions'', tx_source_row = 2, tx_fingerprint = '''',
       tx_source_json = '''', tx_occurred_at = None\<rparr>"
  let ?db = "sample_db\<lparr>transactions_table := [?t]\<rparr>"
  have run: "\<exists>db'. receipt ?db ''t2'' (Some ''salary'') None = Inr db'"
    by (simp add: evaluate receipt_def record_receipt_def receipt_target_def income_def outstanding_of_def
        completed_by_def funding_portion_def positive_whole proportional_whole [of 2000 2000 2000 2000])
  then obtain db' where r: "receipt ?db ''t2'' (Some ''salary'') None = Inr db'" by blast
  from receipt_recorded [OF r, where t = ?t] show ?thesis
    using r by (fastforce simp: evaluate)
qed

end
