(* ===== verification/BudgetProperties.thy ===== *)
theory BudgetProperties
  imports LedgerProperties
begin

text \<open>
  The properties of the monthly budgets (\<open>budget.rs\<close>) and of the views of the ledger
  (\<open>apply\<close>, \<open>cash\<close> and \<open>coverage\<close> of \<open>budget_ledger.rs\<close>), applied to the sample household.
\<close>

section \<open>The monthly budgets\<close>

text \<open>
  C9: The budget identity. In every open month of a calculated history, each category (the
  Unallocated one included) has all its amounts, what is available is the carryover plus the
  month's allocation plus the adjustments, and what remains is that less the net spending; for
  an ordinary category the adjustment is what reallocations brought in less the corrections,
  and the legacy expense is the net spending including the corrections. All equations are
  exact.
\<close>

theorem history_budget_identity:
  assumes "history_at P db through calendar_month = Some (Inr h)" and "distinct (map cat_id (categories_table db))"
    and "bm \<in> set h" and "bm_status bm = ''open''" and "c \<in> set (bm_categories bm)"
  shows "balanced c"
  using assms(1,2)
proof (rule history_at_published)
  fix first
  assume pub: "\<And>k. k < length h \<Longrightarrow> published_month P db first calendar_month (take k h) (h ! k)"
  from assms(3) obtain k where "k < length h" "h ! k = bm" by (auto simp: in_set_conv_nth)
  with pub [of k] assms(4,5) show ?thesis by (auto simp: published_month_def split: option.splits if_splits)
qed

theorem history_budget_identity_witness:
  "\<exists>a b c. history_at sample_platform sample_db ''2026-02'' ''2026-02'' = Some (Inr [a, b])
     \<and> c \<in> set (bm_categories a) \<and> bc_id c = ''food'' \<and> balanced c"
proof (rule sample_history)
  fix a b ea ra eb rb
  assume h: "history_at sample_platform sample_db ''2026-02'' ''2026-02'' = Some (Inr [a, b])"
    and e: "bm_status a = ''open''" "bm_categories a = ea # ra" "bc_id ea = ''food''"
  have "balanced ea" by (rule history_budget_identity [OF h sample_distinct, of a]) (simp_all add: e)
  with h e show ?thesis by (intro exI [of _ a] exI [of _ b] exI [of _ ea]) simp
qed

text \<open>
  C10: Carryover chains the months. Of an ordinary category in an open month, the carryover is
  the verified opening in the first canonical month (or the imported balance of the month
  before it), and in every later month exactly the last remaining balance stated for the
  category by the months before, whether calculated or frozen, starting from its opening.
\<close>

theorem history_carryover:
  assumes "history_at P db through calendar_month = Some (Inr h)" and "distinct (map cat_id (categories_table db))"
    and "k < length h" and "bm_status (h ! k) = ''open''" and "c \<in> set (bm_categories (h ! k))" and "bc_id c \<noteq> UNALLOCATED"
  shows "\<exists>f. first_month P db = Inr (Some f) \<and> f \<le> bm_month (h ! k) \<and> bc_carryover c \<noteq> None
    \<and> (if bm_month (h ! k) = f
       then carryover_of P db f [] f (bc_id c) = Inr (bc_carryover c)
       else bc_carryover c = latest_remaining (bt_get (opening_balances db (Some f)) (bc_id c)) (bc_id c)
         (concat (map bm_categories (take k h))))"
  using assms(1,2)
proof (rule history_at_published)
  fix first
  assume first: "first_month P db = Inr first" and pub: "\<And>k. k < length h \<Longrightarrow> published_month P db first calendar_month (take k h) (h ! k)"
  from pub [OF assms(3)] assms(4-6) have *: "dynamic first (bm_month (h ! k))" "balanced c"
    "if first = Some (bm_month (h ! k))
     then carryover_of P db (bm_month (h ! k)) [] (bm_month (h ! k)) (bc_id c) = Inr (bc_carryover c)
     else bc_carryover c = latest_remaining (bt_get (opening_balances db first) (bc_id c)) (bc_id c)
       (concat (map bm_categories (take k h)))"
    by (auto simp: published_month_def split: option.splits if_splits)
  then obtain f where f: "first = Some f" "f \<le> bm_month (h ! k)" by (cases first) (auto simp: dynamic_def)
  have "bc_carryover c \<noteq> None" using *(2) by (cases "bc_carryover c") (auto simp: balanced_def)
  with f *(3) first show ?thesis by (intro exI [of _ f]) (auto split: if_splits)
qed

theorem history_carryover_witness:
  "\<exists>a b c. history_at sample_platform sample_db ''2026-02'' ''2026-02'' = Some (Inr [a, b])
     \<and> c \<in> set (bm_categories b) \<and> bc_id c = ''food''
     \<and> bc_carryover c = latest_remaining (bt_get (opening_balances sample_db (Some ''2026-01'')) ''food'') ''food'' (bm_categories a)"
proof (rule sample_history)
  fix a b ea ra eb rb
  assume h: "history_at sample_platform sample_db ''2026-02'' ''2026-02'' = Some (Inr [a, b])"
    and e: "bm_month b = ''2026-02''" "bm_status b = ''open''" "bm_categories b = eb # rb" "bc_id eb = ''food''"
  have "first_month sample_platform sample_db = Inr (Some ''2026-01'')" by (simp add: evaluate)
  with history_carryover [OF h sample_distinct, of 1 eb] e
  have "bc_carryover eb = latest_remaining (bt_get (opening_balances sample_db (Some ''2026-01'')) ''food'') ''food'' (bm_categories a)"
    by (simp add: UNALLOCATED_def)
  with h e show ?thesis by (intro exI [of _ a] exI [of _ b] exI [of _ eb]) simp
qed

text \<open>
  C11: Closed months are frozen. A closed month of the history is the snapshot stored when it was
  closed, category by category, whatever the facts say now: recomputation never reaches it, and
  its status is closed and final.
\<close>

theorem history_closed_frozen:
  assumes "history_at P db through calendar_month = Some (Inr h)" and "distinct (map cat_id (categories_table db))"
    and "bm \<in> set h"
  shows "case closure_of db (bm_month bm) of
      Some closure \<Rightarrow> bm_status bm = ''closed'' \<and> \<not> bm_provisional bm
        \<and> read_categories P (clo_snapshot closure) = Inr (bm_categories bm)
    | None \<Rightarrow> bm_status bm \<noteq> ''closed''"
  using assms by (rule history_at_closed)

definition closed_platform :: "int platform" where
  "closed_platform = sample_platform\<lparr>read_categories := (\<lambda>_. Inr
     [\<lparr>bc_id = ''food'', bc_name = ''Food'', bc_monthly = Some (whole 300), bc_expense = Some (whole 310),
       bc_remaining = Some (whole 30), bc_impact = None, bc_carryover = None, bc_adjustment = None,
       bc_available = None, bc_net_spending = None, bc_correction = None\<rparr>])\<rparr>"

definition closed_db :: db where
  "closed_db = sample_db\<lparr>closures_table := [\<lparr>clo_month = ''2026-01'', clo_snapshot = ''frozen'', clo_operation = ''op''\<rparr>]\<rparr>"

theorem history_closed_frozen_witness:
  "\<exists>a b. history_at closed_platform closed_db ''2026-02'' ''2026-02'' = Some (Inr [a, b])
     \<and> bm_status a = ''closed'' \<and> read_categories closed_platform ''frozen'' = Inr (bm_categories a)
     \<and> bm_status b \<noteq> ''closed''"
proof -
  have "\<exists>a b. history_at closed_platform closed_db ''2026-02'' ''2026-02'' = Some (Inr [a, b])
      \<and> bm_month a = ''2026-01'' \<and> bm_month b = ''2026-02''"
    by (simp add: evaluate closed_platform_def closed_db_def frozen_balances_def)
  then obtain a b where h: "history_at closed_platform closed_db ''2026-02'' ''2026-02'' = Some (Inr [a, b])"
    and m: "bm_month a = ''2026-01''" "bm_month b = ''2026-02''" by blast
  have d: "distinct (map cat_id (categories_table closed_db))" by (simp add: evaluate closed_db_def)
  have c: "closure_of closed_db ''2026-01'' = Some \<lparr>clo_month = ''2026-01'', clo_snapshot = ''frozen'', clo_operation = ''op''\<rparr>"
    "closure_of closed_db ''2026-02'' = None"
    by (simp_all add: closure_of_def closed_db_def first_row_def)
  from history_closed_frozen [OF h d, of a] history_closed_frozen [OF h d, of b] h show ?thesis
    by (simp add: m c)
qed

text \<open>
  Where the totals come from. Before the ledger's activation a category's net spending is
  what its transactions charged less what they credited in EUR and its impact is what
  reallocations moved out; from the activation on both are the negated sums of its recorded
  movements, and so is the allocation once the month has its plan. Corrections always add up
  from the recorded items.
\<close>

theorem history_totals:
  assumes "history_at P db through calendar_month = Some (Inr h)" and "distinct (map cat_id (categories_table db))"
    and "bm \<in> set h" and "bm_status bm = ''open''" and "c \<in> set (bm_categories bm)" and "bc_id c \<noteq> UNALLOCATED"
  shows "totals_of db (bm_month bm) c"
  using assms(1,2)
proof (rule history_at_published)
  fix first
  assume pub: "\<And>k. k < length h \<Longrightarrow> published_month P db first calendar_month (take k h) (h ! k)"
  from assms(3) obtain k where "k < length h" "h ! k = bm" by (auto simp: in_set_conv_nth)
  with pub [of k] assms(4-6) show ?thesis by (auto simp: published_month_def split: option.splits if_splits)
qed

theorem history_totals_witness:
  "\<exists>a b c. history_at sample_platform sample_db ''2026-02'' ''2026-02'' = Some (Inr [a, b])
     \<and> c \<in> set (bm_categories a) \<and> bc_id c = ''food'' \<and> totals_of sample_db ''2026-01'' c"
proof (rule sample_history)
  fix a b ea ra eb rb
  assume h: "history_at sample_platform sample_db ''2026-02'' ''2026-02'' = Some (Inr [a, b])"
    and e: "bm_month a = ''2026-01''" "bm_status a = ''open''" "bm_categories a = ea # ra" "bc_id ea = ''food''"
  have "totals_of sample_db (bm_month a) ea"
    by (rule history_totals [OF h sample_distinct]) (simp_all add: e UNALLOCATED_def)
  with h e show ?thesis by (intro exI [of _ a] exI [of _ b] exI [of _ ea]) simp
qed

text \<open>
  The months of a history. On the civil calendar they are strictly increasing and are
  exactly the imported snapshot months up to the last one together with every month from the
  first canonical month through the last one.
\<close>

theorem history_months_complete:
  assumes "history_at P db through calendar_month = Some (Inr h)" and "distinct (map cat_id (categories_table db))"
    and "calendar P = civil_chrono" and "\<forall>f. first_month P db = Inr (Some f) \<longrightarrow> civil_month f"
    and "civil_month through" and "through < ''9999-12''"
  shows "sorted_wrt (<) (map bm_month h)
    \<and> bm_month ` set h = {m \<in> snap_month ` set (snapshots_table db). m \<le> through}
      \<union> {m. \<exists>f. first_month P db = Inr (Some f) \<and> civil_month m \<and> f \<le> m \<and> m \<le> through}"
  using assms(1,2)
proof (rule history_at_published)
  fix first
  assume first: "first_month P db = Inr first" and ms: "history_months P db first through = Some (Inr (map bm_month h))"
  have "case first of None \<Rightarrow> True | Some f \<Rightarrow> civil_month f" using assms(4) first by (simp split: option.split)
  from civil.history_months_range [OF ms assms(3) this assms(5,6)] first show ?thesis by auto
qed

theorem history_months_complete_witness:
  "\<exists>a b. history_at sample_platform sample_db ''2026-02'' ''2026-02'' = Some (Inr [a, b])
     \<and> sorted_wrt (<) (map bm_month [a, b])"
proof (rule sample_history)
  fix a b ea ra eb rb
  assume h: "history_at sample_platform sample_db ''2026-02'' ''2026-02'' = Some (Inr [a, b])"
  have "first_month sample_platform sample_db = Inr (Some ''2026-01'')" "calendar sample_platform = civil_chrono"
    by (simp_all add: evaluate)
  with history_months_complete [OF h sample_distinct] civil_sample_month have "sorted_wrt (<) (map bm_month [a, b])" by simp
  with h show ?thesis by blast
qed

section \<open>The opening and the guards\<close>

text \<open>
  Transactions are accepted exactly in open months: the guard passes if and only if the
  month lies between the first canonical month and the current month and is not closed.
\<close>

theorem require_open_iff:
  assumes "first_month P db = Inr (Some first)" and "month_date (calendar P) m = Inr d"
  shows "require_open P db m = Inr () \<longleftrightarrow> first \<le> m \<and> m \<le> this_month P \<and> \<not> month_closed db m"
  using assms by (auto simp: require_open_def)

theorem require_open_iff_witness:
  "require_open sample_platform sample_db ''2026-01'' = Inr () \<and> require_open sample_platform sample_db ''2026-02'' \<noteq> Inr ()"
proof -
  have f: "first_month sample_platform sample_db = Inr (Some ''2026-01'')"
    and d: "month_date (calendar sample_platform) ''2026-01'' = Inr (days_from_civil 2026 1 1)"
      "month_date (calendar sample_platform) ''2026-02'' = Inr (days_from_civil 2026 2 1)"
    by (simp_all add: evaluate)
  have "this_month sample_platform = ''2026-01''" "\<not> month_closed sample_db ''2026-01''" by (simp_all add: evaluate)
  with require_open_iff [OF f d(1)] require_open_iff [OF f d(2)] show ?thesis by simp
qed

text \<open>
  The calculation of a history always returns: on the civil calendar the loop over the
  months ends, with the months or with an error. Future months are plans: beyond the calendar
  month the result is the refusal, whatever the database holds.
\<close>

theorem history_returns:
  assumes "calendar P = civil_chrono" and "\<forall>f. first_month P db = Inr (Some f) \<longrightarrow> civil_month f"
    and "civil_month through" and "civil_month calendar_month" and "through < ''9999-12''"
  shows "\<exists>r. history_at P db through calendar_month = Some r
    \<and> (calendar_month < through \<longrightarrow> r = Inl ''Future budget months are plans, not available balances.'')"
proof (cases "calendar_month < through")
  case True
  with assms(1,3,4) show ?thesis by (auto simp: history_at_def civil_month_def parse_month_text)
next
  case False
  have dates: "\<exists>d. month_date civil_chrono through = Inr d" "\<exists>d. month_date civil_chrono calendar_month = Inr d"
    using assms(3,4) by (auto simp: civil_month_def parse_month_text)
  show ?thesis
  proof (cases "first_month P db")
    case (Inl e)
    with dates False assms(1) show ?thesis by (auto simp: history_at_def)
  next
    case (Inr first)
    have "\<exists>ms. history_months P db first through = Some ms"
    proof (cases first)
      case None
      then show ?thesis by (simp add: history_months_def)
    next
      case (Some f)
      with assms(2) Inr have "civil_month f" by simp
      from civil.while_months_fold [OF this assms(3,5)] obtain xs where
        "\<And>body (s :: string list). while_months civil_chrono body f through s = Some (fold_result body s xs)" by blast
      then obtain r where "while_months civil_chrono (\<lambda>ms m. Inr (if m \<in> set ms then ms else ms @ [m])) f through
          (snapshot_months db through) = Some (r :: string list result)" by blast
      with Some assms(1) show ?thesis by (cases r) (simp_all add: history_months_def)
    qed
    then obtain ms where "history_months P db first through = Some ms" by blast
    with dates False Inr assms(1) show ?thesis by (cases ms) (auto simp: history_at_def)
  qed
qed

theorem history_returns_witness:
  "history_at sample_platform sample_db ''2026-02'' ''2026-01'' = Some (Inl ''Future budget months are plans, not available balances.'')"
proof -
  have "first_month sample_platform sample_db = Inr (Some ''2026-01'')" "calendar sample_platform = civil_chrono"
    by (simp_all add: evaluate)
  with history_returns [of sample_platform sample_db "''2026-02''" "''2026-01''"] civil_sample_month show ?thesis by simp
qed

text \<open>
  Openings are seeded once. Initialisation never changes or removes an opening, adds only
  openings for the first canonical month, each the imported remaining balance of the month
  before it, and never two for one category; when no category lacks one it changes nothing.
\<close>

theorem initialize_seeds:
  assumes "initialize P db = Inr db'" and "first_month P db = Inr (Some first)" and "month_before (calendar P) first = Inr prior"
  shows "\<exists>new. db' = db\<lparr>openings_table := openings_table db @ new\<rparr>
    \<and> (\<forall>o'\<in>set new. open_before_month o' = first
        \<and> (\<exists>s\<in>set (snapshots_table db). snap_month s = prior \<and> open_category o' = snap_category s
             \<and> snap_remaining s = Some (open_remaining o')))
    \<and> (distinct (map (\<lambda>o'. (open_category o', open_before_month o')) (openings_table db)) \<longrightarrow>
        distinct (map (\<lambda>o'. (open_category o', open_before_month o')) (openings_table db')))
    \<and> (opening_missing db first \<or> new = [])"
proof (cases "opening_missing db first")
  case False
  with assms show ?thesis by (intro exI [of _ "[]"]) (simp add: initialize_def)
next
  case True
  with assms have "fold_result (\<lambda>d s.
               and_then (ok_or (snap_remaining s) ''Imported opening balance unavailable'') (\<lambda>balance.
               Inr (d\<lparr>openings_table := insert_opening
                 \<lparr>open_category = snap_category s, open_before_month = first, open_remaining = balance,
                  open_verified_by = ''verified-canonical-import'', open_source = snap_source_cells s\<rparr>
                 (openings_table d)\<rparr>))) db (filter (\<lambda>s. snap_month s = prior
                  \<and> list_ex (\<lambda>c. cat_id c = snap_category s \<and> cat_is_real c) (categories_table db))
                 (snapshots_table db)) = Inr db'"
    by (simp add: initialize_def)
  from initialize_fold [OF this] True show ?thesis by (elim exE conjE) (rule exI, fastforce)
qed

definition imported_db :: db where
  "imported_db = sample_db\<lparr>openings_table := [], imports_table := [\<lparr>imp_manifest = ''2026-02'', imp_committed_at = ''t''\<rparr>],
     snapshots_table := [\<lparr>snap_category = ''food'', snap_month = ''2026-01'', snap_expense = Some (whole 10),
       snap_remaining = Some (whole 40), snap_impact = None, snap_source_cells = ''cells''\<rparr>]\<rparr>"

theorem initialize_seeds_witness:
  "\<exists>db'. initialize sample_platform imported_db = Inr db'
     \<and> (\<exists>new. db' = imported_db\<lparr>openings_table := openings_table imported_db @ new\<rparr>) \<and> openings_table db' \<noteq> []"
proof -
  have "\<exists>db'. initialize sample_platform imported_db = Inr db' \<and> openings_table db' \<noteq> []"
    by (simp add: initialize_def opening_missing_def insert_opening_def month_before_sample imported_db_def evaluate)
  moreover have "first_month sample_platform imported_db = Inr (Some ''2026-02'')"
    by (simp add: imported_db_def evaluate)
  moreover have "month_before (calendar sample_platform) ''2026-02'' = Inr ''2026-01''"
    by (simp add: sample_platform_def month_before_sample)
  ultimately show ?thesis using initialize_seeds by blast
qed

section \<open>The views of the ledger\<close>

text \<open>
  C15: The Unallocated chain. From the activation on, every open month gets exactly one
  Unallocated entry: it carries over the last stated Unallocated balance (the opening of the
  ledger, or the frozen one of a closed month), and remains at that plus the month's movements
  of Unallocated whenever the month has its funding. Closed and earlier months are left alone.
\<close>

theorem unallocated_chain:
  assumes "apply_ledger db hist = Inr h" and "ledger_tables_exist db" and "ledger_state_table db = Some st"
    and "\<forall>bm\<in>set hist. bm_status bm \<noteq> ''closed'' \<longrightarrow> UNALLOCATED \<notin> bc_id ` set (bm_categories bm)"
    and "k < length hist"
  shows "length h = length hist
    \<and> (if bm_month (hist ! k) < st_start_month st \<or> bm_status (hist ! k) = ''closed'' then h ! k = hist ! k
       else \<exists>u. bm_categories (h ! k) = bm_categories (hist ! k) @ [u] \<and> bc_id u = UNALLOCATED
         \<and> bc_carryover u = Some (unallocated_after (st_start_month st) (st_opening_unallocated st) (take k h))
         \<and> field (bc_remaining u) = field (bc_carryover u) + field (bc_adjustment u)
         \<and> ((\<exists>r\<in>set (month_movements db (bm_month (hist ! k))). mov_category r = UNALLOCATED \<and> mov_kind r = ''funding'')
            \<longrightarrow> field (bc_adjustment u) = sum_list (map (\<lambda>r. if mov_category r = UNALLOCATED
                  then text_value (mov_amount r) else 0) (month_movements db (bm_month (hist ! k))))))"
proof -
  have no_u: "\<And>bm. bm \<in> set hist \<Longrightarrow> bm_status bm \<noteq> ''closed'' \<Longrightarrow> UNALLOCATED \<notin> bc_id ` set (bm_categories bm)"
    using assms(4) by blast
  from assms(1) no_u show ?thesis
  proof (rule apply_ledger_cases)
    assume "start db = None"
    with assms(2,3) show ?thesis by (simp add: start_def)
  next
    fix st'
    assume "ledger_state_table db = Some st'" and len: "length h = length hist"
      and each: "\<And>k. k < length hist \<Longrightarrow> applied db (st_start_month st')
        (unallocated_after (st_start_month st') (st_opening_unallocated st') (take k h)) (hist ! k) (h ! k)"
    then have "st' = st" using assms(3) by simp
    with each [OF assms(5)] have a: "applied db (st_start_month st)
        (unallocated_after (st_start_month st) (st_opening_unallocated st) (take k h)) (hist ! k) (h ! k)" by simp
    show ?thesis
    proof (cases "bm_month (hist ! k) < st_start_month st \<or> bm_status (hist ! k) = ''closed''")
      case True
      with a len show ?thesis by (auto simp: applied_def)
    next
      case False
      with a len show ?thesis by (auto simp: applied_def unallocated_category_def)
    qed
  qed
qed

theorem unallocated_chain_witness:
  "\<exists>h u. apply_ledger sample_db [\<lparr>bm_month = ''2026-01'', bm_categories = [], bm_status = ''open'', bm_provisional = False\<rparr>] = Inr h
     \<and> bm_categories (h ! 0) = [u] \<and> bc_id u = UNALLOCATED \<and> bc_carryover u = Some (whole 100)"
proof -
  let ?hist = "[\<lparr>bm_month = ''2026-01'', bm_categories = [] :: budget_category list, bm_status = ''open'', bm_provisional = False\<rparr>]"
  have "\<exists>h. apply_ledger sample_db ?hist = Inr h" by (simp add: evaluate)
  then obtain h where h: "apply_ledger sample_db ?hist = Inr h" by blast
  have st: "ledger_tables_exist sample_db" "ledger_state_table sample_db = Some \<lparr>st_start_month = ''2026-01'', st_opening_unallocated = whole 100\<rparr>"
    by (simp_all add: evaluate)
  from unallocated_chain [OF h st, of 0] h show ?thesis by (auto simp: unallocated_after_def)
qed

text \<open>
  C16: The coverage view. The assigned budgets are the exact sum of what remains in the ordinary
  categories, the outstanding income is the exact sum over the plans up to the month in order;
  the current gap is cash less the assigned budgets, so a negative Unallocated cannot hide it,
  and the projected gap adds the outstanding income.
\<close>

theorem coverage_gaps:
  assumes "coverage P db m cats = Inr (Some r)" and "\<not> cov_frozen r"
  shows "text_value (cov_assigned_remaining r)
      = sum_list (map (\<lambda>c. text_value (the (bc_remaining c))) (filter (\<lambda>c. bc_id c \<noteq> UNALLOCATED) cats))
    \<and> text_value (cov_outstanding r) = sum_list (map (\<lambda>e. text_value (ei_outstanding_eur e)) (cov_expectations r))
    \<and> map ei_month (cov_expectations r) = sort_key id (map plan_month (filter (\<lambda>p. plan_month p \<le> m) (plan_income_table db)))
    \<and> text_value (cov_current_gap r) = text_value (cov_actual_cash r) - text_value (cov_assigned_remaining r)
    \<and> text_value (cov_projected_gap r) = text_value (cov_current_gap r) + text_value (cov_outstanding r)"
  using assms
proof (rule coverage_E)
  assume "coverage_balances cats = Inr (cov_assigned_remaining r, cov_unallocated r)"
    "coverage_expectations db m = Inr (cov_outstanding r, cov_expectations r)"
    "subtract_decimal_text (cov_actual_cash r) (cov_assigned_remaining r) = Inr (cov_current_gap r)"
    "add_decimal_text (cov_current_gap r) (cov_outstanding r) = Inr (cov_projected_gap r)"
  then show ?thesis
    using coverage_balances_value coverage_expectations_value money.sub_val money.add_val by blast
qed

theorem coverage_gaps_witness:
  "\<exists>r. coverage sample_platform sample_db ''2026-01'' [] = Inr (Some r) \<and> text_value (cov_current_gap r)
     = text_value (cov_actual_cash r) - text_value (cov_assigned_remaining r) \<and> text_value (cov_actual_cash r) = 500"
proof -
  have "\<exists>r. coverage sample_platform sample_db ''2026-01'' [] = Inr (Some r) \<and> \<not> cov_frozen r \<and> cov_actual_cash r = whole 500"
    by (simp add: coverage_def coverage_date_def cash_def account_balance_at_def coverage_balances_def
        coverage_expectations_def evaluate)
  then show ?thesis using coverage_gaps by fastforce
qed

text \<open>
  The balance of an account at a date is its current balance with every later transaction
  undone exactly: what left the account after the date is added back and what entered it is
  taken out, in the account's own currency.
\<close>

theorem account_balance_undone:
  assumes "account_balance_at db date a = Inr b"
  shows "\<exists>s. acc_native_balance a = Some s \<and> text_value b = text_value s + sum_list (map (undone db (acc_id a))
    (filter (\<lambda>t. date < tx_date t \<and> (tx_from_account t = Some (acc_id a) \<or> tx_to_account t = Some (acc_id a)))
      (transactions_table db)))"
  using assms by (rule account_balance_at_value)

theorem account_balance_undone_witness:
  "\<exists>b. account_balance_at sample_db ''2026-01-01'' (hd (accounts_table sample_db)) = Inr b \<and> text_value b = 525"
proof -
  have "\<exists>b. account_balance_at sample_db ''2026-01-01'' (hd (accounts_table sample_db)) = Inr b"
    by (simp add: account_balance_at_def undo_transaction_def evaluate)
  then obtain b where b: "account_balance_at sample_db ''2026-01-01'' (hd (accounts_table sample_db)) = Inr b" by blast
  from account_balance_undone [OF b] b show ?thesis by (simp add: undone_def evaluate)
qed

end
