(* ===== verification/MoneyProperties.thy ===== *)
theory MoneyProperties
  imports Valuation
begin

text \<open>
  The properties of the money and date arithmetic of \<open>finance_model.rs\<close>.
\<close>

section \<open>Decimal texts\<close>

text \<open>
  C25: Decimal texts round-trip and are canonical. What was parsed prints to a text that parses
  to the same decimal, and two accepted texts print alike exactly when they denote the same
  rational number, so amounts can be compared as strings.
\<close>

theorem decimal_text_roundtrip:
  assumes "decimal_parse s = Inr a" and "decimal_parse t = Inr b"
  shows "decimal_parse (decimal_format a) = Inr a
    \<and> (decimal_format a = decimal_format b \<longleftrightarrow> dec_value a = dec_value b)"
proof -
  have c: "canonical a" "canonical b" using assms by (auto dest: parse_canonical)
  then have "decimal_format a = decimal_format b \<longleftrightarrow> dec_value a = dec_value b"
    by (auto simp: format_inject dest: canonical_unique)
  with c show ?thesis by (simp add: parse_format)
qed

theorem decimal_text_roundtrip_witness:
  "\<exists>a b. decimal_parse ''1'' = Inr a \<and> decimal_parse (whole 7) = Inr b \<and> decimal_parse (decimal_format a) = Inr a
     \<and> decimal_format a \<noteq> decimal_format b"
  using decimal_text_roundtrip [OF parse_one whole_parse [of 7]] parse_one whole_parse [of 7]
  by (auto simp: dec_value_def)

text \<open>
  C26: Addition and subtraction of amounts are total and exact, whatever the scales: there is no
  rounding, overflow or error on amounts, the results are canonical, and subtracting what was
  added gives back the canonical amount.
\<close>

theorem amounts_exact:
  assumes "amount a" and "amount b"
  shows "\<exists>c d. add_decimal_text a b = Inr c \<and> text_value c = text_value a + text_value b
    \<and> subtract_decimal_text c b = Inr d \<and> text_value d = text_value a \<and> canonical_text c \<and> canonical_text d
    \<and> (canonical_text a \<longrightarrow> d = a)"
proof -
  obtain c where c: "add_decimal_text a b = Inr c" using money.add_total assms by blast
  then obtain d where d: "subtract_decimal_text c b = Inr d"
    using money.sub_total money.add_val money.canon_amt assms(2) by blast
  from c d money.add_val [OF c] money.sub_val [OF d] show ?thesis
    by (auto intro: money.canon_unique)
qed

theorem amounts_exact_witness:
  "\<exists>c. add_decimal_text (whole 12) (whole (- 5)) = Inr c \<and> text_value c = 7"
proof -
  have "amount (whole 12)" "amount (whole (- 5))" by simp_all
  from amounts_exact [OF this] show ?thesis by auto
qed

text \<open>
  Totals do not depend on the order of their rows: a loop that sums amounts gives the same
  text for every order of the same amounts, so the unordered queries of the ledger are
  deterministic.
\<close>

theorem totals_order_free:
  assumes "fold_result add_decimal_text ''0'' xs = Inr s" and "mset xs = mset ys"
  shows "fold_result add_decimal_text ''0'' ys = Inr s \<and> text_value s = sum_list (map text_value ys)"
proof -
  have ys: "fold_result add_decimal_text ''0'' ys = Inr s"
    using zero_text(1) assms(2,1) by (rule money.sum_order)
  with money.sum_val [OF ys] show ?thesis by (simp add: zero_text(2))
qed

theorem totals_order_free_witness:
  "fold_result add_decimal_text ''0'' [whole 3, whole (- 10)] = Inr (whole (- 7))"
proof -
  have "fold_result add_decimal_text ''0'' [whole (- 10), whole 3] = Inr (whole (- 7))"
    by (simp add: zero_whole add_whole)
  from totals_order_free [OF this, of "[whole 3, whole (- 10)]"] show ?thesis by simp
qed

text \<open>
  Posting rounds half to even. A posted amount is the nearest multiple of the posting unit,
  at most half a unit away, and of two equally near multiples it is the even one.
\<close>

theorem posting_half_even:
  assumes "round_posted_decimal_text v s = Inr t" and "s \<le> 10000"
  shows "\<exists>k. text_value t = of_int k / 10 ^ s \<and> 2 * \<bar>of_int k - text_value v * 10 ^ s\<bar> \<le> 1
    \<and> (2 * \<bar>of_int k - text_value v * 10 ^ s\<bar> = 1 \<longrightarrow> even k)"
  using assms by (rule round_posted_nearest)

theorem posting_half_even_witness:
  "\<exists>t k. round_posted_decimal_text (whole 5) 2 = Inr t \<and> text_value t = of_int k / 100"
proof -
  have "\<exists>t. round_posted_decimal_text (whole 5) 2 = Inr t"
    by (simp add: round_posted_decimal_text_def whole_parse)
  then obtain t where t: "round_posted_decimal_text (whole 5) 2 = Inr t" by blast
  from posting_half_even [OF t] t show ?thesis by auto
qed

text \<open>
  Proportions round once. The proportional share of an amount is the exact product over the
  denominator, to half a cent, and it is an error exactly when the denominator is zero (on
  amounts).
\<close>

theorem proportional_share:
  assumes "amount v" and "amount n" and "amount d"
  shows "if text_value d = 0 then \<exists>e. proportional_decimal_text v n d = Inl e
    else \<exists>t. proportional_decimal_text v n d = Inr t \<and> canonical_text t
      \<and> 200 * \<bar>text_value t - text_value v * text_value n / text_value d\<bar> \<le> 1"
proof (cases "proportional_decimal_text v n d")
  case (Inr t)
  with proportional_nearest [OF Inr] show ?thesis by simp
next
  case (Inl e)
  from assms obtain v' n' d' where p: "decimal_parse v = Inr v'" "decimal_parse n = Inr n'" "decimal_parse d = Inr d'"
    by (auto simp: amount_iff)
  with Inl have "\<not> (\<exists>r. ratio_divide (ratio_multiply (decimal_as_ratio v') (decimal_as_ratio n')) (decimal_as_ratio d') = Inr r)"
    by (auto simp: proportional_decimal_text_def)
  then have "text_value d = 0" using p by (simp add: ratio_divide_Inr_iff money_simps)
  with Inl show ?thesis by simp
qed

theorem proportional_share_witness:
  "(\<exists>t. proportional_decimal_text (whole 10) (whole 2) (whole 3) = Inr t \<and> 200 * \<bar>text_value t - 20 / 3\<bar> \<le> 1)
   \<and> (\<exists>e. proportional_decimal_text (whole 10) (whole 2) (whole 0) = Inl e)"
  using proportional_share [of "whole 10" "whole 2" "whole 3"] proportional_share [of "whole 10" "whole 2" "whole 0"] by auto

section \<open>Dates\<close>

text \<open>
  C30: Day numbers and civil dates are in bijection, in the \<open>i64\<close> arithmetic of the code: every valid date
  of the years up to twenty-five thousand million million comes back from its day number, every day number that
  leaves room for the shift to the year 0 is the number of a valid date, and a date of a four-digit
  year is read back from its printed form. No operation wraps around there.
\<close>

theorem civil_dates_bijective:
  assumes "valid_civil y m d" "\<bar>y\<bar> \<le> 25 * 10 ^ 15"
  shows "civil_date_from_days_i64 (days_from_civil_i64 y m d) = (y, m, d)
    \<and> (\<forall>n. - (2 ^ 63) \<le> n \<and> n < 2 ^ 63 - 719468 \<longrightarrow>
        (case civil_date_from_days_i64 n of (y', m', d') \<Rightarrow> valid_civil y' m' d' \<and> days_from_civil_i64 y' m' d' = n))
    \<and> days_from_civil_i64 y m d = days_from_civil y m d
    \<and> (0 \<le> y \<and> y \<le> 9999 \<longrightarrow> parse_date (format_ymd y m d) = Inr (days_from_civil_i64 y m d))"
  using civil_roundtrip_i64 [OF assms] days_roundtrip_i64 days_from_civil_small(1) [OF assms] parse_format_ymd [OF assms(1)] by auto

theorem civil_dates_bijective_witness:
  "civil_date_from_days_i64 (days_from_civil_i64 2024 2 29) = (2024, 2, 29)"
proof -
  have "valid_civil 2024 2 29" "\<bar>2024 :: int\<bar> \<le> 25 * 10 ^ 15" by (simp_all add: valid_civil_def max_day_of_def is_leap_year_dvd)
  from civil_dates_bijective [OF this] show ?thesis by (rule conjunct1)
qed

text \<open>
  The Easter computation, on which the two moving bank holidays hang, gives a valid date that
  is a Sunday, in every year of up to four digits.
\<close>

theorem easter_is_sunday:
  assumes "0 \<le> year" "year \<le> 9999"
  shows "case gregorian_easter year of (m, d) \<Rightarrow> valid_civil year m d \<and> weekday (days_from_civil_i64 year m d) = 6"
  using gregorian_easter_sunday(1) [OF assms(1)] easter_weekday [OF assms] by (cases "gregorian_easter year") simp

theorem easter_is_sunday_witness:
  "case gregorian_easter 2026 of (m, d) \<Rightarrow> m = 4 \<and> d = 5 \<and> weekday (days_from_civil_i64 2026 m d) = 6"
proof -
  have "gregorian_easter 2026 = (4, 5)" by code_simp
  with easter_is_sunday [of 2026] show ?thesis by simp
qed

text \<open>
  The business days between two dates are exactly the TARGET operating days after the first
  and up to the second, and the count exists for all dates of the years 0 to 9999.
\<close>

theorem business_days_counted:
  assumes "parse_date from = Inr a" and "parse_date through = Inr b"
    and "\<forall>n\<in>{a<..b}. 0 \<le> fst (civil_date_from_days_i64 n) \<and> fst (civil_date_from_days_i64 n) \<le> 9999"
  shows "target_business_days_between from through = Inr (card {day \<in> {a<..b}. operating day})"
proof (cases "b \<le> a")
  case True
  with assms show ?thesis by (simp add: target_business_days_between_def)
next
  case False
  have "\<exists>r. is_target_operating_day n = Inr r" if "a + 1 \<le> n" "n \<le> b" for n
  proof -
    have "n \<in> {a<..b}" using that by simp
    with assms(3) obtain y m d where "civil_date_from_days_i64 n = (y, m, d)" "0 \<le> y" "y \<le> 9999"
      by (cases "civil_date_from_days_i64 n") fastforce
    then show ?thesis by (rule is_target_operating_day_total)
  qed
  then obtain n where n: "count_operating_days (a + 1) b 0 = Inr n"
    using count_operating_days_total [of "a + 1" b] by blast
  have "{day \<in> {a + 1..b}. operating day} = {day \<in> {a<..b}. operating day}" by auto
  with count_operating_days_count [OF n] n False assms(1,2) show ?thesis
    by (simp add: target_business_days_between_def)
qed

theorem business_days_counted_witness:
  "target_business_days_between ''2026-01-02'' ''2026-01-02'' = Inr 0"
proof -
  have "''2026-01-02'' = format_ymd 2026 1 2" by (simp add: format_ymd_def pad_zero_def to_string_eval)
  then have p: "parse_date ''2026-01-02'' = Inr (days_from_civil 2026 1 2)"
    using parse_format_ymd [of 2026 1 2] by (simp add: valid_civil_def max_day_of_def)
  show ?thesis using business_days_counted [OF p p] by simp
qed

section \<open>Valuation\<close>

text \<open>
  The rate used for a date is a positive observation of the currency, the latest one on or
  before that date; later observations never matter; and the base currency needs none.
\<close>

theorem prior_rate_latest:
  assumes "select_prior_rate currency as_of observations = Inr s"
  shows "(if currency = ''EUR'' then rate_quote s = ''1'' \<and> rate_date s = None
      else \<exists>r\<in>set observations. obs_currency r = currency \<and> obs_date r \<le> as_of
        \<and> (\<forall>x\<in>set observations. obs_currency x = currency \<and> obs_date x \<le> as_of \<longrightarrow> obs_date x \<le> obs_date r)
        \<and> rate_quote s = currency_units_per_eur r \<and> rate_date s = Some (obs_date r))
    \<and> 0 < text_value (rate_quote s)
    \<and> select_prior_rate currency as_of (filter (\<lambda>r. obs_date r \<le> as_of) observations) = Inr s"
proof -
  have pos: "0 < text_value (rate_quote s)" using assms by (rule select_prior_rate_positive)
  have future: "select_prior_rate currency as_of (filter (\<lambda>r. obs_date r \<le> as_of) observations) = Inr s"
    using assms by (simp only: select_prior_rate_future)
  show ?thesis
  proof (cases "currency = ''EUR''")
    case True
    with assms pos future show ?thesis by (auto simp: select_prior_rate_def)
  next
    case False
    with assms show ?thesis using pos future
      by (rule_tac select_prior_rate_cases [OF assms False]) auto
  qed
qed

theorem prior_rate_latest_witness:
  "\<exists>s. select_prior_rate ''EUR'' ''2026-01-05'' [] = Inr s \<and> 0 < text_value (rate_quote s)"
proof -
  have "\<exists>s. select_prior_rate ''EUR'' ''2026-01-05'' [] = Inr s" by (simp add: select_prior_rate_def)
  then show ?thesis using prior_rate_latest by blast
qed

text \<open>
  C27: Valuation. Each of the four posted amounts is the exact conversion to half a cent: the
  source in EUR at the quote of the input currency, with the source adjustment for foreign
  currencies; in the account's currency across the two quotes, and unconverted when the
  currencies agree; the destination in EUR at its own quote; the destination's native amount
  only rounded. A valuation is stale when one of its rates is more than three business days old.
\<close>

theorem valuation_nearest:
  assumes "calculate_valuation a ic fc b tc as_of obs mode = Inr v" and "mode \<noteq> TowardZero"
  shows "nearest_cent (amount_eur (from_side v)) (text_value a * (source_adjustment_of ic / rate_of ic as_of obs))
    \<and> nearest_cent (amount_native (from_side v))
        (text_value a * (if ic = fc then 1 else source_adjustment_of ic * rate_of fc as_of obs / rate_of ic as_of obs))
    \<and> nearest_cent (amount_eur (to_side v)) (text_value b * (1 / rate_of tc as_of obs))
    \<and> nearest_cent (amount_native (to_side v)) (text_value b)
    \<and> (stale (from_side v) \<longleftrightarrow> (\<exists>c\<in>{ic, fc, tc}. \<exists>s. select_prior_rate c as_of obs = Inr s \<and> 3 < stale_business_days s))"
  using assms(1)
proof (rule calculate_valuation_cases)
  fix da db ri rf rt di df dt e n t
  assume p: "decimal_parse a = Inr da" "decimal_parse b = Inr db"
    and r: "select_prior_rate ic as_of obs = Inr ri" "select_prior_rate fc as_of obs = Inr rf"
      "select_prior_rate tc as_of obs = Inr rt"
    and q: "decimal_parse (rate_quote ri) = Inr di" "decimal_parse (rate_quote rf) = Inr df"
      "decimal_parse (rate_quote rt) = Inr dt"
    and ok: "ratio_ok e" "ratio_ok n" "ratio_ok t"
    and vals: "ratio_value e = source_adjustment_of ic / dec_value di"
      "ratio_value n = (if ic = fc then 1 else source_adjustment_of ic * dec_value df / dec_value di)"
      "ratio_value t = 1 / dec_value dt"
    and out: "amount_eur (from_side v) = decimal_format (ratio_round_decimal (ratio_multiply (decimal_as_ratio da) e) 2 mode)"
      "amount_native (from_side v) = decimal_format (ratio_round_decimal (ratio_multiply (decimal_as_ratio da) n) 2 mode)"
      "amount_eur (to_side v) = decimal_format (ratio_round_decimal (ratio_multiply (decimal_as_ratio db) t) 2 mode)"
      "amount_native (to_side v) = decimal_format (ratio_round_decimal (decimal_as_ratio db) 2 mode)"
    and st: "stale (from_side v) \<longleftrightarrow> 3 < stale_business_days ri \<or> 3 < stale_business_days rf \<or> 3 < stale_business_days rt"
  have rates: "rate_of ic as_of obs = dec_value di" "rate_of fc as_of obs = dec_value df" "rate_of tc as_of obs = dec_value dt"
    using r q by (simp_all add: rate_of_def)
  note near = nearest_cent_round [OF _ assms(2)]
  have "nearest_cent (amount_eur (from_side v)) (text_value a * (source_adjustment_of ic / rate_of ic as_of obs))"
    using near [of "ratio_multiply (decimal_as_ratio da) e"] ok vals p by (simp add: out rates money_simps)
  moreover have "nearest_cent (amount_native (from_side v))
        (text_value a * (if ic = fc then 1 else source_adjustment_of ic * rate_of fc as_of obs / rate_of ic as_of obs))"
    using near [of "ratio_multiply (decimal_as_ratio da) n"] ok vals p
    by (cases "ic = fc") (simp_all add: out rates money_simps)
  moreover have "nearest_cent (amount_eur (to_side v)) (text_value b * (1 / rate_of tc as_of obs))"
    using near [of "ratio_multiply (decimal_as_ratio db) t"] ok vals p by (simp add: out rates money_simps)
  moreover have "nearest_cent (amount_native (to_side v)) (text_value b)"
    using near [of "decimal_as_ratio db"] p by (simp add: out money_simps)
  moreover have "stale (from_side v) \<longleftrightarrow> (\<exists>c\<in>{ic, fc, tc}. \<exists>s. select_prior_rate c as_of obs = Inr s \<and> 3 < stale_business_days s)"
    using st r by auto
  ultimately show ?thesis by blast
qed

theorem valuation_nearest_witness:
  "\<exists>v. calculate_valuation (whole 12) ''EUR'' ''EUR'' (whole 12) ''EUR'' ''2026-01-05'' [] HalfEven = Inr v
     \<and> nearest_cent (amount_native (from_side v)) 12"
proof -
  have one: "ratio_divide ratio_one (decimal_as_ratio \<lparr>coefficient = 1, scale = 0\<rparr>) \<noteq> Inl e"
    "ratio_divide (decimal_as_ratio \<lparr>coefficient = 1, scale = 0\<rparr>) (decimal_as_ratio \<lparr>coefficient = 1, scale = 0\<rparr>) \<noteq> Inl e" for e
    using ratio_divide_Inr_iff [of "decimal_as_ratio \<lparr>coefficient = 1, scale = 0\<rparr>"]
    by (auto simp: money_simps dec_value_def) (metis sum.distinct(1))+
  obtain x y where "ratio_divide ratio_one (decimal_as_ratio \<lparr>coefficient = 1, scale = 0\<rparr>) = Inr x"
    "ratio_divide (decimal_as_ratio \<lparr>coefficient = 1, scale = 0\<rparr>) (decimal_as_ratio \<lparr>coefficient = 1, scale = 0\<rparr>) = Inr y"
    using one by (metis sum.exhaust)
  then have "\<exists>v. calculate_valuation (whole 12) ''EUR'' ''EUR'' (whole 12) ''EUR'' ''2026-01-05'' [] HalfEven = Inr v"
    by (simp add: calculate_valuation_def select_prior_rate_def whole_parse parse_one source_rates_def Let_def)
  then obtain v where v: "calculate_valuation (whole 12) ''EUR'' ''EUR'' (whole 12) ''EUR'' ''2026-01-05'' [] HalfEven = Inr v"
    by blast
  from valuation_nearest [OF v] v show ?thesis by simp
qed

text \<open>
  A projected transaction moves exactly its valued amounts: the source account loses and the
  destination account gains their native amounts, the source category is charged and the
  destination category credited in EUR, and a reallocation moves its absolute amount from the
  impact of one category to that of the other, summing to zero over two distinct categories.
\<close>

theorem projection_entries:
  assumes "project_transaction e = Inr p"
  shows "(\<forall>j. bt_entry (account_deltas p) j =
        (if to_account_id e = Some j then text_value (amount_native (to_side (effect_valuation e))) else 0)
        - (if from_account_id e = Some j then text_value (amount_native (from_side (effect_valuation e))) else 0))
    \<and> (\<forall>j. bt_entry (category_expense_deltas p) j =
        (if from_category_id e = Some j then text_value (amount_eur (from_side (effect_valuation e))) else 0)
        - (if to_category_id e = Some j then text_value (amount_eur (to_side (effect_valuation e))) else 0))
    \<and> (\<forall>i j. from_category_id e = Some i \<and> to_category_id e = Some j \<and> i \<noteq> j \<longrightarrow>
        bt_entry (reallocation_impacts p) i + bt_entry (reallocation_impacts p) j = 0
        \<and> (effect_kind e = ''reallocate'' \<longrightarrow> bt_entry (reallocation_impacts p) i = \<bar>text_value (effect_amount e)\<bar>))"
  using project_transaction_entries [OF assms] by simp

theorem projection_entries_witness:
  "\<exists>p. project_transaction \<lparr>from_account_id = None, to_account_id = None, from_category_id = Some ''food'',
       to_category_id = Some ''rent'', effect_kind = ''reallocate'', effect_amount = whole 20,
       effect_valuation = \<lparr>
         from_side = \<lparr>amount_native = whole 20, amount_eur = whole 20, exchange_to_eur_numerator = ''1'',
           exchange_to_eur_denominator = ''1'', exchange_to_native_numerator = ''1'',
           exchange_to_native_denominator = ''1'', applied_rate_dates = [], stale = False\<rparr>,
         to_side = \<lparr>amount_native = whole 20, amount_eur = whole 20, exchange_to_eur_numerator = ''1'',
           exchange_to_eur_denominator = ''1'', exchange_to_native_numerator = ''1'',
           exchange_to_native_denominator = ''1'', applied_rate_dates = [], stale = False\<rparr>\<rparr>\<rparr> = Inr p
     \<and> bt_entry (reallocation_impacts p) ''food'' + bt_entry (reallocation_impacts p) ''rent'' = 0"
  (is "\<exists>p. project_transaction ?e = Inr p \<and> _")
proof -
  have "\<exists>p. project_transaction ?e = Inr p"
    by (simp add: project_transaction_def add_parsed_def whole_parse Let_def)
  then obtain p where p: "project_transaction ?e = Inr p" by blast
  from projection_entries [OF p] p show ?thesis by simp
qed

end
