(* ===== verification/Activation.thy ===== *)
theory Activation
  imports History
begin

text \<open>
  The activation of the plan ledger (\<open>activate\<close> in \<open>budget_ledger.rs\<close>): once, in the current
  month, keeping the results of the budget so far; and \<open>reconciliation_current\<close> of
  \<open>budget.rs\<close>, which decides whether a reconciliation still describes the accounts.
\<close>

section \<open>Inserting rows\<close>

text \<open>The unique columns of \<open>finance_categories\<close> are the id and the name.\<close>

definition insert_category :: "db \<Rightarrow> category_row \<Rightarrow> db result" where
  "insert_category db c =
     (if list_ex (\<lambda>x. cat_id x = cat_id c \<or> cat_name x = cat_name c) (categories_table db)
      then Inl ''UNIQUE constraint failed: finance_categories''
      else Inr (db\<lparr>categories_table := categories_table db @ [c]\<rparr>))"

section \<open>Activation\<close>

text \<open>The totals of the categories: what remains and what was allocated this month.\<close>

definition opening_totals :: "budget_category list \<Rightarrow> (string \<times> string) result" where
  "opening_totals cats =
     fold_result (\<lambda>(remaining, allocations) c.
       and_then (ok_or (bc_remaining c) ''Missing category opening'') (\<lambda>r.
       and_then (add_decimal_text remaining r) (\<lambda>remaining'.
       and_then (ok_or (bc_monthly c) ''Missing allocation'') (\<lambda>a.
       and_then (add_decimal_text allocations a) (\<lambda>allocations'.
       Inr (remaining', allocations')))))) (''0'', ''0'') cats"

text \<open>Income recorded before the activation keeps its category effect: its receipts are legacy.\<close>

definition legacy_receipts :: "db \<Rightarrow> db result" where
  "legacy_receipts db =
     (if \<not> ledger_tables_exist db then Inl ''no such table: budget_income_receipts''
      else fold_result (\<lambda>d t.
        if list_ex (\<lambda>r. rec_transaction r = tx_id t) (receipts_table d)
        then Inl ''UNIQUE constraint failed: budget_income_receipts.transaction_id''
        else Inr (d\<lparr>receipts_table := receipts_table d @
          [\<lparr>rec_transaction = tx_id t, rec_treatment = ''legacy'', rec_expected_month = None\<rparr>]\<rparr>)) db
        (filter (\<lambda>t. tx_kind t = ''income'') (transactions_table db)))"

definition insert_state :: "db \<Rightarrow> string \<Rightarrow> db result" where
  "insert_state db m =
     (case ledger_state_table db of
        Some _ \<Rightarrow> Inl ''UNIQUE constraint failed: budget_ledger_state.singleton''
      | None \<Rightarrow> Inr (db\<lparr>ledger_state_table := Some \<lparr>st_start_month = m, st_opening_unallocated = ''0''\<rparr>\<rparr>))"

text \<open>The legacy receipts of the current month settle its expectation.\<close>

definition match_current_receipts :: "db \<Rightarrow> string \<Rightarrow> db" where
  "match_current_receipts db m =
     db\<lparr>receipts_table := map (\<lambda>r.
       if rec_treatment r = ''legacy''
          \<and> list_ex (\<lambda>t. tx_id t = rec_transaction r \<and> take 7 (tx_date t) = m) (transactions_table db)
       then r\<lparr>rec_expected_month := Some m\<rparr> else r) (receipts_table db)\<rparr>"

text \<open>
  The opening of Unallocated: the coverage surplus plus the outstanding funding, less what the
  recurring funding and the allocations of the month will add.
\<close>

definition opening_unallocated :: "string \<Rightarrow> string \<Rightarrow> string \<Rightarrow> expected_income \<Rightarrow> string result" where
  "opening_unallocated cash_eur remaining allocations i =
     and_then (subtract_decimal_text cash_eur remaining) (\<lambda>surplus.
     and_then (add_decimal_text surplus (ei_outstanding_eur i)) (\<lambda>funded.
     and_then (subtract_decimal_text (ei_amount_eur i) allocations) (\<lambda>recurring.
     subtract_decimal_text funded recurring)))"

definition set_opening :: "db \<Rightarrow> string \<Rightarrow> db" where
  "set_opening db opening =
     db\<lparr>ledger_state_table := map_option (\<lambda>s. s\<lparr>st_opening_unallocated := opening\<rparr>) (ledger_state_table db)\<rparr>"

text \<open>The writes of the activation, given the totals and the cash read before them.\<close>

definition install_ledger :: "db \<Rightarrow> string \<Rightarrow> string \<Rightarrow> string \<Rightarrow> string \<Rightarrow> db result" where
  "install_ledger db m cash_eur remaining allocations =
     and_then (insert_category db
       \<lparr>cat_id = UNALLOCATED, cat_name = ''Unallocated'', cat_is_real = True, cat_source_row = 1000000\<rparr>) (\<lambda>d1.
     and_then (legacy_receipts d1) (\<lambda>d2.
     and_then (insert_state d2 m) (\<lambda>d3.
     and_then (ensure_income d3 m) (\<lambda>d4.
     let d5 = match_current_receipts d4 m in
     and_then (income d5 m m) (\<lambda>i.
     and_then (ok_or i ''Missing current expectation'') (\<lambda>e.
     and_then (opening_unallocated cash_eur remaining allocations e) (\<lambda>opening.
     Inr (set_opening d5 opening))))))))"

definition activate :: "'d platform \<Rightarrow> db \<Rightarrow> db result option" where
  "activate P db =
     (if start db \<noteq> None then Some (Inr db)
      else returned (Some (first_month P db)) (\<lambda>first.
        if first = None then Some (Inr db)
        else
          returned (budget_categories P db (this_month P)) (\<lambda>cats.
          returned (Some (opening_totals cats)) (\<lambda>(remaining, allocations).
          returned (Some (cash db (today P))) (\<lambda>cash_eur.
          returned (Some (install_ledger db (this_month P) cash_eur remaining allocations)) (\<lambda>d.
          sync P d None))))))"

section \<open>Whether a reconciliation is current\<close>

text \<open>The \<open>rowid\<close> of an operation is its place in the table.\<close>

definition operation_position :: "db \<Rightarrow> string \<Rightarrow> nat option" where
  "operation_position db i = find (\<lambda>n. op_id (operations_table db ! n) = i) [0..<length (operations_table db)]"

definition batch_watermark :: "db \<Rightarrow> string \<Rightarrow> nat option" where
  "batch_watermark db batch =
     Option.bind (first_row (filter (\<lambda>b. rb_id b = batch) (batches_table db)))
       (\<lambda>b. operation_position db (rb_operation b))"

text \<open>The operations recorded after a position.\<close>

definition later_operation :: "db \<Rightarrow> nat \<Rightarrow> string \<Rightarrow> bool" where
  "later_operation db watermark i = (case operation_position db i of None \<Rightarrow> False | Some n \<Rightarrow> watermark < n)"

definition touches_real_account :: "db \<Rightarrow> transaction_row \<Rightarrow> bool" where
  "touches_real_account db t = list_ex (\<lambda>a. acc_is_real a
     \<and> (tx_from_account t = Some (acc_id a) \<or> tx_to_account t = Some (acc_id a))) (accounts_table db)"

definition changed_before :: "db \<Rightarrow> string \<Rightarrow> nat \<Rightarrow> bool" where
  "changed_before db date watermark =
     list_ex (\<lambda>t. tx_date t \<le> date \<and> tx_kind t \<noteq> ''reallocate'' \<and> touches_real_account db t
       \<and> list_ex (\<lambda>r. rev_transaction r = tx_id t
            \<and> (case rev_operation r of None \<Rightarrow> False | Some i \<Rightarrow> later_operation db watermark i)) (revisions_table db))
       (transactions_table db)"

text \<open>
  \<open>json_extract\<close> of the response of a deletion, which raises an error on a text that is no JSON; the
  scan ends at the first deletion found, and is not begun when a changed transaction is found.
\<close>

definition deletion_before :: "'d platform \<Rightarrow> string \<Rightarrow> string \<Rightarrow> bool result" where
  "deletion_before P date response =
     and_then (read_json P response) (\<lambda>j.
     Inr (json_field j ''deleted'' \<in> {Some (JBool True), Some (JInt 1)} \<and>
          (case json_field j ''deletedTransaction'' of
             None \<Rightarrow> False
           | Some d \<Rightarrow> (case (json_field d ''effectiveDate'', json_field d ''kind'') of
               (Some (JStr e), Some (JStr k)) \<Rightarrow> e \<le> date \<and> k \<noteq> ''reallocate''
             | _ \<Rightarrow> False))))"

primrec deleted_before :: "'d platform \<Rightarrow> string \<Rightarrow> operation_row list \<Rightarrow> bool result" where
  "deleted_before P date [] = Inr False"
| "deleted_before P date (o' # os) = and_then (deletion_before P date (op_response o')) (\<lambda>found.
     if found then Inr True else deleted_before P date os)"

definition reconciliation_current :: "'d platform \<Rightarrow> db \<Rightarrow> string \<Rightarrow> string \<Rightarrow> bool result" where
  "reconciliation_current P db date batch =
     and_then (fetch_one (batch_watermark db batch)) (\<lambda>watermark.
     if changed_before db date watermark then Inr False
     else and_then (deleted_before P date (drop (Suc watermark) (operations_table db))) (\<lambda>deleted. Inr (\<not> deleted)))"

end
