(* ===== verification/Http.thy ===== *)
theory Http
  imports RustStd
begin

text \<open>
  The errors of the request handlers of \<open>server.rs\<close>: an HTTP status with a message. An error of
  a database or ledger operation becomes status 500 with a fixed message, so that its text is
  not shown to the client.
\<close>

datatype api_error = ApiError (api_status: nat) (api_message: string)

type_synonym 'a api = "api_error + 'a"

definition bad_request :: "string \<Rightarrow> api_error" where
  "bad_request m = ApiError 400 m"

definition unauthorized :: "string \<Rightarrow> api_error" where
  "unauthorized m = ApiError 401 m"

definition forbidden :: "string \<Rightarrow> api_error" where
  "forbidden m = ApiError 403 m"

definition not_found :: "string \<Rightarrow> api_error" where
  "not_found m = ApiError 404 m"

definition conflict :: "string \<Rightarrow> api_error" where
  "conflict m = ApiError 409 m"

definition unavailable :: "string \<Rightarrow> api_error" where
  "unavailable m = ApiError 503 m"

definition internal_error :: api_error where
  "internal_error = ApiError 500 ''The server could not complete this request.''"

text \<open>\<open>map_err\<close>: the error of a computation is replaced.\<close>

definition map_err :: "('e \<Rightarrow> 'f) \<Rightarrow> 'e + 'a \<Rightarrow> 'f + 'a" where
  "map_err f m = (case m of Inl e \<Rightarrow> Inl (f e) | Inr x \<Rightarrow> Inr x)"

definition internal :: "'a result \<Rightarrow> 'a api" where
  "internal = map_err (\<lambda>_. internal_error)"

definition guard :: "bool \<Rightarrow> 'e \<Rightarrow> 'e + unit" where
  "guard c e = (if c then Inr () else Inl e)"

lemma map_err_simps [simp]: "map_err f (Inl e) = Inl (f e)" "map_err f (Inr x) = Inr x"
  by (simp_all add: map_err_def)

lemma map_err_eq_Inr [result_simps]: "map_err f m = Inr x \<longleftrightarrow> m = Inr x"
  by (cases m) simp_all

lemma internal_simps [simp]: "internal (Inl e) = Inl internal_error" "internal (Inr x) = Inr x"
  by (simp_all add: internal_def)

lemma internal_eq_Inr [result_simps]: "internal m = Inr x \<longleftrightarrow> m = Inr x"
  by (simp add: internal_def result_simps)

lemma guard_eq_Inr [result_simps]: "guard c e = Inr u \<longleftrightarrow> c"
  by (simp add: guard_def)

lemma guard_simps [simp]: "guard True e = Inr ()" "guard False e = Inl e"
  by (simp_all add: guard_def)

end
