(* ===== verification/Validation.thy ===== *)
theory Validation
  imports CivilDate DecimalText Http
begin

text \<open>
  The validation of requests in \<open>server.rs\<close>: months, dates, timestamps, identifiers and the
  normalization of a transaction before it is written. \<open>Uuid::parse_str\<close> is a parameter.
\<close>

section \<open>Months, dates and timestamps\<close>

definition valid_month :: "string \<Rightarrow> bool" where
  "valid_month value =
     (case split_on (\<lambda>c. c = CHR ''-'') value of
        [year, month] \<Rightarrow>
          length year = 4 \<and> length month = 2 \<and>
          (case (parse_u32 year, parse_u32 month) of
             (Some y, Some m) \<Rightarrow> 0 < y \<and> 1 \<le> m \<and> m \<le> 12
           | _ \<Rightarrow> False)
      | _ \<Rightarrow> False)"

definition month_length :: "int \<Rightarrow> int \<Rightarrow> int option" where
  "month_length year month =
     (if month \<in> {1, 3, 5, 7, 8, 10, 12} then Some 31
      else if month \<in> {4, 6, 9, 11} then Some 30
      else if month = 2 \<and> (year mod 400 = 0 \<or> year mod 4 = 0 \<and> year mod 100 \<noteq> 0) then Some 29
      else if month = 2 then Some 28
      else None)"

definition last_day_of_month :: "string \<Rightarrow> int option" where
  "last_day_of_month value =
     (if \<not> valid_month value then None
      else case (parse_u32 (take 4 value), parse_u32 (drop 5 value)) of
        (Some y, Some m) \<Rightarrow> month_length y m
      | _ \<Rightarrow> None)"

definition valid_date :: "string \<Rightarrow> bool" where
  "valid_date value =
     (case split_on (\<lambda>c. c = CHR ''-'') value of
        [year, month, day] \<Rightarrow>
          length year = 4 \<and> length month = 2 \<and> length day = 2 \<and>
          (case (parse_u32 year, parse_u32 month, parse_u32 day) of
             (Some y, Some m, Some d) \<Rightarrow>
               (case month_length y m of None \<Rightarrow> False | Some n \<Rightarrow> 0 < y \<and> 0 < d \<and> d \<le> n)
           | _ \<Rightarrow> False)
      | _ \<Rightarrow> False)"

text \<open>The bytes \<open>value[a..b]\<close>.\<close>

definition slice :: "nat \<Rightarrow> nat \<Rightarrow> string \<Rightarrow> string" where
  "slice a b s = drop a (take b s)"

definition valid_time_part :: "string \<Rightarrow> int \<Rightarrow> bool" where
  "valid_time_part part bound \<longleftrightarrow> list_all is_digit part \<and>
     (case parse_u32 part of Some n \<Rightarrow> n \<le> bound | None \<Rightarrow> False)"

definition valid_transaction_timestamp :: "string \<Rightarrow> bool" where
  "valid_transaction_timestamp v \<longleftrightarrow>
     list_all (\<lambda>c. (of_char c :: nat) < 128) v \<and> length v \<in> {20, 24} \<and> valid_date (slice 0 10 v) \<and>
     slice 10 11 v = ''T'' \<and> slice 13 14 v = '':'' \<and> slice 16 17 v = '':'' \<and> ends_with v ''Z'' \<and>
     valid_time_part (slice 11 13 v) 23 \<and> valid_time_part (slice 14 16 v) 59 \<and> valid_time_part (slice 17 19 v) 59 \<and>
     (length v = 20 \<or> slice 19 20 v = ''.'' \<and> list_all is_digit (slice 20 23 v))"

section \<open>Identifiers\<close>

definition is_uuid_v7 :: "(string \<Rightarrow> bool) \<Rightarrow> string \<Rightarrow> bool" where
  "is_uuid_v7 uuid_ok v \<longleftrightarrow> uuid_ok v \<and> 14 < length v \<and> v ! 14 = CHR ''7'' \<and>
     19 < length v \<and> ascii_lower (v ! 19) \<in> {CHR ''8'', CHR ''9'', CHR ''a'', CHR ''b''}"

definition required_id :: "string option \<Rightarrow> string \<Rightarrow> string api" where
  "required_id v field = (case v of
      Some i \<Rightarrow> if length i \<le> 256 then Inr i else Inl (bad_request (field @ '' is required.''))
    | None \<Rightarrow> Inl (bad_request (field @ '' is required.'')))"

section \<open>Transaction requests\<close>

record write_request =
  wr_operation_id :: string
  wr_transaction_id :: string
  wr_kind :: string
  wr_date :: string
  wr_occurred_at :: "string option"
  wr_date_only :: bool
  wr_description :: string
  wr_amount :: string
  wr_currency :: "string option"
  wr_to_amount :: "string option"
  wr_from_category :: "string option"
  wr_to_category :: "string option"
  wr_from_account :: "string option"
  wr_to_account :: "string option"
  wr_income_treatment :: "string option"
  wr_corrects :: "string option"
  wr_expected_month :: "string option"

text \<open>The closure \<open>round_positive\<close>.\<close>

definition round_positive :: "string \<Rightarrow> string \<Rightarrow> string api" where
  "round_positive value field =
     (if 64 < length value then Inl (bad_request (field @ '' must be a valid positive amount.''))
      else and_then (map_err (\<lambda>_. bad_request (field @ '' must be a valid positive amount.''))
          (round_posted_decimal_text value 2)) (\<lambda>rounded.
        if rounded = ''0'' \<or> starts_with rounded ''-''
        then Inl (bad_request (field @ '' must be greater than zero.''))
        else Inr rounded))"

definition trimmed_id :: "string option \<Rightarrow> string option" where
  "trimmed_id v = (case v of None \<Rightarrow> None | Some i \<Rightarrow> if trim i = [] then None else Some (trim i))"

definition normalize_currency :: "string option \<Rightarrow> string option" where
  "normalize_currency v = (case v of None \<Rightarrow> None
     | Some c \<Rightarrow> let u = map ascii_upper (trim c) in if u = [] then None else Some u)"

definition round_to_amount :: "string option \<Rightarrow> string option api" where
  "round_to_amount v = (case v of None \<Rightarrow> Inr None
     | Some a \<Rightarrow> and_then (round_positive a ''toAmount'') (\<lambda>r. Inr (Some r)))"

definition income_options_invalid :: "write_request \<Rightarrow> bool" where
  "income_options_invalid p \<longleftrightarrow>
     (case wr_income_treatment p of Some t \<Rightarrow> t \<notin> {''salary'', ''unexpected'', ''refund''} | None \<Rightarrow> False)
     \<or> (case wr_expected_month p of Some m \<Rightarrow> \<not> valid_month m | None \<Rightarrow> False)
     \<or> (wr_kind p \<noteq> ''income'' \<and> (wr_income_treatment p \<noteq> None \<or> wr_expected_month p \<noteq> None))"

text \<open>The texts of the request are trimmed, then checked, in the order of the code.\<close>

definition trim_request :: "write_request \<Rightarrow> write_request" where
  "trim_request p = p\<lparr>wr_kind := map ascii_lower (trim (wr_kind p)), wr_date := trim (wr_date p),
     wr_description := trim (wr_description p)\<rparr>"

definition check_request :: "write_request \<Rightarrow> unit api" where
  "check_request p =
     (if (case wr_occurred_at p of Some v \<Rightarrow> \<not> valid_transaction_timestamp v | None \<Rightarrow> False)
         \<or> (wr_date_only p \<and> wr_occurred_at p \<noteq> None)
      then Inl (bad_request ''Use a full UTC timestamp, or a date-only transaction.'')
      else if \<not> valid_date (wr_date p) \<or> wr_description p = [] \<or> 500 < char_count (wr_description p)
      then Inl (bad_request ''A valid date and a description of at most 500 characters are required.'')
      else if wr_kind p \<notin> {''expense'', ''income'', ''transfer'', ''reallocate''}
      then Inl (bad_request ''Unsupported transaction kind.'')
      else Inr ())"

text \<open>Income without a category goes to Unallocated, unless it is a refund.\<close>

definition default_income_category :: "string \<Rightarrow> write_request \<Rightarrow> write_request" where
  "default_income_category unallocated p =
     (if wr_kind p = ''income'' \<and> wr_to_category p = None \<and> wr_income_treatment p \<noteq> Some ''refund''
      then p\<lparr>wr_to_category := Some unallocated\<rparr> else p)"

definition finish_request :: "string \<Rightarrow> write_request \<Rightarrow> write_request api" where
  "finish_request unallocated p =
     (let q = default_income_category unallocated (p\<lparr>wr_from_category := trimmed_id (wr_from_category p),
          wr_to_category := trimmed_id (wr_to_category p), wr_from_account := trimmed_id (wr_from_account p),
          wr_to_account := trimmed_id (wr_to_account p)\<rparr>)
      in if wr_kind q = ''expense'' \<and> wr_from_category q = Some unallocated
            \<or> wr_income_treatment q = Some ''refund'' \<and> wr_to_category q = Some unallocated
         then Inl (bad_request
           ''Allocate Unallocated funds to a spending category first; refunds restore a spending category.'')
         else Inr q)"

definition normalize_db_transaction_write :: "string \<Rightarrow> write_request \<Rightarrow> write_request api" where
  "normalize_db_transaction_write unallocated payload =
     (let p = trim_request payload in
      and_then (check_request p) (\<lambda>_.
      and_then (round_positive (wr_amount p) ''amount'') (\<lambda>amt.
      and_then (round_to_amount (wr_to_amount p)) (\<lambda>to_amt.
      let currency = normalize_currency (wr_currency p) in
      if (case currency of Some c \<Rightarrow> c \<notin> {''EUR'', ''PHP'', ''USD''} | None \<Rightarrow> False)
      then Inl (bad_request ''currency must be EUR, PHP, or USD.'')
      else if income_options_invalid p
      then Inl (bad_request ''Choose valid income treatment and expected-income month.'')
      else finish_request unallocated (p\<lparr>wr_amount := amt, wr_to_amount := to_amt, wr_currency := currency\<rparr>)))))"

section \<open>Facts on the normalization\<close>

lemma round_positive_E:
  assumes "round_positive v f = Inr t"
  shows "canonical_text t" and "0 < text_value t" and "\<exists>k::int. text_value t = of_int k / 100"
    and "2 * \<bar>100 * text_value t - 100 * text_value v\<bar> \<le> 1"
    and "length t \<le> 64 \<Longrightarrow> round_positive t g = Inr t"
proof -
  from assms have r: "round_posted_decimal_text v 2 = Inr t" and t: "t \<noteq> ''0''" "\<not> starts_with t ''-''"
    by (auto simp: round_positive_def result_simps split: if_splits)
  show c: "canonical_text t" using round_posted_stable(1) [OF r] by simp
  from c t(2) have "0 \<le> text_value t" by (auto elim!: canonical_text_E simp: starts_with_minus_format)
  moreover have "text_value t \<noteq> 0" using t(1) c money.canon_unique [of t "''0''"] money.zero_canon money.zero_val by auto
  ultimately show "0 < text_value t" by simp
  from round_posted_nearest [OF r] obtain k where k: "text_value t = of_int k / 10 ^ 2"
    "2 * \<bar>of_int k - text_value v * 10 ^ 2\<bar> \<le> 1" by auto
  then show "\<exists>k::int. text_value t = of_int k / 100" by auto
  show "2 * \<bar>100 * text_value t - 100 * text_value v\<bar> \<le> 1" using k by (simp add: mult.commute)
  show "round_positive t g = Inr t" if "length t \<le> 64"
    using that t round_posted_stable(2) [OF r] by (simp add: round_positive_def)
qed

lemma normalize_E:
  assumes "normalize_db_transaction_write u p = Inr q"
  obtains amt to_amt where "check_request (trim_request p) = Inr ()"
    "round_positive (wr_amount p) ''amount'' = Inr amt" "round_to_amount (wr_to_amount p) = Inr to_amt"
    "case normalize_currency (wr_currency p) of Some c \<Rightarrow> c \<in> {''EUR'', ''PHP'', ''USD''} | None \<Rightarrow> True"
    "\<not> income_options_invalid (trim_request p)"
    "finish_request u ((trim_request p)\<lparr>wr_amount := amt, wr_to_amount := to_amt,
       wr_currency := normalize_currency (wr_currency p)\<rparr>) = Inr q"
proof -
  have f: "wr_amount (trim_request p) = wr_amount p" "wr_to_amount (trim_request p) = wr_to_amount p"
    "wr_currency (trim_request p) = wr_currency p" by (simp_all add: trim_request_def)
  from assms [unfolded normalize_db_transaction_write_def Let_def f] show ?thesis
    by (auto simp: result_simps split: if_splits option.splits intro: that)
qed

lemma trimmed_id_idem [simp]: "trimmed_id (trimmed_id v) = trimmed_id v"
  by (auto simp: trimmed_id_def split: option.split)

lemma trim_currency: "c \<in> {''EUR'', ''PHP'', ''USD''} \<Longrightarrow> map ascii_upper (trim c) = c"
  by (auto simp: trim_id ascii_upper_def)

lemma normalize_currency_idem:
  "case normalize_currency v of Some c \<Rightarrow> c \<in> {''EUR'', ''PHP'', ''USD''} | None \<Rightarrow> True \<Longrightarrow>
     normalize_currency (normalize_currency v) = normalize_currency v"
  by (cases "normalize_currency v") (auto simp: normalize_currency_def [of "Some c" for c] trim_currency
      simp: normalize_currency_def [of None] Let_def)

lemma finish_request_E:
  assumes "finish_request u p = Inr q"
  shows "q = default_income_category u (p\<lparr>wr_from_category := trimmed_id (wr_from_category p),
          wr_to_category := trimmed_id (wr_to_category p), wr_from_account := trimmed_id (wr_from_account p),
          wr_to_account := trimmed_id (wr_to_account p)\<rparr>)"
    and "\<not> (wr_kind q = ''expense'' \<and> wr_from_category q = Some u)"
    and "\<not> (wr_income_treatment q = Some ''refund'' \<and> wr_to_category q = Some u)"
  using assms by (auto simp: finish_request_def Let_def split: if_splits)


lemma check_request_cong:
  "wr_occurred_at q = wr_occurred_at p \<Longrightarrow> wr_date_only q = wr_date_only p \<Longrightarrow> wr_date q = wr_date p \<Longrightarrow>
   wr_description q = wr_description p \<Longrightarrow> wr_kind q = wr_kind p \<Longrightarrow> check_request q = check_request p"
  by (simp only: check_request_def)

lemma round_to_amount_again:
  assumes "round_to_amount v = Inr w" and "\<forall>a. w = Some a \<longrightarrow> length a \<le> 64"
  shows "round_to_amount w = Inr w"
proof (cases v)
  case None
  with assms(1) show ?thesis by (auto simp: round_to_amount_def)
next
  case (Some a)
  with assms(1) obtain t where t: "round_positive a ''toAmount'' = Inr t" "w = Some t"
    by (auto simp: round_to_amount_def result_simps)
  have "length t \<le> 64" using assms(2) t(2) by simp
  with round_positive_E(5) [OF t(1)] t(2) show ?thesis by (simp add: round_to_amount_def)
qed

lemma default_income_fields [simp]:
  "wr_kind (default_income_category u p) = wr_kind p" "wr_date (default_income_category u p) = wr_date p"
  "wr_description (default_income_category u p) = wr_description p" "wr_amount (default_income_category u p) = wr_amount p"
  "wr_to_amount (default_income_category u p) = wr_to_amount p" "wr_currency (default_income_category u p) = wr_currency p"
  "wr_income_treatment (default_income_category u p) = wr_income_treatment p"
  "wr_expected_month (default_income_category u p) = wr_expected_month p"
  "wr_occurred_at (default_income_category u p) = wr_occurred_at p" "wr_date_only (default_income_category u p) = wr_date_only p"
  "wr_from_category (default_income_category u p) = wr_from_category p"
  "wr_from_account (default_income_category u p) = wr_from_account p" "wr_to_account (default_income_category u p) = wr_to_account p"
  by (simp_all add: default_income_category_def)

lemma default_income_again:
  "default_income_category u (default_income_category u p) = default_income_category u p"
  by (simp add: default_income_category_def)

text \<open>A normalized request, as long as its amounts stay within the length limit, is its own normal form.\<close>

lemma normalize_again:
  assumes n: "normalize_db_transaction_write u p = Inr q" and u: "trimmed_id (Some u) = Some u"
    and len: "length (wr_amount q) \<le> 64" "\<forall>a. wr_to_amount q = Some a \<longrightarrow> length a \<le> 64"
  shows "normalize_db_transaction_write u q = Inr q"
proof -
  from n obtain amt to_amt where c: "check_request (trim_request p) = Inr ()"
    and a: "round_positive (wr_amount p) ''amount'' = Inr amt" "round_to_amount (wr_to_amount p) = Inr to_amt"
    and cur: "case normalize_currency (wr_currency p) of Some c \<Rightarrow> c \<in> {''EUR'', ''PHP'', ''USD''} | None \<Rightarrow> True"
    and inc: "\<not> income_options_invalid (trim_request p)"
    and fin: "finish_request u ((trim_request p)\<lparr>wr_amount := amt, wr_to_amount := to_amt,
       wr_currency := normalize_currency (wr_currency p)\<rparr>) = Inr q"
    by (rule normalize_E)
  note q = finish_request_E [OF fin]
  have fields: "wr_kind q = wr_kind (trim_request p)" "wr_date q = wr_date (trim_request p)"
    "wr_description q = wr_description (trim_request p)" "wr_occurred_at q = wr_occurred_at (trim_request p)"
    "wr_date_only q = wr_date_only (trim_request p)" "wr_amount q = amt" "wr_to_amount q = to_amt"
    "wr_currency q = normalize_currency (wr_currency p)" "wr_income_treatment q = wr_income_treatment (trim_request p)"
    "wr_expected_month q = wr_expected_month (trim_request p)"
    "wr_from_category q = trimmed_id (wr_from_category p)" "wr_from_account q = trimmed_id (wr_from_account p)"
    "wr_to_account q = trimmed_id (wr_to_account p)"
    by (simp_all add: q(1)) (simp_all add: trim_request_def)
  have kind: "wr_kind q \<in> {''expense'', ''income'', ''transfer'', ''reallocate''}"
    using c fields(1) by (auto simp: check_request_def split: if_splits)
  then have k: "map ascii_lower (trim (wr_kind q)) = wr_kind q" by (auto simp: trim_id ascii_lower_def)
  have t: "trim_request q = q"
    using k by (simp add: trim_request_def fields(2,3))
  have c': "check_request q = Inr ()"
    using c check_request_cong [OF fields(4,5,2,3,1)] by simp
  have i': "\<not> income_options_invalid q"
    using inc by (simp add: income_options_invalid_def fields)
  have to: "trimmed_id (wr_to_category q) = wr_to_category q"
    using u by (subst (1 2) q(1)) (simp add: default_income_category_def)
  have dflt: "default_income_category u q = q"
    using q(1) default_income_again by metis
  have ids: "trimmed_id (wr_from_category q) = wr_from_category q" "trimmed_id (wr_from_account q) = wr_from_account q"
    "trimmed_id (wr_to_account q) = wr_to_account q"
    by (simp_all add: fields(11-13))
  have "finish_request u q = Inr q"
    using q(2,3) dflt by (simp add: finish_request_def to ids)
  moreover have "round_positive (wr_amount q) ''amount'' = Inr (wr_amount q)"
    using round_positive_E(5) [OF a(1)] len(1) by (simp add: fields(6))
  moreover have "round_to_amount (wr_to_amount q) = Inr (wr_to_amount q)"
    using round_to_amount_again [OF a(2)] len(2) by (simp add: fields(7))
  moreover have "normalize_currency (wr_currency q) = wr_currency q"
    unfolding fields(8) by (rule normalize_currency_idem [OF cur])
  moreover have "\<not> (case wr_currency q of Some c \<Rightarrow> c \<notin> {''EUR'', ''PHP'', ''USD''} | None \<Rightarrow> False)"
    using cur by (simp add: fields(8) split: option.splits)
  ultimately show ?thesis
    using c' i' by (simp add: normalize_db_transaction_write_def t)
qed

section \<open>Facts on dates\<close>

lemma month_length_max_day:
  "0 \<le> y \<Longrightarrow> month_length y m = (if 1 \<le> m \<and> m \<le> 12 then Some (max_day_of y m) else None)"
proof -
  assume y: "0 \<le> y"
  have leap: "is_leap_year y \<longleftrightarrow> y mod 400 = 0 \<or> y mod 4 = 0 \<and> y mod 100 \<noteq> 0"
    using y by (auto simp: is_leap_year_def smod_nonneg)
  show ?thesis
  proof (cases "1 \<le> m \<and> m \<le> 12")
    case True
    then have "m \<in> {1, 3, 5, 7, 8, 10, 12} \<or> m \<in> {4, 6, 9, 11} \<or> m = 2" by auto presburger
    with True leap show ?thesis by (auto simp: month_length_def max_day_of_def)
  next
    case False
    then show ?thesis by (auto simp: month_length_def)
  qed
qed

text \<open>A part of a date has no minus sign, so that the signed and the unsigned parser agree on it.\<close>

lemma split_on_parts: "\<forall>p\<in>set (split_on P s). \<forall>c\<in>set p. \<not> P c"
  by (induction s) (auto split: list.split)

lemma parse_u32_iff_i64:
  assumes "CHR ''-'' \<notin> set s" and "length s \<le> 9"
  shows "parse_u32 s = parse_i64 s"
proof -
  have small: "digits_value ds < 10 ^ 9" if "list_all is_digit ds" "length ds \<le> 9" for ds
  proof -
    have "digits_value ds < 10 ^ length ds" using that(1) by (rule digits_value_bound)
    also have "(10 :: nat) ^ length ds \<le> 10 ^ 9" using that(2) by (rule power_increasing) simp
    finally show ?thesis .
  qed
  show ?thesis
  proof (cases s)
    case Nil
    then show ?thesis by (simp add: parse_u32_def parse_i64_def parse_int_in_def)
  next
    case (Cons c cs)
    with assms have c: "c \<noteq> CHR ''-''" and l: "length cs \<le> 9" "length (c # cs) \<le> 9" by auto
    show ?thesis
    proof (cases "c = CHR ''+''")
      case True
      with small [of cs] l show ?thesis
        by (auto simp: parse_u32_def parse_i64_def parse_int_in_def Cons)
    next
      case False
      with c small [of "c # cs"] l show ?thesis
        by (auto simp: parse_u32_def parse_i64_def parse_int_in_def Cons)
    qed
  qed
qed


lemma parse_i64_fields:
  assumes "\<forall>p\<in>set parts. CHR ''-'' \<notin> set p \<and> length p \<le> 9"
  shows "map_result (\<lambda>part. ok_or (parse_i64 part) e) parts = map_result (\<lambda>part. ok_or (parse_u32 part) e) parts"
  using assms by (induction parts) (simp_all add: parse_u32_iff_i64)

lemma parse_u32_nonneg: "parse_u32 s = Some n \<Longrightarrow> 0 \<le> n"
  by (auto simp: parse_u32_def dest: parse_int_in_bounds)

text \<open>The date check of the requests, in terms of the date parser of the money module.\<close>

lemma year_u32: "parse_u32 s = Some y \<Longrightarrow> \<bar>y\<bar> \<le> 25 * 10 ^ 15"
  by (auto simp: parse_u32_def dest: parse_int_in_bounds)

lemma valid_date_E:
  assumes "valid_date v"
  obtains a b c y m d where "split_on (\<lambda>c. c = CHR ''-'') v = [a, b, c]" "length a = 4" "length b = 2" "length c = 2"
    "parse_u32 a = Some y" "parse_u32 b = Some m" "parse_u32 c = Some d" "valid_civil y m d" "0 < y"
    "parse_date v = Inr (days_from_civil y m d)"
proof -
  from assms obtain a b c y m d n where s: "split_on (\<lambda>c. c = CHR ''-'') v = [a, b, c]"
    and l: "length a = 4" "length b = 2" "length c = 2"
    and p: "parse_u32 a = Some y" "parse_u32 b = Some m" "parse_u32 c = Some d"
    and n: "month_length y m = Some n" "0 < y" "0 < d" "d \<le> n"
    by (auto simp: valid_date_def split: list.splits option.splits)
  have "\<forall>p\<in>set [a, b, c]. CHR ''-'' \<notin> set p \<and> length p \<le> 9"
    using split_on_parts [of "\<lambda>c. c = CHR ''-''" v] l by (auto simp: s)
  then have parts: "map_result (\<lambda>part. ok_or (parse_i64 part) e) [a, b, c] = Inr [y, m, d]" for e :: string
    by (subst parse_i64_fields) (simp_all add: p)
  have m: "1 \<le> m" "m \<le> 12" "max_day_of y m = n"
    using n month_length_max_day [of y m] by (auto split: if_splits)
  then have v: "valid_civil y m d" using n by (simp add: valid_civil_def)
  moreover have "parse_date v = Inr (days_from_civil y m d)"
    using m n parts days_from_civil_small(1) [OF v year_u32 [OF p(1)]] by (simp add: parse_date_def s)
  ultimately show ?thesis using that s l p n(2) by blast
qed

lemma valid_date_iff_parse:
  "valid_date v \<longleftrightarrow> map length (split_on (\<lambda>c. c = CHR ''-'') v) = [4, 2, 2]
     \<and> (\<exists>n. parse_date v = Inr n \<and> 0 < fst (civil_date_from_days n))"
proof
  assume "valid_date v"
  then show "map length (split_on (\<lambda>c. c = CHR ''-'') v) = [4, 2, 2]
     \<and> (\<exists>n. parse_date v = Inr n \<and> 0 < fst (civil_date_from_days n))"
    by (rule valid_date_E) (simp add: civil_date_from_days_from_civil)
next
  assume a: "map length (split_on (\<lambda>c. c = CHR ''-'') v) = [4, 2, 2]
     \<and> (\<exists>n. parse_date v = Inr n \<and> 0 < fst (civil_date_from_days n))"
  then obtain a b c n where s: "split_on (\<lambda>c. c = CHR ''-'') v = [a, b, c]" "length a = 4" "length b = 2" "length c = 2"
    and n: "parse_date v = Inr n" "0 < fst (civil_date_from_days n)"
    by (auto simp: map_eq_Cons_conv)
  have "\<forall>p\<in>set [a, b, c]. CHR ''-'' \<notin> set p \<and> length p \<le> 9"
    using split_on_parts [of "\<lambda>c. c = CHR ''-''" v] s by auto
  note fields = parse_i64_fields [OF this]
  from n(1) obtain y m d where p: "map_result (\<lambda>part. ok_or (parse_i64 part) ''invalid date'') [a, b, c] = Inr [y, m, d]"
    and b: "1 \<le> m" "m \<le> 12" "1 \<le> d" "d \<le> max_day_of y m" "n = days_from_civil_i64 y m d"
    unfolding parse_date_def s(1)
    by (auto simp: result_simps Let_def list_all2_Cons1 split: if_splits)
  from p [unfolded fields] have u: "parse_u32 a = Some y" "parse_u32 b = Some m" "parse_u32 c = Some d"
    by (auto simp: result_simps)
  have v: "valid_civil y m d" using b by (simp add: valid_civil_def)
  then have "0 < y" using n(2) b(5) days_from_civil_small(1) [OF v year_u32 [OF u(1)]] by (simp add: civil_date_from_days_from_civil)
  then show "valid_date v"
    using s u b month_length_max_day [of y m] by (simp add: valid_date_def)
qed

end
