(* ===== verification/Plans.thy ===== *)
theory Plans
  imports Activation Validation
begin

text \<open>
  The handlers of \<open>server.rs\<close> that change the plan: new categories, monthly amounts, expected
  income, the completion of an expectation and the closing of a month. \<open>actor\<close> is the outcome of
  the origin check and of the session lookup (theory \<open>Sessions\<close>), \<open>enabled\<close> a flag of the
  configuration; fresh identifiers are arguments. A handler returns its JSON response with the
  next database, or the HTTP error; the transaction of a failing handler is rolled back.
\<close>

section \<open>Operations and periods\<close>

definition insert_operation :: "db \<Rightarrow> operation_row \<Rightarrow> db result" where
  "insert_operation db o' =
     (if list_ex (\<lambda>x. op_id x = op_id o') (operations_table db)
      then Inl ''UNIQUE constraint failed: finance_operations.operation_id''
      else Inr (db\<lparr>operations_table := operations_table db @ [o']\<rparr>))"

definition find_operation :: "db \<Rightarrow> string \<Rightarrow> operation_row option" where
  "find_operation db i = first_row (filter (\<lambda>x. op_id x = i) (operations_table db))"

text \<open>An audited change: the operation whose response is the audit and whose fingerprint is its digest.\<close>

definition audit_operation :: "'d platform \<Rightarrow> string \<Rightarrow> string \<Rightarrow> json \<Rightarrow> operation_row" where
  "audit_operation P operation subject audit =
     \<lparr>op_id = operation, op_actor = subject, op_fingerprint = sha256_hex P (write_json P audit),
      op_response = write_json P audit\<rparr>"

text \<open>The \<open>GLOB\<close> check of the month columns.\<close>

definition month_glob :: "string \<Rightarrow> bool" where
  "month_glob m \<longleftrightarrow> length m = 7 \<and> list_all is_digit (take 4 m) \<and> m ! 4 = CHR ''-'' \<and> list_all is_digit (drop 5 m)"

definition insert_period :: "db \<Rightarrow> period_row \<Rightarrow> db result" where
  "insert_period db p =
     (if \<not> month_glob (per_start_month p) then Inl ''CHECK constraint failed: effective_start_month''
      else if list_ex (\<lambda>x. per_category x = per_category p \<and> per_start_month x = per_start_month p) (periods_table db)
      then Inl ''UNIQUE constraint failed: category_budget_periods''
      else Inr (db\<lparr>periods_table := periods_table db @ [p]\<rparr>))"

definition same_period :: "string \<Rightarrow> string \<Rightarrow> period_row \<Rightarrow> bool" where
  "same_period category m x \<longleftrightarrow> per_category x = category \<and> per_start_month x = m"

definition upsert_period :: "db \<Rightarrow> period_row \<Rightarrow> db result" where
  "upsert_period db p =
     (if list_ex (same_period (per_category p) (per_start_month p)) (periods_table db)
      then Inr (db\<lparr>periods_table := map (\<lambda>x. if same_period (per_category p) (per_start_month p) x
        then x\<lparr>per_base_monthly := per_base_monthly p\<rparr> else x) (periods_table db)\<rparr>)
      else insert_period db p)"

definition delete_period :: "db \<Rightarrow> string \<Rightarrow> string \<Rightarrow> db" where
  "delete_period db category m =
     db\<lparr>periods_table := filter (\<lambda>x. \<not> same_period category m x) (periods_table db)\<rparr>"

definition insert_category_opening :: "db \<Rightarrow> opening_row \<Rightarrow> db result" where
  "insert_category_opening db o' =
     (if \<not> month_glob (open_before_month o') then Inl ''CHECK constraint failed: effective_before_month''
      else if list_ex (\<lambda>x. open_category x = open_category o' \<and> open_before_month x = open_before_month o') (openings_table db)
      then Inl ''UNIQUE constraint failed: budget_opening_state''
      else Inr (db\<lparr>openings_table := openings_table db @ [o']\<rparr>))"

definition closed_from :: "db \<Rightarrow> string \<Rightarrow> bool" where
  "closed_from db m = list_ex (\<lambda>c. m \<le> clo_month c) (closures_table db)"

text \<open>The categories a request may name.\<close>

definition named_category :: "db \<Rightarrow> string \<Rightarrow> category_row option" where
  "named_category db name = first_row (filter (\<lambda>c. cat_name c = name \<and> cat_is_real c \<and> cat_id c \<noteq> UNALLOCATED)
     (categories_table db))"

text \<open>A posted amount that is not negative.\<close>

definition posted_budget :: "string \<Rightarrow> string \<Rightarrow> string \<Rightarrow> string api" where
  "posted_budget invalid negative v =
     and_then (map_err (\<lambda>_. bad_request invalid) (round_posted_decimal_text v 2)) (\<lambda>amt.
       if starts_with amt ''-'' then Inl (bad_request negative) else Inr amt)"

definition sync_api :: "'d platform \<Rightarrow> db \<Rightarrow> string option \<Rightarrow> db api option" where
  "sync_api P db operation = map_option internal (sync P db operation)"

section \<open>New categories\<close>

text \<open>\<open>char::is_control\<close> on UTF-8: U+0000 to U+001F, U+007F, and U+0080 to U+009F.\<close>

definition has_control :: "string \<Rightarrow> bool" where
  "has_control s \<longleftrightarrow> list_ex (\<lambda>c. (of_char c :: nat) < 32 \<or> (of_char c :: nat) = 127) s
     \<or> list_ex (\<lambda>(a, b). (of_char a :: nat) = 194 \<and> 128 \<le> (of_char b :: nat) \<and> (of_char b :: nat) < 160) (zip s (tl s))"

definition category_name_message :: string where
  "category_name_message = ''Enter a category name of 1'' @ map char_of [226, 128, 147 :: nat]
     @ ''80 characters and a valid monthly amount.''"

definition next_source_row :: "db \<Rightarrow> int" where
  "next_source_row db = (case last_max cat_source_row (categories_table db) of None \<Rightarrow> 0 | Some c \<Rightarrow> cat_source_row c) + 1"

definition category_audit :: "string \<Rightarrow> string \<Rightarrow> string \<Rightarrow> string \<Rightarrow> json" where
  "category_audit i name amt m = JObj [(''categoryCreated'', JBool True), (''categoryId'', JStr i), (''name'', JStr name),
     (''monthlyAmount'', JStr amt), (''effectiveStartMonth'', JStr m)]"

text \<open>The rows of a new category: no opening balance, a zero plan from the first month, its amount from now.\<close>

definition add_category_rows :: "'d platform \<Rightarrow> db \<Rightarrow> string \<Rightarrow> string \<Rightarrow> string \<Rightarrow> string \<Rightarrow> string \<Rightarrow> string \<Rightarrow> db result" where
  "add_category_rows P db first subject i name amt m =
     and_then (insert_category db \<lparr>cat_id = i, cat_name = name, cat_is_real = True,
        cat_source_row = next_source_row db\<rparr>) (\<lambda>d1.
     and_then (insert_category_opening d1 \<lparr>open_category = i, open_before_month = first, open_remaining = ''0'',
        open_verified_by = subject, open_source = ''{}''\<rparr>) (\<lambda>d2.
     and_then (insert_period d2 \<lparr>per_category = i, per_start_month = first, per_base_monthly = Some ''0''\<rparr>) (\<lambda>d3.
     upsert_period d3 \<lparr>per_category = i, per_start_month = m, per_base_monthly = Some amt\<rparr>)))"

definition create_budget_category ::
  "'d platform \<Rightarrow> string api \<Rightarrow> bool \<Rightarrow> string \<Rightarrow> string \<Rightarrow> string \<Rightarrow> string \<Rightarrow> db \<Rightarrow> (json \<times> db) api option" where
  "create_budget_category P actor enabled payload_name monthly_amount i operation db =
     returned (Some (and_then actor (\<lambda>subject.
       and_then (guard enabled (unavailable ''Finance changes are unavailable.'')) (\<lambda>_.
       let name = trim payload_name in
       and_then (guard (\<not> (name = [] \<or> 80 < char_count name \<or> has_control name \<or> 64 < length monthly_amount))
         (bad_request category_name_message)) (\<lambda>_.
       and_then (posted_budget ''Enter a valid monthly amount.'' ''Monthly budgets cannot be negative.'' monthly_amount)
         (\<lambda>amt.
       and_then (guard (\<not> list_ex (\<lambda>c. lowercase P (trim (cat_name c)) = lowercase P name) (categories_table db))
         (conflict ''A category with this name already exists.'')) (\<lambda>_.
       and_then (map_err conflict (require_open P db (this_month P))) (\<lambda>_.
       Inr (subject, name, amt))))))))) (\<lambda>(subject, name, amt).
     returned (sync_api P db None) (\<lambda>d.
     returned (Some (and_then (internal (first_month P d)) (\<lambda>f. ok_or f internal_error))) (\<lambda>first.
     returned (Some (internal (add_category_rows P d first subject i name amt (this_month P)))) (\<lambda>d1.
     let audit = category_audit i name amt (this_month P) in
     returned (Some (internal (insert_operation d1 (audit_operation P operation subject audit)))) (\<lambda>d2.
     returned (sync_api P d2 (Some operation)) (\<lambda>d3. Some (Inr (audit, d3))))))))"

section \<open>Monthly amounts\<close>

record budget_amount =
  ba_name :: string
  ba_amount :: string

record budget_request =
  br_start_month :: string
  br_categories :: "budget_amount list"

definition cancel_audit :: "budget_request \<Rightarrow> json" where
  "cancel_audit p = JObj [(''scheduledBudgetCancelled'', JBool True), (''month'', JStr (br_start_month p)),
     (''categories'', JArr (map (\<lambda>c. JStr (ba_name c)) (br_categories p)))]"

text \<open>The deletion of one scheduled amount, by the name of its category.\<close>

definition cancel_amount :: "string \<Rightarrow> db \<Rightarrow> budget_amount \<Rightarrow> db" where
  "cancel_amount m db c =
     db\<lparr>periods_table := filter (\<lambda>x. \<not> (per_start_month x = m
       \<and> list_ex (\<lambda>k. cat_id k = per_category x \<and> cat_name k = ba_name c \<and> cat_is_real k \<and> cat_id k \<noteq> UNALLOCATED)
           (categories_table db))) (periods_table db)\<rparr>"

definition cancel_monthly_budget ::
  "'d platform \<Rightarrow> string api \<Rightarrow> bool \<Rightarrow> budget_request \<Rightarrow> string \<Rightarrow> db \<Rightarrow> (json \<times> db) api" where
  "cancel_monthly_budget P actor enabled payload operation db =
     and_then actor (\<lambda>subject.
     and_then (guard enabled (unavailable ''Finance changes are unavailable.'')) (\<lambda>_.
     and_then (guard (\<not> (\<not> valid_month (br_start_month payload) \<or> br_start_month payload \<le> this_month P
         \<or> br_categories payload = [])) (bad_request ''Only future scheduled changes can be cancelled.'')) (\<lambda>_.
     and_then (guard (\<not> closed_from db (br_start_month payload)) (conflict ''This plan affects a closed month.'')) (\<lambda>_.
     let d = foldl (cancel_amount (br_start_month payload)) db (br_categories payload) in
     and_then (internal (insert_operation d (audit_operation P operation subject (cancel_audit payload)))) (\<lambda>d'.
     Inr (JObj [(''cancelled'', JBool True)], d'))))))"

text \<open>The loop of \<open>save_monthly_budget\<close>: the database, the changes for the audit, the names seen.\<close>

definition scheduled_amount :: "db \<Rightarrow> string \<Rightarrow> string \<Rightarrow> string option" where
  "scheduled_amount db category m = Option.bind (first_row (filter (same_period category m) (periods_table db))) per_base_monthly"

definition json_option :: "string option \<Rightarrow> json" where
  "json_option v = (case v of None \<Rightarrow> JNull | Some t \<Rightarrow> JStr t)"

definition save_amount ::
  "string \<Rightarrow> db \<times> json list \<times> string list \<Rightarrow> budget_amount \<Rightarrow> (db \<times> json list \<times> string list) api" where
  "save_amount m = (\<lambda>(d, changes, seen) c.
     and_then (guard (ba_name c \<notin> set seen \<and> length (ba_amount c) \<le> 64)
       (bad_request ''Enter each category once with a valid amount.'')) (\<lambda>_.
     and_then (posted_budget ''Enter a valid monthly budget amount.'' ''Monthly budgets cannot be negative.'' (ba_amount c))
       (\<lambda>amt.
     and_then (ok_or (named_category d (ba_name c)) (bad_request ''Choose a real budget category.'')) (\<lambda>k.
     let change = JObj [(''categoryId'', JStr (cat_id k)),
           (''previousScheduledAmountEur'', json_option (scheduled_amount d (cat_id k) m)),
           (''newAmountEur'', JStr amt)] in
     and_then (internal (insert_period (delete_period d (cat_id k) m)
        \<lparr>per_category = cat_id k, per_start_month = m, per_base_monthly = Some amt\<rparr>)) (\<lambda>d'.
     Inr (d', changes @ [change], ba_name c # seen))))))"

definition save_audit :: "string \<Rightarrow> json list \<Rightarrow> json" where
  "save_audit m changes = JObj [(''monthlyBudgetSaved'', JBool True), (''effectiveStartMonth'', JStr m), (''changes'', JArr changes)]"

definition save_monthly_budget ::
  "'d platform \<Rightarrow> string api \<Rightarrow> bool \<Rightarrow> budget_request \<Rightarrow> string \<Rightarrow> db \<Rightarrow> (json \<times> db) api option" where
  "save_monthly_budget P actor enabled payload operation db =
     returned (Some (and_then actor (\<lambda>subject.
       and_then (guard enabled (unavailable ''Database finance writes are not enabled.'')) (\<lambda>_.
       and_then (internal (initialize P db)) (\<lambda>d.
       let m = br_start_month payload in
       and_then (guard (\<not> (\<not> valid_month m \<or> m < this_month P \<or> br_categories payload = []))
         (bad_request ''Budget changes must start in the current Madrid month or a future month.'')) (\<lambda>_.
       and_then (guard (\<not> closed_from d m) (conflict ''A current or future budget month is closed.'')) (\<lambda>_.
       and_then (fold_result (save_amount m) (d, [], []) (br_categories payload)) (\<lambda>(d', changes, _).
       internal (insert_operation d' (audit_operation P operation subject (save_audit m changes))))))))))) (\<lambda>d''.
     returned (sync_api P d'' (Some operation)) (\<lambda>d3. Some (Inr (JObj [(''saved'', JBool True)], d3))))"

section \<open>Expected income\<close>

record income_request =
  ir_start_month :: string
  ir_amount :: string
  ir_currency :: string
  ir_arrival_day :: int

definition income_audit :: "income_request \<Rightarrow> string \<Rightarrow> json" where
  "income_audit p amt = JObj [(''expectedIncomeSaved'', JBool True), (''effectiveStartMonth'', JStr (ir_start_month p)),
     (''amount'', JStr amt), (''currency'', JStr (ir_currency p)), (''arrivalDay'', JInt (ir_arrival_day p))]"

definition upsert_expectation :: "expectation_row \<Rightarrow> expectation_row list \<Rightarrow> expectation_row list" where
  "upsert_expectation e es =
     (if list_ex (\<lambda>x. exp_start_month x = exp_start_month e) es
      then map (\<lambda>x. if exp_start_month x = exp_start_month e then e else x) es
      else es @ [e])"

text \<open>The months whose plan follows the setting: not completed and not closed.\<close>

definition open_plans :: "db \<Rightarrow> string \<Rightarrow> string list" where
  "open_plans db m = sort_key id (map plan_month (filter (\<lambda>p. m \<le> plan_month p \<and> plan_completed_month p = None
     \<and> \<not> month_closed db (plan_month p)) (plan_income_table db)))"

text \<open>\<open>load_rates\<close> of the read model: the observations of the two foreign currencies.\<close>

definition load_rates :: "db \<Rightarrow> rate_observation list" where
  "load_rates db =
     map (\<lambda>r. \<lparr>obs_currency = the (xr_quote r), obs_date = the (xr_date r), currency_units_per_eur = the (xr_rate r)\<rparr>)
       (sort_key (\<lambda>r. (the (xr_date r), xr_id r))
         (filter (\<lambda>r. xr_provider r = Some ''ECB'' \<and> xr_base r = Some ''EUR''
            \<and> xr_quote r \<in> {Some ''PHP'', Some ''USD''} \<and> xr_date r \<noteq> None \<and> xr_rate r \<noteq> None) (rates_table db)))"

definition replan :: "rate_observation list \<Rightarrow> db \<Rightarrow> string \<Rightarrow> db result" where
  "replan observations db m =
     and_then (fetch_one (last_max exp_start_month (filter (\<lambda>e. exp_start_month e \<le> m) (expectations_table db)))) (\<lambda>e.
     and_then (account_balance_eur (exp_amount e) (exp_currency e) (m @ ''-01'') observations) (\<lambda>eur.
     Inr (db\<lparr>plan_income_table := map (\<lambda>p. if plan_month p = m
       then p\<lparr>plan_amount := exp_amount e, plan_currency := exp_currency e, plan_amount_eur := eur,
              plan_arrival_day := exp_arrival_day e\<rparr> else p) (plan_income_table db)\<rparr>)))"

text \<open>The checks of the request, before the transaction.\<close>

definition check_income_request :: "'d platform \<Rightarrow> income_request \<Rightarrow> string api" where
  "check_income_request P p =
     (if length (ir_start_month p) \<noteq> 7 \<or> \<not> valid_date (ir_start_month p @ ''-01'')
         \<or> \<not> (1 \<le> ir_arrival_day p \<and> ir_arrival_day p \<le> 31) \<or> 64 < length (ir_amount p)
         \<or> ir_currency p \<notin> {''EUR'', ''USD'', ''PHP''}
      then Inl (bad_request ''Enter a valid month, non-negative amount and arrival day from 1 to 31.'')
      else and_then (posted_budget ''Expected income must be a valid amount.'' ''Expected income cannot be negative.''
          (ir_amount p)) (\<lambda>amt.
        if ir_start_month p < this_month P
        then Inl (conflict ''Expected income settings must start in the current month or a future month.'')
        else Inr amt))"

definition save_expected_income ::
  "'d platform \<Rightarrow> string api \<Rightarrow> bool \<Rightarrow> income_request \<Rightarrow> string \<Rightarrow> db \<Rightarrow> (json \<times> db) api option" where
  "save_expected_income P actor enabled p operation db =
     returned (Some (and_then actor (\<lambda>subject.
       and_then (guard enabled (unavailable ''Database finance writes are not enabled.'')) (\<lambda>_.
       and_then (check_income_request P p) (\<lambda>amt.
       and_then (guard (\<not> closed_from db (ir_start_month p)) (conflict ''Expected income in closed months is frozen.'')) (\<lambda>_.
       and_then (internal (insert_operation db (audit_operation P operation subject (income_audit p amt)))) (\<lambda>d.
       let d' = d\<lparr>expectations_table := upsert_expectation \<lparr>exp_start_month = ir_start_month p, exp_amount = amt,
             exp_currency = ir_currency p, exp_arrival_day = ir_arrival_day p\<rparr> (expectations_table d)\<rparr> in
       internal (fold_result (replan (load_rates d')) d' (open_plans d' (ir_start_month p)))))))))) (\<lambda>d.
     returned (sync_api P d (Some operation)) (\<lambda>d'. Some (Inr (JObj [(''saved'', JBool True)], d'))))"

section \<open>The amounts after a save\<close>

text \<open>A save replaces the amount of the month by one row at the end.\<close>

definition set_period :: "string \<Rightarrow> string \<Rightarrow> string \<Rightarrow> period_row list \<Rightarrow> period_row list" where
  "set_period category m amt ps = filter (\<lambda>x. \<not> same_period category m x) ps
     @ [\<lparr>per_category = category, per_start_month = m, per_base_monthly = Some amt\<rparr>]"

lemma base_monthly_set:
  assumes "periods_table d' = set_period k m amt (periods_table d)"
  shows "base_monthly d' k m = Some amt"
    and "k' \<noteq> k \<or> m' < m \<Longrightarrow> base_monthly d' k' m' = base_monthly d k' m'"
proof -
  let ?ps = "filter (\<lambda>p. per_category p = k \<and> per_start_month p \<le> m) (filter (\<lambda>x. \<not> same_period k m x) (periods_table d))"
  have le: "\<not> m < per_start_month b" if "last_max per_start_month ?ps = Some b" for b
    using last_max_in [OF that] by (simp add: not_less)
  have "filter (\<lambda>p. per_category p = k \<and> per_start_month p \<le> m) (set_period k m amt (periods_table d))
      = ?ps @ [\<lparr>per_category = k, per_start_month = m, per_base_monthly = Some amt\<rparr>]"
    unfolding set_period_def filter_append by (simp only: filter.simps period_row.simps order.refl simp_thms if_True)
  then show "base_monthly d' k m = Some amt"
    using le by (cases "last_max per_start_month ?ps") (auto simp only: base_monthly_def assms last_max_snoc
      option.case period_row.simps bind.bind_lunit if_False)
  assume a: "k' \<noteq> k \<or> m' < m"
  have "filter (\<lambda>p. per_category p = k' \<and> per_start_month p \<le> m') (filter (\<lambda>x. \<not> same_period k m x) (periods_table d))
      = filter (\<lambda>p. per_category p = k' \<and> per_start_month p \<le> m') (periods_table d)"
    using a by (auto simp: same_period_def intro!: filter_cong)
  then have "filter (\<lambda>p. per_category p = k' \<and> per_start_month p \<le> m') (set_period k m amt (periods_table d))
      = filter (\<lambda>p. per_category p = k' \<and> per_start_month p \<le> m') (periods_table d)"
    using a by (auto simp: set_period_def)
  then show "base_monthly d' k' m' = base_monthly d k' m'" by (simp add: base_monthly_def assms)
qed

lemma posted_budget_E:
  "posted_budget e1 e2 v = Inr a \<longleftrightarrow> round_posted_decimal_text v 2 = Inr a \<and> \<not> starts_with a ''-''"
  by (auto simp: posted_budget_def result_simps split: if_splits)

lemma save_amount_E:
  assumes "save_amount m (d, changes, seen) c = Inr (d', changes', seen')"
  obtains amt k where "ba_name c \<notin> set seen" "seen' = ba_name c # seen" "round_posted_decimal_text (ba_amount c) 2 = Inr amt"
    "\<not> starts_with amt ''-''" "named_category d (ba_name c) = Some k"
    "d' = d\<lparr>periods_table := set_period (cat_id k) m amt (periods_table d)\<rparr>"
  using assms
  by (auto simp: save_amount_def Let_def result_simps insert_period_def delete_period_def set_period_def posted_budget_E
      split: if_splits)

lemma named_category_in: "named_category d n = Some k \<Longrightarrow> k \<in> set (categories_table d) \<and> cat_name k = n"
  unfolding named_category_def by (drule first_row_filter) simp

lemma save_amounts:
  assumes "fold_result (save_amount m) (d, [], []) cs = Inr (d', changes, seen)"
    and dist: "distinct (map cat_id (categories_table d))"
  shows "categories_table d' = categories_table d"
    and "\<forall>i m'. m' < m \<longrightarrow> base_monthly d' i m' = base_monthly d i m'"
    and "c \<in> set cs \<Longrightarrow> \<exists>k amt. named_category d (ba_name c) = Some k \<and> round_posted_decimal_text (ba_amount c) 2 = Inr amt
      \<and> \<not> starts_with amt ''-'' \<and> base_monthly d' (cat_id k) m = Some amt"
proof -
  let ?Inv = "\<lambda>(e :: db, changes :: json list, seen :: string list). categories_table e = categories_table d
     \<and> (\<forall>i m'. m' < m \<longrightarrow> base_monthly e i m' = base_monthly d i m')"
  let ?Q = "\<lambda>(e, changes :: json list, seen). ba_name c \<in> set seen \<and> (\<exists>k amt. named_category d (ba_name c) = Some k
     \<and> round_posted_decimal_text (ba_amount c) 2 = Inr amt \<and> \<not> starts_with amt ''-'' \<and> base_monthly e (cat_id k) m = Some amt)"
  have named: "named_category e n = named_category d n" if "categories_table e = categories_table d" for e n
    using that by (simp add: named_category_def)
  have inv: "?Inv t" if s: "?Inv s" and step: "save_amount m s y = Inr t" for s t y
  proof -
    obtain e ch seen where s': "s = (e, ch, seen)" by (cases s)
    obtain e' ch' seen' where t: "t = (e', ch', seen')" by (cases t)
    from step [unfolded s' t] show ?thesis
    proof (rule save_amount_E)
      fix amt k
      assume e': "e' = e\<lparr>periods_table := set_period (cat_id k) m amt (periods_table e)\<rparr>"
      have "base_monthly e' i m' = base_monthly e i m'" if "m' < m" for i m'
        by (rule base_monthly_set(2) [of _ "cat_id k" m amt]) (use that in \<open>simp_all add: e'\<close>)
      with s s' e' show "?Inv t" by (simp add: t)
    qed
  qed
  have "?Inv (d', changes, seen)"
    using assms(1) by (rule fold_result_invariant [where P = ?Inv]) (use inv in auto)
  then show "categories_table d' = categories_table d"
    "\<forall>i m'. m' < m \<longrightarrow> base_monthly d' i m' = base_monthly d i m'" by simp_all
  have est: "?Q t" if s: "?Inv s" and step: "save_amount m s c = Inr t" for s t
  proof -
    obtain e ch seen where s': "s = (e, ch, seen)" by (cases s)
    obtain e' ch' seen' where t: "t = (e', ch', seen')" by (cases t)
    have ne: "named_category e (ba_name c) = named_category d (ba_name c)" using s s' named [of e] by simp
    from step [unfolded s' t] show ?thesis
    proof (rule save_amount_E)
      fix amt k
      assume "seen' = ba_name c # seen" "round_posted_decimal_text (ba_amount c) 2 = Inr amt"
        "\<not> starts_with amt ''-''" "named_category e (ba_name c) = Some k"
        and e': "e' = e\<lparr>periods_table := set_period (cat_id k) m amt (periods_table e)\<rparr>"
      moreover have "base_monthly e' (cat_id k) m = Some amt"
        by (rule base_monthly_set(1) [of _ _ _ _ e]) (simp add: e')
      ultimately show "?Q t" using ne by (auto simp: t)
    qed
  qed
  have keep: "?Q t" if s: "?Inv s" and q: "?Q s" and step: "save_amount m s y = Inr t" for s t y
  proof -
    obtain e ch seen where s': "s = (e, ch, seen)" by (cases s)
    obtain e' ch' seen' where t: "t = (e', ch', seen')" by (cases t)
    from step [unfolded s' t] show ?thesis
    proof (rule save_amount_E)
      fix amt l
      assume n: "ba_name y \<notin> set seen" "seen' = ba_name y # seen" "named_category e (ba_name y) = Some l"
        and e': "e' = e\<lparr>periods_table := set_period (cat_id l) m amt (periods_table e)\<rparr>"
      from q [unfolded s'] obtain k a where k: "ba_name c \<in> set seen" "named_category d (ba_name c) = Some k"
        "round_posted_decimal_text (ba_amount c) 2 = Inr a" "\<not> starts_with a ''-''" "base_monthly e (cat_id k) m = Some a"
        by auto
      have "l \<in> set (categories_table d)" "cat_name l = ba_name y"
        using named_category_in [OF n(3)] s s' by auto
      moreover have "k \<in> set (categories_table d)" "cat_name k = ba_name c"
        using named_category_in [OF k(2)] by auto
      ultimately have "cat_id k \<noteq> cat_id l"
        using dist n(1) k(1) by (metis distinct_map inj_onD)
      then have "base_monthly e' (cat_id k) m = Some a"
        using base_monthly_set(2) [of e' "cat_id l" m amt e "cat_id k" m] k(5) e' by simp
      with k n show "?Q t" by (auto simp: t)
    qed
  qed
  show "c \<in> set cs \<Longrightarrow> \<exists>k amt. named_category d (ba_name c) = Some k \<and> round_posted_decimal_text (ba_amount c) 2 = Inr amt
      \<and> \<not> starts_with amt ''-'' \<and> base_monthly d' (cat_id k) m = Some amt"
  proof -
    assume c: "c \<in> set cs"
    have "?Q (d', changes, seen)"
    proof (rule fold_result_eventually [OF assms(1) c, where Inv = ?Inv and Q = ?Q])
      show "?Inv (d, [], [])" by simp
    next
      fix s y t
      assume "?Inv s" "save_amount m s y = Inr t"
      then show "?Inv t" by (rule inv)
    next
      fix s t
      assume "?Inv s" "save_amount m s c = Inr t"
      then show "?Q t" by (rule est)
    next
      fix s y t
      assume "?Inv s" "?Q s" "save_amount m s y = Inr t"
      then show "?Q t" by (rule keep)
    qed
    then show ?thesis by auto
  qed
qed

end
