(* ===== verification/Closing.thy ===== *)
theory Closing
  imports Plans
begin

text \<open>
  The two operations of \<open>server.rs\<close> that end something: \<open>complete_budget_income\<close> ends an
  expectation, \<open>close_budget_month\<close> freezes a month. Both carry an operation id chosen by the
  client and answer a repeated request with the stored response. \<open>uuid_ok\<close> is
  \<open>Uuid::parse_str\<close>; the body that is fingerprinted is written by \<open>write_json\<close>.
\<close>

section \<open>Replayed operations\<close>

definition stored_response :: "'d platform \<Rightarrow> operation_row \<Rightarrow> json api" where
  "stored_response P o' = internal (read_json P (op_response o'))"

section \<open>Completing an expectation\<close>

definition completion_fingerprint :: "'d platform \<Rightarrow> string \<Rightarrow> string \<Rightarrow> string" where
  "completion_fingerprint P operation m = sha256_hex P (write_json P
     (JObj [(''operationId'', JStr operation), (''expectedMonth'', JStr m)]))"

definition completion_response :: "string \<Rightarrow> string \<Rightarrow> string \<Rightarrow> json" where
  "completion_response m current shortfall = JObj [(''completed'', JBool True), (''expectedMonth'', JStr m),
     (''appliedMonth'', JStr current), (''shortfallEur'', JStr shortfall)]"

definition complete_plan :: "db \<Rightarrow> string \<Rightarrow> string \<Rightarrow> string \<Rightarrow> db" where
  "complete_plan db m current shortfall =
     db\<lparr>plan_income_table := map (\<lambda>p. if plan_month p = m
       then p\<lparr>plan_completed_month := Some current, plan_shortfall := Some shortfall\<rparr> else p) (plan_income_table db)\<rparr>"

definition fresh_completion :: "'d platform \<Rightarrow> string \<Rightarrow> string \<Rightarrow> string \<Rightarrow> db \<Rightarrow> (json \<times> db) api option" where
  "fresh_completion P subject operation m db =
     returned (sync_api P db None) (\<lambda>d.
     let current = this_month P in
     returned (Some (and_then (map_err conflict (require_open P d current)) (\<lambda>_.
       and_then (guard (\<not> current < m) (bad_request ''A future expectation cannot be completed.'')) (\<lambda>_.
       and_then (internal (income d m current)) (\<lambda>i.
       and_then (ok_or i (not_found ''Expected income not found.'')) (\<lambda>e.
       and_then (guard (ei_completed_month e = None) (conflict ''This expectation is already complete.'')) (\<lambda>_.
       let response = completion_response m current (ei_outstanding_eur e) in
       and_then (internal (insert_operation d \<lparr>op_id = operation, op_actor = subject,
           op_fingerprint = completion_fingerprint P operation m, op_response = write_json P response\<rparr>)) (\<lambda>d'.
       Inr (response, complete_plan d' m current (ei_outstanding_eur e)))))))))) (\<lambda>(response, d').
     returned (sync_api P d' (Some operation)) (\<lambda>d''. Some (Inr (response, d'')))))"

definition complete_budget_income ::
  "'d platform \<Rightarrow> (string \<Rightarrow> bool) \<Rightarrow> string api \<Rightarrow> bool \<Rightarrow> string \<Rightarrow> string \<Rightarrow> db \<Rightarrow> (json \<times> db) api option" where
  "complete_budget_income P uuid_ok actor enabled operation m db =
     returned (Some (and_then actor (\<lambda>subject.
       and_then (guard enabled (unavailable ''Database finance writes are not enabled.'')) (\<lambda>_.
       and_then (guard (is_uuid_v7 uuid_ok operation \<and> valid_month m)
         (bad_request ''Choose a valid expectation and operation ID.'')) (\<lambda>_. Inr subject))))) (\<lambda>subject.
     case find_operation db operation of
       Some o' \<Rightarrow>
         if op_actor o' \<noteq> subject \<or> op_fingerprint o' \<noteq> completion_fingerprint P operation m
         then Some (Inl (conflict ''operationId was already used for another operation.''))
         else Some (and_then (stored_response P o') (\<lambda>r. Inr (r, db)))
     | None \<Rightarrow> fresh_completion P subject operation m db)"

section \<open>Closing a month\<close>

definition close_fingerprint :: "'d platform \<Rightarrow> string \<Rightarrow> string" where
  "close_fingerprint P m = sha256_hex P (''close-budget-month'' @ [CHR 0x0A] @ m)"

text \<open>The active real accounts, and how many of them a reconciliation covers.\<close>

definition active_accounts :: "db \<Rightarrow> account_row list" where
  "active_accounts db = filter (\<lambda>a. acc_is_real a \<and> acc_is_active a) (accounts_table db)"

definition reconciled_count :: "db \<Rightarrow> string \<Rightarrow> nat" where
  "reconciled_count db batch = length (remdups (map ri_account
     (filter (\<lambda>i. ri_batch i = batch \<and> list_ex (\<lambda>a. acc_id a = ri_account i) (active_accounts db)) (batch_items_table db))))"

definition fully_reconciled :: "db \<Rightarrow> batch_row \<Rightarrow> bool" where
  "fully_reconciled db b \<longleftrightarrow> reconciled_count db (rb_id b) = length (active_accounts db)"

text \<open>The latest full reconciliation of a date: \<open>ORDER BY operation.rowid DESC LIMIT 1\<close>.\<close>

definition latest_reconciliation :: "db \<Rightarrow> string \<Rightarrow> string option" where
  "latest_reconciliation db date =
     map_option rb_id (last_max (\<lambda>b. the (operation_position db (rb_operation b)))
       (filter (\<lambda>b. rb_date b = date \<and> operation_position db (rb_operation b) \<noteq> None \<and> fully_reconciled db b)
         (batches_table db)))"

definition upsert_snapshot :: "string \<Rightarrow> snapshot_row list \<Rightarrow> budget_category \<Rightarrow> snapshot_row list" where
  "upsert_snapshot m ss c =
     (if list_ex (\<lambda>s. snap_category s = bc_id c \<and> snap_month s = m) ss
      then map (\<lambda>s. if snap_category s = bc_id c \<and> snap_month s = m
        then s\<lparr>snap_expense := bc_expense c, snap_remaining := bc_remaining c, snap_impact := bc_impact c\<rparr> else s) ss
      else ss @ [\<lparr>snap_category = bc_id c, snap_month = m, snap_expense = bc_expense c,
        snap_remaining = bc_remaining c, snap_impact = bc_impact c, snap_source_cells = ''{}''\<rparr>])"

definition close_response :: "'d platform \<Rightarrow> string \<Rightarrow> budget_category list \<Rightarrow> json" where
  "close_response P m cats = JObj [(''closed'', JBool True), (''month'', JStr m), (''closedAt'', JStr (now_text P)),
     (''snapshotSha256'', JStr (sha256_hex P (write_categories P cats))), (''categoryCount'', JInt (int (length cats)))]"

definition month_end :: "string \<Rightarrow> string api" where
  "month_end m = and_then (ok_or (last_day_of_month m) (bad_request ''Invalid budget month.''))
     (\<lambda>d. Inr (m @ ''-'' @ pad_zero 2 d))"

text \<open>The conditions for closing that come before the history is read.\<close>

definition check_reconciled :: "'d platform \<Rightarrow> string \<Rightarrow> db \<Rightarrow> unit api" where
  "check_reconciled P m db =
     and_then (month_end m) (\<lambda>date.
     and_then (guard (list_ex (\<lambda>b. rb_date b = date \<and> fully_reconciled db b) (batches_table db))
       (conflict ''Reconcile every active real account at month end before closing this budget month.'')) (\<lambda>_.
     and_then (guard (\<not> month_closed db m) (conflict ''This budget month is already closed.'')) (\<lambda>_.
     and_then (internal (fetch_one (latest_reconciliation db date))) (\<lambda>batch.
     and_then (internal (reconciliation_current P db date batch)) (\<lambda>current.
     guard current (conflict
       ''Account activity changed after reconciliation. Reconcile again before closing.''))))))"

text \<open>The rows that freeze the month.\<close>

definition insert_closure :: "'d platform \<Rightarrow> string \<Rightarrow> string \<Rightarrow> budget_category list \<Rightarrow> db \<Rightarrow> db api" where
  "insert_closure P operation m cats db =
     (if list_ex (\<lambda>c. clo_month c = m \<or> clo_operation c = operation) (closures_table db)
      then Inl (conflict ''This budget month is already closed.'')
      else Inr (db\<lparr>closures_table := closures_table db @
        [\<lparr>clo_month = m, clo_snapshot = write_categories P cats, clo_operation = operation\<rparr>]\<rparr>))"

definition set_response :: "string \<Rightarrow> string \<Rightarrow> db \<Rightarrow> db" where
  "set_response operation text db =
     db\<lparr>operations_table := map (\<lambda>x. if op_id x = operation then x\<lparr>op_response := text\<rparr> else x) (operations_table db)\<rparr>"

definition insert_coverage :: "'d platform \<Rightarrow> string \<Rightarrow> coverage_result option \<Rightarrow> db \<Rightarrow> db result" where
  "insert_coverage P m coverage_now db =
     (case coverage_now of
        None \<Rightarrow> Inr db
      | Some c \<Rightarrow>
          if list_ex (\<lambda>x. clo_month x = m) (coverage_closures_table db)
          then Inl ''UNIQUE constraint failed: budget_coverage_closures.month''
          else Inr (db\<lparr>coverage_closures_table := coverage_closures_table db @
            [\<lparr>clo_month = m, clo_snapshot = write_coverage P c\<rparr>]\<rparr>))"

definition freeze_month :: "'d platform \<Rightarrow> string \<Rightarrow> string \<Rightarrow> budget_category list \<Rightarrow> db \<Rightarrow> (json \<times> db) api" where
  "freeze_month P operation m cats db =
     (let d = db\<lparr>snapshots_table := foldl (upsert_snapshot m) (snapshots_table db) cats\<rparr> in
      and_then (guard (cats \<noteq> []) (conflict ''There are no real budget categories to close.'')) (\<lambda>_.
      and_then (internal (coverage P d m cats)) (\<lambda>coverage_now.
      and_then (insert_closure P operation m cats d) (\<lambda>d1.
      let response = close_response P m cats in
      and_then (internal (insert_coverage P m coverage_now (set_response operation (write_json P response) d1))) (\<lambda>d2.
      Inr (response, d2))))))"

definition fresh_close :: "'d platform \<Rightarrow> bool \<Rightarrow> string \<Rightarrow> string \<Rightarrow> db \<Rightarrow> (json \<times> db) api option" where
  "fresh_close P close_enabled operation m db =
     returned (Some (and_then (guard close_enabled (unavailable ''Database month closing is not enabled.'')) (\<lambda>_.
       and_then (guard (m < this_month P) (conflict ''Only a completed budget month can be closed.'')) (\<lambda>_.
       and_then (check_reconciled P m db) (\<lambda>_.
       and_then (internal (first_month P db)) (\<lambda>f. ok_or f (conflict ''No canonical opening balance.''))))))) (\<lambda>first.
     returned (map_option internal (history P db m)) (\<lambda>hist.
     returned (Some (guard (\<not> (m < first \<or> list_ex (\<lambda>b. bm_status b = ''open'' \<and> bm_month b < m) hist))
       (conflict ''Close budget months in chronological order.''))) (\<lambda>_.
     returned (sync_api P db (Some operation)) (\<lambda>d.
     returned (map_option internal (budget_categories P d m)) (\<lambda>cats.
     Some (freeze_month P operation m cats d))))))"

definition close_budget_month ::
  "'d platform \<Rightarrow> (string \<Rightarrow> bool) \<Rightarrow> string api \<Rightarrow> bool \<Rightarrow> string \<Rightarrow> string \<Rightarrow> db \<Rightarrow> (json \<times> db) api option" where
  "close_budget_month P uuid_ok actor close_enabled operation m db =
     returned (Some (and_then actor (\<lambda>subject.
       and_then (guard (valid_month m) (bad_request ''month must be a valid YYYY-MM month.'')) (\<lambda>_.
       and_then (guard (is_uuid_v7 uuid_ok operation) (bad_request ''operationId must be a UUIDv7.'')) (\<lambda>_.
       and_then (internal (initialize P db)) (\<lambda>d. Inr (subject, d))))))) (\<lambda>(subject, d).
     case find_operation d operation of
       Some o' \<Rightarrow>
         if op_actor o' \<noteq> subject \<or> op_fingerprint o' \<noteq> close_fingerprint P m
            \<or> \<not> list_ex (\<lambda>c. clo_operation c = operation \<and> clo_month c = m) (closures_table d)
         then Some (Inl (conflict ''operationId was already used for a different finance operation.''))
         else Some (and_then (stored_response P o') (\<lambda>r. Inr (r, d)))
     | None \<Rightarrow>
         fresh_close P close_enabled operation m (d\<lparr>operations_table := operations_table d @
           [\<lparr>op_id = operation, op_actor = subject, op_fingerprint = close_fingerprint P m, op_response = ''{}''\<rparr>]\<rparr>))"

section \<open>Facts\<close>

lemma find_operation_Some:
  "find_operation db i = Some o' \<Longrightarrow> o' \<in> set (operations_table db) \<and> op_id o' = i"
  unfolding find_operation_def by (rule first_row_filter)

lemma grows_to_operations:
  assumes "grows_to db db'"
  shows "operations_table db' = operations_table db" "find_operation db' = find_operation db"
    "openings_table db' = openings_table db" "coverage_closures_table db' = coverage_closures_table db"
    "batches_table db' = batches_table db" "snapshots_table db' = snapshots_table db"
    "imports_table db' = imports_table db" "first_month P db' = first_month P db"
  using assms by (auto simp: grows_to_def find_operation_def first_month_def fun_eq_iff)

lemma sync_api_E:
  assumes "sync_api P db operation = Some (Inr db')"
  shows "sync P db operation = Some (Inr db')" "grows_to db db'"
proof -
  from assms show "sync P db operation = Some (Inr db')"
    by (auto simp: sync_api_def result_simps)
  then show "grows_to db db'" by (rule sync_grows)
qed

lemma map_internal_E: "map_option internal m = Some (Inr x) \<longleftrightarrow> m = Some (Inr x)"
  by (cases m) (auto simp: result_simps)

lemma initialize_openings:
  assumes "initialize P db = Inr d"
  shows "\<exists>os. d = db\<lparr>openings_table := os\<rparr>"
proof (cases "first_month P db")
  case (Inl e)
  with assms show ?thesis by (simp add: initialize_def)
next
  case (Inr f)
  show ?thesis
  proof (cases f)
    case None
    with assms Inr have "d = db\<lparr>openings_table := openings_table db\<rparr>" by (simp add: initialize_def)
    then show ?thesis by blast
  next
    case (Some first)
    show ?thesis
    proof (cases "opening_missing db first")
      case False
      with assms Inr Some have "d = db\<lparr>openings_table := openings_table db\<rparr>" by (simp add: initialize_def)
      then show ?thesis by blast
    next
      case True
      with assms Inr Some show ?thesis
        by (auto simp: initialize_def result_simps dest!: initialize_fold)
    qed
  qed
qed

lemma insert_operation_E:
  assumes "insert_operation db o' = Inr db'"
  shows "db' = db\<lparr>operations_table := operations_table db @ [o']\<rparr>"
    and "\<not> (\<exists>x\<in>set (operations_table db). op_id x = op_id o')"
  using assms by (auto simp: insert_operation_def list_ex_iff split: if_splits)

text \<open>The frozen month: one closure more, whose snapshot holds the categories.\<close>

lemma freeze_month_E:
  assumes "freeze_month P operation m cats db = Inr (r, db')"
  shows "cats \<noteq> []" "r = close_response P m cats"
    "closures_table db' = closures_table db @
       [\<lparr>clo_month = m, clo_snapshot = write_categories P cats, clo_operation = operation\<rparr>]"
    "\<not> month_closed db m" "movements_table db' = movements_table db" "categories_table db' = categories_table db"
    "operations_table db' = map (\<lambda>x. if op_id x = operation then x\<lparr>op_response := write_json P r\<rparr> else x) (operations_table db)"
  using assms
  by (auto simp: freeze_month_def Let_def result_simps insert_closure_def insert_coverage_def set_response_def
      month_closed_def list_ex_iff split: if_splits option.splits)

lemma check_reconciled_E:
  assumes "check_reconciled P m db = Inr ()"
  obtains date batch where "month_end m = Inr date" "\<not> month_closed db m"
    "\<exists>b\<in>set (batches_table db). rb_date b = date \<and> fully_reconciled db b"
    "latest_reconciliation db date = Some batch" "reconciliation_current P db date batch = Inr True"
proof -
  from assms have "\<exists>date batch. month_end m = Inr date \<and> \<not> month_closed db m
    \<and> (\<exists>b\<in>set (batches_table db). rb_date b = date \<and> fully_reconciled db b)
    \<and> latest_reconciliation db date = Some batch \<and> reconciliation_current P db date batch = Inr True"
    by (fastforce simp: check_reconciled_def result_simps list_ex_iff)
  then show ?thesis using that by blast
qed

lemma fresh_close_E:
  assumes "fresh_close P close_enabled operation m db = Some (Inr (r, db'))"
  obtains first hist d cats where "close_enabled" "m < this_month P" "check_reconciled P m db = Inr ()"
    "first_month P db = Inr (Some first)" "first \<le> m" "history P db m = Some (Inr hist)"
    "\<forall>b\<in>set hist. bm_month b < m \<longrightarrow> bm_status b \<noteq> ''open''" "sync P db (Some operation) = Some (Inr d)"
    "budget_categories P d m = Some (Inr cats)" "freeze_month P operation m cats d = Inr (r, db')"
proof -
  from assms show ?thesis
    unfolding fresh_close_def
    by (auto simp: result_simps map_internal_E list_ex_iff dest!: sync_api_E(1) intro!: that)
qed

lemma close_fresh_E:
  assumes "close_budget_month P uuid_ok actor close_enabled operation m db = Some (Inr (r, db'))"
    and "find_operation db operation = None"
  obtains subject os where "actor = Inr subject" "valid_month m" "is_uuid_v7 uuid_ok operation"
    "initialize P db = Inr (db\<lparr>openings_table := os\<rparr>)"
    "fresh_close P close_enabled operation m (db\<lparr>openings_table := os, operations_table := operations_table db @
       [\<lparr>op_id = operation, op_actor = subject, op_fingerprint = close_fingerprint P m, op_response = ''{}''\<rparr>]\<rparr>)
       = Some (Inr (r, db'))"
proof -
  from assms(1) obtain subject d where a: "actor = Inr subject" "valid_month m" "is_uuid_v7 uuid_ok operation"
    and i: "initialize P db = Inr d"
    and rest: "(case find_operation d operation of
       Some o' \<Rightarrow>
         if op_actor o' \<noteq> subject \<or> op_fingerprint o' \<noteq> close_fingerprint P m
            \<or> \<not> list_ex (\<lambda>c. clo_operation c = operation \<and> clo_month c = m) (closures_table d)
         then Some (Inl (conflict ''operationId was already used for a different finance operation.''))
         else Some (and_then (stored_response P o') (\<lambda>r. Inr (r, d)))
     | None \<Rightarrow>
         fresh_close P close_enabled operation m (d\<lparr>operations_table := operations_table d @
           [\<lparr>op_id = operation, op_actor = subject, op_fingerprint = close_fingerprint P m, op_response = ''{}''\<rparr>]\<rparr>))
       = Some (Inr (r, db'))"
    unfolding close_budget_month_def by (auto simp: result_simps)
  from initialize_openings [OF i] obtain os where d: "d = db\<lparr>openings_table := os\<rparr>" by blast
  have "find_operation d operation = None" using assms(2) by (simp add: d find_operation_def)
  with rest d have "fresh_close P close_enabled operation m (db\<lparr>openings_table := os, operations_table := operations_table db @
       [\<lparr>op_id = operation, op_actor = subject, op_fingerprint = close_fingerprint P m, op_response = ''{}''\<rparr>]\<rparr>)
       = Some (Inr (r, db'))" by simp
  with a i d that show ?thesis by blast
qed

lemma closure_of_appended:
  "\<not> month_closed db m \<Longrightarrow> closures_table db' = closures_table db @ [c] \<Longrightarrow> clo_month c = m \<Longrightarrow> closure_of db' m = Some c"
  by (auto simp: closure_of_def month_closed_def list_ex_iff first_row_def filter_empty_conv)

section \<open>Settlement\<close>

lemma complete_key_inject [simp]: "complete_key a = complete_key b \<longleftrightarrow> a = b"
  by (simp add: complete_key_def)

lemma excess_not_complete [simp]: "excess_key a \<noteq> complete_key b"
  by (simp add: excess_key_def complete_key_def)

text \<open>What a completed expectation has settled.\<close>

definition settled :: "db \<Rightarrow> string \<Rightarrow> string \<Rightarrow> rat" where
  "settled db k m = source_total db k UNALLOCATED ''settlement'' (complete_key m)"

lemma sync_completion_settles:
  assumes "sync_completion operation db m = Inr db'" and "plan_income_of db m = Some p"
    and "plan_completed_month p = Some k" and "plan_shortfall p = Some s" and "\<not> month_closed db k"
  shows "settled db' k m = - text_value s"
proof -
  from assms obtain out where o: "subtract_decimal_text ''0'' s = Inr out"
    and mv: "movement db k UNALLOCATED ''settlement'' (complete_key m) out operation = Inr db'"
    by (auto simp: sync_completion_def result_simps)
  from movement_total [OF mv] money.sub_val [OF o] show ?thesis by (simp add: settled_def money.zero_val)
qed

lemma movement_keeps_settled:
  assumes "movement db m' c kind key w operation = Inr db'" and "key \<noteq> complete_key m"
  shows "settled db' k m = settled db k m"
  using movement_total [OF assms(1)] assms(2) by (auto simp: settled_def)

lemma sync_completion_keeps_settled:
  assumes "sync_completion operation db m' = Inr db'" and "m' \<noteq> m"
  shows "settled db' k m = settled db k m"
  using assms by (auto simp: sync_completion_def result_simps movement_keeps_settled split: option.splits if_splits)

lemma sync_excess_settled:
  assumes s: "sync_excess current operation db m' = Inr db'" and p: "plan_income_of db m = Some p"
    "plan_completed_month p = Some k" "plan_shortfall p = Some v" "\<not> month_closed db k"
  shows "m' = m \<Longrightarrow> settled db' k m = - text_value v"
    and "m' \<noteq> m \<Longrightarrow> settled db' k m = settled db k m"
proof -
  from s obtain kvs d where loop: "fold_result (\<lambda>d (k, v). if month_closed d k then Inr d
            else movement d k UNALLOCATED ''income'' (excess_key m') v operation) db kvs = Inr d"
    and rest: "sync_completion operation d m' = Inr db'"
    by (auto simp: sync_excess_def result_simps)
  have d: "grows_to db d \<and> settled d k m = settled db k m"
    using loop
  proof (rule fold_result_invariant [where P = "\<lambda>e. grows_to db e \<and> settled e k m = settled db k m"])
    fix e x t
    assume e: "grows_to db e \<and> settled e k m = settled db k m"
      and "(case x of (k, v) \<Rightarrow> if month_closed e k then Inr e
            else movement e k UNALLOCATED ''income'' (excess_key m') v operation) = Inr t"
    then show "grows_to db t \<and> settled t k m = settled db k m"
      by (auto simp: movement_keeps_settled split: prod.splits if_splits intro: grows_to_trans movement_grows)
  qed simp
  then have "plan_income_of d m = Some p" "\<not> month_closed d k"
    using grows_to_plan [OF p(1)] grows_to_tables(12) p(4) by auto
  with rest p(2,3) show "m' = m \<Longrightarrow> settled db' k m = - text_value v"
    using sync_completion_settles by blast
  show "m' \<noteq> m \<Longrightarrow> settled db' k m = settled db k m"
    using rest d sync_completion_keeps_settled by metis
qed

lemma sync_settled:
  assumes "sync P db operation = Some (Inr db')" and "start db \<noteq> None" and p: "plan_income_of db m = Some p"
    "plan_completed_month p = Some k" "plan_shortfall p = Some v" "\<not> month_closed db k"
  shows "settled db' k m = - text_value v"
proof -
  from assms(2) obtain s where "start db = Some s" by blast
  with assms(1) obtain d where loop: "while_months (calendar P) (sync_month operation) s (this_month P) db = Some (Inr d)"
    and rest: "fold_result (sync_excess (this_month P) operation) d (sort_key id (map plan_month (plan_income_table d))) = Inr db'"
    by (auto simp: sync_def result_simps)
  have d: "grows_to db d"
    using loop by (rule while_months_invariant) (auto intro: grows_to_trans sync_month_grows)
  have pd: "plan_income_of d m = Some p" "\<not> month_closed d k"
    using grows_to_plan [OF p(1) d] grows_to_tables(12) [OF d] p(4) by auto
  then have "m \<in> set (sort_key id (map plan_month (plan_income_table d)))"
    by (auto simp: plan_income_of_def dest!: first_row_filter)
  with rest show ?thesis
  proof (rule fold_result_eventually [where Inv = "grows_to d"])
    fix s y t
    assume s: "grows_to d s" and step: "sync_excess (this_month P) operation s y = Inr t"
    show "grows_to d t" using s step by (blast intro: grows_to_trans sync_excess_grows)
    have ps: "plan_income_of s m = Some p" "\<not> month_closed s k"
      using grows_to_plan [OF pd(1) s] grows_to_tables(12) [OF s] pd(2) by auto
    show "settled t k m = - text_value v" if "settled s k m = - text_value v"
      using sync_excess_settled [OF step ps(1) p(2,3) ps(2)] that by (cases "y = m") simp_all
  next
    fix s t
    assume s: "grows_to d s" and step: "sync_excess (this_month P) operation s m = Inr t"
    have ps: "plan_income_of s m = Some p" "\<not> month_closed s k"
      using grows_to_plan [OF pd(1) s] grows_to_tables(12) [OF s] pd(2) by auto
    show "settled t k m = - text_value v"
      using sync_excess_settled(1) [OF step ps(1) p(2,3) ps(2)] by simp
  qed simp
qed

lemma fresh_completion_E:
  assumes "fresh_completion P subject operation m db = Some (Inr (r, db'))"
  obtains d e where "sync P db None = Some (Inr d)" "require_open P d (this_month P) = Inr ()" "m \<le> this_month P"
    "income d m (this_month P) = Inr (Some e)" "ei_completed_month e = None"
    "r = completion_response m (this_month P) (ei_outstanding_eur e)"
    "\<not> (\<exists>x\<in>set (operations_table d). op_id x = operation)"
    "sync P (complete_plan (d\<lparr>operations_table := operations_table d @ [\<lparr>op_id = operation, op_actor = subject,
           op_fingerprint = completion_fingerprint P operation m, op_response = write_json P r\<rparr>]\<rparr>) m (this_month P)
         (ei_outstanding_eur e)) (Some operation) = Some (Inr db')"
proof -
  from assms obtain d e d1 where "sync P db None = Some (Inr d)" "require_open P d (this_month P) = Inr ()"
    "\<not> this_month P < m" "income d m (this_month P) = Inr (Some e)" "ei_completed_month e = None"
    "r = completion_response m (this_month P) (ei_outstanding_eur e)"
    and d1: "insert_operation d \<lparr>op_id = operation, op_actor = subject,
           op_fingerprint = completion_fingerprint P operation m, op_response = write_json P r\<rparr> = Inr d1"
    and s: "sync P (complete_plan d1 m (this_month P) (ei_outstanding_eur e)) (Some operation) = Some (Inr db')"
    unfolding fresh_completion_def by (auto simp: result_simps Let_def dest!: sync_api_E(1))
  with insert_operation_E [OF d1] that [of d e] show ?thesis by auto
qed

lemma complete_fresh_E:
  assumes "complete_budget_income P uuid_ok actor enabled operation m db = Some (Inr (r, db'))"
    and "find_operation db operation = None"
  obtains subject where "actor = Inr subject" "enabled" "is_uuid_v7 uuid_ok operation" "valid_month m"
    "fresh_completion P subject operation m db = Some (Inr (r, db'))"
  using assms by (auto simp: complete_budget_income_def result_simps)

lemma plan_of_completed:
  assumes "plan_income_of d m = Some p"
  shows "plan_income_of (complete_plan (d\<lparr>operations_table := os\<rparr>) m k v) m
    = Some (p\<lparr>plan_completed_month := Some k, plan_shortfall := Some v\<rparr>)"
proof -
  have "filter (\<lambda>p. plan_month p = m) (map (\<lambda>p. if plan_month p = m then p\<lparr>plan_completed_month := Some k,
      plan_shortfall := Some v\<rparr> else p) ps)
    = map (\<lambda>p. p\<lparr>plan_completed_month := Some k, plan_shortfall := Some v\<rparr>) (filter (\<lambda>p. plan_month p = m) ps)" for ps :: "plan_income_row list"
    by (induction ps) auto
  with assms show ?thesis
    by (simp add: plan_income_of_def complete_plan_def first_row_def split: list.splits)
qed

lemma require_open_E:
  "require_open P d m = Inr u \<Longrightarrow> \<not> month_closed d m"
  by (auto simp: require_open_def result_simps split: if_splits)

lemma find_appended:
  "\<not> (\<exists>x\<in>set xs. op_id x = i) \<Longrightarrow> op_id o' = i \<Longrightarrow> first_row (filter (\<lambda>x. op_id x = i) (xs @ [o'])) = Some o'"
  by (auto simp: first_row_def filter_empty_conv)

end
