(* ===== verification/PlanProperties.thy ===== *)
theory PlanProperties
  imports Closing Samples "HOL-Library.Countable"
begin

text \<open>
  The properties of the operations on the plan: closing a month, completing an expectation,
  changing monthly amounts and expected income, and the activation of the ledger.
\<close>

section \<open>Samples\<close>

text \<open>A concrete encoding of categories, for the witnesses.\<close>

definition char_codes :: "string \<Rightarrow> nat list" where
  "char_codes = map of_char"

definition encode_category :: "budget_category \<Rightarrow> nat list \<times> nat list \<times> nat list option list" where
  "encode_category c = (char_codes (bc_id c), char_codes (bc_name c), map (map_option char_codes)
     [bc_monthly c, bc_expense c, bc_remaining c, bc_impact c, bc_carryover c, bc_adjustment c, bc_available c,
      bc_net_spending c, bc_correction c])"

definition decode_category :: "nat list \<times> nat list \<times> nat list option list \<Rightarrow> budget_category" where
  "decode_category = (\<lambda>(i, n, vs). let t = map char_of; v = (\<lambda>k. map_option t (vs ! k)) in
     \<lparr>bc_id = t i, bc_name = t n, bc_monthly = v 0, bc_expense = v 1, bc_remaining = v 2, bc_impact = v 3,
      bc_carryover = v 4, bc_adjustment = v 5, bc_available = v 6, bc_net_spending = v 7, bc_correction = v 8\<rparr>)"

definition sample_write :: "budget_category list \<Rightarrow> string" where
  "sample_write cs = nat_to_string (to_nat (map encode_category cs))"

definition sample_read :: "string \<Rightarrow> budget_category list result" where
  "sample_read s = Inr (map decode_category (from_nat (digits_value s)))"

lemma char_codes_inverse [simp]: "map char_of (char_codes s) = s"
  by (simp add: char_codes_def o_def)

lemma decode_encode: "decode_category (encode_category c) = c"
  by (simp add: decode_category_def encode_category_def Let_def option.map_comp o_def option.map_ident)

lemma sample_read_write: "sample_read (sample_write cs) = Inr cs"
  by (simp add: sample_read_def sample_write_def decode_encode o_def)

definition closing_platform :: "int platform" where
  "closing_platform = sample_platform\<lparr>today := ''2026-02-10'', read_categories := sample_read,
     write_categories := sample_write\<rparr>"

definition closing_db :: db where
  "closing_db = sample_db\<lparr>ledger_state_table := None,
     batches_table := [\<lparr>rb_id = ''b1'', rb_operation = ''o1'', rb_date = ''2026-01-31'', rb_actor = ''me'',
       rb_submitted_at = ''2026-02-01T08:00:00Z'', rb_observed_at = None, rb_observed_date = None\<rparr>],
     batch_items_table := [\<lparr>ri_batch = ''b1'', ri_account = ''bank'', ri_transaction = None, ri_actual = Some ''500'',
       ri_variance = Some ''0'', ri_revision = 1, ri_observed = None, ri_activity = Some ''0'', ri_included = Some ''[]''\<rparr>],
     operations_table := [\<lparr>op_id = ''o1'', op_actor = ''me'', op_fingerprint = ''f'', op_response = ''{}''\<rparr>]\<rparr>"

definition sample_operation :: string where
  "sample_operation = ''0197aaaa-0000-7000-8000-000000000000''"

lemma sample_validation: "valid_month ''2026-01''" "is_uuid_v7 (\<lambda>_. True) sample_operation"
  "month_end ''2026-01'' = Inr ''2026-01-31''"
  by code_simp+

lemma closing_run:
  "\<exists>r db'. close_budget_month closing_platform (\<lambda>_. True) (Inr ''me'') True sample_operation ''2026-01'' closing_db
     = Some (Inr (r, db'))"
proof -
  have op: "sample_operation \<noteq> ''o1''" by (simp add: sample_operation_def)
  show ?thesis
    by (simp add: close_budget_month_def sample_validation initialize_def opening_missing_def find_operation_def
        fresh_close_def check_reconciled_def fully_reconciled_def reconciled_count_def active_accounts_def
        latest_reconciliation_def operation_position_def reconciliation_current_def batch_watermark_def
        changed_before_def deletion_before_def json_field_def history_def sync_api_def
        budget_categories_def freeze_month_def coverage_def insert_closure_def set_response_def insert_coverage_def
        closing_platform_def closing_db_def op op [symmetric] evaluate)
qed

section \<open>Closing a month\<close>

text \<open>
  C35: Closing freezes what was published. A month is closed only after it has ended, with every
  active real account reconciled at its last day and that reconciliation still current, with no
  earlier month open and once only; the ledger is synchronised first, exactly one closure is
  added, and every later history publishes the month as closed with the very categories that
  were published at the close.
\<close>

theorem close_freezes:
  assumes "close_budget_month P uuid_ok actor close_enabled operation m db = Some (Inr (r, db'))"
    and "find_operation db operation = None" and "distinct (map cat_id (categories_table db))"
    and "\<forall>cs. read_categories P (write_categories P cs) = Inr cs"
  shows "\<exists>d0 d hist cats. m < this_month P \<and> \<not> month_closed db m \<and> check_reconciled P m d0 = Inr ()
     \<and> history P d0 m = Some (Inr hist) \<and> (\<forall>b\<in>set hist. bm_month b < m \<longrightarrow> bm_status b \<noteq> ''open'')
     \<and> sync P d0 (Some operation) = Some (Inr d) \<and> budget_categories P d m = Some (Inr cats) \<and> cats \<noteq> []
     \<and> closures_table db' = closures_table db @
         [\<lparr>clo_month = m, clo_snapshot = write_categories P cats, clo_operation = operation\<rparr>]
     \<and> movements_table db' = movements_table d
     \<and> (\<forall>through calendar_month h. history_at P db' through calendar_month = Some (Inr h) \<longrightarrow>
           (\<forall>b\<in>set h. bm_month b = m \<longrightarrow> bm_status b = ''closed'' \<and> bm_categories b = cats))"
  using assms(1,2)
proof (rule close_fresh_E)
  fix subject os
  let ?d0 = "db\<lparr>openings_table := os, operations_table := operations_table db @
       [\<lparr>op_id = operation, op_actor = subject, op_fingerprint = close_fingerprint P m, op_response = ''{}''\<rparr>]\<rparr>"
  assume "fresh_close P close_enabled operation m ?d0 = Some (Inr (r, db'))"
  then obtain first hist d cats where m: "m < this_month P" and rec: "check_reconciled P m ?d0 = Inr ()"
    and h: "history P ?d0 m = Some (Inr hist)" "\<forall>b\<in>set hist. bm_month b < m \<longrightarrow> bm_status b \<noteq> ''open''"
    and s: "sync P ?d0 (Some operation) = Some (Inr d)" and cats: "budget_categories P d m = Some (Inr cats)"
    and f: "freeze_month P operation m cats d = Inr (r, db')"
    by (rule fresh_close_E) blast
  note g = grows_to_tables [OF sync_grows [OF s]] and f' = freeze_month_E [OF f]
  have clo: "closures_table db' = closures_table db @
         [\<lparr>clo_month = m, clo_snapshot = write_categories P cats, clo_operation = operation\<rparr>]"
    using f'(3) g(6) by simp
  have open_m: "\<not> month_closed db m" using f'(4) g(12) by (simp add: month_closed_def)
  have "closure_of db' m = Some \<lparr>clo_month = m, clo_snapshot = write_categories P cats, clo_operation = operation\<rparr>"
    using open_m clo by (rule closure_of_appended) simp
  moreover have "distinct (map cat_id (categories_table db'))" using f'(6) g(1) assms(3) by simp
  ultimately have final: "bm_status b = ''closed'' \<and> bm_categories b = cats"
    if "history_at P db' through c = Some (Inr hh)" "b \<in> set hh" "bm_month b = m" for through c hh b
    using history_at_closed [OF that(1) _ that(2)] that(3) assms(4) by simp
  show ?thesis
    using m open_m rec h s cats f'(1) clo f'(5) final by blast
qed

theorem close_freezes_witness:
  "\<exists>r db'. close_budget_month closing_platform (\<lambda>_. True) (Inr ''me'') True sample_operation ''2026-01'' closing_db
     = Some (Inr (r, db')) \<and> (\<exists>c. closures_table db' = [c])"
proof -
  obtain r db' where run: "close_budget_month closing_platform (\<lambda>_. True) (Inr ''me'') True sample_operation ''2026-01''
      closing_db = Some (Inr (r, db'))" using closing_run by blast
  have f: "find_operation closing_db sample_operation = None"
    by (simp add: find_operation_def closing_db_def sample_operation_def first_row_def)
  have d: "distinct (map cat_id (categories_table closing_db))" by (simp add: closing_db_def evaluate)
  have rt: "\<forall>cs. read_categories closing_platform (write_categories closing_platform cs) = Inr cs"
    by (simp add: closing_platform_def sample_read_write)
  have "closures_table closing_db = []" by (simp add: closing_db_def evaluate)
  with close_freezes [OF run f d rt] run show ?thesis by auto
qed

section \<open>Completing an expectation\<close>

text \<open>
  C36: Completing an expectation settles it. The month is not in the future, the current month is
  open and the expectation was not complete before; afterwards the plan says that it was completed
  now with its outstanding amount as the shortfall, and the ledger debits Unallocated with exactly
  that shortfall in the current month.
\<close>

theorem completion_settles:
  assumes "complete_budget_income P uuid_ok actor enabled operation m db = Some (Inr (r, db'))"
    and "find_operation db operation = None" and "start db \<noteq> None"
  shows "\<exists>d e p. grows_to db d \<and> income d m (this_month P) = Inr (Some e) \<and> ei_completed_month e = None
    \<and> m \<le> this_month P \<and> \<not> month_closed db (this_month P)
    \<and> r = completion_response m (this_month P) (ei_outstanding_eur e)
    \<and> plan_income_of db' m = Some p \<and> plan_completed_month p = Some (this_month P)
    \<and> plan_shortfall p = Some (ei_outstanding_eur e)
    \<and> source_total db' (this_month P) UNALLOCATED ''settlement'' (complete_key m) = - text_value (ei_outstanding_eur e)"
  using assms(1,2)
proof (rule complete_fresh_E)
  fix subject
  assume "fresh_completion P subject operation m db = Some (Inr (r, db'))"
  then show ?thesis
  proof (rule fresh_completion_E)
    fix d :: db and e :: expected_income
    let ?k = "this_month P" and ?out = "ei_outstanding_eur e"
    let ?os = "operations_table d @ [\<lparr>op_id = operation, op_actor = subject,
           op_fingerprint = completion_fingerprint P operation m, op_response = write_json P r\<rparr>]"
    assume s: "sync P db None = Some (Inr d)" and o: "require_open P d ?k = Inr ()" and m: "m \<le> ?k"
      and i: "income d m ?k = Inr (Some e)" "ei_completed_month e = None"
      and r: "r = completion_response m ?k ?out"
      and s': "sync P (complete_plan (d\<lparr>operations_table := ?os\<rparr>) m ?k ?out) (Some operation) = Some (Inr db')"
    note g = sync_grows [OF s]
    let ?d = "complete_plan (d\<lparr>operations_table := ?os\<rparr>) m ?k ?out"
    from i(1) obtain p where p: "plan_income_of d m = Some p" by (rule income_E) blast
    note p' = plan_of_completed [OF p, of ?os ?k ?out]
    have "start ?d = start d" by (simp add: complete_plan_def start_def)
    then have "start ?d \<noteq> None" using assms(3) grows_to_tables(11) [OF g] by simp
    moreover have "\<not> month_closed ?d ?k" using require_open_E [OF o] by (simp add: complete_plan_def month_closed_def)
    ultimately have "settled db' ?k m = - text_value ?out"
      using sync_settled [OF s' _ p'] by simp
    moreover have "plan_income_of db' m = Some (p\<lparr>plan_completed_month := Some ?k, plan_shortfall := Some ?out\<rparr>)"
      by (rule grows_to_plan [OF p' sync_grows [OF s']])
    moreover have "\<not> month_closed db ?k" using require_open_E [OF o] grows_to_tables(12) [OF g] by simp
    ultimately show ?thesis
      using g i m r by (intro exI [of _ d] exI [of _ e] exI [of _ "p\<lparr>plan_completed_month := Some ?k, plan_shortfall := Some ?out\<rparr>"])
        (simp add: settled_def)
  qed
qed

text \<open>
  A repeated completion has no second effect: the same operation by the same person returns
  the stored response and leaves the database as it is, and the operation id cannot be used by
  anybody else.
\<close>

theorem completion_replayed:
  assumes "complete_budget_income P uuid_ok actor enabled operation m db = Some (Inr (r, db'))"
    and "find_operation db operation = None" and "read_json P (write_json P r) = Inr r"
  shows "complete_budget_income P uuid_ok actor enabled operation m db' = Some (Inr (r, db'))
    \<and> (\<forall>other. actor = Inr other \<or> complete_budget_income P uuid_ok (Inr other) True operation m db'
      = Some (Inl (conflict ''operationId was already used for another operation.'')))"
proof -
  from assms(1,2) obtain subject where a: "actor = Inr subject" "enabled" "is_uuid_v7 uuid_ok operation" "valid_month m"
    and f: "fresh_completion P subject operation m db = Some (Inr (r, db'))"
    by (rule complete_fresh_E)
  let ?o = "\<lparr>op_id = operation, op_actor = subject, op_fingerprint = completion_fingerprint P operation m,
    op_response = write_json P r\<rparr>"
  from f have found: "find_operation db' operation = Some ?o"
  proof (rule fresh_completion_E)
    fix d :: db and e :: expected_income
    assume n: "\<not> (\<exists>x\<in>set (operations_table d). op_id x = operation)"
      and s: "sync P (complete_plan (d\<lparr>operations_table := operations_table d @ [?o]\<rparr>) m (this_month P)
         (ei_outstanding_eur e)) (Some operation) = Some (Inr db')"
    show ?thesis
      unfolding grows_to_operations(2) [OF sync_grows [OF s]]
      using find_appended [OF n, of ?o] by (simp add: find_operation_def complete_plan_def)
  qed
  show ?thesis
    using a found assms(3) by (auto simp: complete_budget_income_def stored_response_def)
qed

definition completion_platform :: "int platform" where
  "completion_platform = sample_platform\<lparr>read_json := (\<lambda>_. Inr (completion_response ''2026-01'' ''2026-01'' (whole 2000)))\<rparr>"

lemma completion_run:
  "\<exists>db'. complete_budget_income completion_platform (\<lambda>_. True) (Inr ''me'') True sample_operation ''2026-01'' sample_db
     = Some (Inr (completion_response ''2026-01'' ''2026-01'' (whole 2000), db'))"
  by (simp add: complete_budget_income_def sample_validation find_operation_def fresh_completion_def sync_api_def
      require_open_def income_def outstanding_of_def completed_by_def funding_portion_def positive_whole
      proportional_whole [of 2000 2000 2000 2000] insert_operation_def complete_plan_def
      completion_platform_def evaluate)

theorem completion_settles_witness:
  "\<exists>db'. complete_budget_income completion_platform (\<lambda>_. True) (Inr ''me'') True sample_operation ''2026-01'' sample_db
     = Some (Inr (completion_response ''2026-01'' ''2026-01'' (whole 2000), db'))
     \<and> source_total db' ''2026-01'' UNALLOCATED ''settlement'' (complete_key ''2026-01'') = - 2000"
proof -
  obtain db' where run: "complete_budget_income completion_platform (\<lambda>_. True) (Inr ''me'') True sample_operation
      ''2026-01'' sample_db = Some (Inr (completion_response ''2026-01'' ''2026-01'' (whole 2000), db'))"
    using completion_run by blast
  have f: "find_operation sample_db sample_operation = None" by (simp add: find_operation_def evaluate)
  have "this_month completion_platform = ''2026-01''" by (simp add: completion_platform_def evaluate)
  moreover have v: "whole 2000 = t \<Longrightarrow> text_value t = 2000" for t by (drule sym) simp
  ultimately show ?thesis using completion_settles [OF run f] run
    by (auto simp: completion_response_def sample_categories intro: v)
qed

theorem completion_replayed_witness:
  "\<exists>r db'. complete_budget_income completion_platform (\<lambda>_. True) (Inr ''me'') True sample_operation ''2026-01'' sample_db
     = Some (Inr (r, db'))
     \<and> complete_budget_income completion_platform (\<lambda>_. True) (Inr ''me'') True sample_operation ''2026-01'' db'
     = Some (Inr (r, db'))"
proof -
  obtain db' where run: "complete_budget_income completion_platform (\<lambda>_. True) (Inr ''me'') True sample_operation
      ''2026-01'' sample_db = Some (Inr (completion_response ''2026-01'' ''2026-01'' (whole 2000), db'))"
    using completion_run by blast
  have f: "find_operation sample_db sample_operation = None" by (simp add: find_operation_def evaluate)
  have "read_json completion_platform (write_json completion_platform (completion_response ''2026-01'' ''2026-01'' (whole 2000)))
      = Inr (completion_response ''2026-01'' ''2026-01'' (whole 2000))"
    by (simp add: completion_platform_def)
  from completion_replayed [OF run f this] run show ?thesis by blast
qed

lemma save_monthly_budget_E:
  assumes "save_monthly_budget P actor enabled payload operation db = Some (Inr (r, db'))"
  obtains os d ch seen where "initialize P db = Inr (db\<lparr>openings_table := os\<rparr>)"
    "valid_month (br_start_month payload)" "this_month P \<le> br_start_month payload" "br_categories payload \<noteq> []"
    "\<not> closed_from db (br_start_month payload)"
    "fold_result (save_amount (br_start_month payload)) (db\<lparr>openings_table := os\<rparr>, [], []) (br_categories payload)
       = Inr (d, ch, seen)"
    "\<exists>ops. grows_to (d\<lparr>operations_table := ops\<rparr>) db'"
proof -
  from assms obtain subject d0 d ch seen d2 where i: "initialize P db = Inr d0"
    and c: "valid_month (br_start_month payload)" "\<not> br_start_month payload < this_month P" "br_categories payload \<noteq> []"
    "\<not> closed_from d0 (br_start_month payload)"
    and f: "fold_result (save_amount (br_start_month payload)) (d0, [], []) (br_categories payload) = Inr (d, ch, seen)"
    and o: "insert_operation d (audit_operation P operation subject (save_audit (br_start_month payload) ch)) = Inr d2"
    and s: "sync_api P d2 (Some operation) = Some (Inr db')"
    unfolding save_monthly_budget_def by (auto simp: result_simps Let_def)
  from initialize_openings [OF i] obtain os where d0: "d0 = db\<lparr>openings_table := os\<rparr>" by blast
  have "\<exists>ops. grows_to (d\<lparr>operations_table := ops\<rparr>) db'"
    using sync_api_E(2) [OF s] insert_operation_E(1) [OF o] by auto
  moreover have "\<not> closed_from db (br_start_month payload)" using c(4) by (simp add: d0 closed_from_def)
  ultimately show ?thesis using that i c f unfolding d0 by (meson not_less)
qed

section \<open>Changing the plan\<close>

text \<open>
  C37: Monthly amounts change from their month on and never before. A save sets the amount of every
  named category, posted to the cent and not negative, starts in the current month or later and
  in no closed month, and leaves the allocation of every category in every earlier month as it
  was.
\<close>

theorem monthly_budget_saved:
  assumes "save_monthly_budget P actor enabled payload operation db = Some (Inr (r, db'))"
    and "distinct (map cat_id (categories_table db))"
  shows "this_month P \<le> br_start_month payload \<and> \<not> closed_from db (br_start_month payload)
    \<and> (\<forall>c\<in>set (br_categories payload). \<exists>k amt. named_category db (ba_name c) = Some k
         \<and> round_posted_decimal_text (ba_amount c) 2 = Inr amt \<and> \<not> starts_with amt ''-''
         \<and> base_monthly db' (cat_id k) (br_start_month payload) = Some amt)
    \<and> (\<forall>i m. m < br_start_month payload \<longrightarrow> base_monthly db' i m = base_monthly db i m)"
  using assms(1)
proof (rule save_monthly_budget_E)
  fix os d ch seen
  let ?d0 = "db\<lparr>openings_table := os\<rparr>" and ?m = "br_start_month payload"
  assume c: "this_month P \<le> ?m" "\<not> closed_from db ?m"
    and f: "fold_result (save_amount ?m) (?d0, [], []) (br_categories payload) = Inr (d, ch, seen)"
    and "\<exists>ops. grows_to (d\<lparr>operations_table := ops\<rparr>) db'"
  then obtain ops where g: "grows_to (d\<lparr>operations_table := ops\<rparr>) db'" by blast
  have b: "base_monthly db' = base_monthly d"
    using grows_to_tables(14) [OF g] by (simp add: base_monthly_def fun_eq_iff)
  have b0: "base_monthly ?d0 = base_monthly db" by (simp add: base_monthly_def fun_eq_iff)
  have n0: "named_category ?d0 = named_category db" by (simp add: named_category_def fun_eq_iff)
  have dist: "distinct (map cat_id (categories_table ?d0))" using assms(2) by simp
  show ?thesis using c save_amounts(2,3) [OF f dist] unfolding b b0 n0 by blast
qed

definition food_request :: budget_request where
  "food_request = \<lparr>br_start_month = ''2026-02'', br_categories = [\<lparr>ba_name = ''Food'', ba_amount = whole 350\<rparr>]\<rparr>"

lemma posted_whole: "round_posted_decimal_text (whole z) 2 = Inr (whole z)"
proof -
  have "\<exists>t. round_posted_decimal_text (whole z) 2 = Inr t"
    by (simp add: round_posted_decimal_text_def whole_parse)
  then obtain t where t: "round_posted_decimal_text (whole z) 2 = Inr t" by blast
  from round_posted_nearest [OF t] obtain k where k: "text_value t = of_int k / 100"
    "2 * \<bar>of_int k - of_int z * 100 :: rat\<bar> \<le> 1" by auto
  then have "of_int (2 * \<bar>k - z * 100\<bar>) \<le> (of_int 1 :: rat)" by simp
  then have "2 * \<bar>k - z * 100\<bar> \<le> 1" by (simp only: of_int_le_iff)
  then have "k = z * 100" by presburger
  then have "t = whole z" using k(1) round_posted_stable(1) [OF t] by (intro money.canon_unique) simp_all
  with t show ?thesis by simp
qed

lemma saving_run:
  "\<exists>r db'. save_monthly_budget sample_platform (Inr ''me'') True food_request ''op'' sample_db = Some (Inr (r, db'))"
proof -
  have v: "valid_month ''2026-02''" by code_simp
  have a: "posted_budget e1 e2 (whole 350) = Inr (whole 350)" "length (whole 350) \<le> 64" for e1 e2
    by (simp_all add: posted_budget_E posted_whole) (simp_all add: whole_eval starts_with_def to_string_eval)
  have g: "month_glob ''2026-02''" by code_simp
  show ?thesis
    by (simp add: save_monthly_budget_def food_request_def v g initialize_def opening_missing_def closed_from_def
        save_amount_def a named_category_def scheduled_amount_def insert_period_def delete_period_def same_period_def
        insert_operation_def audit_operation_def sync_api_def evaluate)
qed

theorem monthly_budget_saved_witness:
  "\<exists>r db'. save_monthly_budget sample_platform (Inr ''me'') True food_request ''op'' sample_db = Some (Inr (r, db'))
     \<and> base_monthly db' ''food'' ''2026-02'' = Some (whole 350)
     \<and> base_monthly db' ''food'' ''2026-01'' = base_monthly sample_db ''food'' ''2026-01''"
proof -
  obtain r db' where run: "save_monthly_budget sample_platform (Inr ''me'') True food_request ''op'' sample_db
      = Some (Inr (r, db'))" using saving_run by blast
  have "named_category sample_db ''Food'' = Some (hd (categories_table sample_db))"
    "cat_id (hd (categories_table sample_db)) = ''food''"
    by (simp_all add: named_category_def evaluate)
  with monthly_budget_saved [OF run sample_distinct] run show ?thesis
    by (simp add: food_request_def posted_whole)
qed

lemma expectation_upserted:
  assumes "expectations_table d' = upsert_expectation e (expectations_table d)"
  shows "exp_start_month e \<le> n \<Longrightarrow> \<forall>x\<in>set (expectations_table d). n < exp_start_month x \<or> exp_start_month x \<le> exp_start_month e \<Longrightarrow>
      expectation_for d' n = (exp_amount e, exp_currency e, exp_arrival_day e)"
    and "m < exp_start_month e \<Longrightarrow> expectation_for d' m = expectation_for d m"
proof -
  let ?es = "upsert_expectation e (expectations_table d)" and ?k = "exp_start_month e"
  let ?f = "filter (\<lambda>x. exp_start_month x \<le> n) ?es"
  have in_es: "e \<in> set ?es" by (auto simp: upsert_expectation_def list_ex_iff image_iff)
  have only: "x = e" if "x \<in> set ?es" "exp_start_month x = ?k" for x
    using that by (auto simp: upsert_expectation_def list_ex_iff split: if_splits)
  assume n: "?k \<le> n" and none: "\<forall>x\<in>set (expectations_table d). n < exp_start_month x \<or> exp_start_month x \<le> ?k"
  have "e \<in> set ?f" using in_es n by simp
  then obtain b where b: "last_max exp_start_month ?f = Some b"
    by (cases "last_max exp_start_month ?f") (auto simp only: last_max_None list.set empty_iff)
  have in_f: "b \<in> set ?es" "exp_start_month b \<le> n" "?k \<le> exp_start_month b"
    using last_max_in [OF b] \<open>e \<in> set ?f\<close> by auto
  have "b = e \<or> b \<in> set (expectations_table d)" using in_f(1) by (auto simp: upsert_expectation_def split: if_splits)
  with none in_f(2,3) have "exp_start_month b = ?k" by force
  with only in_f(1) have "b = e" by blast
  with b show "expectation_for d' n = (exp_amount e, exp_currency e, exp_arrival_day e)"
    by (simp add: expectation_for_def assms)
next
  let ?es = "upsert_expectation e (expectations_table d)" and ?k = "exp_start_month e"
  assume m: "m < ?k"
  then have nle: "\<not> ?k \<le> m" by simp
  have "filter (\<lambda>x. exp_start_month x \<le> m) (map (\<lambda>x. if exp_start_month x = ?k then e else x) es)
      = filter (\<lambda>x. exp_start_month x \<le> m) es" for es
    using m by (induction es) auto
  then have "filter (\<lambda>x. exp_start_month x \<le> m) ?es = filter (\<lambda>x. exp_start_month x \<le> m) (expectations_table d)"
    using nle by (simp add: upsert_expectation_def)
  then show "expectation_for d' m = expectation_for d m" by (simp add: expectation_for_def assms)
qed

lemma replan_keeps:
  "fold_result (replan os) d ms = Inr d' \<Longrightarrow> expectations_table d' = expectations_table d
     \<and> movements_table d' = movements_table d \<and> closures_table d' = closures_table d
     \<and> filter (\<lambda>p. plan_month p \<notin> set ms) (plan_income_table d') = filter (\<lambda>p. plan_month p \<notin> set ms) (plan_income_table d)"
proof (induction ms arbitrary: d)
  case (Cons m ms)
  then obtain u where u: "replan os d m = Inr u" "fold_result (replan os) u ms = Inr d'" by (auto simp: result_simps)
  from u(1) obtain e :: expectation_row and eur where r: "u = d\<lparr>plan_income_table := map (\<lambda>p. if plan_month p = m
       then p\<lparr>plan_amount := exp_amount e, plan_currency := exp_currency e, plan_amount_eur := eur,
              plan_arrival_day := exp_arrival_day e\<rparr> else p) (plan_income_table d)\<rparr>"
    by (auto simp: replan_def result_simps)
  have f: "filter (\<lambda>p. plan_month p \<noteq> m \<and> plan_month p \<notin> set ms) (map (\<lambda>p. if plan_month p = m
       then p\<lparr>plan_amount := exp_amount e, plan_currency := exp_currency e, plan_amount_eur := eur,
              plan_arrival_day := exp_arrival_day e\<rparr> else p) ps)
      = filter (\<lambda>p. plan_month p \<noteq> m \<and> plan_month p \<notin> set ms) ps" for ps :: "plan_income_row list"
    by (induction ps) auto
  have "filter (\<lambda>p. plan_month p \<noteq> m \<and> plan_month p \<notin> set ms) (plan_income_table d')
      = filter (\<lambda>p. plan_month p \<noteq> m) (filter (\<lambda>p. plan_month p \<notin> set ms) (plan_income_table d'))" by (simp add: conj_commute)
  with Cons.IH [OF u(2)] f [of "plan_income_table d"] show ?case by (simp add: r conj_commute)
qed simp

lemma save_expected_income_E:
  assumes "save_expected_income P actor enabled p operation db = Some (Inr (r, db'))"
  obtains amt d d' where "check_income_request P p = Inr amt" "\<not> closed_from db (ir_start_month p)"
    "\<exists>ops. d = db\<lparr>operations_table := ops, expectations_table := upsert_expectation \<lparr>exp_start_month = ir_start_month p,
       exp_amount = amt, exp_currency = ir_currency p, exp_arrival_day = ir_arrival_day p\<rparr> (expectations_table db)\<rparr>"
    "fold_result (replan (load_rates d)) d (open_plans d (ir_start_month p)) = Inr d'" "grows_to d' db'"
proof -
  from assms obtain subject amt d0 d' where c: "check_income_request P p = Inr amt" "\<not> closed_from db (ir_start_month p)"
    and o: "insert_operation db (audit_operation P operation subject (income_audit p amt)) = Inr d0"
    and f: "fold_result (replan (load_rates (d0\<lparr>expectations_table := upsert_expectation \<lparr>exp_start_month = ir_start_month p,
       exp_amount = amt, exp_currency = ir_currency p, exp_arrival_day = ir_arrival_day p\<rparr> (expectations_table d0)\<rparr>)))
       (d0\<lparr>expectations_table := upsert_expectation \<lparr>exp_start_month = ir_start_month p,
       exp_amount = amt, exp_currency = ir_currency p, exp_arrival_day = ir_arrival_day p\<rparr> (expectations_table d0)\<rparr>)
       (open_plans (d0\<lparr>expectations_table := upsert_expectation \<lparr>exp_start_month = ir_start_month p,
       exp_amount = amt, exp_currency = ir_currency p, exp_arrival_day = ir_arrival_day p\<rparr> (expectations_table d0)\<rparr>)
         (ir_start_month p)) = Inr d'"
    and s: "sync_api P d' (Some operation) = Some (Inr db')"
    unfolding save_expected_income_def by (auto simp: result_simps Let_def)
  note d0 = insert_operation_E(1) [OF o]
  show ?thesis
    using that [OF c _ _ sync_api_E(2) [OF s], OF _ f] by (auto simp: d0)
qed

lemma check_income_request_E:
  assumes "check_income_request P p = Inr amt"
  shows "round_posted_decimal_text (ir_amount p) 2 = Inr amt" "\<not> starts_with amt ''-''" "this_month P \<le> ir_start_month p"
  using assms by (auto simp: check_income_request_def result_simps posted_budget_E split: if_splits)

text \<open>
  C38: An expectation changes from its month on and, for a start month written with digits, in no month
  before it in the calendar. The saved amount is posted to the cent and not negative, no closed month is
  affected, the new expectation is in force from its start month up to the next one that is set, the
  expectation in force in every earlier month is the one it was, and the plans of earlier, completed or closed
  months stay as recorded. (The request check also lets a month with a sign pass, C40; there
  \<open>earlier\<close> is the order of the texts only.)
\<close>

theorem expected_income_saved:
  assumes "save_expected_income P actor enabled p operation db = Some (Inr (r, db'))"
    and "distinct (map plan_month (plan_income_table db))"
  defines "before \<equiv> \<lambda>m. if civil_month m \<and> civil_month (ir_start_month p)
      then civil_month_number m < civil_month_number (ir_start_month p) else m < ir_start_month p"
  shows "\<exists>amt. round_posted_decimal_text (ir_amount p) 2 = Inr amt \<and> \<not> starts_with amt ''-''
    \<and> this_month P \<le> ir_start_month p \<and> \<not> closed_from db (ir_start_month p)
    \<and> (\<forall>m\<ge>ir_start_month p. (\<forall>x\<in>set (expectations_table db). m < exp_start_month x \<or> exp_start_month x \<le> ir_start_month p) \<longrightarrow>
         expectation_for db' m = (amt, ir_currency p, ir_arrival_day p))
    \<and> (\<forall>m. before m \<longrightarrow> expectation_for db' m = expectation_for db m)
    \<and> (\<forall>row\<in>set (plan_income_table db). before (plan_month row) \<or> plan_completed_month row \<noteq> None
         \<or> month_closed db (plan_month row) \<longrightarrow> row \<in> set (plan_income_table db'))"
  using assms(1)
proof (rule save_expected_income_E)
  fix amt and d d' :: db
  let ?m = "ir_start_month p"
  let ?e = "\<lparr>exp_start_month = ?m, exp_amount = amt, exp_currency = ir_currency p, exp_arrival_day = ir_arrival_day p\<rparr>"
  assume c: "check_income_request P p = Inr amt" "\<not> closed_from db ?m"
    and "\<exists>ops. d = db\<lparr>operations_table := ops, expectations_table := upsert_expectation ?e (expectations_table db)\<rparr>"
    and f: "fold_result (replan (load_rates d)) d (open_plans d ?m) = Inr d'" and g: "grows_to d' db'"
  then obtain ops where d: "d = db\<lparr>operations_table := ops, expectations_table := upsert_expectation ?e (expectations_table db)\<rparr>"
    by blast
  note k = replan_keeps [OF f]
  have et: "expectations_table db' = upsert_expectation ?e (expectations_table db)"
    using g k d by (auto simp: grows_to_def)
  have earlier: "before m \<longleftrightarrow> m < ?m" for m
    using civil.month_order [of ?m m] by (auto simp: before_def not_less [symmetric] simp del: not_less)
  have keep: "row \<in> set (plan_income_table db')" if row: "row \<in> set (plan_income_table db)"
    and fixed: "plan_month row < ?m \<or> plan_completed_month row \<noteq> None \<or> month_closed db (plan_month row)" for row
  proof -
    have "plan_month row \<notin> set (open_plans d ?m)"
    proof
      assume "plan_month row \<in> set (open_plans d ?m)"
      then obtain q where q: "q \<in> set (plan_income_table db)" "plan_month q = plan_month row" "?m \<le> plan_month q"
        "plan_completed_month q = None" "\<not> month_closed db (plan_month q)"
        by (auto simp: open_plans_def d month_closed_def)
      then have "q = row" using assms(2) row by (metis distinct_map inj_onD)
      with q fixed show False by auto
    qed
    then have "row \<in> set (filter (\<lambda>p. plan_month p \<notin> set (open_plans d ?m)) (plan_income_table d))"
      using row by (simp add: d)
    then have "row \<in> set (plan_income_table d')" using k by (metis filter_is_subset subsetD)
    then show ?thesis using g by (auto simp: grows_to_def)
  qed
  show ?thesis
    using check_income_request_E [OF c(1)] c(2) expectation_upserted(1) [OF et] expectation_upserted(2) [OF et] keep
    by (intro exI [of _ amt]) (simp add: earlier)
qed

definition raise_request :: income_request where
  "raise_request = \<lparr>ir_start_month = ''2026-02'', ir_amount = whole 2500, ir_currency = ''EUR'', ir_arrival_day = 5\<rparr>"

lemma posted_2500: "posted_budget e1 e2 (whole 2500) = Inr (whole 2500)" "\<not> 64 < length (whole 2500)"
  by (simp_all add: posted_budget_E posted_whole) (simp_all add: whole_eval starts_with_def to_string_eval)

lemma raise_run:
  "\<exists>r db'. save_expected_income sample_platform (Inr ''me'') True raise_request ''op'' sample_db = Some (Inr (r, db'))"
proof -
  have v: "valid_date ''2026-02-01''" by code_simp
  show ?thesis
    by (simp add: save_expected_income_def raise_request_def check_income_request_def v posted_2500 closed_from_def
        insert_operation_def audit_operation_def upsert_expectation_def open_plans_def sync_api_def evaluate)
qed

theorem expected_income_saved_witness:
  "\<exists>r db'. save_expected_income sample_platform (Inr ''me'') True raise_request ''op'' sample_db = Some (Inr (r, db'))
     \<and> expectation_for db' ''2026-02'' = (whole 2500, ''EUR'', 5) \<and> civil_month ''2026-01'' \<and> civil_month ''2026-02''
     \<and> civil_month_number ''2026-01'' < civil_month_number ''2026-02''
     \<and> expectation_for db' ''2026-01'' = expectation_for sample_db ''2026-01''"
proof -
  obtain r db' where run: "save_expected_income sample_platform (Inr ''me'') True raise_request ''op'' sample_db
      = Some (Inr (r, db'))" using raise_run by blast
  have d: "distinct (map plan_month (plan_income_table sample_db))" "\<forall>x\<in>set (expectations_table sample_db). exp_start_month x \<le> ''2026-02''"
    by (simp_all add: evaluate)
  have "month_text 24312 = ''2026-01''" "month_text 24313 = ''2026-02''" by (simp_all add: month_text_def pad_zero_def to_string_eval)
  then have "civil_month ''2026-01''" "civil_month ''2026-02''"
    unfolding civil_month_def by (intro exI [of _ 24312] exI [of _ 24313]; simp)+
  moreover have "civil_month_number ''2026-01'' < civil_month_number ''2026-02''" "''2026-01'' < ''2026-02''" by code_simp+
  ultimately show ?thesis using expected_income_saved [OF run d(1)] run d(2) by (auto simp: raise_request_def posted_whole)
qed

definition signed_request :: income_request where
  "signed_request = \<lparr>ir_start_month = ''2026-+9'', ir_amount = whole 2500, ir_currency = ''EUR'', ir_arrival_day = 5\<rparr>"

text \<open>
  C40: A month can be written with a sign. The request check accepts the month ''2026-+9'' in
  December 2025, and as the months are compared as texts the new expectation is in force in
  January 2026 already, eight months before September.
\<close>

theorem signed_month_early:
  "check_income_request (sample_platform\<lparr>today := ''2025-12-10''\<rparr>) signed_request = Inr (whole 2500)
   \<and> expectation_for (sample_db\<lparr>expectations_table := upsert_expectation \<lparr>exp_start_month = ir_start_month signed_request,
       exp_amount = whole 2500, exp_currency = ir_currency signed_request, exp_arrival_day = ir_arrival_day signed_request\<rparr>
       (expectations_table sample_db)\<rparr>) ''2026-01'' = (whole 2500, ''EUR'', 5)"
proof -
  have v: "valid_date ''2026-+9-01''" by code_simp
  show ?thesis
    by (simp add: signed_request_def check_income_request_def v posted_2500 upsert_expectation_def evaluate)
qed

end
