(* ===== verification/ActivationProperties.thy ===== *)
theory ActivationProperties
  imports Activation Samples
begin

text \<open>
  What the activation of the ledger promises: the totals it reads, the rows it writes, and the
  opening balance that makes the ledger continue the budget before it.
\<close>

lemma opening_totals_value:
  assumes "opening_totals cats = Inr (remaining, allocations)"
  shows "text_value remaining = sum_list (map (\<lambda>c. text_value (the (bc_remaining c))) cats)"
    and "text_value allocations = sum_list (map (\<lambda>c. text_value (the (bc_monthly c))) cats)"
    and "\<forall>c\<in>set cats. bc_remaining c \<noteq> None \<and> bc_monthly c \<noteq> None"
proof -
  have "text_value remaining' = text_value remaining + sum_list (map (\<lambda>c. text_value (the (bc_remaining c))) cats)
    \<and> text_value allocations' = text_value allocations + sum_list (map (\<lambda>c. text_value (the (bc_monthly c))) cats)
    \<and> (\<forall>c\<in>set cats. bc_remaining c \<noteq> None \<and> bc_monthly c \<noteq> None)"
    if "fold_result (\<lambda>(remaining, allocations) c.
       and_then (ok_or (bc_remaining c) ''Missing category opening'') (\<lambda>r.
       and_then (add_decimal_text remaining r) (\<lambda>remaining'.
       and_then (ok_or (bc_monthly c) ''Missing allocation'') (\<lambda>a.
       and_then (add_decimal_text allocations a) (\<lambda>allocations'.
       Inr (remaining', allocations')))))) (remaining, allocations) cats = Inr (remaining', allocations')"
    for remaining allocations remaining' allocations'
    using that
  proof (induction cats arbitrary: remaining allocations)
    case (Cons c cats)
    then obtain x r y a where 1: "bc_remaining c = Some r" "add_decimal_text remaining r = Inr x"
      "bc_monthly c = Some a" "add_decimal_text allocations a = Inr y"
      and rest: "fold_result (\<lambda>(remaining, allocations) c.
       and_then (ok_or (bc_remaining c) ''Missing category opening'') (\<lambda>r.
       and_then (add_decimal_text remaining r) (\<lambda>remaining'.
       and_then (ok_or (bc_monthly c) ''Missing allocation'') (\<lambda>a.
       and_then (add_decimal_text allocations a) (\<lambda>allocations'.
       Inr (remaining', allocations')))))) (x, y) cats = Inr (remaining', allocations')"
      by (auto simp: result_simps)
    from Cons.IH [OF rest] money.add_val [OF 1(2)] money.add_val [OF 1(4)] 1(1,3) show ?case by simp
  qed simp
  from this [OF assms [unfolded opening_totals_def]]
  show "text_value remaining = sum_list (map (\<lambda>c. text_value (the (bc_remaining c))) cats)"
    "text_value allocations = sum_list (map (\<lambda>c. text_value (the (bc_monthly c))) cats)"
    "\<forall>c\<in>set cats. bc_remaining c \<noteq> None \<and> bc_monthly c \<noteq> None"
    by (simp_all add: money.zero_val)
qed

text \<open>The legacy receipts: one for every income transaction, appended in order.\<close>

lemma legacy_receipts_rows:
  assumes "legacy_receipts db = Inr db'"
  shows "db' = db\<lparr>receipts_table := receipts_table db @ map (\<lambda>t. \<lparr>rec_transaction = tx_id t, rec_treatment = ''legacy'',
    rec_expected_month = None\<rparr>) (filter (\<lambda>t. tx_kind t = ''income'') (transactions_table db))\<rparr>"
    and "ledger_tables_exist db"
proof -
  have "d' = d\<lparr>receipts_table := receipts_table d @ map (\<lambda>t. \<lparr>rec_transaction = tx_id t, rec_treatment = ''legacy'',
    rec_expected_month = None\<rparr>) ts\<rparr>"
    if "fold_result (\<lambda>d t.
        if list_ex (\<lambda>r. rec_transaction r = tx_id t) (receipts_table d)
        then Inl ''UNIQUE constraint failed: budget_income_receipts.transaction_id''
        else Inr (d\<lparr>receipts_table := receipts_table d @
          [\<lparr>rec_transaction = tx_id t, rec_treatment = ''legacy'', rec_expected_month = None\<rparr>]\<rparr>)) d ts = Inr d'"
    for d d' and ts :: "transaction_row list"
    using that
  proof (induction ts arbitrary: d)
    case (Cons t ts)
    from Cons.prems have "d' = d\<lparr>receipts_table := receipts_table d @ [\<lparr>rec_transaction = tx_id t,
        rec_treatment = ''legacy'', rec_expected_month = None\<rparr>]\<rparr>\<lparr>receipts_table := (receipts_table d @ [\<lparr>rec_transaction = tx_id t,
        rec_treatment = ''legacy'', rec_expected_month = None\<rparr>]) @ map (\<lambda>t. \<lparr>rec_transaction = tx_id t, rec_treatment = ''legacy'',
        rec_expected_month = None\<rparr>) ts\<rparr>"
      by (subst Cons.IH) (auto split: if_splits)
    then show ?case by simp
  qed simp
  with assms show "db' = db\<lparr>receipts_table := receipts_table db @ map (\<lambda>t. \<lparr>rec_transaction = tx_id t, rec_treatment = ''legacy'',
    rec_expected_month = None\<rparr>) (filter (\<lambda>t. tx_kind t = ''income'') (transactions_table db))\<rparr>"
    and "ledger_tables_exist db"
    by (auto simp: legacy_receipts_def split: if_splits)
qed

lemma opening_unallocated_value:
  "opening_unallocated c r a e = Inr u \<Longrightarrow>
     text_value u = text_value c - text_value r + text_value (ei_outstanding_eur e)
       - (text_value (ei_amount_eur e) - text_value a) \<and> canonical_text u"
  by (auto simp: opening_unallocated_def result_simps dest!: money.add_val money.sub_val)

lemma income_other_table: "income (db\<lparr>ledger_state_table := s\<rparr>) m through = income db m through"
proof -
  have "latest_valuation (db\<lparr>ledger_state_table := s\<rparr>) = latest_valuation db"
    by (simp add: fun_eq_iff latest_valuation_def)
  moreover have "receipts_table (db\<lparr>ledger_state_table := s\<rparr>) = receipts_table db"
    "transactions_table (db\<lparr>ledger_state_table := s\<rparr>) = transactions_table db"
    "accounts_table (db\<lparr>ledger_state_table := s\<rparr>) = accounts_table db"
    "valuations_table (db\<lparr>ledger_state_table := s\<rparr>) = valuations_table db" by simp_all
  ultimately have "receipt_joins (db\<lparr>ledger_state_table := s\<rparr>) = receipt_joins db"
    unfolding fun_eq_iff receipt_joins_def by (simp only: simp_thms)
  then show ?thesis by (simp add: income_def plan_income_of_def matched_receipts_def split: option.split)
qed

lemma ensure_income_only: "ensure_income db m = Inr db' \<Longrightarrow> db' = db\<lparr>plan_income_table := plan_income_table db'\<rparr>"
  by (auto simp: ensure_income_def result_simps split: if_splits prod.splits)

lemma install_ledger_E:
  assumes "install_ledger db m cash_eur remaining allocations = Inr d"
  obtains e u where "start d = Some m" "ledger_state_table d = Some \<lparr>st_start_month = m, st_opening_unallocated = u\<rparr>"
    "income d m m = Inr (Some e)" "opening_unallocated cash_eur remaining allocations e = Inr u"
    "\<exists>c\<in>set (categories_table d). cat_id c = UNALLOCATED \<and> cat_is_real c"
    "transactions_table d = transactions_table db"
    "receipts_table d = map (\<lambda>r. if rec_treatment r = ''legacy''
          \<and> list_ex (\<lambda>t. tx_id t = rec_transaction r \<and> take 7 (tx_date t) = m) (transactions_table db)
       then r\<lparr>rec_expected_month := Some m\<rparr> else r)
       (receipts_table db @ map (\<lambda>t. \<lparr>rec_transaction = tx_id t, rec_treatment = ''legacy'', rec_expected_month = None\<rparr>)
         (filter (\<lambda>t. tx_kind t = ''income'') (transactions_table db)))"
proof -
  let ?row = "\<lparr>cat_id = UNALLOCATED, cat_name = ''Unallocated'', cat_is_real = True, cat_source_row = 1000000\<rparr>"
  from assms obtain d1 d2 d3 d4 e u where d1: "insert_category db ?row = Inr d1" and d2: "legacy_receipts d1 = Inr d2"
    and d3: "insert_state d2 m = Inr d3" and d4: "ensure_income d3 m = Inr d4"
    and i: "income (match_current_receipts d4 m) m m = Inr (Some e)"
    and o: "opening_unallocated cash_eur remaining allocations e = Inr u"
    and d: "d = set_opening (match_current_receipts d4 m) u"
    by (auto simp: install_ledger_def Let_def result_simps)
  have d1': "d1 = db\<lparr>categories_table := categories_table db @ [?row]\<rparr>"
    using d1 by (auto simp: insert_category_def split: if_splits)
  note d2' = legacy_receipts_rows [OF d2]
  have d3': "d3 = d2\<lparr>ledger_state_table := Some \<lparr>st_start_month = m, st_opening_unallocated = ''0''\<rparr>\<rparr>"
    using d3 by (auto simp: insert_state_def split: option.splits)
  obtain ps where d4': "d4 = d3\<lparr>plan_income_table := ps\<rparr>"
    using ensure_income_only [OF d4] by blast
  have inc: "income d m m = income (match_current_receipts d4 m) m m"
    unfolding d set_opening_def by (rule income_other_table)
  show ?thesis
    by (rule that [of u e])
      (use d2' i o inc in \<open>simp_all add: d set_opening_def match_current_receipts_def d4' d3' d1' start_def\<close>)
qed

text \<open>What the ledger writes leave of the expectation of a month.\<close>

lemma income_grows:
  assumes "grows_to db db'" "income db m through = Inr (Some e)"
  shows "income db' m through = Inr (Some e)"
proof -
  note t = grows_to_tables [OF assms(1)]
  from assms(2) obtain row where row: "plan_income_of db m = Some row"
    by (auto simp: income_def split: option.splits)
  have "latest_valuation db' = latest_valuation db" by (simp add: fun_eq_iff latest_valuation_def t)
  then have "receipt_joins db' = receipt_joins db"
    unfolding fun_eq_iff receipt_joins_def t by (simp only: simp_thms)
  with assms(2) row grows_to_plan [OF row assms(1)] show ?thesis
    by (simp add: income_def matched_receipts_def)
qed

lemma legacy_matched:
  assumes "distinct (map tx_id ts)" "t \<in> set ts"
  shows "list_ex (\<lambda>x. tx_id x = tx_id t \<and> take 7 (tx_date x) = m) ts \<longleftrightarrow> take 7 (tx_date t) = m"
  using assms by (auto simp: list_ex_iff distinct_map dest: inj_onD)

text \<open>
  C39: The activation of the ledger keeps the position of the budget. It opens the ledger in the
  current month with an Unallocated balance of the cash less what the categories retain, plus the
  income still to come, less what the recurring income exceeds the allocations by; it adds the
  Unallocated category; every income transaction so far gets one legacy receipt, which expects the
  current month exactly when the transaction is dated in it and no month otherwise, after the receipts there
  were; and a second activation changes nothing.
\<close>

theorem activation_opens:
  assumes "activate P db = Some (Inr db')" "start db = None" "first_month P db = Inr (Some first)"
    and "distinct (map tx_id (transactions_table db))"
  shows "\<exists>cats cash_eur e u. budget_categories P db (this_month P) = Some (Inr cats)
     \<and> cash db (today P) = Inr cash_eur \<and> income db' (this_month P) (this_month P) = Inr (Some e)
     \<and> ledger_state_table db' = Some \<lparr>st_start_month = this_month P, st_opening_unallocated = u\<rparr>
     \<and> start db' = Some (this_month P) \<and> canonical_text u
     \<and> text_value u = text_value cash_eur - sum_list (map (\<lambda>c. text_value (the (bc_remaining c))) cats)
         + text_value (ei_outstanding_eur e)
         - (text_value (ei_amount_eur e) - sum_list (map (\<lambda>c. text_value (the (bc_monthly c))) cats))
     \<and> (\<exists>c\<in>set (categories_table db'). cat_id c = UNALLOCATED \<and> cat_is_real c)
     \<and> (\<exists>earlier. map rec_transaction earlier = map rec_transaction (receipts_table db)
          \<and> receipts_table db' = earlier @ map (\<lambda>t. \<lparr>rec_transaction = tx_id t, rec_treatment = ''legacy'',
               rec_expected_month = (if take 7 (tx_date t) = this_month P then Some (this_month P) else None)\<rparr>)
             (filter (\<lambda>t. tx_kind t = ''income'') (transactions_table db)))
     \<and> activate P db' = Some (Inr db')"
proof -
  let ?m = "this_month P"
  from assms obtain cats remaining allocations cash_eur d where cats: "budget_categories P db ?m = Some (Inr cats)"
    and totals: "opening_totals cats = Inr (remaining, allocations)" and cash: "cash db (today P) = Inr cash_eur"
    and d: "install_ledger db ?m cash_eur remaining allocations = Inr d" and s: "sync P d None = Some (Inr db')"
    by (auto simp: activate_def result_simps)
  note g = sync_grows [OF s] note t = grows_to_tables [OF g]
  obtain e u where e: "start d = Some ?m"
    "ledger_state_table d = Some \<lparr>st_start_month = ?m, st_opening_unallocated = u\<rparr>"
    "income d ?m ?m = Inr (Some e)" "opening_unallocated cash_eur remaining allocations e = Inr u"
    "\<exists>c\<in>set (categories_table d). cat_id c = UNALLOCATED \<and> cat_is_real c"
    and r: "receipts_table d = map (\<lambda>r. if rec_treatment r = ''legacy''
          \<and> list_ex (\<lambda>t. tx_id t = rec_transaction r \<and> take 7 (tx_date t) = ?m) (transactions_table db)
       then r\<lparr>rec_expected_month := Some ?m\<rparr> else r)
       (receipts_table db @ map (\<lambda>t. \<lparr>rec_transaction = tx_id t, rec_treatment = ''legacy'', rec_expected_month = None\<rparr>)
         (filter (\<lambda>t. tx_kind t = ''income'') (transactions_table db)))" by (rule install_ledger_E [OF d])
  have receipts: "\<exists>earlier. map rec_transaction earlier = map rec_transaction (receipts_table db)
      \<and> receipts_table db' = earlier @ map (\<lambda>t. \<lparr>rec_transaction = tx_id t, rec_treatment = ''legacy'',
           rec_expected_month = (if take 7 (tx_date t) = ?m then Some ?m else None)\<rparr>)
         (filter (\<lambda>t. tx_kind t = ''income'') (transactions_table db))"
    unfolding t(5) r map_append
    by (intro exI conjI, rule_tac [2] arg_cong2 [where f = "(@)", OF refl]) (simp_all add: legacy_matched [OF assms(4)])
  have state: "ledger_state_table db' = ledger_state_table d" using g by (auto simp: grows_to_def)
  have start: "start db' = Some ?m" using e(1) t(11) by simp
  have again: "activate P db' = Some (Inr db')" by (simp add: activate_def start)
  have worth: "canonical_text u" "text_value u = text_value cash_eur
       - sum_list (map (\<lambda>c. text_value (the (bc_remaining c))) cats) + text_value (ei_outstanding_eur e)
       - (text_value (ei_amount_eur e) - sum_list (map (\<lambda>c. text_value (the (bc_monthly c))) cats))"
    using opening_unallocated_value [OF e(4)] opening_totals_value(1,2) [OF totals] by simp_all
  have row: "\<exists>c\<in>set (categories_table db'). cat_id c = UNALLOCATED \<and> cat_is_real c"
    and opened: "ledger_state_table db' = Some \<lparr>st_start_month = ?m, st_opening_unallocated = u\<rparr>"
    using e(2,5) state t(1) by simp_all
  show ?thesis
    by (rule exI [of _ cats], rule exI [of _ cash_eur], rule exI [of _ e], rule exI [of _ u], intro conjI)
      (rule cats cash income_grows [OF g e(3)] opened start worth row receipts again)+
qed

definition before_db :: db where
  "before_db = sample_db\<lparr>ledger_state_table := None,
     categories_table := [\<lparr>cat_id = ''food'', cat_name = ''Food'', cat_is_real = True, cat_source_row = 1\<rparr>]\<rparr>"


lemma before_cats: "\<exists>c. budget_categories sample_platform before_db ''2026-01'' = Some (Inr [c])
   \<and> bc_remaining c = Some (whole 315) \<and> bc_monthly c = Some (whole 300)"
  by (simp add: before_db_def budget_categories_def history_def evaluate)

lemma before_cash: "cash before_db ''2026-01-20'' = Inr (whole 500)"
  by (simp add: cash_def account_balance_at_def before_db_def evaluate)

lemma before_install: "\<exists>d d'. install_ledger before_db ''2026-01'' (whole 500) (whole 315) (whole 300) = Inr d
   \<and> sync sample_platform d None = Some (Inr d')"
  by (simp add: before_db_def install_ledger_def insert_category_def legacy_receipts_def
      insert_state_def match_current_receipts_def opening_unallocated_def set_opening_def
      income_def outstanding_of_def completed_by_def funding_portion_def positive_whole
      proportional_whole [of 2000 2000 2000 2000] evaluate)

lemma activate_run: "\<exists>db'. activate sample_platform before_db = Some (Inr db')"
proof -
  have t: "this_month sample_platform = ''2026-01''" "today sample_platform = ''2026-01-20''" by (simp_all add: evaluate)
  have s: "start before_db = None" "first_month sample_platform before_db = Inr (Some ''2026-01'')"
    by (simp_all add: before_db_def evaluate)
  have "opening_totals [c] = Inr (whole 315, whole 300)"
    if "bc_remaining c = Some (whole 315)" "bc_monthly c = Some (whole 300)" for c
    using that by (simp add: opening_totals_def evaluate)
  then show ?thesis
    using before_cats before_cash before_install by (auto simp: activate_def t s)
qed

theorem activation_opens_witness:
  "\<exists>db' e u. activate sample_platform before_db = Some (Inr db')
     \<and> ledger_state_table db' = Some \<lparr>st_start_month = ''2026-01'', st_opening_unallocated = u\<rparr>
     \<and> income db' ''2026-01'' ''2026-01'' = Inr (Some e) \<and> canonical_text u
     \<and> text_value u = 500 - 315 + text_value (ei_outstanding_eur e) - (text_value (ei_amount_eur e) - 300)"
proof -
  have ids: "distinct (map tx_id (transactions_table before_db))" by (simp add: before_db_def evaluate)
  have t: "this_month sample_platform = ''2026-01''" "today sample_platform = ''2026-01-20''" by (simp_all add: evaluate)
  have s: "start before_db = None" "first_month sample_platform before_db = Inr (Some ''2026-01'')"
    by (simp_all add: before_db_def evaluate)
  obtain db' where run: "activate sample_platform before_db = Some (Inr db')" using activate_run by blast
  obtain c where c: "budget_categories sample_platform before_db ''2026-01'' = Some (Inr [c])"
    "bc_remaining c = Some (whole 315)" "bc_monthly c = Some (whole 300)" using before_cats by blast
  from activation_opens [OF run s ids, unfolded t] c before_cash run show ?thesis by auto
qed

end
