(* ===== verification/RequestProperties.thy ===== *)
theory RequestProperties
  imports PlanProperties
begin

text \<open>
  What the checks of a request promise to the ledger behind them.
\<close>

text \<open>
  The two calendars agree. The request check of \<open>server.rs\<close> accepts a date exactly when its
  three parts have four, two and two characters, the date parser of \<open>finance_model.rs\<close> reads it,
  and its year is positive, so that no accepted date fails in the ledger.
\<close>

theorem valid_date_agrees:
  "valid_date v \<longleftrightarrow> map length (split_on (\<lambda>c. c = CHR ''-'') v) = [4, 2, 2]
     \<and> (\<exists>n. parse_date v = Inr n \<and> 0 < fst (civil_date_from_days n))"
  by (rule valid_date_iff_parse)

lemma trimmed_unallocated: "trimmed_id (Some UNALLOCATED) = Some UNALLOCATED"
  by (simp add: trimmed_id_def UNALLOCATED_def trim_id)

text \<open>
  A normalised transaction request can be posted. Its amount is a positive number of cents in
  canonical form, within half a cent of the amount asked for; its kind, date and currency are
  valid; an expense is not charged to Unallocated; income without a category that is no refund
  goes to Unallocated; and normalising it again changes nothing while the amounts keep within
  64 characters.
\<close>

theorem request_normalized:
  assumes "normalize_db_transaction_write UNALLOCATED p = Inr q"
  shows "canonical_text (wr_amount q) \<and> 0 < text_value (wr_amount q)
     \<and> (\<exists>k::int. text_value (wr_amount q) = of_int k / 100)
     \<and> 2 * \<bar>100 * text_value (wr_amount q) - 100 * text_value (wr_amount p)\<bar> \<le> 1
     \<and> wr_kind q \<in> {''expense'', ''income'', ''transfer'', ''reallocate''} \<and> valid_date (wr_date q)
     \<and> (\<forall>c. wr_currency q = Some c \<longrightarrow> c \<in> {''EUR'', ''PHP'', ''USD''})
     \<and> \<not> (wr_kind q = ''expense'' \<and> wr_from_category q = Some UNALLOCATED)
     \<and> (wr_kind q = ''income'' \<and> wr_income_treatment q \<noteq> Some ''refund'' \<longrightarrow> wr_to_category q \<noteq> None)
     \<and> (length (wr_amount q) \<le> 64 \<and> (\<forall>a. wr_to_amount q = Some a \<longrightarrow> length a \<le> 64)
          \<longrightarrow> normalize_db_transaction_write UNALLOCATED q = Inr q)"
proof -
  from assms obtain amt to_amt where c: "check_request (trim_request p) = Inr ()"
    and a: "round_positive (wr_amount p) ''amount'' = Inr amt"
    and cur: "case normalize_currency (wr_currency p) of Some c \<Rightarrow> c \<in> {''EUR'', ''PHP'', ''USD''} | None \<Rightarrow> True"
    and fin: "finish_request UNALLOCATED ((trim_request p)\<lparr>wr_amount := amt, wr_to_amount := to_amt,
       wr_currency := normalize_currency (wr_currency p)\<rparr>) = Inr q"
    by (rule normalize_E)
  note q = finish_request_E [OF fin]
  have f: "wr_amount q = amt" "wr_kind q = wr_kind (trim_request p)" "wr_date q = wr_date (trim_request p)"
    "wr_currency q = normalize_currency (wr_currency p)"
    by (simp_all add: q(1))
  have checked: "wr_kind q \<in> {''expense'', ''income'', ''transfer'', ''reallocate''}" "valid_date (wr_date q)"
    using c unfolding f check_request_def by (auto split: if_splits)
  have category: "wr_kind q = ''income'' \<and> wr_income_treatment q \<noteq> Some ''refund'' \<longrightarrow> wr_to_category q \<noteq> None"
    unfolding q(1) by (auto simp: default_income_category_def)
  have currency: "\<forall>c. wr_currency q = Some c \<longrightarrow> c \<in> {''EUR'', ''PHP'', ''USD''}"
    using cur unfolding f(4) by (cases "normalize_currency (wr_currency p)") simp_all
  have again: "length (wr_amount q) \<le> 64 \<and> (\<forall>a. wr_to_amount q = Some a \<longrightarrow> length a \<le> 64)
      \<longrightarrow> normalize_db_transaction_write UNALLOCATED q = Inr q"
    using normalize_again [OF assms trimmed_unallocated] by blast
  from round_positive_E(1-4) [OF a] checked currency q(2) category again show ?thesis unfolding f(1) by blast
qed

definition sample_request :: write_request where
  "sample_request = \<lparr>wr_operation_id = ''op'', wr_transaction_id = ''t2'', wr_kind = ''Income'', wr_date = ''2026-01-09'',
     wr_occurred_at = None, wr_date_only = True, wr_description = ''salary'', wr_amount = whole 2500,
     wr_currency = Some ''eur'', wr_to_amount = None, wr_from_category = None, wr_to_category = None,
     wr_from_account = None, wr_to_account = Some ''bank'', wr_income_treatment = None, wr_corrects = None,
     wr_expected_month = None\<rparr>"

theorem request_normalized_witness:
  "\<exists>q. normalize_db_transaction_write UNALLOCATED sample_request = Inr q \<and> wr_kind q = ''income''
     \<and> wr_to_category q \<noteq> None \<and> 0 < text_value (wr_amount q)"
proof -
  have trims: "trim ''Income'' = ''Income''" "trim ''2026-01-09'' = ''2026-01-09''" "trim ''salary'' = ''salary''"
    "trim ''eur'' = ''eur''" "trim ''bank'' = ''bank''" by (simp_all add: trim_id)
  have cases: "ascii_lower (CHR ''I'') = CHR ''i''" "ascii_lower (CHR ''n'') = CHR ''n''" "ascii_lower (CHR ''c'') = CHR ''c''"
    "ascii_lower (CHR ''o'') = CHR ''o''" "ascii_lower (CHR ''m'') = CHR ''m''" "ascii_lower (CHR ''e'') = CHR ''e''"
    "ascii_upper (CHR ''e'') = CHR ''E''" "ascii_upper (CHR ''u'') = CHR ''U''" "ascii_upper (CHR ''r'') = CHR ''R''"
    by code_simp+
  have date: "valid_date ''2026-01-09''" by code_simp
  have count: "\<not> 500 < char_count ''salary''" by (simp add: char_count_def)
  note t = trims cases date count
  have "round_positive (whole 2500) ''amount'' = Inr (whole 2500)"
    using posted_2500(2) posted_whole [of 2500] by (simp add: round_positive_def whole_eval starts_with_def to_string_eval)
  then obtain q where q: "normalize_db_transaction_write UNALLOCATED sample_request = Inr q" "wr_kind q = ''income''"
      "wr_income_treatment q = None"
    by (simp add: normalize_db_transaction_write_def trim_request_def sample_request_def t Let_def check_request_def
        round_to_amount_def normalize_currency_def income_options_invalid_def finish_request_def
        default_income_category_def trimmed_id_def)
  from request_normalized [OF q(1)] q show ?thesis by auto
qed

end
