(* ===== verification/AuthTables.thy ===== *)
theory AuthTables
  imports Http Tables
begin

text \<open>
  The state and the requests of the sign-in code of \<open>server.rs\<close>: the tables of the migrations
  0001, 0002, 0003, 0010, 0015 and 0016, the request headers, and the actions on the tables. A
  statement outside a transaction keeps its effect when a later one of the handler fails, so
  that an action returns the database with its error as well; \<open>atomically\<close> is a transaction.
\<close>

section \<open>Tables\<close>

record pocket_state_row =
  pst_state :: string
  pst_verifier :: string
  pst_expires :: int
  pst_redirect :: "string option"
  pst_challenge :: "string option"

record handoff_row =
  hof_code_hash :: string
  hof_subject :: string
  hof_username :: string
  hof_expires :: int
  hof_created :: int
  hof_challenge :: "string option"

record pocket_session_row =
  pse_id_hash :: string
  pse_subject :: string
  pse_username :: string
  pse_expires :: int
  pse_created :: int

record oauth_state_row =
  oau_state :: string
  oau_verifier :: string
  oau_force_consent :: bool
  oau_expires :: int
  oau_session :: "string option"

record google_session_row =
  gse_id_hash :: string
  gse_email :: string
  gse_access_token :: string
  gse_access_expires :: int
  gse_expires :: int
  gse_created :: int
  gse_session :: "string option"

record google_account_row =
  gac_email :: string
  gac_refresh_token :: string
  gac_updated :: int

record push_device_row =
  dev_installation :: string
  dev_subject :: string
  dev_session :: string
  dev_token :: string
  dev_updated :: int

record push_outbox_row =
  out_event :: string
  out_operation :: string
  out_transaction :: string
  out_title :: string
  out_body :: string
  out_installation :: string
  out_subject :: string
  out_session :: string
  out_created :: int
  out_next_attempt :: int
  out_attempts :: int

record auth_db =
  pocket_states :: "pocket_state_row list"
  handoffs :: "handoff_row list"
  pocket_sessions :: "pocket_session_row list"
  oauth_states :: "oauth_state_row list"
  google_sessions :: "google_session_row list"
  google_accounts :: "google_account_row list"
  push_devices :: "push_device_row list"
  push_outbox :: "push_outbox_row list"

definition empty_auth :: auth_db where
  "empty_auth = \<lparr>pocket_states = [], handoffs = [], pocket_sessions = [], oauth_states = [], google_sessions = [],
     google_accounts = [], push_devices = [], push_outbox = []\<rparr>"

section \<open>Actions\<close>

type_synonym 'a action = "auth_db \<Rightarrow> 'a api \<times> auth_db"

definition reply :: "'a \<Rightarrow> 'a action" where
  "reply x = (\<lambda>s. (Inr x, s))"

definition refuse :: "api_error \<Rightarrow> 'a action" where
  "refuse e = (\<lambda>s. (Inl e, s))"

definition bind_action :: "'a action \<Rightarrow> ('a \<Rightarrow> 'b action) \<Rightarrow> 'b action" where
  "bind_action m f = (\<lambda>s. case m s of (Inl e, s') \<Rightarrow> (Inl e, s') | (Inr x, s') \<Rightarrow> f x s')"

definition update :: "(auth_db \<Rightarrow> auth_db) \<Rightarrow> unit action" where
  "update f = (\<lambda>s. (Inr (), f s))"

definition query :: "(auth_db \<Rightarrow> 'a) \<Rightarrow> 'a action" where
  "query f = (\<lambda>s. (Inr (f s), s))"

text \<open>A result computed without the database, such as the answer of a network call.\<close>

definition from_api :: "'a api \<Rightarrow> 'a action" where
  "from_api r = (\<lambda>s. (r, s))"

definition require :: "bool \<Rightarrow> api_error \<Rightarrow> unit action" where
  "require c e = (if c then reply () else refuse e)"

definition atomically :: "'a action \<Rightarrow> 'a action" where
  "atomically m = (\<lambda>s. case m s of (Inl e, _) \<Rightarrow> (Inl e, s) | (Inr x, s') \<Rightarrow> (Inr x, s'))"

lemmas action_defs = reply_def refuse_def bind_action_def update_def query_def from_api_def require_def atomically_def

lemma bind_action_Inr [result_simps]:
  "bind_action m f s = (Inr y, t) \<longleftrightarrow> (\<exists>x u. m s = (Inr x, u) \<and> f x u = (Inr y, t))"
  by (auto simp: bind_action_def split: prod.splits sum.splits)

lemma action_Inr [result_simps]:
  "reply x s = (Inr y, t) \<longleftrightarrow> x = y \<and> t = s"
  "refuse e s = (Inr y, t) \<longleftrightarrow> False"
  "update f s = (Inr v, t) \<longleftrightarrow> t = f s"
  "query g s = (Inr z, t) \<longleftrightarrow> z = g s \<and> t = s"
  "from_api r s = (Inr w, t) \<longleftrightarrow> r = Inr w \<and> t = s"
  "require c e s = (Inr v, t) \<longleftrightarrow> c \<and> t = s"
  by (auto simp: action_defs)

lemma atomically_Inr [result_simps]: "atomically m s = (Inr x, t) \<longleftrightarrow> m s = (Inr x, t)"
  by (auto simp: atomically_def split: prod.splits sum.splits)

text \<open>A failed transaction leaves the database as it was.\<close>

lemma atomically_Inl: "atomically m s = (Inl e, t) \<Longrightarrow> t = s"
  by (auto simp: atomically_def split: prod.splits sum.splits)

text \<open>A relation between the databases before and after an action, on every path.\<close>

definition obeys :: "(auth_db \<Rightarrow> auth_db \<Rightarrow> bool) \<Rightarrow> 'a action \<Rightarrow> bool" where
  "obeys R m \<longleftrightarrow> (\<forall>s. R s (snd (m s)))"

lemma obeysD: "obeys R m \<Longrightarrow> m s = (r, t) \<Longrightarrow> R s t"
  by (metis obeys_def snd_conv)

lemma obeys_bind:
  assumes "\<And>a b c. R a b \<Longrightarrow> R b c \<Longrightarrow> R a c" "obeys R m" "\<And>x. obeys R (f x)"
  shows "obeys R (bind_action m f)"
  using assms(2,3) unfolding obeys_def bind_action_def
  by (auto split: prod.split sum.split) (metis assms(1) snd_conv)+

lemma obeys_read:
  assumes "\<And>s. R s s"
  shows "obeys R (reply x)" "obeys R (refuse e)" "obeys R (query g)" "obeys R (from_api r)"
    "obeys R (require c e)"
  using assms by (auto simp: obeys_def action_defs)

lemma obeys_update: "(\<And>s. R s (f s)) \<Longrightarrow> obeys R (update f)"
  by (simp add: obeys_def action_defs)

lemma obeys_atomically: "(\<And>s. R s s) \<Longrightarrow> obeys R m \<Longrightarrow> obeys R (atomically m)"
  unfolding obeys_def atomically_def by (auto split: prod.split sum.split) (metis snd_conv)+

section \<open>What the server relies on\<close>

text \<open>
  A parsed URL of the \<open>url\<close> crate. \<open>url_origin\<close> is \<open>None\<close> for an opaque origin, which equals no
  other origin.
\<close>

record web_url =
  url_origin :: "string option"
  url_username :: string
  url_password :: "string option"
  url_path :: string
  url_query :: "string option"
  url_fragment :: "string option"

text \<open>
  The configuration, the digests and codecs of other crates, and the answers of the identity
  providers: \<open>pocket_userinfo code verifier\<close> is the account (\<open>sub\<close> and \<open>preferred_username\<close>) that
  Pocket ID returns for a code, with the error of a failed call; \<open>google_token\<close> takes the grant type
  with the code and verifier, or the refresh token, and gives status and body.
\<close>

record auth_env =
  public_origin :: string
  allowed_subjects :: "string list"
  allowed_emails :: "string list"
  digest_hex :: "string \<Rightarrow> string"
  digest_base64 :: "string \<Rightarrow> string"
  base64_length :: "string \<Rightarrow> nat option"
  parse_url :: "string \<Rightarrow> web_url option"
  uuid_ok :: "string \<Rightarrow> bool"
  encrypt_secret :: "string \<Rightarrow> string api"
  decrypt_secret :: "string \<Rightarrow> string api"
  pocket_userinfo :: "string \<Rightarrow> string \<Rightarrow> (string \<times> string) api"
  google_token :: "string \<Rightarrow> string list \<Rightarrow> (nat \<times> json) api"
  google_userinfo :: "string \<Rightarrow> (string \<times> bool) api"

definition hash_session_id :: "auth_env \<Rightarrow> string \<Rightarrow> string" where
  "hash_session_id E i = digest_hex E i"

section \<open>Headers\<close>

text \<open>The first value of a header: absent, not visible ASCII (\<open>to_str\<close> fails), or a text.\<close>

record request_headers =
  hd_origin :: "string option option"
  hd_authorization :: "string option option"
  hd_cookie :: "string option option"

definition header_text :: "string option option \<Rightarrow> string option" where
  "header_text h = (case h of Some v \<Rightarrow> v | None \<Rightarrow> None)"

definition is_hexdigit :: "char \<Rightarrow> bool" where
  "is_hexdigit c \<longleftrightarrow> is_digit c \<or> ascii_lower c \<in> set ''abcdef''"

definition SESSION_COOKIE :: string where
  "SESSION_COOKIE = ''presto_session''"

definition POCKET_SESSION_COOKIE :: string where
  "POCKET_SESSION_COOKIE = ''presto_pocket''"

definition POCKET_OAUTH_COOKIE :: string where
  "POCKET_OAUTH_COOKIE = ''presto_pocket_oauth''"

definition SESSION_TTL_SECONDS :: int where
  "SESSION_TTL_SECONDS = 30 * 24 * 60 * 60"

definition MOBILE_HANDOFF_TTL_SECONDS :: int where
  "MOBILE_HANDOFF_TTL_SECONDS = 90"

definition OAUTH_STATE_TTL_SECONDS :: int where
  "OAUTH_STATE_TTL_SECONDS = 10 * 60"

definition split_once :: "char \<Rightarrow> string \<Rightarrow> (string \<times> string) option" where
  "split_once c s =
     (if c \<in> set s then Some (takeWhile (\<lambda>x. x \<noteq> c) s, tl (dropWhile (\<lambda>x. x \<noteq> c) s)) else None)"

definition session_token :: "string \<Rightarrow> bool" where
  "session_token v \<longleftrightarrow> length v = 64 \<and> list_all is_hexdigit v"

definition named_cookie :: "string \<Rightarrow> string \<Rightarrow> string option" where
  "named_cookie cookie_name cookie =
     (case split_once (CHR ''='') (trim cookie) of
        Some (name, v) \<Rightarrow> if name = cookie_name \<and> session_token v then Some v else None
      | None \<Rightarrow> None)"

definition cookie_id_from_headers :: "request_headers \<Rightarrow> string \<Rightarrow> string option" where
  "cookie_id_from_headers h cookie_name =
     Option.bind (header_text (hd_cookie h)) (\<lambda>cookies.
     first_row (concat (map (\<lambda>c. case named_cookie cookie_name c of Some v \<Rightarrow> [v] | None \<Rightarrow> [])
       (split_on (\<lambda>c. c = CHR '';'') cookies))))"

definition bearer_session_id_from_headers :: "request_headers \<Rightarrow> string option" where
  "bearer_session_id_from_headers h =
     Option.bind (header_text (hd_authorization h)) (\<lambda>v.
     Option.bind (strip_prefix v ''Bearer '') (\<lambda>token.
     if session_token token then Some token else None))"

definition session_id_from_headers :: "request_headers \<Rightarrow> string option" where
  "session_id_from_headers h = cookie_id_from_headers h SESSION_COOKIE"

text \<open>A request with an authorization header is never signed in by its cookie.\<close>

definition pocket_session_id_from_headers :: "request_headers \<Rightarrow> string option" where
  "pocket_session_id_from_headers h =
     (if hd_authorization h \<noteq> None then bearer_session_id_from_headers h
      else cookie_id_from_headers h POCKET_SESSION_COOKIE)"

definition same_origin :: "auth_env \<Rightarrow> request_headers \<Rightarrow> bool" where
  "same_origin E h =
     (case (parse_url E (public_origin E @ ''/''), Option.bind (header_text (hd_origin h)) (parse_url E)) of
        (Some expected, Some actual) \<Rightarrow>
          url_origin actual \<noteq> None \<and> url_origin actual = url_origin expected \<and> url_username actual = []
          \<and> url_password actual = None \<and> url_path actual = ''/'' \<and> url_query actual = None
          \<and> url_fragment actual = None
      | _ \<Rightarrow> False)"

definition ensure_same_origin :: "auth_env \<Rightarrow> request_headers \<Rightarrow> unit api" where
  "ensure_same_origin E h =
     guard (same_origin E h) (forbidden ''This request did not come from the finance workspace.'')"

definition ensure_db_request_origin :: "auth_env \<Rightarrow> request_headers \<Rightarrow> unit api" where
  "ensure_db_request_origin E h =
     (if hd_origin h \<noteq> None then ensure_same_origin E h
      else if bearer_session_id_from_headers h \<noteq> None then Inr ()
      else ensure_same_origin E h)"

end
