(* ===== verification/Sessions.thy ===== *)
theory Sessions
  imports AuthTables Validation
begin

text \<open>
  Signing in and out (\<open>server.rs\<close>): the Pocket ID login of a browser or the mobile app, the
  handoff that the app exchanges for a bearer session, the linked Google session, and the
  revocation of a session with everything that hangs on it. Every reading of the clock and every
  random identifier is a parameter of its own.
\<close>

section \<open>Pocket ID sessions\<close>

definition session_expired :: api_error where
  "session_expired = unauthorized ''Pocket ID authentication expired. Sign in again.''"

definition not_allowed :: api_error where
  "not_allowed = forbidden ''This Pocket ID account is not allowed to use the finance workspace.''"

text \<open>An insertion fails on a key that is taken.\<close>

definition insert_pocket_session :: "pocket_session_row \<Rightarrow> unit action" where
  "insert_pocket_session r =
     bind_action (query (\<lambda>s. list_ex (\<lambda>x. pse_id_hash x = pse_id_hash r) (pocket_sessions s))) (\<lambda>taken.
     if taken then refuse internal_error else update (\<lambda>s. s\<lparr>pocket_sessions := pocket_sessions s @ [r]\<rparr>))"

definition create_pocket_session_in :: "auth_env \<Rightarrow> int \<Rightarrow> string \<Rightarrow> string \<Rightarrow> string \<Rightarrow> string action" where
  "create_pocket_session_in E now cookie_id subject username =
     bind_action (update (\<lambda>s. s\<lparr>pocket_sessions := filter (\<lambda>r. now < pse_expires r) (pocket_sessions s)\<rparr>)) (\<lambda>_.
     bind_action (insert_pocket_session \<lparr>pse_id_hash = hash_session_id E cookie_id, pse_subject = subject,
       pse_username = username, pse_expires = now + SESSION_TTL_SECONDS, pse_created = now\<rparr>) (\<lambda>_.
     reply cookie_id))"

text \<open>A session is revoked with the Google logins, the Google sessions and the devices on it.\<close>

definition revoke_pocket_session_in :: "string \<Rightarrow> unit action" where
  "revoke_pocket_session_in id_hash =
     bind_action (update (\<lambda>s. s\<lparr>oauth_states := filter (\<lambda>r. oau_session r \<noteq> Some id_hash) (oauth_states s)\<rparr>)) (\<lambda>_.
     bind_action (update (\<lambda>s. s\<lparr>google_sessions := filter (\<lambda>r. gse_session r \<noteq> Some id_hash) (google_sessions s)\<rparr>)) (\<lambda>_.
     bind_action (update (\<lambda>s. s\<lparr>push_devices := filter (\<lambda>r. dev_session r \<noteq> id_hash) (push_devices s)\<rparr>)) (\<lambda>_.
     update (\<lambda>s. s\<lparr>pocket_sessions := filter (\<lambda>r. pse_id_hash r \<noteq> id_hash) (pocket_sessions s)\<rparr>))))"

definition revoke_pocket_session :: "string \<Rightarrow> unit action" where
  "revoke_pocket_session id_hash = atomically (revoke_pocket_session_in id_hash)"

record active_pocket_session =
  act_id_hash :: string
  act_subject :: string
  act_username :: string
  act_expires :: int

text \<open>A session that has expired, or whose subject is no longer allowed, is revoked when it is used.\<close>

definition current_pocket_session :: "auth_env \<Rightarrow> request_headers \<Rightarrow> int \<Rightarrow> active_pocket_session option action" where
  "current_pocket_session E h now =
     (case pocket_session_id_from_headers h of
        None \<Rightarrow> reply None
      | Some cookie_id \<Rightarrow>
          let id_hash = hash_session_id E cookie_id in
          bind_action (query (\<lambda>s. first_row (filter (\<lambda>r. pse_id_hash r = id_hash) (pocket_sessions s)))) (\<lambda>row.
          case row of
            None \<Rightarrow> reply None
          | Some r \<Rightarrow>
              if pse_expires r \<le> now \<or> trim (pse_subject r) = [] \<or> pse_subject r \<notin> set (allowed_subjects E)
              then bind_action (revoke_pocket_session id_hash) (\<lambda>_. reply None)
              else reply (Some \<lparr>act_id_hash = id_hash, act_subject = pse_subject r, act_username = pse_username r,
                act_expires = pse_expires r\<rparr>)))"

section \<open>The Pocket ID login\<close>

definition NATIVE_MOBILE_AUTH_REDIRECT_URI :: string where
  "NATIVE_MOBILE_AUTH_REDIRECT_URI = ''prestosupuesto-native://pocket-id/callback''"

definition mobile_client_redirect :: "string option \<Rightarrow> string api" where
  "mobile_client_redirect client =
     (if client \<in> {None, Some ''native-android''} then Inr NATIVE_MOBILE_AUTH_REDIRECT_URI
      else Inl (bad_request ''Unknown mobile client.''))"

definition valid_pkce_challenge :: "auth_env \<Rightarrow> string \<Rightarrow> bool" where
  "valid_pkce_challenge E v \<longleftrightarrow> length v = 43 \<and> base64_length E v = Some 32"

definition insert_pocket_state :: "pocket_state_row \<Rightarrow> unit action" where
  "insert_pocket_state r =
     bind_action (query (\<lambda>s. list_ex (\<lambda>x. pst_state x = pst_state r) (pocket_states s))) (\<lambda>taken.
     if taken then refuse internal_error else update (\<lambda>s. s\<lparr>pocket_states := pocket_states s @ [r]\<rparr>))"

text \<open>The state and the challenge that the authorization URL carries.\<close>

definition create_pocket_id_authorization ::
  "auth_env \<Rightarrow> string \<Rightarrow> string \<Rightarrow> int \<Rightarrow> int \<Rightarrow> string option \<Rightarrow> string option \<Rightarrow> (string \<times> string) action" where
  "create_pocket_id_authorization E oauth_state verifier now1 now2 redirect challenge =
     bind_action (update (\<lambda>s. s\<lparr>pocket_states := filter (\<lambda>r. now2 < pst_expires r) (pocket_states s)\<rparr>)) (\<lambda>_.
     bind_action (insert_pocket_state \<lparr>pst_state = oauth_state, pst_verifier = verifier,
       pst_expires = now1 + OAUTH_STATE_TTL_SECONDS, pst_redirect = redirect, pst_challenge = challenge\<rparr>) (\<lambda>_.
     reply (oauth_state, digest_base64 E verifier)))"

definition begin_pocket_id_login :: "auth_env \<Rightarrow> string \<Rightarrow> string \<Rightarrow> int \<Rightarrow> int \<Rightarrow> (string \<times> string) action" where
  "begin_pocket_id_login E oauth_state verifier now1 now2 =
     create_pocket_id_authorization E oauth_state verifier now1 now2 None None"

definition begin_mobile_pocket_id_login ::
  "auth_env \<Rightarrow> string option \<Rightarrow> string option \<Rightarrow> string \<Rightarrow> string \<Rightarrow> int \<Rightarrow> int \<Rightarrow> (string \<times> string) action" where
  "begin_mobile_pocket_id_login E client challenge oauth_state verifier now1 now2 =
     bind_action (from_api (mobile_client_redirect client)) (\<lambda>redirect.
     bind_action (require (case challenge of Some c \<Rightarrow> valid_pkce_challenge E c | None \<Rightarrow> False)
       (bad_request ''A valid mobile S256 code challenge is required.'')) (\<lambda>_.
     create_pocket_id_authorization E oauth_state verifier now1 now2 (Some redirect) challenge))"

record oauth_callback =
  cb_state :: "string option"
  cb_code :: "string option"
  cb_error :: "string option"

record pocket_identity =
  idn_subject :: string
  idn_username :: string
  idn_redirect :: "string option"
  idn_challenge :: "string option"

text \<open>The verification of a login: it reads the pending state and asks the provider.\<close>

definition finish_pocket_id_login :: "auth_env \<Rightarrow> oauth_callback \<Rightarrow> request_headers \<Rightarrow> int \<Rightarrow> pocket_identity action" where
  "finish_pocket_id_login E q h now =
     (let browser_state = cookie_id_from_headers h POCKET_OAUTH_COOKIE in
      bind_action (require (browser_state \<noteq> None \<and> cb_state q = browser_state)
        (bad_request ''This sign-in request was not started in this browser. Please sign in again.'')) (\<lambda>_.
      bind_action (require (cb_error q = None) (unauthorized ''Pocket ID sign-in was cancelled or denied.'')) (\<lambda>_.
      bind_action (from_api (ok_or (cb_state q) (bad_request ''Missing Pocket ID state.''))) (\<lambda>oauth_state.
      bind_action (from_api (ok_or (cb_code q) (bad_request ''Missing Pocket ID code.''))) (\<lambda>code.
      bind_action (query (\<lambda>s. first_row (filter (\<lambda>r. pst_state r = oauth_state \<and> now < pst_expires r) (pocket_states s)))) (\<lambda>row.
      bind_action (from_api (ok_or row (bad_request ''The Pocket ID sign-in request expired. Please try again.''))) (\<lambda>r.
      bind_action (from_api (pocket_userinfo E code (pst_verifier r))) (\<lambda>(sub, preferred_username).
      let subject = trim sub in
      bind_action (require (subject \<noteq> [] \<and> subject \<in> set (allowed_subjects E)) not_allowed) (\<lambda>_.
      reply \<lparr>idn_subject = subject, idn_username = map ascii_lower (trim preferred_username),
        idn_redirect = pst_redirect r, idn_challenge = pst_challenge r\<rparr>)))))))))"

definition insert_handoff :: "handoff_row \<Rightarrow> unit action" where
  "insert_handoff r =
     bind_action (query (\<lambda>s. list_ex (\<lambda>x. hof_code_hash x = hof_code_hash r) (handoffs s))) (\<lambda>taken.
     if taken then refuse internal_error else update (\<lambda>s. s\<lparr>handoffs := handoffs s @ [r]\<rparr>))"

definition create_mobile_handoff_in :: "auth_env \<Rightarrow> int \<Rightarrow> string \<Rightarrow> pocket_identity \<Rightarrow> string action" where
  "create_mobile_handoff_in E now handoff i =
     bind_action (require (case idn_challenge i of Some c \<Rightarrow> valid_pkce_challenge E c | None \<Rightarrow> False)
       (bad_request ''A mobile S256 code challenge is required.'')) (\<lambda>_.
     bind_action (update (\<lambda>s. s\<lparr>handoffs := filter (\<lambda>r. now < hof_expires r) (handoffs s)\<rparr>)) (\<lambda>_.
     bind_action (insert_handoff \<lparr>hof_code_hash = hash_session_id E handoff, hof_subject = idn_subject i,
       hof_username = idn_username i, hof_expires = now + MOBILE_HANDOFF_TTL_SECONDS, hof_created = now,
       hof_challenge = idn_challenge i\<rparr>) (\<lambda>_.
     reply handoff)))"

text \<open>The pending state is consumed in the transaction that issues the credential.\<close>

definition consume_pocket_state :: "string \<Rightarrow> int \<Rightarrow> unit action" where
  "consume_pocket_state oauth_state now =
     bind_action (query (\<lambda>s. length (filter (\<lambda>r. pst_state r = oauth_state \<and> now < pst_expires r) (pocket_states s)))) (\<lambda>n.
     bind_action (update (\<lambda>s. s\<lparr>pocket_states :=
       filter (\<lambda>r. \<not> (pst_state r = oauth_state \<and> now < pst_expires r)) (pocket_states s)\<rparr>)) (\<lambda>_.
     require (n = 1) (unauthorized ''This sign-in request expired or was cancelled. Please sign in again.'')))"

definition revoke_previous :: "auth_env \<Rightarrow> request_headers \<Rightarrow> unit action" where
  "revoke_previous E h =
     (case cookie_id_from_headers h POCKET_SESSION_COOKIE of
        Some previous \<Rightarrow> revoke_pocket_session_in (hash_session_id E previous)
      | None \<Rightarrow> reply ())"

definition issue_pocket_login ::
  "auth_env \<Rightarrow> request_headers \<Rightarrow> string \<Rightarrow> pocket_identity \<Rightarrow> int \<Rightarrow> int \<Rightarrow> string \<Rightarrow> string action" where
  "issue_pocket_login E h oauth_state i now1 now2 fresh =
     atomically (bind_action (consume_pocket_state oauth_state now1) (\<lambda>_.
       if idn_redirect i \<noteq> None then create_mobile_handoff_in E now2 fresh i
       else bind_action (revoke_previous E h) (\<lambda>_.
         create_pocket_session_in E now2 fresh (idn_subject i) (idn_username i))))"

datatype callback_response = HandoffRedirect string string | SessionCookie string | SignInFailed

text \<open>The handler: a failure of any step becomes the redirect to the error page.\<close>

definition pocket_id_callback ::
  "auth_env \<Rightarrow> oauth_callback \<Rightarrow> request_headers \<Rightarrow> int \<Rightarrow> int \<Rightarrow> int \<Rightarrow> string \<Rightarrow> auth_db \<Rightarrow> callback_response \<times> auth_db" where
  "pocket_id_callback E q h now1 now2 now3 fresh s =
     (let oauth_state = unwrap_or (cb_state q) [] in
      case finish_pocket_id_login E q h now1 s of
        (Inl e, s1) \<Rightarrow> (SignInFailed, s1)
      | (Inr i, s1) \<Rightarrow>
          (case issue_pocket_login E h oauth_state i now2 now3 fresh s1 of
             (Inl e, s2) \<Rightarrow> (SignInFailed, s2)
           | (Inr credential, s2) \<Rightarrow>
               (case idn_redirect i of
                  Some redirect \<Rightarrow>
                    (if parse_url E redirect = None then SignInFailed else HandoffRedirect redirect credential, s2)
                | None \<Rightarrow> (SessionCookie credential, s2))))"

section \<open>The mobile handoff\<close>

definition valid_verifier :: "string \<Rightarrow> bool" where
  "valid_verifier v \<longleftrightarrow> 43 \<le> length v \<and> length v \<le> 128
     \<and> list_all (\<lambda>c. is_digit c \<or> (97 \<le> (of_char (ascii_lower c) :: nat) \<and> (of_char (ascii_lower c) :: nat) \<le> 122)
          \<or> c \<in> set ''-._~'') v"

text \<open>The redemption of a handoff removes it, whatever becomes of the request afterwards.\<close>

definition redeem_handoff :: "auth_env \<Rightarrow> int \<Rightarrow> string \<Rightarrow> string \<Rightarrow> handoff_row action" where
  "redeem_handoff E now handoff verifier =
     (let challenge = digest_base64 E verifier;
          matches = (\<lambda>r. hof_code_hash r = hash_session_id E handoff \<and> now < hof_expires r
            \<and> hof_challenge r = Some challenge) in
      bind_action (update (\<lambda>s. s\<lparr>handoffs := filter (\<lambda>r. now < hof_expires r) (handoffs s)\<rparr>)) (\<lambda>_.
      bind_action (query (\<lambda>s. first_row (filter matches (handoffs s)))) (\<lambda>row.
      bind_action (update (\<lambda>s. s\<lparr>handoffs := filter (\<lambda>r. \<not> matches r) (handoffs s)\<rparr>)) (\<lambda>_.
      from_api (ok_or row (unauthorized ''The mobile sign-in handoff has expired. Please sign in again.''))))))"

record mobile_session =
  mob_access_token :: string
  mob_subject :: string
  mob_username :: string
  mob_expires :: int

definition exchange_mobile_session ::
  "auth_env \<Rightarrow> string \<Rightarrow> string \<Rightarrow> int \<Rightarrow> int \<Rightarrow> string \<Rightarrow> mobile_session action" where
  "exchange_mobile_session E handoff_code code_verifier now1 now2 fresh =
     (let handoff = map ascii_lower (trim handoff_code) in
      bind_action (require (session_token handoff) (bad_request ''The mobile sign-in handoff is invalid.'')) (\<lambda>_.
      bind_action (require (valid_verifier code_verifier) (bad_request ''The mobile code verifier is invalid.'')) (\<lambda>_.
      bind_action (redeem_handoff E now1 handoff code_verifier) (\<lambda>r.
      bind_action (require (hof_subject r \<in> set (allowed_subjects E)) not_allowed) (\<lambda>_.
      bind_action (create_pocket_session_in E now2 fresh (hof_subject r) (hof_username r)) (\<lambda>cookie_id.
      reply \<lparr>mob_access_token = cookie_id, mob_subject = hof_subject r, mob_username = hof_username r,
        mob_expires = now1 + SESSION_TTL_SECONDS\<rparr>))))))"

definition logout_mobile_session :: "auth_env \<Rightarrow> request_headers \<Rightarrow> unit action" where
  "logout_mobile_session E h =
     bind_action (from_api (ensure_db_request_origin E h)) (\<lambda>_.
     bind_action (from_api (ok_or (bearer_session_id_from_headers h)
       (unauthorized ''A mobile bearer session is required.''))) (\<lambda>token.
     revoke_pocket_session (hash_session_id E token)))"

section \<open>Push devices\<close>

text \<open>A token has one owner: a device that registers takes its token from every other installation.\<close>

definition register :: "string \<Rightarrow> string \<Rightarrow> string \<Rightarrow> string \<Rightarrow> int \<Rightarrow> unit action" where
  "register installation token subject session stamp =
     atomically (bind_action (update (\<lambda>s. s\<lparr>push_devices :=
         filter (\<lambda>d. \<not> (dev_token d = token \<and> dev_installation d \<noteq> installation)) (push_devices s)\<rparr>)) (\<lambda>_.
       let row = \<lparr>dev_installation = installation, dev_subject = subject, dev_session = session, dev_token = token,
         dev_updated = stamp\<rparr> in
       update (\<lambda>s. s\<lparr>push_devices :=
         (if list_ex (\<lambda>d. dev_installation d = installation) (push_devices s)
          then map (\<lambda>d. if dev_installation d = installation then row else d) (push_devices s)
          else push_devices s @ [row])\<rparr>)))"

definition sign_in_again :: api_error where
  "sign_in_again = unauthorized ''Please sign in again.''"

definition valid_push_token :: "string \<Rightarrow> bool" where
  "valid_push_token t \<longleftrightarrow> 20 \<le> length t \<and> length t \<le> 4096
     \<and> list_all (\<lambda>c. 33 \<le> (of_char c :: nat) \<and> (of_char c :: nat) \<noteq> 127) t"

definition register_push_device ::
  "auth_env \<Rightarrow> request_headers \<Rightarrow> string \<Rightarrow> string \<Rightarrow> int \<Rightarrow> int \<Rightarrow> unit action" where
  "register_push_device E h installation token now1 now2 =
     bind_action (from_api (ensure_db_request_origin E h)) (\<lambda>_.
     bind_action (require (bearer_session_id_from_headers h \<noteq> None)
       (unauthorized ''A mobile bearer session is required.'')) (\<lambda>_.
     bind_action (current_pocket_session E h now1) (\<lambda>session.
     bind_action (from_api (ok_or session sign_in_again)) (\<lambda>a.
     bind_action (require (uuid_ok E installation \<and> valid_push_token token)
       (bad_request ''Invalid notification device.'')) (\<lambda>_.
     register installation token (act_subject a) (act_id_hash a) now2)))))"

definition remove_push_device :: "auth_env \<Rightarrow> request_headers \<Rightarrow> string \<Rightarrow> int \<Rightarrow> unit action" where
  "remove_push_device E h installation now =
     bind_action (from_api (ensure_db_request_origin E h)) (\<lambda>_.
     bind_action (current_pocket_session E h now) (\<lambda>session.
     bind_action (from_api (ok_or session sign_in_again)) (\<lambda>a.
     update (\<lambda>s. s\<lparr>push_devices := filter (\<lambda>d. \<not> (dev_installation d = installation
       \<and> dev_subject d = act_subject a \<and> dev_session d = act_id_hash a)) (push_devices s)\<rparr>))))"

end
