(* ===== verification/GoogleSessions.thy ===== *)
theory GoogleSessions
  imports Sessions
begin

text \<open>
  The Google session linked to a Pocket ID session (\<open>server.rs\<close>): its login, its insertion, which
  fails when the Pocket ID session has gone meanwhile, the access token with its refresh, the
  session report and the logout of a browser.
\<close>

section \<open>The token service\<close>

definition upstream :: "string \<Rightarrow> api_error" where
  "upstream m = ApiError 502 m"

record google_token_response =
  gtr_access_token :: string
  gtr_refresh_token :: "string option"
  gtr_expires_in :: int

definition json_text :: "json option \<Rightarrow> string option" where
  "json_text j = (case j of Some (JStr s) \<Rightarrow> Some s | _ \<Rightarrow> None)"

definition json_i64 :: "json option \<Rightarrow> int option" where
  "json_i64 j = (case j of Some (JInt n) \<Rightarrow> if -(2 ^ 63) \<le> n \<and> n < 2 ^ 63 then Some n else None | _ \<Rightarrow> None)"

definition clamp :: "int \<Rightarrow> int \<Rightarrow> int \<Rightarrow> int" where
  "clamp lo hi n = max lo (min hi n)"

definition parse_google_token_response :: "nat \<Rightarrow> json \<Rightarrow> google_token_response api" where
  "parse_google_token_response status body =
     (if \<not> (200 \<le> status \<and> status < 300)
      then if 400 \<le> status \<and> status < 500 \<and> status \<noteq> 429 \<and> json_text (json_field body ''error'') = Some ''invalid_grant''
        then Inl (unauthorized ''Google authorization expired. Sign in again.'')
        else Inl (upstream ''Google's token service could not complete authorization. Please retry.'')
      else case json_text (json_field body ''access_token'') of
        None \<Rightarrow> Inl (upstream ''Google did not return an access token.'')
      | Some token \<Rightarrow>
          if trim token = [] then Inl (upstream ''Google did not return an access token.'')
          else Inr \<lparr>gtr_access_token = token,
            gtr_refresh_token = json_text (json_field body ''refresh_token''),
            gtr_expires_in = clamp 60 86400 (unwrap_or (json_i64 (json_field body ''expires_in'')) 3600)\<rparr>)"

definition request_google_token :: "auth_env \<Rightarrow> string \<Rightarrow> string list \<Rightarrow> google_token_response api" where
  "request_google_token E grant params =
     and_then (google_token E grant params) (\<lambda>(status, body). parse_google_token_response status body)"

definition fetch_google_email :: "auth_env \<Rightarrow> string \<Rightarrow> string api" where
  "fetch_google_email E access_token =
     and_then (google_userinfo E access_token) (\<lambda>(email, email_verified).
     if email_verified then Inr (map ascii_lower (trim email))
     else Inl (unauthorized ''Google did not verify the selected email address.''))"

section \<open>The Google login\<close>

definition create_google_authorization ::
  "auth_env \<Rightarrow> bool \<Rightarrow> string \<Rightarrow> string \<Rightarrow> string \<Rightarrow> int \<Rightarrow> int \<Rightarrow> (string \<times> string) action" where
  "create_google_authorization E force_consent session_hash oauth_state verifier now1 now2 =
     bind_action (update (\<lambda>s. s\<lparr>oauth_states := filter (\<lambda>r. now2 < oau_expires r) (oauth_states s)\<rparr>)) (\<lambda>_.
     bind_action (query (\<lambda>s. list_ex (\<lambda>x. oau_state x = oauth_state) (oauth_states s))) (\<lambda>taken.
     bind_action (require (\<not> taken) internal_error) (\<lambda>_.
     bind_action (update (\<lambda>s. s\<lparr>oauth_states := oauth_states s @ [\<lparr>oau_state = oauth_state, oau_verifier = verifier,
       oau_force_consent = force_consent, oau_expires = now1 + OAUTH_STATE_TTL_SECONDS,
       oau_session = Some session_hash\<rparr>]\<rparr>)) (\<lambda>_.
     reply (oauth_state, digest_base64 E verifier)))))"

text \<open>\<open>None\<close> is the redirect to the Pocket ID login.\<close>

definition begin_google_login ::
  "auth_env \<Rightarrow> request_headers \<Rightarrow> string \<Rightarrow> string \<Rightarrow> int \<Rightarrow> int \<Rightarrow> int \<Rightarrow> (string \<times> string) option action" where
  "begin_google_login E h oauth_state verifier now1 now2 now3 =
     bind_action (current_pocket_session E h now1) (\<lambda>session.
     case session of
       None \<Rightarrow> reply None
     | Some a \<Rightarrow> bind_action (create_google_authorization E False (act_id_hash a) oauth_state verifier now2 now3)
         (\<lambda>r. reply (Some r)))"

text \<open>The session is inserted only while its Pocket ID session is alive.\<close>

definition insert_google_session ::
  "auth_env \<Rightarrow> active_pocket_session \<Rightarrow> string \<Rightarrow> string \<Rightarrow> int \<Rightarrow> int \<Rightarrow> string \<Rightarrow> string action" where
  "insert_google_session E pocket email access_token expires_in now session_id =
     bind_action (from_api (encrypt_secret E access_token)) (\<lambda>cipher.
     bind_action (query (\<lambda>s. list_ex (\<lambda>p. pse_id_hash p = act_id_hash pocket \<and> pse_subject p = act_subject pocket
       \<and> now < pse_expires p) (pocket_sessions s))) (\<lambda>alive.
     bind_action (query (\<lambda>s. list_ex (\<lambda>g. gse_id_hash g = hash_session_id E session_id) (google_sessions s)
       \<or> \<not> list_ex (\<lambda>g. gac_email g = email) (google_accounts s))) (\<lambda>violation.
     bind_action (require (\<not> (alive \<and> violation)) internal_error) (\<lambda>_.
     bind_action (require alive session_expired) (\<lambda>_.
     bind_action (update (\<lambda>s. s\<lparr>google_sessions := google_sessions s @ [\<lparr>gse_id_hash = hash_session_id E session_id,
       gse_email = email, gse_access_token = cipher, gse_access_expires = now + expires_in,
       gse_expires = now + SESSION_TTL_SECONDS, gse_created = now, gse_session = Some (act_id_hash pocket)\<rparr>]\<rparr>)) (\<lambda>_.
     reply session_id))))))"

datatype callback_result = SignedIn string | NeedConsent string

definition upsert_google_account :: "string \<Rightarrow> string \<Rightarrow> int \<Rightarrow> auth_db \<Rightarrow> auth_db" where
  "upsert_google_account email cipher now s =
     s\<lparr>google_accounts := (if list_ex (\<lambda>g. gac_email g = email) (google_accounts s)
        then map (\<lambda>g. if gac_email g = email then g\<lparr>gac_refresh_token := cipher, gac_updated := now\<rparr> else g) (google_accounts s)
        else google_accounts s @ [\<lparr>gac_email = email, gac_refresh_token = cipher, gac_updated = now\<rparr>])\<rparr>"

text \<open>The first part of the callback consumes the pending state.\<close>

definition redeem_oauth_state ::
  "oauth_callback \<Rightarrow> active_pocket_session \<Rightarrow> int \<Rightarrow> int \<Rightarrow> (oauth_state_row \<times> string) action" where
  "redeem_oauth_state q pocket now1 now2 =
     bind_action (require (cb_error q = None) (unauthorized ''Google sign-in was cancelled or denied.'')) (\<lambda>_.
     bind_action (from_api (ok_or (cb_state q) (bad_request ''Missing OAuth state.''))) (\<lambda>oauth_state.
     bind_action (from_api (ok_or (cb_code q) (bad_request ''Missing authorization code.''))) (\<lambda>code.
     let matches = (\<lambda>r. oau_state r = oauth_state \<and> now1 < oau_expires r \<and> oau_session r = Some (act_id_hash pocket)) in
     bind_action (query (\<lambda>s. first_row (filter matches (oauth_states s)))) (\<lambda>row.
     bind_action (update (\<lambda>s. s\<lparr>oauth_states := filter (\<lambda>r. \<not> matches r) (oauth_states s)\<rparr>)) (\<lambda>_.
     bind_action (from_api (ok_or row (bad_request ''The sign-in request expired. Please try again.''))) (\<lambda>r.
     bind_action (require (oau_session r = Some (act_id_hash pocket) \<and> now2 < act_expires pocket) session_expired) (\<lambda>_.
     reply (r, code))))))))"

definition stored_refresh :: "auth_env \<Rightarrow> google_token_response \<Rightarrow> string \<Rightarrow> string option action" where
  "stored_refresh E response email =
     bind_action (query (\<lambda>s. first_row (filter (\<lambda>g. gac_email g = email) (google_accounts s)))) (\<lambda>stored.
     case gtr_refresh_token response of
       Some refresh \<Rightarrow> reply (Some refresh)
     | None \<Rightarrow> (case stored of
         Some g \<Rightarrow> bind_action (from_api (decrypt_secret E (gac_refresh_token g))) (\<lambda>r. reply (Some r))
       | None \<Rightarrow> reply None))"

definition finish_google_login ::
  "auth_env \<Rightarrow> oauth_callback \<Rightarrow> active_pocket_session \<Rightarrow> int \<Rightarrow> int \<Rightarrow> int \<Rightarrow> int \<Rightarrow> string \<Rightarrow> callback_result action" where
  "finish_google_login E q pocket now1 now2 now3 now4 session_id =
     bind_action (redeem_oauth_state q pocket now1 now2) (\<lambda>(r, code).
     bind_action (from_api (request_google_token E ''authorization_code'' [code, oau_verifier r])) (\<lambda>response.
     bind_action (from_api (fetch_google_email E (gtr_access_token response))) (\<lambda>email.
     bind_action (require (email \<in> set (allowed_emails E))
       (forbidden ''This Google account is not on the household allowlist.'')) (\<lambda>_.
     bind_action (stored_refresh E response email) (\<lambda>refresh.
     case refresh of
       None \<Rightarrow> if \<not> oau_force_consent r then reply (NeedConsent (act_id_hash pocket))
         else refuse (unauthorized (''Google did not issue an offline refresh token. '' @
           ''Check the OAuth consent configuration and try again.''))
     | Some token \<Rightarrow>
         bind_action (from_api (encrypt_secret E token)) (\<lambda>cipher.
         bind_action (update (upsert_google_account email cipher now3)) (\<lambda>_.
         bind_action (insert_google_session E pocket email (gtr_access_token response) (gtr_expires_in response) now4
           session_id) (\<lambda>i. reply (SignedIn i)))))))))"

datatype google_response = ToPocketLogin | SignedInCookie string | ConsentRedirect string string | LoginFailed

definition google_callback ::
  "auth_env \<Rightarrow> oauth_callback \<Rightarrow> request_headers \<Rightarrow> int \<Rightarrow> int \<Rightarrow> int \<Rightarrow> int \<Rightarrow> int \<Rightarrow> string \<Rightarrow>
     string \<Rightarrow> string \<Rightarrow> int \<Rightarrow> int \<Rightarrow> auth_db \<Rightarrow> google_response \<times> auth_db" where
  "google_callback E q h now1 now2 now3 now4 now5 session_id oauth_state verifier now6 now7 s =
     (case current_pocket_session E h now1 s of
        (Inr (Some a), s1) \<Rightarrow>
          (case finish_google_login E q a now2 now3 now4 now5 session_id s1 of
             (Inr (SignedIn i), s2) \<Rightarrow> (SignedInCookie i, s2)
           | (Inr (NeedConsent session_hash), s2) \<Rightarrow>
               (case create_google_authorization E True session_hash oauth_state verifier now6 now7 s2 of
                  (Inr (st, challenge), s3) \<Rightarrow> (ConsentRedirect st challenge, s3)
                | (Inl e, s3) \<Rightarrow> (LoginFailed, s3))
           | (Inl e, s2) \<Rightarrow> (LoginFailed, s2))
      | (_, s1) \<Rightarrow> (ToPocketLogin, s1))"

section \<open>The use of a Google session\<close>

definition google_session_of :: "auth_db \<Rightarrow> string \<Rightarrow> google_session_row option" where
  "google_session_of s id_hash = first_row (filter (\<lambda>g. gse_id_hash g = id_hash) (google_sessions s))"

record session_info =
  inf_authenticated :: bool
  inf_email :: "string option"
  inf_pocket_authenticated :: bool
  inf_pocket_username :: "string option"
  inf_pocket_subject :: "string option"

definition get_session :: "auth_env \<Rightarrow> request_headers \<Rightarrow> int \<Rightarrow> int \<Rightarrow> session_info action" where
  "get_session E h now1 now2 =
     bind_action (current_pocket_session E h now1) (\<lambda>session.
     case session of
       None \<Rightarrow> reply \<lparr>inf_authenticated = False, inf_email = None, inf_pocket_authenticated = False,
         inf_pocket_username = None, inf_pocket_subject = None\<rparr>
     | Some a \<Rightarrow>
         let info = \<lparr>inf_authenticated = False, inf_email = None, inf_pocket_authenticated = True,
           inf_pocket_username = Some (act_username a), inf_pocket_subject = Some (act_subject a)\<rparr> in
         (case session_id_from_headers h of
            None \<Rightarrow> reply info
          | Some session_id \<Rightarrow>
              bind_action (query (\<lambda>s. google_session_of s (hash_session_id E session_id))) (\<lambda>row.
              case row of
                None \<Rightarrow> reply info
              | Some g \<Rightarrow>
                  if now2 < gse_expires g \<and> gse_session g = Some (act_id_hash a) \<and> gse_email g \<in> set (allowed_emails E)
                  then reply (info\<lparr>inf_authenticated := True, inf_email := Some (gse_email g)\<rparr>)
                  else reply info)))"

definition expired_session :: api_error where
  "expired_session = unauthorized ''Your session expired. Sign in again.''"

text \<open>The refresh of an access token writes it only while the session and its Pocket ID session are alive.\<close>

definition store_access_token :: "string \<Rightarrow> string \<Rightarrow> int \<Rightarrow> int \<Rightarrow> int \<Rightarrow> unit action" where
  "store_access_token id_hash cipher access_expires now1 now2 =
     bind_action (query (\<lambda>s. \<lambda>g. gse_id_hash g = id_hash \<and> now1 < gse_expires g
       \<and> list_ex (\<lambda>p. Some (pse_id_hash p) = gse_session g \<and> now2 < pse_expires p) (pocket_sessions s))) (\<lambda>live.
     bind_action (query (\<lambda>s. list_ex live (google_sessions s))) (\<lambda>found.
     bind_action (update (\<lambda>s. s\<lparr>google_sessions := map (\<lambda>g. if live g
       then g\<lparr>gse_access_token := cipher, gse_access_expires := access_expires\<rparr> else g) (google_sessions s)\<rparr>)) (\<lambda>_.
     require found expired_session)))"

text \<open>A grant that Google reports as invalid ends every session of the account.\<close>

definition refresh_grant :: "auth_env \<Rightarrow> string \<Rightarrow> string \<Rightarrow> google_token_response action" where
  "refresh_grant E email refresh_token =
     (case request_google_token E ''refresh_token'' [refresh_token] of
        Inr response \<Rightarrow> reply response
      | Inl e \<Rightarrow>
          bind_action (if api_status e = 401
            then update (\<lambda>s. s\<lparr>google_sessions := filter (\<lambda>g. gse_email g \<noteq> email) (google_sessions s)\<rparr>)
            else reply ()) (\<lambda>_. refuse e))"

definition refresh_access_token ::
  "auth_env \<Rightarrow> string \<Rightarrow> string \<Rightarrow> int \<Rightarrow> int \<Rightarrow> int \<Rightarrow> int \<Rightarrow> string action" where
  "refresh_access_token E id_hash email now1 now2 now3 now4 =
     bind_action (query (\<lambda>s. first_row (filter (\<lambda>g. gac_email g = email) (google_accounts s)))) (\<lambda>account.
     bind_action (from_api (ok_or account (unauthorized ''Google authorization expired. Sign in again.''))) (\<lambda>g.
     bind_action (from_api (decrypt_secret E (gac_refresh_token g))) (\<lambda>refresh_token.
     bind_action (refresh_grant E email refresh_token) (\<lambda>response.
     bind_action (from_api (encrypt_secret E (gtr_access_token response))) (\<lambda>cipher.
     bind_action (store_access_token id_hash cipher (now1 + gtr_expires_in response) now2 now3) (\<lambda>_.
     bind_action (case gtr_refresh_token response of
         None \<Rightarrow> reply ()
       | Some refresh \<Rightarrow> bind_action (from_api (encrypt_secret E refresh)) (\<lambda>refresh_cipher.
           update (\<lambda>s. s\<lparr>google_accounts := map (\<lambda>g. if gac_email g = email
             then g\<lparr>gac_refresh_token := refresh_cipher, gac_updated := now4\<rparr> else g) (google_accounts s)\<rparr>))) (\<lambda>_.
     reply (gtr_access_token response))))))))"

definition current_access_token ::
  "auth_env \<Rightarrow> request_headers \<Rightarrow> int \<Rightarrow> int \<Rightarrow> int \<Rightarrow> int \<Rightarrow> int \<Rightarrow> int \<Rightarrow> int \<Rightarrow> string action" where
  "current_access_token E h now1 now2 now3 now4 now5 now6 now7 =
     bind_action (current_pocket_session E h now1) (\<lambda>session.
     bind_action (from_api (ok_or session (unauthorized ''Sign in with Pocket ID to continue.''))) (\<lambda>a.
     bind_action (from_api (ok_or (session_id_from_headers h) (unauthorized ''Sign in with Google to continue.''))) (\<lambda>session_id.
     let id_hash = hash_session_id E session_id in
     bind_action (query (\<lambda>s. google_session_of s id_hash)) (\<lambda>row.
     bind_action (from_api (ok_or row expired_session)) (\<lambda>g.
     bind_action (from_api (ok_or (gse_session g) internal_error)) (\<lambda>linked.
     if linked \<noteq> act_id_hash a \<or> gse_expires g \<le> now2 \<or> gse_email g \<notin> set (allowed_emails E)
     then bind_action (update (\<lambda>s. s\<lparr>google_sessions := filter (\<lambda>g. gse_id_hash g \<noteq> id_hash) (google_sessions s)\<rparr>)) (\<lambda>_.
       refuse expired_session)
     else if now3 + 60 < gse_access_expires g then from_api (decrypt_secret E (gse_access_token g))
     else refresh_access_token E id_hash (gse_email g) now4 now5 now6 now7))))))"

section \<open>The logout of a browser\<close>

definition logout :: "auth_env \<Rightarrow> request_headers \<Rightarrow> unit action" where
  "logout E h =
     bind_action (from_api (ensure_same_origin E h)) (\<lambda>_.
     atomically (
       bind_action (case session_id_from_headers h of
           None \<Rightarrow> reply ()
         | Some session_id \<Rightarrow> update (\<lambda>s. s\<lparr>google_sessions :=
             filter (\<lambda>g. gse_id_hash g \<noteq> hash_session_id E session_id) (google_sessions s)\<rparr>)) (\<lambda>_.
       bind_action (revoke_previous E h) (\<lambda>_.
       case cookie_id_from_headers h POCKET_OAUTH_COOKIE of
         None \<Rightarrow> reply ()
       | Some oauth_state \<Rightarrow> update (\<lambda>s. s\<lparr>pocket_states :=
           filter (\<lambda>r. pst_state r \<noteq> oauth_state) (pocket_states s)\<rparr>)))))"

end
