(* ===== verification/SessionSteps.thy ===== *)
theory SessionSteps
  imports GoogleSessions
begin

text \<open>
  The sign-in of concurrent requests. A handler waits for the network between its transactions,
  so that the requests interleave there: a step is one of the parts of a handler, taking what an
  earlier part of some request has read from the memory of the requests in flight. (The access token of a
  Google session is one step with the refresh it may ask for: that request reads and writes only Google
  sessions, besides looking its session up.) The log is a
  ghost: it records which logins the app has begun and what has been verified, issued and redeemed.
\<close>

section \<open>The state of the server\<close>

datatype auth_event =
    LoginBegun (event_state: string) (event_challenge: string)
  | Verified (event_state: string) (event_subject: string)
  | HandoffIssued (event_hash: string)
  | HandoffRedeemed (event_hash: string)
  | SessionCreated (event_hash: string)

record auth_world =
  w_db :: auth_db
  w_verified :: "(string \<times> pocket_identity) list"
  w_redeemed :: "(string \<times> string) list"
  w_active :: "active_pocket_session list"
  w_log :: "auth_event list"

definition initial_world :: auth_world where
  "initial_world = \<lparr>w_db = empty_auth, w_verified = [], w_redeemed = [], w_active = [], w_log = []\<rparr>"

text \<open>The event of a credential: a handoff for the app, a session for a browser.\<close>

definition credential_event :: "auth_env \<Rightarrow> pocket_identity \<Rightarrow> string \<Rightarrow> auth_event" where
  "credential_event E i fresh =
     (if idn_redirect i \<noteq> None then HandoffIssued (hash_session_id E fresh)
      else SessionCreated (hash_session_id E fresh))"

section \<open>The steps\<close>

inductive auth_step :: "auth_env \<Rightarrow> auth_world \<Rightarrow> auth_world \<Rightarrow> bool" for E where
  begin_login: "begin_pocket_id_login E st v now1 now2 (w_db w) = (r, s) \<Longrightarrow> auth_step E w (w\<lparr>w_db := s\<rparr>)"
| begin_mobile_login: "begin_mobile_pocket_id_login E client (Some k) st v now1 now2 (w_db w) = (Inr r, s) \<Longrightarrow>
    auth_step E w (w\<lparr>w_db := s, w_log := LoginBegun st k # w_log w\<rparr>)"
| begin_mobile_failed: "begin_mobile_pocket_id_login E client challenge st v now1 now2 (w_db w) = (Inl e, s) \<Longrightarrow>
    auth_step E w (w\<lparr>w_db := s\<rparr>)"
| verify: "finish_pocket_id_login E q h now (w_db w) = (Inr i, s) \<Longrightarrow>
    auth_step E w (w\<lparr>w_db := s, w_verified := (unwrap_or (cb_state q) [], i) # w_verified w,
      w_log := Verified (unwrap_or (cb_state q) []) (idn_subject i) # w_log w\<rparr>)"
| issue: "(st, i) \<in> set (w_verified w) \<Longrightarrow> issue_pocket_login E h st i now1 now2 fresh (w_db w) = (Inr c, s) \<Longrightarrow>
    auth_step E w (w\<lparr>w_db := s, w_log := credential_event E i fresh # w_log w\<rparr>)"
| redeem: "redeem_handoff E now handoff verifier (w_db w) = (Inr r, s) \<Longrightarrow>
    hof_subject r \<in> set (allowed_subjects E) \<Longrightarrow>
    auth_step E w (w\<lparr>w_db := s, w_redeemed := (hof_subject r, hof_username r) # w_redeemed w,
      w_log := HandoffRedeemed (hash_session_id E handoff) # w_log w\<rparr>)"
| redeem_refused: "redeem_handoff E now handoff verifier (w_db w) = (Inr r, s) \<Longrightarrow>
    hof_subject r \<notin> set (allowed_subjects E) \<Longrightarrow>
    auth_step E w (w\<lparr>w_db := s, w_log := HandoffRedeemed (hash_session_id E handoff) # w_log w\<rparr>)"
| redeem_failed: "redeem_handoff E now handoff verifier (w_db w) = (Inl e, s) \<Longrightarrow> auth_step E w (w\<lparr>w_db := s\<rparr>)"
| exchange: "(subject, username) \<in> set (w_redeemed w) \<Longrightarrow>
    create_pocket_session_in E now fresh subject username (w_db w) = (Inr c, s) \<Longrightarrow>
    auth_step E w (w\<lparr>w_db := s, w_redeemed := remove1 (subject, username) (w_redeemed w),
      w_log := SessionCreated (hash_session_id E fresh) # w_log w\<rparr>)"
| lookup: "current_pocket_session E h now (w_db w) = (Inr (Some a), s) \<Longrightarrow>
    auth_step E w (w\<lparr>w_db := s, w_active := a # w_active w\<rparr>)"
| lookup_none: "current_pocket_session E h now (w_db w) = (Inr None, s) \<Longrightarrow> auth_step E w (w\<lparr>w_db := s\<rparr>)"
| mobile_logout: "logout_mobile_session E h (w_db w) = (r, s) \<Longrightarrow> auth_step E w (w\<lparr>w_db := s\<rparr>)"
| browser_logout: "logout E h (w_db w) = (r, s) \<Longrightarrow> auth_step E w (w\<lparr>w_db := s\<rparr>)"
| add_device: "a \<in> set (w_active w) \<Longrightarrow> register i t (act_subject a) (act_id_hash a) now (w_db w) = (r, s) \<Longrightarrow>
    auth_step E w (w\<lparr>w_db := s\<rparr>)"
| remove_device: "remove_push_device E h i now (w_db w) = (r, s) \<Longrightarrow> auth_step E w (w\<lparr>w_db := s\<rparr>)"
| begin_google: "a \<in> set (w_active w) \<Longrightarrow>
    create_google_authorization E force (act_id_hash a) st v now1 now2 (w_db w) = (r, s) \<Longrightarrow>
    auth_step E w (w\<lparr>w_db := s\<rparr>)"
| google_state: "a \<in> set (w_active w) \<Longrightarrow> redeem_oauth_state q a now1 now2 (w_db w) = (r, s) \<Longrightarrow>
    auth_step E w (w\<lparr>w_db := s\<rparr>)"
| google_account: "auth_step E w (w\<lparr>w_db := upsert_google_account email cipher now (w_db w)\<rparr>)"
| google_login: "a \<in> set (w_active w) \<Longrightarrow>
    insert_google_session E a email token expires_in now fresh (w_db w) = (r, s) \<Longrightarrow>
    auth_step E w (w\<lparr>w_db := s\<rparr>)"
| google_access: "current_access_token E h now1 now2 now3 now4 now5 now6 now7 (w_db w) = (r, s) \<Longrightarrow>
    auth_step E w (w\<lparr>w_db := s\<rparr>)"

inductive auth_steps :: "auth_env \<Rightarrow> auth_world \<Rightarrow> auth_world \<Rightarrow> bool" for E where
  none: "auth_steps E w w"
| more: "auth_steps E w w' \<Longrightarrow> auth_step E w' w'' \<Longrightarrow> auth_steps E w w''"

section \<open>What each step changes\<close>

text \<open>The rows of a pocket session table are kept or dropped by every other operation.\<close>

definition fewer_sessions :: "auth_db \<Rightarrow> auth_db \<Rightarrow> bool" where
  "fewer_sessions s t \<longleftrightarrow> set (pocket_sessions t) \<subseteq> set (pocket_sessions s)"

definition fewer_handoffs :: "auth_db \<Rightarrow> auth_db \<Rightarrow> bool" where
  "fewer_handoffs s t \<longleftrightarrow> set (handoffs t) \<subseteq> set (handoffs s)
     \<and> (distinct (map hof_code_hash (handoffs s)) \<longrightarrow> distinct (map hof_code_hash (handoffs t)))"

text \<open>A hash without a session gains no linked Google session.\<close>

definition no_new_link :: "string \<Rightarrow> auth_db \<Rightarrow> auth_db \<Rightarrow> bool" where
  "no_new_link k s t \<longleftrightarrow> (\<forall>p\<in>set (pocket_sessions s). pse_id_hash p \<noteq> k) \<longrightarrow>
     (\<forall>g\<in>set (google_sessions s). gse_session g \<noteq> Some k) \<longrightarrow>
     (\<forall>p\<in>set (pocket_sessions t). pse_id_hash p \<noteq> k) \<and> (\<forall>g\<in>set (google_sessions t). gse_session g \<noteq> Some k)"

definition calm :: "auth_db \<Rightarrow> auth_db \<Rightarrow> bool" where
  "calm s t \<longleftrightarrow> fewer_sessions s t \<and> fewer_handoffs s t \<and> (\<forall>k. no_new_link k s t)"

lemma calm_refl: "calm s s"
  by (auto simp: calm_def fewer_sessions_def fewer_handoffs_def no_new_link_def)

lemma calm_trans: "calm a b \<Longrightarrow> calm b c \<Longrightarrow> calm a c"
  unfolding calm_def fewer_sessions_def fewer_handoffs_def no_new_link_def by (meson subset_trans)

lemmas calm_simps = calm_def fewer_sessions_def fewer_handoffs_def no_new_link_def

lemma calm_update [intro]:
  "calm s (s\<lparr>oauth_states := o'\<rparr>)" "calm s (s\<lparr>push_devices := d\<rparr>)" "calm s (s\<lparr>pocket_states := p\<rparr>)"
  "calm s (s\<lparr>google_accounts := g\<rparr>)" "calm s (s\<lparr>google_sessions := filter P (google_sessions s)\<rparr>)"
  "calm s (s\<lparr>pocket_sessions := filter Q (pocket_sessions s)\<rparr>)" "calm s (s\<lparr>handoffs := filter R (handoffs s)\<rparr>)"
  by (auto simp: calm_simps distinct_map_filter)

text \<open>
  A relation that holds of every change the parts of the sign-in make to the tables holds of the parts:
  \<open>quiet_core\<close> for those that begin no login, \<open>quiet_relation\<close> for all.
\<close>

locale quiet_core =
  fixes R :: "auth_db \<Rightarrow> auth_db \<Rightarrow> bool"
  assumes stays: "R s s"
    and follows: "R a b \<Longrightarrow> R b c \<Longrightarrow> R a c"
    and changes: "R s (s\<lparr>oauth_states := o'\<rparr>)" "R s (s\<lparr>pocket_states := filter L (pocket_states s)\<rparr>)"
      "R s (s\<lparr>google_accounts := g\<rparr>)" "R s (s\<lparr>google_sessions := filter P (google_sessions s)\<rparr>)"
      "R s (s\<lparr>pocket_sessions := filter Q (pocket_sessions s)\<rparr>)" "R s (s\<lparr>handoffs := filter H (handoffs s)\<rparr>)"
      "R s (s\<lparr>push_devices := filter D (push_devices s)\<rparr>)"
    and relinks: "(\<And>g. gse_session (f g) = gse_session g) \<Longrightarrow> R s (s\<lparr>google_sessions := map f (google_sessions s)\<rparr>)"
begin

lemmas rules = obeys_bind [where R = R, OF follows] obeys_read [where R = R, OF stays]
  obeys_update [where R = R] obeys_atomically [where R = R, OF stays]

lemma revoke_in: "obeys R (revoke_pocket_session_in i)"
  unfolding revoke_pocket_session_in_def by (intro rules changes)

lemma revoke: "obeys R (revoke_pocket_session i)"
  unfolding revoke_pocket_session_def by (intro rules revoke_in)

lemma current: "obeys R (current_pocket_session E h now)"
  unfolding current_pocket_session_def Let_def
  by (auto intro!: rules revoke split: option.split)

lemma redeem: "obeys R (redeem_handoff E now c v)"
  unfolding redeem_handoff_def Let_def by (intro rules changes)

lemma finish: "obeys R (finish_pocket_id_login E q h now)"
  unfolding finish_pocket_id_login_def Let_def by (auto intro!: rules changes split: prod.split)

lemma revoke_previous: "obeys R (revoke_previous E h)"
  unfolding revoke_previous_def by (auto intro!: rules changes revoke_in split: option.split)

lemma logout: "obeys R (logout E h)"
  unfolding logout_def
  by (auto intro!: rules revoke_previous changes split: option.split)

lemma logout_mobile: "obeys R (logout_mobile_session E h)"
  unfolding logout_mobile_session_def by (intro rules revoke)

lemma remove: "obeys R (remove_push_device E h i now)"
  unfolding remove_push_device_def by (intro rules current changes)

lemma google_authorization: "obeys R (create_google_authorization E f k st v now1 now2)"
  unfolding create_google_authorization_def by (intro rules changes)

lemma oauth_state: "obeys R (redeem_oauth_state q a now1 now2)"
  unfolding redeem_oauth_state_def Let_def by (intro rules changes)

lemma account: "R s (upsert_google_account email cipher now s)"
  unfolding upsert_google_account_def by (rule changes)

lemma store: "obeys R (store_access_token k c a now1 now2)"
  unfolding store_access_token_def by (intro rules relinks) auto

lemma refresh: "obeys R (refresh_access_token E k email now1 now2 now3 now4)"
  unfolding refresh_access_token_def refresh_grant_def
  by (auto intro!: rules store changes split: option.split sum.split)

lemma access: "obeys R (current_access_token E h now1 now2 now3 now4 now5 now6 now7)"
  unfolding current_access_token_def Let_def
  by (auto intro!: rules current refresh changes)

lemma consume: "obeys R (consume_pocket_state st now)"
  unfolding consume_pocket_state_def by (intro rules changes)

end

locale quiet_relation = quiet_core +
  assumes pends: "R s (s\<lparr>pocket_states := p\<rparr>)"
begin

lemma authorization: "obeys R (create_pocket_id_authorization E st v now1 now2 redirect challenge)"
  unfolding create_pocket_id_authorization_def insert_pocket_state_def
  by (auto intro!: rules pends)

lemma begin_mobile: "obeys R (begin_mobile_pocket_id_login E client challenge st v now1 now2)"
  unfolding begin_mobile_pocket_id_login_def by (intro rules authorization)

end

lemma calm_google_map: "(\<And>g. gse_session (f g) = gse_session g) \<Longrightarrow>
    calm s (s\<lparr>google_sessions := map f (google_sessions s)\<rparr>)"
  by (auto simp: calm_simps)

interpretation calm: quiet_relation calm
  by unfold_locales (fact calm_refl, erule (1) calm_trans, (fact calm_update)+, erule calm_google_map, fact calm_update)

text \<open>Only the beginning of a login adds a pending state.\<close>

definition fewer_states :: "auth_db \<Rightarrow> auth_db \<Rightarrow> bool" where
  "fewer_states s t \<longleftrightarrow> set (pocket_states t) \<subseteq> set (pocket_states s)"

lemma fewer_states_same: "pocket_states t = pocket_states s \<Longrightarrow> fewer_states s t"
  by (simp add: fewer_states_def)

interpretation pending: quiet_core fewer_states
  by unfold_locales (auto simp: fewer_states_def)

lemma calm_register: "obeys calm (register i t u k now)"
  unfolding register_def Let_def by (intro calm.rules calm_update)

lemma pending_register: "obeys fewer_states (register i t u k now)"
  unfolding register_def Let_def by (intro pending.rules) (simp_all add: fewer_states_def)

text \<open>The new Google session is linked to a session that is in the table.\<close>

lemma calm_insert_google: "obeys calm (insert_google_session E a email t x now fresh)"
  unfolding obeys_def
proof
  fix s
  show "calm s (snd (insert_google_session E a email t x now fresh s))"
    by (cases "encrypt_secret E t")
      (auto simp: insert_google_session_def action_defs calm_simps list_ex_iff)
qed

lemma pending_insert_google: "obeys fewer_states (insert_google_session E a email t x now fresh)"
  unfolding obeys_def
proof
  fix s
  show "fewer_states s (snd (insert_google_session E a email t x now fresh s))"
    by (cases "encrypt_secret E t") (auto simp: insert_google_session_def action_defs fewer_states_def)
qed

text \<open>The pending state of a login that begins.\<close>

lemma authorization_states:
  assumes "create_pocket_id_authorization E st v now1 now2 redirect challenge s = (r, t)"
  shows "p \<in> set (pocket_states t) \<Longrightarrow> p \<in> set (pocket_states s)
    \<or> (\<exists>x. r = Inr x) \<and> pst_state p = st \<and> pst_redirect p = redirect \<and> pst_challenge p = challenge"
  using assms by (auto simp: create_pocket_id_authorization_def insert_pocket_state_def action_defs split: if_splits)

lemma begin_mobile_E:
  assumes "begin_mobile_pocket_id_login E client challenge st v now1 now2 s = (r, t)"
  shows "(\<exists>redirect. create_pocket_id_authorization E st v now1 now2 (Some redirect) challenge s = (r, t)) \<or> (\<exists>e. r = Inl e) \<and> t = s"
  using assms by (auto simp: begin_mobile_pocket_id_login_def action_defs split: sum.splits if_splits)

section \<open>Where sessions and handoffs come from\<close>

lemma create_session_rows:
  assumes "create_pocket_session_in E now fresh subject username s = (r, t)"
  shows "handoffs t = handoffs s" "google_sessions t = google_sessions s" "pocket_states t = pocket_states s"
    "set (pocket_sessions t) \<subseteq> set (pocket_sessions s) \<union> {\<lparr>pse_id_hash = hash_session_id E fresh,
       pse_subject = subject, pse_username = username, pse_expires = now + SESSION_TTL_SECONDS, pse_created = now\<rparr>}"
  using assms by (auto simp: create_pocket_session_in_def insert_pocket_session_def action_defs split: if_splits)

lemma create_handoff_rows:
  assumes "create_mobile_handoff_in E now fresh i s = (Inr c, t)"
  obtains k row where "idn_challenge i = Some k" "valid_pkce_challenge E k"
    "row = \<lparr>hof_code_hash = hash_session_id E fresh, hof_subject = idn_subject i, hof_username = idn_username i,
       hof_expires = now + MOBILE_HANDOFF_TTL_SECONDS, hof_created = now, hof_challenge = Some k\<rparr>"
    "handoffs t = filter (\<lambda>r. now < hof_expires r) (handoffs s) @ [row]"
    "hash_session_id E fresh \<notin> hof_code_hash ` set (filter (\<lambda>r. now < hof_expires r) (handoffs s))"
    "pocket_sessions t = pocket_sessions s" "google_sessions t = google_sessions s" "pocket_states t = pocket_states s"
proof -
  from assms obtain k where k: "idn_challenge i = Some k" "valid_pkce_challenge E k"
    by (auto simp: create_mobile_handoff_in_def result_simps split: option.splits)
  show ?thesis
    by (rule that [OF k refl])
      (use assms k in \<open>auto simp: create_mobile_handoff_in_def insert_handoff_def action_defs list_ex_iff split: if_splits\<close>)
qed

lemma issue_cases:
  assumes "issue_pocket_login E h st i now1 now2 fresh s = (Inr c, t)"
  obtains u where "calm s u" "fewer_states s u" "idn_redirect i \<noteq> None" "create_mobile_handoff_in E now2 fresh i u = (Inr c, t)"
  | u where "calm s u" "fewer_states s u" "idn_redirect i = None"
      "create_pocket_session_in E now2 fresh (idn_subject i) (idn_username i) u = (Inr c, t)"
proof (cases "idn_redirect i = None")
  case True
  with assms obtain u v where 1: "consume_pocket_state st now1 s = (Inr (), u)" "revoke_previous E h u = (Inr (), v)"
    "create_pocket_session_in E now2 fresh (idn_subject i) (idn_username i) v = (Inr c, t)"
    by (auto simp: issue_pocket_login_def result_simps)
  have "calm s v" using obeysD [OF calm.consume 1(1)] obeysD [OF calm.revoke_previous 1(2)] by (rule calm_trans)
  moreover have "fewer_states s v"
    using obeysD [OF pending.consume 1(1)] obeysD [OF pending.revoke_previous 1(2)] by (rule pending.follows)
  ultimately show ?thesis using that(2) True 1(3) by blast
next
  case False
  with assms obtain u where "consume_pocket_state st now1 s = (Inr (), u)"
    "create_mobile_handoff_in E now2 fresh i u = (Inr c, t)"
    by (auto simp: issue_pocket_login_def result_simps)
  with False show ?thesis using that(1) obeysD [OF calm.consume] obeysD [OF pending.consume] by blast
qed

lemma verified_identity:
  "finish_pocket_id_login E q h now s = (Inr i, t) \<Longrightarrow> idn_subject i \<in> set (allowed_subjects E)"
  by (auto simp: finish_pocket_id_login_def Let_def result_simps split: prod.splits)

lemma verified_login:
  assumes "finish_pocket_id_login E q h now s = (Inr i, t)"
  shows "\<exists>r\<in>set (pocket_states s). pst_state r = unwrap_or (cb_state q) [] \<and> idn_redirect i = pst_redirect r \<and> idn_challenge i = pst_challenge r"
proof -
  from assms obtain st r where "cb_state q = Some st" "first_row (filter (\<lambda>r. pst_state r = st \<and> now < pst_expires r) (pocket_states s)) = Some r"
    "idn_redirect i = pst_redirect r" "idn_challenge i = pst_challenge r"
    by (auto simp: finish_pocket_id_login_def Let_def result_simps split: prod.splits)
  with first_row_filter [OF this(2)] show ?thesis by (auto simp: unwrap_or_def)
qed

lemma redeem_rows:
  assumes "redeem_handoff E now c v s = (Inr r, t)"
  shows "r \<in> set (handoffs s)" "hof_code_hash r = hash_session_id E c" "now < hof_expires r"
    "hof_challenge r = Some (digest_base64 E v)"
    "distinct (map hof_code_hash (handoffs s)) \<Longrightarrow> hash_session_id E c \<notin> hof_code_hash ` set (handoffs t)"
proof -
  let ?live = "filter (\<lambda>r. now < hof_expires r) (handoffs s)"
  let ?m = "\<lambda>r. hof_code_hash r = hash_session_id E c \<and> now < hof_expires r \<and> hof_challenge r = Some (digest_base64 E v)"
  from assms have r: "first_row (filter ?m ?live) = Some r" and t: "handoffs t = filter (\<lambda>r. \<not> ?m r) ?live"
    by (auto simp: redeem_handoff_def Let_def result_simps)
  from first_row_filter [OF r] show in_s: "r \<in> set (handoffs s)" "hof_code_hash r = hash_session_id E c"
    "now < hof_expires r" "hof_challenge r = Some (digest_base64 E v)" by auto
  show "hash_session_id E c \<notin> hof_code_hash ` set (handoffs t)" if "distinct (map hof_code_hash (handoffs s))"
  proof
    assume "hash_session_id E c \<in> hof_code_hash ` set (handoffs t)"
    then obtain x where x: "x \<in> set (handoffs s)" "hof_code_hash x = hash_session_id E c" "\<not> ?m x" "now < hof_expires x"
      by (auto simp: t)
    with that in_s have "x = r" by (metis distinct_map inj_onD)
    with x in_s show False by simp
  qed
qed

section \<open>The invariant\<close>

text \<open>A subject that the identity provider has verified, and that the household allows.\<close>

definition vouched :: "auth_env \<Rightarrow> auth_event list \<Rightarrow> string \<Rightarrow> bool" where
  "vouched E l subject \<longleftrightarrow> subject \<in> set (allowed_subjects E) \<and> (\<exists>st. Verified st subject \<in> set l)"

definition subjects_vouched :: "auth_env \<Rightarrow> auth_world \<Rightarrow> bool" where
  "subjects_vouched E w \<longleftrightarrow>
     (\<forall>x\<in>set (w_verified w). vouched E (w_log w) (idn_subject (snd x))) \<and>
     (\<forall>x\<in>set (w_redeemed w). vouched E (w_log w) (fst x)) \<and>
     (\<forall>r\<in>set (handoffs (w_db w)). vouched E (w_log w) (hof_subject r)
        \<and> (\<exists>k. hof_challenge r = Some k \<and> valid_pkce_challenge E k)) \<and>
     (\<forall>p\<in>set (pocket_sessions (w_db w)). vouched E (w_log w) (pse_subject p))"

text \<open>A login of the app goes on with the challenge it began with, under the same state.\<close>

definition begun :: "auth_event list \<Rightarrow> string \<Rightarrow> string option \<Rightarrow> bool" where
  "begun l st challenge \<longleftrightarrow> (\<exists>k. challenge = Some k \<and> LoginBegun st k \<in> set l)"

definition logins_bound :: "auth_world \<Rightarrow> bool" where
  "logins_bound w \<longleftrightarrow>
     (\<forall>p\<in>set (pocket_states (w_db w)). pst_redirect p \<noteq> None \<longrightarrow> begun (w_log w) (pst_state p) (pst_challenge p)) \<and>
     (\<forall>x\<in>set (w_verified w). Verified (fst x) (idn_subject (snd x)) \<in> set (w_log w)
        \<and> (idn_redirect (snd x) \<noteq> None \<longrightarrow> begun (w_log w) (fst x) (idn_challenge (snd x)))) \<and>
     (\<forall>r\<in>set (handoffs (w_db w)). \<exists>st. Verified st (hof_subject r) \<in> set (w_log w) \<and> begun (w_log w) st (hof_challenge r))"

text \<open>A handoff that is in the table has been issued once more than redeemed.\<close>

definition handoffs_counted :: "auth_world \<Rightarrow> bool" where
  "handoffs_counted w \<longleftrightarrow> distinct (map hof_code_hash (handoffs (w_db w))) \<and>
     (\<forall>k. count_list (w_log w) (HandoffRedeemed k) + (if k \<in> hof_code_hash ` set (handoffs (w_db w)) then 1 else 0)
        \<le> count_list (w_log w) (HandoffIssued k))"

lemma vouched_log: "vouched E l u \<Longrightarrow> vouched E (e # l) u"
  by (auto simp: vouched_def)

lemma begun_mono: "begun l st c \<Longrightarrow> set l \<subseteq> set l' \<Longrightarrow> begun l' st c"
  by (auto simp: begun_def)

lemma logins_grow:
  assumes "logins_bound w" "set (handoffs (w_db w')) \<subseteq> set (handoffs (w_db w))" "set (w_log w) \<subseteq> set (w_log w')"
    and "\<And>p. p \<in> set (pocket_states (w_db w')) \<Longrightarrow> p \<in> set (pocket_states (w_db w)) \<or> pst_redirect p = None
      \<or> begun (w_log w') (pst_state p) (pst_challenge p)"
    and "w_verified w' = w_verified w"
  shows "logins_bound w'"
proof -
  note mono = begun_mono [OF _ assms(3)]
  have "begun (w_log w') (pst_state p) (pst_challenge p)" if "p \<in> set (pocket_states (w_db w'))" "pst_redirect p \<noteq> None" for p
    using assms(1) assms(4) [OF that(1)] that(2) mono by (auto simp: logins_bound_def)
  moreover have "Verified (fst x) (idn_subject (snd x)) \<in> set (w_log w')
      \<and> (idn_redirect (snd x) \<noteq> None \<longrightarrow> begun (w_log w') (fst x) (idn_challenge (snd x)))" if "x \<in> set (w_verified w')" for x
    using assms(1,3,5) that mono unfolding logins_bound_def by auto
  moreover have "\<exists>st. Verified st (hof_subject r) \<in> set (w_log w') \<and> begun (w_log w') st (hof_challenge r)" if "r \<in> set (handoffs (w_db w'))" for r
    using assms(1,2,3) that mono unfolding logins_bound_def by (meson subsetD)
  ultimately show ?thesis by (simp add: logins_bound_def)
qed

lemma vouched_calm:
  assumes "subjects_vouched E w" "calm (w_db w) s"
  shows "subjects_vouched E (w\<lparr>w_db := s\<rparr>)"
  using assms unfolding subjects_vouched_def calm_simps by auto

lemma counted_calm:
  assumes "handoffs_counted w" "calm (w_db w) s"
  shows "handoffs_counted (w\<lparr>w_db := s\<rparr>)"
proof -
  have "hof_code_hash ` set (handoffs s) \<subseteq> hof_code_hash ` set (handoffs (w_db w))"
    "distinct (map hof_code_hash (handoffs s))"
    using assms by (auto simp: calm_simps handoffs_counted_def)
  then show ?thesis using assms(1) unfolding handoffs_counted_def by (auto split: if_splits) (metis Suc_leD le_eq_less_or_eq less_or_eq_imp_le Suc_le_eq)+
qed

text \<open>The steps that only read, drop or relink rows.\<close>

lemma step_cases:
  assumes "auth_step E w w'"
  obtains (calm) s a where "calm (w_db w) s" "fewer_states (w_db w) s" "w' = w\<lparr>w_db := s, w_active := a\<rparr>"
  | (start) s l where "calm (w_db w) s" "w' = w\<lparr>w_db := s, w_log := l @ w_log w\<rparr>" "l = [] \<or> (\<exists>st k. l = [LoginBegun st k])"
      "\<And>p. p \<in> set (pocket_states s) \<Longrightarrow> p \<in> set (pocket_states (w_db w)) \<or> pst_redirect p = None \<or> begun l (pst_state p) (pst_challenge p)"
  | (verify) q h now i s st where "finish_pocket_id_login E q h now (w_db w) = (Inr i, s)" "st = unwrap_or (cb_state q) []"
      "w' = w\<lparr>w_db := s, w_verified := (st, i) # w_verified w, w_log := Verified st (idn_subject i) # w_log w\<rparr>"
  | (issue) st i h now1 now2 fresh c s where "(st, i) \<in> set (w_verified w)"
      "issue_pocket_login E h st i now1 now2 fresh (w_db w) = (Inr c, s)"
      "w' = w\<lparr>w_db := s, w_log := credential_event E i fresh # w_log w\<rparr>"
  | (redeem) now c v r s d where "redeem_handoff E now c v (w_db w) = (Inr r, s)"
      "w' = w\<lparr>w_db := s, w_redeemed := d, w_log := HandoffRedeemed (hash_session_id E c) # w_log w\<rparr>"
      "d = w_redeemed w \<or> d = (hof_subject r, hof_username r) # w_redeemed w"
  | (exchange) u n now fresh c s d where "(u, n) \<in> set (w_redeemed w)"
      "create_pocket_session_in E now fresh u n (w_db w) = (Inr c, s)"
      "w' = w\<lparr>w_db := s, w_redeemed := d, w_log := SessionCreated (hash_session_id E fresh) # w_log w\<rparr>"
      "d = remove1 (u, n) (w_redeemed w)"
proof -
  have quiet: thesis if "obeys calm m" "obeys fewer_states m" "m (w_db w) = (r, s)" "w' = w\<lparr>w_db := s\<rparr>" for m :: "'x action" and r s
    using obeysD [OF that(1,3)] obeysD [OF that(2,3)] that(4) calm [of s "w_active w"] by simp
  from assms show ?thesis
  proof cases
    case (begin_login st v now1 now2 r s)
    note b = begin_login(2) [unfolded begin_pocket_id_login_def]
    from begin_login(1) show ?thesis
      by (intro start [of s "[]"] obeysD [OF calm.authorization b]) (use authorization_states [OF b] in auto)
  next
    case (begin_mobile_login client k st v now1 now2 r s)
    note b = begin_mobile_E [OF begin_mobile_login(2)]
    from begin_mobile_login(1) show ?thesis
      by (intro start [of s "[LoginBegun st k]"] obeysD [OF calm.begin_mobile begin_mobile_login(2)])
        (use b in \<open>auto simp: begun_def dest: authorization_states\<close>)
  next
    case (begin_mobile_failed client challenge st v now1 now2 e s)
    note b = begin_mobile_E [OF begin_mobile_failed(2)]
    from begin_mobile_failed(1) show ?thesis
      by (intro start [of s "[]"] obeysD [OF calm.begin_mobile begin_mobile_failed(2)])
        (use b in \<open>auto dest: authorization_states\<close>)
  next
    case (verify q h now i s) then show ?thesis using that(3) by blast
  next
    case (issue st i h now1 now2 fresh c s) then show ?thesis using that(4) by blast
  next
    case (redeem now c v r s) then show ?thesis using that(5) [of now c v r s] by blast
  next
    case (redeem_refused now c v r s) then show ?thesis using that(5) [of now c v r s "w_redeemed w"] by simp
  next
    case (exchange u n now fresh c s) then show ?thesis using that(6) by blast
  next
    case (lookup h now a s)
    then show ?thesis using calm [of s "a # w_active w"] obeysD [OF calm.current] obeysD [OF pending.current] by blast
  next
    case (redeem_failed now c v e s) then show ?thesis using quiet [OF calm.redeem pending.redeem] by blast
  next
    case (lookup_none h now s) then show ?thesis using quiet [OF calm.current pending.current] by blast
  next
    case (mobile_logout h r s) then show ?thesis using quiet [OF calm.logout_mobile pending.logout_mobile] by blast
  next
    case (browser_logout h r s) then show ?thesis using quiet [OF calm.logout pending.logout] by blast
  next
    case (add_device a i t now r s) then show ?thesis using quiet [OF calm_register pending_register] by blast
  next
    case (remove_device h i now r s) then show ?thesis using quiet [OF calm.remove pending.remove] by blast
  next
    case (begin_google a force st v now1 now2 r s)
    then show ?thesis using quiet [OF calm.google_authorization pending.google_authorization] by blast
  next
    case (google_state a q now1 now2 r s) then show ?thesis using quiet [OF calm.oauth_state pending.oauth_state] by blast
  next
    case (google_login a email token expires_in now fresh r s)
    then show ?thesis using quiet [OF calm_insert_google pending_insert_google] by blast
  next
    case (google_access h now1 now2 now3 now4 now5 now6 now7 r s)
    then show ?thesis using quiet [OF calm.access pending.access] by blast
  next
    case (google_account email cipher now)
    then show ?thesis
      by (intro calm [of "upsert_google_account email cipher now (w_db w)" "w_active w"] calm.account pending.account) simp
  qed
qed

lemma vouched_step:
  assumes "auth_step E w w'" "subjects_vouched E w"
  shows "subjects_vouched E w'"
  using assms(1)
proof (cases rule: step_cases)
  case (calm s a)
  with vouched_calm [OF assms(2) calm(1)] show ?thesis by (simp add: subjects_vouched_def)
next
  case (start s l)
  have "vouched E (l @ w_log w) u" if "vouched E (w_log w) u" for u using that by (auto simp: vouched_def)
  with vouched_calm [OF assms(2) start(1)] start(2) show ?thesis by (simp add: subjects_vouched_def)
next
  case (verify q h now i s st)
  have "vouched E (Verified st (idn_subject i) # w_log w) (idn_subject i)"
    using verified_identity [OF verify(1)] by (auto simp: vouched_def)
  with vouched_calm [OF assms(2) obeysD [OF calm.finish verify(1)]] verify(3) show ?thesis
    by (auto simp: subjects_vouched_def vouched_log)
next
  case (issue st i h now1 now2 fresh c s)
  from issue(1) assms(2) have i: "vouched E (w_log w) (idn_subject i)" by (auto simp: subjects_vouched_def)
  from issue(2) show ?thesis
  proof (cases rule: issue_cases)
    case (1 u)
    note o = vouched_calm [OF assms(2) 1(1)]
    from create_handoff_rows [OF 1(4)] obtain k row where "valid_pkce_challenge E k" "hof_subject row = idn_subject i"
      "hof_challenge row = Some k" "handoffs s = filter (\<lambda>r. now2 < hof_expires r) (handoffs u) @ [row]"
      "pocket_sessions s = pocket_sessions u" by (metis handoff_row.select_convs(2,6))
    with o i issue(3) show ?thesis by (auto simp: subjects_vouched_def vouched_log)
  next
    case (2 u)
    from create_session_rows [OF 2(4)] vouched_calm [OF assms(2) 2(1)] i issue(3) show ?thesis
      by (fastforce simp: subjects_vouched_def vouched_log)
  qed
next
  case (redeem now c v r s d)
  from redeem_rows(1) [OF redeem(1)] assms(2) have "vouched E (w_log w) (hof_subject r)"
    by (auto simp: subjects_vouched_def)
  with vouched_calm [OF assms(2) obeysD [OF calm.redeem redeem(1)]] redeem(2,3) show ?thesis
    by (fastforce simp: subjects_vouched_def intro: vouched_log)
next
  case (exchange u n now fresh c s d)
  from exchange(1) assms(2) have "vouched E (w_log w) u" by (auto simp: subjects_vouched_def)
  with create_session_rows [OF exchange(2)] assms(2) exchange(3,4) show ?thesis
    by (fastforce simp: subjects_vouched_def vouched_log dest: in_set_remove1 [THEN iffD1, rotated] notin_set_remove1)
qed

lemma counted_step:
  assumes "auth_step E w w'" "handoffs_counted w"
  shows "handoffs_counted w'"
  using assms(1)
proof (cases rule: step_cases)
  case (calm s a)
  with counted_calm [OF assms(2) calm(1)] show ?thesis by (simp add: handoffs_counted_def)
next
  case (start s l)
  have "count_list l (HandoffRedeemed k) = 0" "count_list l (HandoffIssued k) = 0" for k using start(3) by auto
  with counted_calm [OF assms(2) start(1)] start(2) show ?thesis by (simp add: handoffs_counted_def)
next
  case (verify q h now i s st)
  with counted_calm [OF assms(2) obeysD [OF calm.finish verify(1)]] show ?thesis by (simp add: handoffs_counted_def)
next
  case (issue st i h now1 now2 fresh c s)
  from issue(2) show ?thesis
  proof (cases rule: issue_cases)
    case (1 u)
    note o = counted_calm [OF assms(2) 1(1)]
    from create_handoff_rows [OF 1(4)] obtain row where row: "hof_code_hash row = hash_session_id E fresh"
      "handoffs s = filter (\<lambda>r. now2 < hof_expires r) (handoffs u) @ [row]"
      "hash_session_id E fresh \<notin> hof_code_hash ` set (filter (\<lambda>r. now2 < hof_expires r) (handoffs u))"
      by (metis handoff_row.select_convs(1))
    have "count_list (w_log w) (HandoffRedeemed (hash_session_id E fresh))
        \<le> count_list (w_log w) (HandoffIssued (hash_session_id E fresh))"
      using assms(2) unfolding handoffs_counted_def by (meson add_leD1)
    with row counted_calm [OF o, of "u\<lparr>handoffs := filter (\<lambda>r. now2 < hof_expires r) (handoffs u)\<rparr>"] 1(3) issue(3)
    show ?thesis by (auto simp: handoffs_counted_def credential_event_def calm_update(7))
  next
    case (2 u)
    with counted_calm [OF assms(2) 2(1)] create_session_rows(1) [OF 2(4)] issue(3) show ?thesis
      by (simp add: handoffs_counted_def credential_event_def)
  qed
next
  case (redeem now c v r s d)
  note rows = redeem_rows [OF redeem(1)]
  have "hash_session_id E c \<in> hof_code_hash ` set (handoffs (w_db w))" using rows(1,2) by (metis imageI)
  moreover have "hash_session_id E c \<notin> hof_code_hash ` set (handoffs s)"
    using rows(5) assms(2) by (simp add: handoffs_counted_def)
  ultimately have "count_list (HandoffRedeemed (hash_session_id E c) # w_log w) (HandoffRedeemed k)
      + (if k \<in> hof_code_hash ` set (handoffs s) then 1 else 0) \<le> count_list (w_log w) (HandoffIssued k)" for k
    using counted_calm [OF assms(2) obeysD [OF calm.redeem redeem(1)]] assms(2)
    unfolding handoffs_counted_def by (cases "k = hash_session_id E c") (auto dest!: spec [of _ k])
  then show ?thesis
    using counted_calm [OF assms(2) obeysD [OF calm.redeem redeem(1)]] redeem(2) by (simp add: handoffs_counted_def)
next
  case (exchange u n now fresh c s d)
  have "handoffs (w_db w') = handoffs (w_db w)" using create_session_rows(1) [OF exchange(2)] exchange(3) by simp
  moreover have "count_list (w_log w') (HandoffRedeemed k) = count_list (w_log w) (HandoffRedeemed k)"
    "count_list (w_log w') (HandoffIssued k) = count_list (w_log w) (HandoffIssued k)" for k
    using exchange(3) by simp_all
  ultimately show ?thesis using assms(2) unfolding handoffs_counted_def by (simp only: simp_thms)
qed

lemma logins_step:
  assumes "auth_step E w w'" "logins_bound w"
  shows "logins_bound w'"
  using assms(1)
proof (cases rule: step_cases)
  case (calm s a)
  then show ?thesis by (intro logins_grow [OF assms(2)]) (auto simp: calm_simps fewer_states_def)
next
  case (start s l)
  have l: "begun l st c \<Longrightarrow> begun (l @ w_log w) st c" for st c by (rule begun_mono) auto
  show ?thesis
  proof (rule logins_grow [OF assms(2)])
    show "set (handoffs (w_db w')) \<subseteq> set (handoffs (w_db w))" using start(1,2) by (simp add: calm_simps)
    show "p \<in> set (pocket_states (w_db w)) \<or> pst_redirect p = None \<or> begun (w_log w') (pst_state p) (pst_challenge p)"
      if "p \<in> set (pocket_states (w_db w'))" for p
      using start(4) [of p] that l start(2) by auto
  qed (simp_all add: start(2))
next
  case (verify q h now i s st)
  let ?v = "w'\<lparr>w_verified := w_verified w\<rparr>"
  from verified_login [OF verify(1)] verify(2) obtain p where p: "p \<in> set (pocket_states (w_db w))" "pst_state p = st"
    "idn_redirect i = pst_redirect p" "idn_challenge i = pst_challenge p" by auto
  have "logins_bound ?v"
    by (rule logins_grow [OF assms(2)])
      (use obeysD [OF pending.finish verify(1)] obeysD [OF calm.finish verify(1)] verify(3) in \<open>auto simp: calm_simps fewer_states_def\<close>)
  moreover have "begun (w_log w') st (idn_challenge i)" if "idn_redirect i \<noteq> None"
    by (rule begun_mono [of "w_log w"]) (use assms(2) p that verify(3) in \<open>auto simp: logins_bound_def\<close>)
  ultimately show ?thesis using verify(3) by (auto simp: logins_bound_def)
next
  case (issue st i h now1 now2 fresh c s)
  have i: "Verified st (idn_subject i) \<in> set (w_log w)" "idn_redirect i \<noteq> None \<Longrightarrow> begun (w_log w) st (idn_challenge i)"
    using assms(2) issue(1) by (force simp: logins_bound_def)+
  let ?v = "w'\<lparr>w_db := s\<lparr>handoffs := filter (\<lambda>r. r \<in> set (handoffs (w_db w))) (handoffs s)\<rparr>\<rparr>"
  from issue(2) have "set (pocket_states s) \<subseteq> set (pocket_states (w_db w))
      \<and> (\<forall>r\<in>set (handoffs s). r \<in> set (handoffs (w_db w)) \<or> hof_subject r = idn_subject i \<and> begun (w_log w) st (hof_challenge r))"
  proof (cases rule: issue_cases)
    case (1 u)
    from create_handoff_rows [OF 1(4)] obtain k row where "idn_challenge i = Some k" "hof_subject row = idn_subject i"
      "hof_challenge row = Some k" "handoffs s = filter (\<lambda>r. now2 < hof_expires r) (handoffs u) @ [row]"
      "pocket_states s = pocket_states u" by (metis handoff_row.select_convs(2,6))
    with i(2) [OF 1(3)] 1(1,2) show ?thesis by (auto simp: calm_simps fewer_states_def)
  next
    case (2 u)
    with create_session_rows [OF 2(4)] show ?thesis by (auto simp: calm_simps fewer_states_def)
  qed
  note new = this
  have "logins_bound ?v" by (rule logins_grow [OF assms(2)]) (use new issue(3) in auto)
  moreover have "r \<in> set (handoffs (w_db w)) \<or> (\<exists>st. Verified st (hof_subject r) \<in> set (w_log w') \<and> begun (w_log w') st (hof_challenge r))"
    if "r \<in> set (handoffs s)" for r
  proof -
    have "begun (w_log w) st (hof_challenge r) \<Longrightarrow> begun (w_log w') st (hof_challenge r)"
      by (erule begun_mono) (auto simp: issue(3))
    with new that have "r \<in> set (handoffs (w_db w)) \<or> hof_subject r = idn_subject i \<and> begun (w_log w') st (hof_challenge r)" by blast
    moreover have "Verified st (idn_subject i) \<in> set (w_log w')" by (simp add: issue(3) i(1))
    ultimately show ?thesis by metis
  qed
  ultimately show ?thesis using issue(3) by (simp add: logins_bound_def) blast
next
  case (redeem now c v r s d)
  then show ?thesis
    by (intro logins_grow [OF assms(2)])
      (use obeysD [OF pending.redeem redeem(1)] obeysD [OF calm.redeem redeem(1)] in \<open>auto simp: calm_simps fewer_states_def\<close>)
next
  case (exchange u n now fresh c s d)
  with create_session_rows [OF exchange(2)] show ?thesis by (intro logins_grow [OF assms(2)]) auto
qed

section \<open>A session that is gone\<close>

definition gone :: "string \<Rightarrow> auth_db \<Rightarrow> bool" where
  "gone k s \<longleftrightarrow> (\<forall>p\<in>set (pocket_sessions s). pse_id_hash p \<noteq> k) \<and> (\<forall>g\<in>set (google_sessions s). gse_session g \<noteq> Some k)"

lemma gone_calm:
  assumes "gone k s" "calm s t"
  shows "gone k t"
proof -
  from assms(2) have "no_new_link k s t" unfolding calm_def by (elim conjE) (erule spec)
  with assms(1) show ?thesis unfolding no_new_link_def gone_def by (elim conjE impE) (assumption | intro conjI)+
qed

lemma gone_create:
  "create_pocket_session_in E now fresh u n s = (r, t) \<Longrightarrow> gone k s \<Longrightarrow> hash_session_id E fresh \<noteq> k \<Longrightarrow> gone k t"
  using create_session_rows [of E now fresh u n s r t] by (auto simp: gone_def)

lemma gone_step:
  assumes "auth_step E w w'" "gone k (w_db w)"
  shows "\<exists>new. w_log w' = new @ w_log w \<and> (SessionCreated k \<in> set new \<or> gone k (w_db w'))"
  using assms(1)
proof (cases rule: step_cases)
  case (calm s a)
  with gone_calm [OF assms(2) calm(1)] show ?thesis by simp
next
  case (start s l)
  with gone_calm [OF assms(2) start(1)] show ?thesis by simp
next
  case (verify q h now i s st)
  with gone_calm [OF assms(2) obeysD [OF calm.finish verify(1)]] show ?thesis by simp
next
  case (issue st i h now1 now2 fresh c s)
  from issue(2) have "SessionCreated k = credential_event E i fresh \<or> gone k s"
  proof (cases rule: issue_cases)
    case (1 u)
    from create_handoff_rows [OF 1(4)] have "pocket_sessions s = pocket_sessions u" "google_sessions s = google_sessions u"
      by blast+
    with gone_calm [OF assms(2) 1(1)] show ?thesis by (simp add: gone_def)
  next
    case (2 u)
    from gone_create [OF 2(4) gone_calm [OF assms(2) 2(1)]] 2(3) show ?thesis by (auto simp: credential_event_def)
  qed
  with issue(3) show ?thesis by auto
next
  case (redeem now c v r s d)
  with gone_calm [OF assms(2) obeysD [OF calm.redeem redeem(1)]] show ?thesis by simp
next
  case (exchange u n now fresh c s d)
  with gone_create [OF exchange(2) assms(2)] show ?thesis by auto
qed

lemma log_step: "auth_step E w w' \<Longrightarrow> \<exists>new. w_log w' = new @ w_log w"
  by (cases rule: step_cases) auto

lemma gone_steps:
  assumes "auth_steps E w w'" "gone k (w_db w)"
  shows "\<exists>new. w_log w' = new @ w_log w \<and> (SessionCreated k \<in> set new \<or> gone k (w_db w'))"
  using assms
proof (induction rule: auth_steps.induct)
  case (none w) then show ?case by simp
next
  case (more w w' w'')
  then obtain new where new: "w_log w' = new @ w_log w" "SessionCreated k \<in> set new \<or> gone k (w_db w')" by blast
  obtain new' where "w_log w'' = new' @ w_log w'" "SessionCreated k \<in> set new \<or> SessionCreated k \<in> set new' \<or> gone k (w_db w'')"
    using log_step [OF more.hyps(2)] gone_step [OF more.hyps(2), of k] new(2) by blast
  with new show ?case by (intro exI [of _ "new' @ new"]) auto
qed

end
