(* ===== verification/SessionProperties.thy ===== *)
theory SessionProperties
  imports SessionSteps
begin

text \<open>
  What the sign-in promises under every interleaving of requests, and two runs of a sample
  household to which the properties are applied.
\<close>

section \<open>Reachable states\<close>

lemma initial_vouched: "subjects_vouched E initial_world"
  by (simp add: subjects_vouched_def initial_world_def empty_auth_def)

lemma initial_counted: "handoffs_counted initial_world"
  by (simp add: handoffs_counted_def initial_world_def empty_auth_def)

lemma initial_logins: "logins_bound initial_world"
  by (simp add: logins_bound_def initial_world_def empty_auth_def)

lemma steps_logins: "auth_steps E w w' \<Longrightarrow> logins_bound w \<Longrightarrow> logins_bound w'"
  by (induction rule: auth_steps.induct) (blast intro: logins_step)+

lemma steps_vouched: "auth_steps E w w' \<Longrightarrow> subjects_vouched E w \<Longrightarrow> subjects_vouched E w'"
  by (induction rule: auth_steps.induct) (blast intro: vouched_step)+

lemma steps_counted: "auth_steps E w w' \<Longrightarrow> handoffs_counted w \<Longrightarrow> handoffs_counted w'"
  by (induction rule: auth_steps.induct) (blast intro: counted_step)+

text \<open>
  C31: Only the household is signed in. Whatever requests are interleaved from the empty database,
  every session, every handoff and every redeemed handoff whose session is still to be created belongs to a
  subject that the configuration allows and that the identity provider has verified before; every
  handoff carries the proof-of-possession challenge with which the app began the very login that was
  verified; and so whoever redeems a handoff, for an allowed subject, presents a verifier whose digest is
  that challenge.
\<close>

theorem only_household_signed_in:
  assumes "auth_steps E initial_world w"
  shows "(\<forall>p\<in>set (pocket_sessions (w_db w)). pse_subject p \<in> set (allowed_subjects E)
        \<and> (\<exists>st. Verified st (pse_subject p) \<in> set (w_log w)))
     \<and> (\<forall>x\<in>set (w_redeemed w). fst x \<in> set (allowed_subjects E) \<and> (\<exists>st. Verified st (fst x) \<in> set (w_log w)))
     \<and> (\<forall>r\<in>set (handoffs (w_db w)). hof_subject r \<in> set (allowed_subjects E)
        \<and> (\<exists>st k. Verified st (hof_subject r) \<in> set (w_log w) \<and> LoginBegun st k \<in> set (w_log w)
             \<and> hof_challenge r = Some k \<and> valid_pkce_challenge E k))
     \<and> (\<forall>now c v r s. redeem_handoff E now c v (w_db w) = (Inr r, s) \<longrightarrow> hof_subject r \<in> set (allowed_subjects E)
        \<and> (\<exists>st. Verified st (hof_subject r) \<in> set (w_log w) \<and> LoginBegun st (digest_base64 E v) \<in> set (w_log w)))"
proof -
  note sound = steps_vouched [OF assms initial_vouched] and bound = steps_logins [OF assms initial_logins]
  have handoff: "hof_subject r \<in> set (allowed_subjects E) \<and> (\<exists>st k. Verified st (hof_subject r) \<in> set (w_log w)
      \<and> LoginBegun st k \<in> set (w_log w) \<and> hof_challenge r = Some k \<and> valid_pkce_challenge E k)"
    if "r \<in> set (handoffs (w_db w))" for r
    using sound bound that by (fastforce simp: subjects_vouched_def vouched_def logins_bound_def begun_def)
  moreover have "hof_subject r \<in> set (allowed_subjects E)
      \<and> (\<exists>st. Verified st (hof_subject r) \<in> set (w_log w) \<and> LoginBegun st (digest_base64 E v) \<in> set (w_log w))"
    if "redeem_handoff E now c v (w_db w) = (Inr r, s)" for now c v r s
    using handoff [OF redeem_rows(1) [OF that]] redeem_rows(4) [OF that] by auto
  ultimately show ?thesis using sound by (auto simp: subjects_vouched_def vouched_def)
qed

text \<open>
  C32: A handoff is redeemed at most once. In every reachable state a code has been redeemed no more
  often than it was issued, and once every issue of a code is redeemed, a further redemption is
  refused with status 401 whatever verifier comes with it.
\<close>

theorem handoff_single_use:
  assumes "auth_steps E initial_world w"
  shows "count_list (w_log w) (HandoffRedeemed k) \<le> count_list (w_log w) (HandoffIssued k)
     \<and> (count_list (w_log w) (HandoffRedeemed k) = count_list (w_log w) (HandoffIssued k) \<longrightarrow> hash_session_id E c = k \<longrightarrow>
         (\<exists>e s. redeem_handoff E now c v (w_db w) = (Inl e, s) \<and> api_status e = 401))"
proof -
  have n: "handoffs_counted w" by (rule steps_counted [OF assms initial_counted])
  then have le: "count_list (w_log w) (HandoffRedeemed k)
      + (if k \<in> hof_code_hash ` set (handoffs (w_db w)) then 1 else 0) \<le> count_list (w_log w) (HandoffIssued k)"
    by (auto simp: handoffs_counted_def)
  have "\<exists>e s. redeem_handoff E now c v (w_db w) = (Inl e, s) \<and> api_status e = 401"
    if "k \<notin> hof_code_hash ` set (handoffs (w_db w))" "hash_session_id E c = k"
  proof -
    from that have "filter (\<lambda>r. hof_code_hash r = hash_session_id E c \<and> now < hof_expires r
        \<and> hof_challenge r = Some (digest_base64 E v)) (filter (\<lambda>r. now < hof_expires r) (handoffs (w_db w))) = []"
      by (auto simp: filter_empty_conv image_iff)
    then show ?thesis by (simp add: redeem_handoff_def Let_def action_defs first_row_def ok_or_def unauthorized_def)
  qed
  with le show ?thesis by (auto split: if_splits)
qed

text \<open>
  C34: A bearer session needs the code and the verifier. An exchange succeeds only for a handoff in
  the table that has not expired, whose challenge is the digest of the verifier and whose subject
  is allowed; it removes the handoff and leaves a session for that subject, under the hash of the
  token it returns and with the full lifetime.
\<close>

theorem exchange_proof:
  assumes "exchange_mobile_session E code verifier now1 now2 fresh s = (Inr m, t)"
    and "distinct (map hof_code_hash (handoffs s))"
  shows "\<exists>r\<in>set (handoffs s). hof_code_hash r = hash_session_id E (map ascii_lower (trim code))
     \<and> now1 < hof_expires r \<and> hof_challenge r = Some (digest_base64 E verifier)
     \<and> hof_subject r \<in> set (allowed_subjects E) \<and> r \<notin> set (handoffs t)
     \<and> mob_subject m = hof_subject r \<and> mob_access_token m = fresh
     \<and> \<lparr>pse_id_hash = hash_session_id E fresh, pse_subject = hof_subject r, pse_username = hof_username r,
         pse_expires = now2 + SESSION_TTL_SECONDS, pse_created = now2\<rparr> \<in> set (pocket_sessions t)"
proof -
  let ?c = "map ascii_lower (trim code)"
  from assms(1) obtain r u c where r: "redeem_handoff E now1 ?c verifier s = (Inr r, u)"
    and allowed: "hof_subject r \<in> set (allowed_subjects E)"
    and create: "create_pocket_session_in E now2 fresh (hof_subject r) (hof_username r) u = (Inr c, t)"
    and m: "m = \<lparr>mob_access_token = c, mob_subject = hof_subject r, mob_username = hof_username r,
        mob_expires = now1 + SESSION_TTL_SECONDS\<rparr>"
    by (auto simp: exchange_mobile_session_def Let_def result_simps)
  note rows = redeem_rows [OF r]
  from create have t: "c = fresh" "handoffs t = handoffs u"
    "\<lparr>pse_id_hash = hash_session_id E fresh, pse_subject = hof_subject r, pse_username = hof_username r,
       pse_expires = now2 + SESSION_TTL_SECONDS, pse_created = now2\<rparr> \<in> set (pocket_sessions t)"
    by (auto simp: create_pocket_session_in_def insert_pocket_session_def action_defs split: if_splits)
  have "r \<notin> set (handoffs t)" using rows(2,5) assms(2) t(2) by (metis imageI)
  with rows(1-4) allowed t m show ?thesis by (intro bexI [of _ r]) simp_all
qed

text \<open>
  A login is completed once. When the pending state of a login has been consumed, a second
  completion at the same time or later, of the same or of another verified identity, is refused
  with status 401 and changes nothing, so that a replayed callback gives no second credential.
\<close>

theorem login_state_once:
  assumes "issue_pocket_login E h st i now1 now2 fresh s = (Inr c, t)" and "now1 \<le> later"
  shows "\<exists>e. issue_pocket_login E h' st i' later now4 fresh' t = (Inl e, t) \<and> api_status e = 401"
proof -
  have kept: "pocket_states v = pocket_states u"
    if "create_mobile_handoff_in E now2 fresh i u = (Inr c, v) \<or> create_pocket_session_in E now2 fresh a b u = (Inr c, v)
      \<or> revoke_previous E h u = (Inr (), v)" for u v a b
    using that by (auto simp: create_mobile_handoff_in_def insert_handoff_def create_pocket_session_in_def
        insert_pocket_session_def revoke_previous_def revoke_pocket_session_in_def action_defs
        split: if_splits option.splits)
  from assms(1) obtain u where u: "consume_pocket_state st now1 s = (Inr (), u)" and t: "pocket_states t = pocket_states u"
    by (auto simp: issue_pocket_login_def result_simps split: if_splits dest!: kept [OF disjI1]
        kept [OF disjI2, OF disjI1] kept [OF disjI2, OF disjI2])
  from u have "\<forall>r\<in>set (pocket_states t). \<not> (pst_state r = st \<and> now1 < pst_expires r)"
    by (auto simp: consume_pocket_state_def result_simps t)
  with assms(2) have "filter (\<lambda>r. pst_state r = st \<and> later < pst_expires r) (pocket_states t) = []"
    by (fastforce simp: filter_empty_conv)
  then show ?thesis
    by (simp add: issue_pocket_login_def consume_pocket_state_def action_defs unauthorized_def)
qed

text \<open>
  A request is signed in exactly by a live session. The lookup never fails; it names a session
  only when the token of the request has one in the table that has not expired and whose subject
  is allowed, and then changes nothing; in every other case no session for the token is left.
\<close>

theorem session_lookup:
  "case current_pocket_session E h now s of
     (Inr (Some a), t) \<Rightarrow> t = s \<and> (\<exists>i p. pocket_session_id_from_headers h = Some i \<and> p \<in> set (pocket_sessions s)
        \<and> pse_id_hash p = hash_session_id E i \<and> act_id_hash a = pse_id_hash p \<and> act_subject a = pse_subject p
        \<and> now < pse_expires p \<and> pse_subject p \<in> set (allowed_subjects E))
   | (Inr None, t) \<Rightarrow> (\<forall>i. pocket_session_id_from_headers h = Some i \<longrightarrow>
        (\<forall>p\<in>set (pocket_sessions t). pse_id_hash p \<noteq> hash_session_id E i))
   | (Inl e, t) \<Rightarrow> False"
proof (cases "pocket_session_id_from_headers h")
  case None then show ?thesis by (simp add: current_pocket_session_def action_defs)
next
  case (Some i)
  let ?row = "first_row (filter (\<lambda>r. pse_id_hash r = hash_session_id E i) (pocket_sessions s))"
  show ?thesis
  proof (cases ?row)
    case None
    then have "\<forall>p\<in>set (pocket_sessions s). pse_id_hash p \<noteq> hash_session_id E i"
      by (auto simp: first_row_def filter_empty_conv split: list.splits)
    with None Some show ?thesis by (simp add: current_pocket_session_def Let_def action_defs)
  next
    case (Some r)
    with first_row_filter [OF Some] \<open>pocket_session_id_from_headers h = _\<close> show ?thesis
      by (auto simp: current_pocket_session_def revoke_pocket_session_def revoke_pocket_session_in_def Let_def
          action_defs)
  qed
qed

lemma revoke_in_gone: "revoke_pocket_session_in k s = (Inr (), t) \<Longrightarrow> gone k t"
  by (auto simp: revoke_pocket_session_in_def action_defs gone_def)

lemma logout_gone:
  assumes "logout E h s = (Inr (), t)" "cookie_id_from_headers h POCKET_SESSION_COOKIE = Some i"
  shows "gone (hash_session_id E i) t"
proof -
  from assms obtain u v where v: "revoke_pocket_session_in (hash_session_id E i) u = (Inr (), v)"
    and t: "pocket_sessions t = pocket_sessions v" "google_sessions t = google_sessions v"
    by (auto simp: logout_def revoke_previous_def result_simps split: option.splits)
  from revoke_in_gone [OF v] t show ?thesis by (simp add: gone_def)
qed

text \<open>
  C33: A logout is final. After the logout of a browser, however other requests are interleaved and
  unless a session with the same hash is created anew, a request with the old token is signed out,
  no Google session hangs on the old session, and a Google login that had read the session before
  the logout can no longer be completed.
\<close>

theorem logout_final:
  assumes "logout E h (w_db w) = (Inr (), s)" "cookie_id_from_headers h POCKET_SESSION_COOKIE = Some i"
    and "auth_steps E (w\<lparr>w_db := s\<rparr>) w'"
    and "w_log w' = new @ w_log w" "SessionCreated (hash_session_id E i) \<notin> set new"
  shows "(pocket_session_id_from_headers h' = Some i \<longrightarrow> current_pocket_session E h' now (w_db w') = (Inr None, w_db w'))
     \<and> (\<forall>g\<in>set (google_sessions (w_db w')). gse_session g \<noteq> Some (hash_session_id E i))
     \<and> (act_id_hash a = hash_session_id E i \<longrightarrow>
          (\<exists>e. insert_google_session E a email token expires_in now fresh (w_db w') = (Inl e, w_db w')))"
proof -
  let ?k = "hash_session_id E i"
  have "gone ?k (w_db (w\<lparr>w_db := s\<rparr>))" using logout_gone [OF assms(1,2)] by simp
  from gone_steps [OF assms(3) this] assms(4,5) have g: "gone ?k (w_db w')" by auto
  then have "filter (\<lambda>r. pse_id_hash r = ?k) (pocket_sessions (w_db w')) = []"
    by (auto simp: gone_def filter_empty_conv)
  then have "current_pocket_session E h' now (w_db w') = (Inr None, w_db w')"
    if "pocket_session_id_from_headers h' = Some i"
    using that by (simp add: current_pocket_session_def Let_def action_defs first_row_def)
  moreover have "\<exists>e. insert_google_session E a email token expires_in now fresh (w_db w') = (Inl e, w_db w')"
    if "act_id_hash a = ?k"
  proof (cases "encrypt_secret E token")
    case (Inl e) then show ?thesis by (simp add: insert_google_session_def action_defs)
  next
    case (Inr c)
    have "\<not> list_ex (\<lambda>p. pse_id_hash p = act_id_hash a \<and> pse_subject p = act_subject a \<and> now < pse_expires p)
        (pocket_sessions (w_db w'))"
      using g that by (auto simp: gone_def list_ex_iff)
    with Inr show ?thesis by (simp add: insert_google_session_def action_defs)
  qed
  ultimately show ?thesis using g by (simp add: gone_def)
qed

section \<open>A login of the sample household\<close>

text \<open>Two runs of a household with one member: the login of the app, and the login and logout of a browser.\<close>

definition sample_auth :: auth_env where
  "sample_auth = \<lparr>public_origin = ''https://presto'', allowed_subjects = [''ana''], allowed_emails = [''ana@presto''],
     digest_hex = (\<lambda>s. s), digest_base64 = (\<lambda>s. s), base64_length = (\<lambda>_. Some 32),
     parse_url = (\<lambda>_. Some \<lparr>url_origin = Some ''https://presto'', url_username = [], url_password = None,
       url_path = ''/'', url_query = None, url_fragment = None\<rparr>),
     uuid_ok = (\<lambda>_. True), encrypt_secret = Inr, decrypt_secret = Inr,
     pocket_userinfo = (\<lambda>_ _. Inr (''ana'', ''Ana'')), google_token = (\<lambda>_ _. Inr (200, JNull)),
     google_userinfo = (\<lambda>_. Inr (''ana@presto'', True))\<rparr>"

definition sample_token :: "char \<Rightarrow> string" where
  "sample_token c = replicate 64 c"

definition sample_verifier :: string where
  "sample_verifier = replicate 43 (CHR ''v'')"

definition sample_cookie :: "string \<Rightarrow> char \<Rightarrow> string" where
  "sample_cookie name c = name @ CHR ''='' # sample_token c"

definition sample_headers :: request_headers where
  "sample_headers = \<lparr>hd_origin = Some (Some ''https://presto''), hd_authorization = None,
     hd_cookie = Some (Some (sample_cookie POCKET_OAUTH_COOKIE (CHR ''a'') @ CHR '';'' #
       sample_cookie POCKET_SESSION_COOKIE (CHR ''b'')))\<rparr>"

definition sample_callback :: oauth_callback where
  "sample_callback = \<lparr>cb_state = Some (sample_token (CHR ''a'')), cb_code = Some ''code'', cb_error = None\<rparr>"

lemma split_once_append: "c \<notin> set a \<Longrightarrow> split_once c (a @ c # b) = Some (a, b)"
  by (auto simp: split_once_def takeWhile_append dropWhile_append)

lemma sample_token_facts [simp]:
  "c \<in> set ''abcdef'' \<Longrightarrow> session_token (sample_token c)" "set (sample_token c) = {c}" "sample_token c \<noteq> []"
  "hd (sample_token c) = c" "last (sample_token c) = c" "map ascii_lower (sample_token c) = sample_token (ascii_lower c)"
  "sample_token c = sample_token d \<longleftrightarrow> c = d"
  by (auto simp: session_token_def sample_token_def is_hexdigit_def ascii_lower_def list_all_iff is_digit_def)

definition plain_name :: "string \<Rightarrow> bool" where
  "plain_name name \<longleftrightarrow> name \<noteq> [] \<and> CHR ''='' \<notin> set name \<and> CHR '';'' \<notin> set name \<and> of_char (hd name) \<in> {33..127 :: nat}"

lemma named_cookie_sample:
  assumes "c \<in> set ''abcdef''" "plain_name name"
  shows "named_cookie wanted (sample_cookie name c) = (if name = wanted then Some (sample_token c) else None)"
proof -
  have "of_char c \<in> {33..127 :: nat}" using assms(1) by auto
  with assms(2) have "trim (sample_cookie name c) = sample_cookie name c"
    unfolding sample_cookie_def plain_name_def by (intro trim_id) simp_all
  with assms show ?thesis by (simp add: named_cookie_def sample_cookie_def split_once_append plain_name_def)
qed

lemma cookie_names: "plain_name POCKET_OAUTH_COOKIE" "plain_name POCKET_SESSION_COOKIE" "plain_name SESSION_COOKIE"
  "POCKET_OAUTH_COOKIE \<noteq> POCKET_SESSION_COOKIE" "POCKET_OAUTH_COOKIE \<noteq> SESSION_COOKIE"
  "POCKET_SESSION_COOKIE \<noteq> SESSION_COOKIE"
  by (simp_all add: plain_name_def POCKET_OAUTH_COOKIE_def POCKET_SESSION_COOKIE_def SESSION_COOKIE_def)

lemma sample_cookies:
  "cookie_id_from_headers sample_headers POCKET_OAUTH_COOKIE = Some (sample_token (CHR ''a''))"
  "cookie_id_from_headers sample_headers POCKET_SESSION_COOKIE = Some (sample_token (CHR ''b''))"
  "cookie_id_from_headers sample_headers SESSION_COOKIE = None"
proof -
  have "split_on (\<lambda>c. c = CHR '';'') (sample_cookie POCKET_OAUTH_COOKIE (CHR ''a'') @ CHR '';'' #
      sample_cookie POCKET_SESSION_COOKIE (CHR ''b''))
    = [sample_cookie POCKET_OAUTH_COOKIE (CHR ''a''), sample_cookie POCKET_SESSION_COOKIE (CHR ''b'')]"
    using cookie_names(1,2) by (subst split_on_append_sep) (auto simp: sample_cookie_def plain_name_def intro!: split_on_none)
  with cookie_names show
    "cookie_id_from_headers sample_headers POCKET_OAUTH_COOKIE = Some (sample_token (CHR ''a''))"
    "cookie_id_from_headers sample_headers POCKET_SESSION_COOKIE = Some (sample_token (CHR ''b''))"
    "cookie_id_from_headers sample_headers SESSION_COOKIE = None"
    by (simp_all add: cookie_id_from_headers_def sample_headers_def header_text_def first_row_def named_cookie_sample)
qed

lemma trim_ana [simp]: "trim ''ana'' = ''ana''" "trim ''Ana'' = ''Ana''" "ascii_lower (CHR ''A'') = CHR ''a''"
  "ascii_lower (CHR ''n'') = CHR ''n''" "ascii_lower (CHR ''a'') = CHR ''a''"
  "of_char c \<in> {33..127 :: nat} \<Longrightarrow> trim (sample_token c) = sample_token c"
  by (simp_all add: trim_id) code_simp+

lemma sample_verifier_valid: "valid_verifier sample_verifier" "length sample_verifier = 43"
  by (simp_all add: valid_verifier_def sample_verifier_def is_digit_def ascii_lower_def list_all_iff)

subsection \<open>The login of the app\<close>

definition pending_login :: "string option \<Rightarrow> string option \<Rightarrow> auth_db" where
  "pending_login redirect challenge = empty_auth\<lparr>pocket_states := [\<lparr>pst_state = sample_token (CHR ''a''), pst_verifier = ''pkce'',
     pst_expires = 600, pst_redirect = redirect, pst_challenge = challenge\<rparr>]\<rparr>"

definition sample_identity :: "string option \<Rightarrow> string option \<Rightarrow> pocket_identity" where
  "sample_identity redirect challenge =
     \<lparr>idn_subject = ''ana'', idn_username = ''ana'', idn_redirect = redirect, idn_challenge = challenge\<rparr>"

definition sample_handoff :: auth_db where
  "sample_handoff = empty_auth\<lparr>handoffs := [\<lparr>hof_code_hash = sample_token (CHR ''c''), hof_subject = ''ana'',
     hof_username = ''ana'', hof_expires = 92, hof_created = 2, hof_challenge = Some sample_verifier\<rparr>]\<rparr>"

definition sample_session :: "char \<Rightarrow> int \<Rightarrow> auth_db" where
  "sample_session c now = empty_auth\<lparr>pocket_sessions := [\<lparr>pse_id_hash = sample_token c, pse_subject = ''ana'', pse_username = ''ana'',
     pse_expires = now + SESSION_TTL_SECONDS, pse_created = now\<rparr>]\<rparr>"

lemma sample_verify:
  "finish_pocket_id_login sample_auth sample_callback sample_headers 1 (pending_login redirect challenge)
     = (Inr (sample_identity redirect challenge), pending_login redirect challenge)"
  by (simp add: finish_pocket_id_login_def Let_def sample_cookies sample_callback_def action_defs pending_login_def
      empty_auth_def first_row_def sample_auth_def sample_identity_def ok_or_def)

lemmas sample_defs = action_defs pending_login_def sample_identity_def sample_handoff_def sample_session_def empty_auth_def
  sample_auth_def hash_session_id_def first_row_def sample_cookies sample_verifier_valid

abbreviation app_redirect :: "string option" where
  "app_redirect \<equiv> Some NATIVE_MOBILE_AUTH_REDIRECT_URI"

abbreviation app_challenge :: "string option" where
  "app_challenge \<equiv> Some sample_verifier"

lemma sample_allowed: "allowed_subjects sample_auth = [''ana'']"
  by (simp add: sample_auth_def)

lemma app_begin: "begin_mobile_pocket_id_login sample_auth None app_challenge (sample_token (CHR ''a'')) ''pkce'' 0 0 empty_auth
    = (Inr (sample_token (CHR ''a''), ''pkce''), pending_login app_redirect app_challenge)"
  by (simp add: begin_mobile_pocket_id_login_def mobile_client_redirect_def valid_pkce_challenge_def
      create_pocket_id_authorization_def insert_pocket_state_def OAUTH_STATE_TTL_SECONDS_def sample_defs)

lemma app_issue: "issue_pocket_login sample_auth sample_headers (sample_token (CHR ''a'')) (sample_identity app_redirect app_challenge)
    2 2 (sample_token (CHR ''c'')) (pending_login app_redirect app_challenge) = (Inr (sample_token (CHR ''c'')), sample_handoff)"
  by (simp add: issue_pocket_login_def consume_pocket_state_def create_mobile_handoff_in_def insert_handoff_def
      valid_pkce_challenge_def MOBILE_HANDOFF_TTL_SECONDS_def sample_defs)

lemma app_redeem: "redeem_handoff sample_auth 3 (sample_token (CHR ''c'')) sample_verifier sample_handoff
    = (Inr \<lparr>hof_code_hash = sample_token (CHR ''c''), hof_subject = ''ana'', hof_username = ''ana'', hof_expires = 92,
         hof_created = 2, hof_challenge = app_challenge\<rparr>, empty_auth)"
  by (simp add: redeem_handoff_def Let_def sample_defs ok_or_def)

lemma app_create: "create_pocket_session_in sample_auth 4 (sample_token c) ''ana'' ''ana'' empty_auth
    = (Inr (sample_token c), sample_session c 4)"
  by (simp add: create_pocket_session_in_def insert_pocket_session_def sample_defs)

definition app_waiting :: auth_world where
  "app_waiting = (let i = sample_identity app_redirect app_challenge in
     initial_world\<lparr>w_db := sample_handoff, w_verified := [(sample_token (CHR ''a''), i)],
       w_log := [HandoffIssued (sample_token (CHR ''c'')), Verified (sample_token (CHR ''a'')) ''ana'',
         LoginBegun (sample_token (CHR ''a'')) sample_verifier]\<rparr>)"

lemma app_waiting_run: "auth_steps sample_auth initial_world app_waiting"
proof -
  let ?i = "sample_identity app_redirect app_challenge"
  let ?w1 = "initial_world\<lparr>w_db := pending_login app_redirect app_challenge, w_log := [LoginBegun (sample_token (CHR ''a'')) sample_verifier]\<rparr>"
  let ?w2 = "?w1\<lparr>w_verified := [(sample_token (CHR ''a''), ?i)],
    w_log := Verified (sample_token (CHR ''a'')) ''ana'' # w_log ?w1\<rparr>"
  have 1: "auth_step sample_auth initial_world ?w1"
    using begin_mobile_login [of sample_auth None sample_verifier "sample_token (CHR ''a'')" "''pkce''" 0 0 initial_world] app_begin
    by (simp add: initial_world_def)
  have 2: "auth_step sample_auth ?w1 ?w2"
    using verify [of sample_auth sample_callback sample_headers 1 ?w1] sample_verify [of app_redirect app_challenge]
    by (simp add: initial_world_def sample_callback_def unwrap_or_def sample_identity_def)
  have 3: "auth_step sample_auth ?w2 app_waiting"
    using issue [of "sample_token (CHR ''a'')" ?i ?w2 sample_auth sample_headers 2 2 "sample_token (CHR ''c'')"] app_issue
    by (simp add: app_waiting_def initial_world_def credential_event_def sample_identity_def hash_session_id_def sample_auth_def)
  show ?thesis by (rule more [OF more [OF more [OF none 1] 2] 3])
qed

lemma app_run:
  obtains w where "auth_steps sample_auth initial_world w" "w_db w = sample_session (CHR ''d'') 4"
    "w_log w = [SessionCreated (sample_token (CHR ''d'')), HandoffRedeemed (sample_token (CHR ''c'')),
       HandoffIssued (sample_token (CHR ''c'')), Verified (sample_token (CHR ''a'')) ''ana'',
       LoginBegun (sample_token (CHR ''a'')) sample_verifier]"
proof -
  let ?w4 = "app_waiting\<lparr>w_db := empty_auth, w_redeemed := [(''ana'', ''ana'')],
    w_log := HandoffRedeemed (sample_token (CHR ''c'')) # w_log app_waiting\<rparr>"
  let ?w5 = "?w4\<lparr>w_db := sample_session (CHR ''d'') 4, w_redeemed := [],
    w_log := SessionCreated (sample_token (CHR ''d'')) # w_log ?w4\<rparr>"
  have 4: "auth_step sample_auth app_waiting ?w4"
    using redeem [of sample_auth 3 "sample_token (CHR ''c'')" sample_verifier app_waiting] app_redeem
    by (simp add: app_waiting_def initial_world_def hash_session_id_def sample_auth_def)
  have 5: "auth_step sample_auth ?w4 ?w5"
    using exchange [of "''ana''" "''ana''" ?w4 sample_auth 4 "sample_token (CHR ''d'')"] app_create
    by (simp add: app_waiting_def initial_world_def hash_session_id_def sample_auth_def)
  have "auth_steps sample_auth initial_world ?w5" by (rule more [OF more [OF app_waiting_run 4] 5])
  then show ?thesis by (rule that) (simp_all add: app_waiting_def Let_def)
qed

theorem only_household_signed_in_witness:
  "\<exists>r t st. redeem_handoff sample_auth 3 (sample_token (CHR ''c'')) sample_verifier (w_db app_waiting) = (Inr r, t)
     \<and> hof_subject r = ''ana'' \<and> hof_subject r \<in> set (allowed_subjects sample_auth)
     \<and> Verified st ''ana'' \<in> set (w_log app_waiting)
     \<and> LoginBegun st (digest_base64 sample_auth sample_verifier) \<in> set (w_log app_waiting)"
proof -
  obtain r t where run: "redeem_handoff sample_auth 3 (sample_token (CHR ''c'')) sample_verifier (w_db app_waiting) = (Inr r, t)"
    and subject: "hof_subject r = ''ana''" using app_redeem by (simp add: app_waiting_def Let_def)
  from only_household_signed_in [OF app_waiting_run, THEN conjunct2, THEN conjunct2, THEN conjunct2] run
  have "hof_subject r \<in> set (allowed_subjects sample_auth) \<and> (\<exists>st. Verified st (hof_subject r) \<in> set (w_log app_waiting)
      \<and> LoginBegun st (digest_base64 sample_auth sample_verifier) \<in> set (w_log app_waiting))" by blast
  with run subject show ?thesis by auto
qed

theorem handoff_single_use_witness:
  "\<exists>w e s. auth_steps sample_auth initial_world w \<and> HandoffRedeemed (sample_token (CHR ''c'')) \<in> set (w_log w)
     \<and> redeem_handoff sample_auth 5 (sample_token (CHR ''c'')) sample_verifier (w_db w) = (Inl e, s) \<and> api_status e = 401"
proof -
  obtain w where w: "auth_steps sample_auth initial_world w"
    "w_log w = [SessionCreated (sample_token (CHR ''d'')), HandoffRedeemed (sample_token (CHR ''c'')),
       HandoffIssued (sample_token (CHR ''c'')), Verified (sample_token (CHR ''a'')) ''ana'',
       LoginBegun (sample_token (CHR ''a'')) sample_verifier]" by (rule app_run)
  from handoff_single_use [OF w(1), of "sample_token (CHR ''c'')" "sample_token (CHR ''c'')" 5 sample_verifier] w
  show ?thesis by (auto simp: hash_session_id_def sample_auth_def)
qed

theorem exchange_proof_witness:
  "\<exists>m t. exchange_mobile_session sample_auth (sample_token (CHR ''c'')) sample_verifier 3 4 (sample_token (CHR ''d''))
       sample_handoff = (Inr m, t) \<and> mob_subject m = ''ana'' \<and> mob_access_token m = sample_token (CHR ''d'')"
proof -
  obtain m t where run: "exchange_mobile_session sample_auth (sample_token (CHR ''c'')) sample_verifier 3 4
      (sample_token (CHR ''d'')) sample_handoff = (Inr m, t)"
    using app_redeem app_create [of "CHR ''d''"] sample_verifier_valid
    by (simp add: exchange_mobile_session_def Let_def bind_action_def require_def reply_def sample_allowed ascii_lower_def)
  have "distinct (map hof_code_hash (handoffs sample_handoff))" by (simp add: sample_handoff_def)
  from exchange_proof [OF run this] run show ?thesis by (auto simp: sample_handoff_def empty_auth_def)
qed

theorem login_state_once_witness:
  "\<exists>e. issue_pocket_login sample_auth sample_headers (sample_token (CHR ''a'')) (sample_identity None None) 3 3
       (sample_token (CHR ''e'')) sample_handoff = (Inl e, sample_handoff) \<and> api_status e = 401"
  using login_state_once [OF app_issue, of 3] by simp

subsection \<open>The login and logout of a browser\<close>

lemma sample_same_origin: "same_origin sample_auth sample_headers"
  by (simp add: same_origin_def sample_auth_def sample_headers_def header_text_def)

lemma browser_logout_run:
  "logout sample_auth sample_headers (sample_session (CHR ''b'') 0) = (Inr (), empty_auth)"
  using sample_same_origin
  by (simp add: logout_def ensure_same_origin_def session_id_from_headers_def revoke_previous_def
      revoke_pocket_session_in_def sample_defs)

theorem logout_final_witness:
  "\<exists>w'. auth_steps sample_auth (initial_world\<lparr>w_db := empty_auth\<rparr>) w'
     \<and> logout sample_auth sample_headers (sample_session (CHR ''b'') 0) = (Inr (), empty_auth)
     \<and> w_db w' = pending_login app_redirect app_challenge
     \<and> current_pocket_session sample_auth sample_headers 9 (w_db w') = (Inr None, w_db w')"
proof -
  let ?w = "initial_world\<lparr>w_db := sample_session (CHR ''b'') 0\<rparr>"
  let ?w' = "initial_world\<lparr>w_db := pending_login app_redirect app_challenge,
    w_log := [LoginBegun (sample_token (CHR ''a'')) sample_verifier]\<rparr>"
  have step: "auth_steps sample_auth (?w\<lparr>w_db := empty_auth\<rparr>) ?w'"
    using more [OF none begin_mobile_login [of sample_auth None sample_verifier "sample_token (CHR ''a'')" "''pkce''" 0 0
      "initial_world\<lparr>w_db := empty_auth\<rparr>"]] app_begin by (simp add: initial_world_def)
  have token: "pocket_session_id_from_headers sample_headers = Some (sample_token (CHR ''b''))"
    using sample_cookies(2) by (simp add: pocket_session_id_from_headers_def sample_headers_def)
  have "logout sample_auth sample_headers (w_db ?w) = (Inr (), empty_auth)" using browser_logout_run by simp
  from logout_final [OF this sample_cookies(2) step, of "[LoginBegun (sample_token (CHR ''a'')) sample_verifier]" sample_headers 9] token browser_logout_run step
  show ?thesis by (intro exI [of _ ?w']) (simp add: initial_world_def)
qed

theorem session_lookup_witness:
  "\<exists>a. current_pocket_session sample_auth sample_headers 5 (sample_session (CHR ''b'') 0)
       = (Inr (Some a), sample_session (CHR ''b'') 0)
     \<and> act_subject a = ''ana'' \<and> 5 < SESSION_TTL_SECONDS"
proof -
  have token: "pocket_session_id_from_headers sample_headers = Some (sample_token (CHR ''b''))"
    using sample_cookies(2) by (simp add: pocket_session_id_from_headers_def sample_headers_def)
  obtain a t where run: "current_pocket_session sample_auth sample_headers 5 (sample_session (CHR ''b'') 0) = (Inr (Some a), t)"
    using token by (simp add: current_pocket_session_def Let_def SESSION_TTL_SECONDS_def sample_defs)
  from session_lookup [where E = sample_auth and h = sample_headers and now = 5 and s = "sample_session (CHR ''b'') 0"] run show ?thesis
    by (auto simp: sample_session_def)
qed

end
