(* ===== verification/TransactionRows.thy ===== *)
theory TransactionRows
  imports Plans Closing
begin

text \<open>
  What the transaction handlers of \<open>server.rs\<close> share: the accounts and categories a request may
  use, the two sides of a transaction, the rows it inserts, and the posting of an amount to an
  account. \<open>write_env\<close> holds the UUID parser, the flag of the configuration, and SQLite's \<open>julianday\<close>
  arithmetic on texts.
\<close>

section \<open>What the handlers rely on\<close>

text \<open>
  \<open>seconds_since t\<close> is the age of a timestamp and \<open>days_between a b\<close> the distance of two dates, both
  \<open>None\<close> where \<open>julianday\<close> is \<open>NULL\<close>.
\<close>

record write_env =
  writes_enabled :: bool
  valid_uuid :: "string \<Rightarrow> bool"
  seconds_since :: "string \<Rightarrow> rat option"
  days_between :: "string \<Rightarrow> string \<Rightarrow> rat option"

section \<open>Accounts and categories\<close>

record write_account =
  wa_id :: string
  wa_currency :: string
  wa_is_real :: bool
  wa_is_active :: bool

record write_category =
  wc_id :: string
  wc_is_real :: bool

definition write_account_of :: "account_row \<Rightarrow> write_account" where
  "write_account_of a = \<lparr>wa_id = acc_id a, wa_currency = unwrap_or (acc_currency a) ''EUR'', wa_is_real = acc_is_real a,
     wa_is_active = acc_is_active a\<rparr>"

definition write_category_of :: "category_row \<Rightarrow> write_category" where
  "write_category_of c = \<lparr>wc_id = cat_id c, wc_is_real = cat_is_real c\<rparr>"

definition account_of :: "db \<Rightarrow> string \<Rightarrow> account_row option" where
  "account_of db i = first_row (filter (\<lambda>a. acc_id a = i) (accounts_table db))"

definition load_db_account :: "db \<Rightarrow> string \<Rightarrow> write_account api" where
  "load_db_account db i = ok_or (map_option write_account_of (account_of db i)) (bad_request ''An account was not found.'')"

text \<open>\<open>COLLATE NOCASE\<close> folds the ASCII letters.\<close>

definition same_nocase :: "string \<Rightarrow> string \<Rightarrow> bool" where
  "same_nocase a b \<longleftrightarrow> map ascii_lower a = map ascii_lower b"

definition load_system_db_account :: "db \<Rightarrow> string \<Rightarrow> write_account api" where
  "load_system_db_account db name =
     (case filter (\<lambda>a. same_nocase (acc_source_name a) name) (accounts_table db) of
        [a] \<Rightarrow> if acc_is_real a then Inl (conflict ''A required system account is configured as a real account.'')
          else Inr (write_account_of a)
      | _ \<Rightarrow> Inl (conflict ''A required system account is missing or ambiguous.''))"

definition load_db_category :: "db \<Rightarrow> string \<Rightarrow> write_category api" where
  "load_db_category db i =
     ok_or (map_option write_category_of (first_row (filter (\<lambda>c. cat_id c = i) (categories_table db))))
       (bad_request ''A category was not found.'')"

definition load_system_db_category :: "db \<Rightarrow> string \<Rightarrow> write_category api" where
  "load_system_db_category db name =
     (case filter (\<lambda>c. same_nocase (cat_name c) name) (categories_table db) of
        [c] \<Rightarrow> if cat_is_real c then Inl (conflict ''A required system category is configured as a real category.'')
          else Inr (write_category_of c)
      | _ \<Rightarrow> Inl (conflict ''A required system category is missing or ambiguous.''))"

section \<open>The sides of a transaction\<close>

text \<open>The ids that a request of a kind must name, and must not name.\<close>

definition expense_ids :: "write_request \<Rightarrow> (string list \<times> string list) api" where
  "expense_ids p =
     and_then (guard (wr_to_account p = None \<and> wr_to_category p = None \<and> wr_to_amount p = None)
       (bad_request ''Expense transactions accept only a from account and category.'')) (\<lambda>_.
     and_then (required_id (wr_from_account p) ''fromAccountId'') (\<lambda>a.
     and_then (required_id (wr_from_category p) ''fromCategoryId'') (\<lambda>c. Inr ([a], [c]))))"

definition income_ids :: "write_request \<Rightarrow> (string list \<times> string list) api" where
  "income_ids p =
     and_then (guard (wr_from_account p = None \<and> wr_from_category p = None \<and> wr_to_amount p = None)
       (bad_request ''Income transactions accept only a to account and category.'')) (\<lambda>_.
     and_then (required_id (wr_to_account p) ''toAccountId'') (\<lambda>a.
     and_then (required_id (wr_to_category p) ''toCategoryId'') (\<lambda>c. Inr ([a], [c]))))"

definition transfer_ids :: "write_request \<Rightarrow> (string list \<times> string list) api" where
  "transfer_ids p =
     and_then (guard (wr_from_category p = None \<and> wr_to_category p = None)
       (bad_request ''Transfer categories are assigned automatically.'')) (\<lambda>_.
     and_then (required_id (wr_from_account p) ''fromAccountId'') (\<lambda>a.
     and_then (required_id (wr_to_account p) ''toAccountId'') (\<lambda>b.
     and_then (guard (a \<noteq> b) (bad_request ''Transfer accounts must differ.'')) (\<lambda>_. Inr ([a, b], [])))))"

definition reallocate_ids :: "write_request \<Rightarrow> (string list \<times> string list) api" where
  "reallocate_ids p =
     and_then (guard (wr_from_account p = None \<and> wr_to_account p = None \<and> wr_currency p = None \<and> wr_to_amount p = None)
       (bad_request ''Reallocations accept only two categories and a EUR amount.'')) (\<lambda>_.
     and_then (required_id (wr_from_category p) ''fromCategoryId'') (\<lambda>a.
     and_then (required_id (wr_to_category p) ''toCategoryId'') (\<lambda>b.
     and_then (guard (a \<noteq> b) (bad_request ''Reallocation categories must differ.'')) (\<lambda>_. Inr ([], [a, b])))))"

text \<open>The last case is \<open>unreachable!\<close>: a normalised request has one of the four kinds.\<close>

definition request_ids :: "write_request \<Rightarrow> (string list \<times> string list) api" where
  "request_ids p =
     (if wr_kind p = ''expense'' then expense_ids p
      else if wr_kind p = ''income'' then income_ids p
      else if wr_kind p = ''transfer'' then transfer_ids p
      else if wr_kind p = ''reallocate'' then reallocate_ids p
      else Inl internal_error)"

definition load_request_account :: "db \<Rightarrow> string \<Rightarrow> write_account api" where
  "load_request_account db i =
     and_then (load_db_account db i) (\<lambda>a.
     and_then (guard (wa_is_real a \<and> wa_is_active a \<and> wa_currency a \<in> {''EUR'', ''PHP'', ''USD''})
       (bad_request ''Transactions must use active real accounts with a supported currency.'')) (\<lambda>_. Inr a))"

definition load_request_category :: "db \<Rightarrow> string \<Rightarrow> write_category api" where
  "load_request_category db i =
     and_then (load_db_category db i) (\<lambda>c.
     and_then (guard (wc_is_real c) (bad_request ''Transactions must use real budget categories.'')) (\<lambda>_. Inr c))"

record sides =
  sd_from_account :: write_account
  sd_to_account :: write_account
  sd_from_category :: write_category
  sd_to_category :: write_category

definition named_account :: "write_account list \<Rightarrow> string option \<Rightarrow> write_account api" where
  "named_account accounts i =
     ok_or (Option.bind i (\<lambda>i. first_row (filter (\<lambda>a. wa_id a = i) accounts))) internal_error"

definition named_side_category :: "write_category list \<Rightarrow> string option \<Rightarrow> write_category api" where
  "named_side_category cats i =
     ok_or (Option.bind i (\<lambda>i. first_row (filter (\<lambda>c. wc_id c = i) cats))) internal_error"

text \<open>The side that the household does not name is a system account or category.\<close>

definition assign_sides :: "db \<Rightarrow> write_request \<Rightarrow> write_account list \<Rightarrow> write_category list \<Rightarrow> sides api" where
  "assign_sides db p accounts cats =
     (let from_account = named_account accounts (wr_from_account p);
          to_account = named_account accounts (wr_to_account p);
          from_category = named_side_category cats (wr_from_category p);
          to_category = named_side_category cats (wr_to_category p)
      in and_then (if wr_kind p = ''income'' then load_system_db_account db ''Income''
          else if wr_kind p = ''reallocate'' then load_system_db_account db ''Reallocation'' else from_account) (\<lambda>fa.
         and_then (if wr_kind p = ''expense'' then load_system_db_account db ''Expense''
          else if wr_kind p = ''reallocate'' then load_system_db_account db ''Reallocation'' else to_account) (\<lambda>ta.
         and_then (if wr_kind p = ''income'' then load_system_db_category db ''Income''
          else if wr_kind p = ''transfer'' then load_system_db_category db ''Balance Transfer'' else from_category) (\<lambda>fc.
         and_then (if wr_kind p = ''expense'' then load_system_db_category db ''Expense''
          else if wr_kind p = ''transfer'' then load_system_db_category db ''Balance Transfer'' else to_category) (\<lambda>tc.
         Inr \<lparr>sd_from_account = fa, sd_to_account = ta, sd_from_category = fc, sd_to_category = tc\<rparr>)))))"

definition request_sides :: "db \<Rightarrow> write_request \<Rightarrow> sides api" where
  "request_sides db p =
     and_then (request_ids p) (\<lambda>(account_ids, category_ids).
     and_then (map_result (load_request_account db) account_ids) (\<lambda>accounts.
     and_then (map_result (load_request_category db) category_ids) (\<lambda>cats.
     assign_sides db p accounts cats)))"

section \<open>Currencies and valuation\<close>

definition default_currency :: "string \<Rightarrow> string \<Rightarrow> string \<Rightarrow> string" where
  "default_currency kind from_currency to_currency =
     (if kind = ''income'' then to_currency else if kind = ''reallocate'' then ''EUR'' else from_currency)"

definition input_currency_of :: "write_request \<Rightarrow> sides \<Rightarrow> string" where
  "input_currency_of p sd =
     unwrap_or (wr_currency p) (default_currency (wr_kind p) (wa_currency (sd_from_account sd)) (wa_currency (sd_to_account sd)))"

definition check_currencies :: "write_request \<Rightarrow> sides \<Rightarrow> unit api" where
  "check_currencies p sd =
     (let cross = wr_kind p = ''transfer'' \<and> wa_currency (sd_from_account sd) \<noteq> wa_currency (sd_to_account sd)
      in if wr_kind p = ''reallocate'' \<and> input_currency_of p sd \<noteq> ''EUR''
         then Inl (bad_request ''Reallocation amounts use EUR.'')
         else if wr_kind p = ''transfer'' \<and> cross \<noteq> (wr_to_amount p \<noteq> None)
         then Inl (bad_request (if cross then ''Cross-currency transfers require toAmount.''
           else ''Same-currency transfers must not include toAmount.''))
         else Inr ())"

definition valuation_to_amount :: "write_request \<Rightarrow> string" where
  "valuation_to_amount p = unwrap_or (wr_to_amount p) (wr_amount p)"

text \<open>The ECB rates, in storage order.\<close>

definition ecb_observations :: "db \<Rightarrow> rate_observation list" where
  "ecb_observations db =
     map (\<lambda>r. \<lparr>obs_currency = the (xr_quote r), obs_date = the (xr_date r), currency_units_per_eur = the (xr_rate r)\<rparr>)
       (filter (\<lambda>r. xr_provider r = Some ''ECB'' \<and> xr_base r = Some ''EUR''
          \<and> xr_quote r \<in> {Some ''PHP'', Some ''USD''} \<and> xr_date r \<noteq> None \<and> xr_rate r \<noteq> None) (rates_table db))"

definition request_valuation :: "write_request \<Rightarrow> sides \<Rightarrow> rate_observation list \<Rightarrow> transaction_valuation api" where
  "request_valuation p sd observations =
     map_err conflict (calculate_valuation (wr_amount p) (input_currency_of p sd) (wa_currency (sd_from_account sd))
       (valuation_to_amount p) (wa_currency (sd_to_account sd)) (wr_date p) observations POSTING_ROUNDING_MODE)"

definition request_effect :: "write_request \<Rightarrow> sides \<Rightarrow> transaction_valuation \<Rightarrow> transaction_effect" where
  "request_effect p sd v =
     \<lparr>from_account_id = Some (wa_id (sd_from_account sd)), to_account_id = Some (wa_id (sd_to_account sd)),
      from_category_id = Some (wc_id (sd_from_category sd)), to_category_id = Some (wc_id (sd_to_category sd)),
      effect_kind = wr_kind p, effect_amount = wr_amount p, effect_valuation = v\<rparr>"

section \<open>Time\<close>

definition timestamp_message :: string where
  "timestamp_message = ''The transaction timestamp must match its posting date and cannot be in the future.''"

definition resolve_transaction_timestamp ::
  "'d platform \<Rightarrow> write_env \<Rightarrow> string \<Rightarrow> string option \<Rightarrow> bool \<Rightarrow> string option api" where
  "resolve_transaction_timestamp P W date supplied date_only =
     (if date_only then Inr None
      else case supplied of
        Some timestamp \<Rightarrow>
          if (case seconds_since W timestamp of None \<Rightarrow> True | Some s \<Rightarrow> s < -60)
             \<or> (case days_between W date (take 10 timestamp) of None \<Rightarrow> True | Some d \<Rightarrow> 1 < d)
          then Inl (bad_request timestamp_message) else Inr (Some timestamp)
      | None \<Rightarrow> Inr (if date = today P then Some (now_text P) else None))"

definition transaction_of :: "db \<Rightarrow> string \<Rightarrow> transaction_row option" where
  "transaction_of db i = first_row (filter (\<lambda>t. tx_id t = i) (transactions_table db))"

definition validate_db_correction :: "'d platform \<Rightarrow> db \<Rightarrow> write_request \<Rightarrow> unit api" where
  "validate_db_correction P db p =
     (case wr_corrects p of
        None \<Rightarrow> Inr ()
      | Some original \<Rightarrow>
          if original = wr_transaction_id p \<or> wr_kind p \<notin> {''expense'', ''income''} \<or> take 7 (wr_date p) \<noteq> this_month P
          then Inl (bad_request ''Record account corrections as expenses or income in the current open month.'')
          else
            and_then (ok_or (transaction_of db original) (not_found ''Original transaction not found.'')) (\<lambda>t.
            and_then (internal (first_month P db)) (\<lambda>first.
            let m = take 7 (tx_date t) in
            guard (month_closed db m \<or> \<not> (case first of None \<Rightarrow> True | Some f \<Rightarrow> f \<le> m))
              (conflict ''Edit the original transaction while its month is open.''))))"

end
