(* ===== verification/TransactionWrites.thy ===== *)
theory TransactionWrites
  imports TransactionRows
begin

text \<open>
  Recording a transaction (\<open>create_db_transaction\<close> in \<open>server.rs\<close>) with the rows it inserts: the
  transaction, its first revision, the two valuations, the balances of the accounts, the receipt of
  an income and the response of the operation. The notification of the partner is theory \<open>Push\<close>.
\<close>

section \<open>JSON of the requests and rows\<close>

definition optional_field :: "string \<Rightarrow> string option \<Rightarrow> (string \<times> json) list" where
  "optional_field key v = (case v of None \<Rightarrow> [] | Some t \<Rightarrow> [(key, JStr t)])"

text \<open>The request as serde writes it; some absent fields are skipped, the others are \<open>null\<close>.\<close>

definition request_json :: "write_request \<Rightarrow> (string \<times> json) list" where
  "request_json p =
     [(''operationId'', JStr (wr_operation_id p)), (''transactionId'', JStr (wr_transaction_id p)),
      (''kind'', JStr (wr_kind p)), (''date'', JStr (wr_date p))]
     @ optional_field ''occurredAt'' (wr_occurred_at p)
     @ (if wr_date_only p then [(''dateOnly'', JBool True)] else [])
     @ [(''description'', JStr (wr_description p)), (''amount'', JStr (wr_amount p)),
        (''currency'', json_option (wr_currency p)), (''toAmount'', json_option (wr_to_amount p)),
        (''fromCategoryId'', json_option (wr_from_category p)), (''toCategoryId'', json_option (wr_to_category p)),
        (''fromAccountId'', json_option (wr_from_account p)), (''toAccountId'', json_option (wr_to_account p))]
     @ optional_field ''incomeTreatment'' (wr_income_treatment p)
     @ optional_field ''correctsTransactionId'' (wr_corrects p)
     @ optional_field ''expectedIncomeMonth'' (wr_expected_month p)"

definition write_fingerprint :: "'d platform \<Rightarrow> write_request \<Rightarrow> string" where
  "write_fingerprint P p = sha256_hex P (write_json P (JObj (request_json p)))"

text \<open>The amounts a transfer stores for its second side.\<close>

definition stored_to_amount :: "write_request \<Rightarrow> string option" where
  "stored_to_amount p = (if wr_kind p = ''transfer'' then wr_to_amount p else None)"

definition stored_to_currency :: "write_request \<Rightarrow> sides \<Rightarrow> string option" where
  "stored_to_currency p sd = (if wr_kind p = ''transfer'' then Some (wa_currency (sd_to_account sd)) else None)"

definition source_request :: "write_request \<Rightarrow> sides \<Rightarrow> string option \<Rightarrow> json" where
  "source_request p sd occurred_at = JObj
     [(''operationId'', JStr (wr_operation_id p)), (''transactionId'', JStr (wr_transaction_id p)), (''kind'', JStr (wr_kind p)),
      (''incomeTreatment'', json_option (wr_income_treatment p)), (''correctsTransactionId'', json_option (wr_corrects p)),
      (''expectedIncomeMonth'', json_option (wr_expected_month p)), (''date'', JStr (wr_date p)),
      (''occurredAt'', json_option occurred_at), (''description'', JStr (wr_description p)), (''amount'', JStr (wr_amount p)),
      (''inputCurrency'', JStr (input_currency_of p sd)), (''toAmount'', json_option (stored_to_amount p)),
      (''toCurrency'', json_option (stored_to_currency p sd)), (''fromAccountId'', JStr (wa_id (sd_from_account sd))),
      (''toAccountId'', JStr (wa_id (sd_to_account sd))), (''fromCategoryId'', JStr (wc_id (sd_from_category sd))),
      (''toCategoryId'', JStr (wc_id (sd_to_category sd)))]"

definition ratio_json :: "string \<Rightarrow> string \<Rightarrow> json" where
  "ratio_json n d = JObj [(''numerator'', JStr n), (''denominator'', JStr d)]"

definition valuation_side_json :: "side_valuation \<Rightarrow> json" where
  "valuation_side_json v = JObj
     [(''amountNative'', JStr (amount_native v)), (''amountEur'', JStr (amount_eur v)),
      (''exchangeToEur'', ratio_json (exchange_to_eur_numerator v) (exchange_to_eur_denominator v)),
      (''exchangeToNative'', ratio_json (exchange_to_native_numerator v) (exchange_to_native_denominator v)),
      (''appliedRateDates'', JObj (map (\<lambda>(c, d). (c, json_option d)) (applied_rate_dates v))),
      (''stale'', JBool (stale v))]"

text \<open>\<open>BudgetCategorySnapshot\<close> as serde writes it.\<close>

definition category_json :: "budget_category \<Rightarrow> json" where
  "category_json c = JObj
     [(''categoryId'', JStr (bc_id c)), (''name'', JStr (bc_name c)), (''monthlyEur'', json_option (bc_monthly c)),
      (''expenseEur'', json_option (bc_expense c)), (''remainingEur'', json_option (bc_remaining c)),
      (''reallocationImpactEur'', json_option (bc_impact c)), (''carryoverEur'', json_option (bc_carryover c)),
      (''adjustmentEur'', json_option (bc_adjustment c)), (''availableEur'', json_option (bc_available c)),
      (''netSpendingEur'', json_option (bc_net_spending c)), (''correctionEur'', json_option (bc_correction c))]"

section \<open>Inserting the rows\<close>

definition date_glob :: "string \<Rightarrow> bool" where
  "date_glob d \<longleftrightarrow> length d = 10 \<and> month_glob (take 7 d) \<and> d ! 7 = CHR ''-'' \<and> list_all is_digit (drop 8 d)"

definition insert_transaction :: "db \<Rightarrow> transaction_row \<Rightarrow> db result" where
  "insert_transaction db t =
     (if list_ex (\<lambda>x. tx_id x = tx_id t) (transactions_table db) then Inl ''UNIQUE constraint failed: finance_transactions.id''
      else if \<not> date_glob (tx_date t) then Inl ''CHECK constraint failed: effective_date''
      else Inr (db\<lparr>transactions_table := transactions_table db @ [t]\<rparr>))"

definition insert_revision :: "db \<Rightarrow> revision_row \<Rightarrow> db result" where
  "insert_revision db r =
     (if list_ex (\<lambda>x. rev_transaction x = rev_transaction r \<and> rev_revision x = rev_revision r) (revisions_table db)
      then Inl ''UNIQUE constraint failed: finance_transaction_revisions''
      else Inr (db\<lparr>revisions_table := revisions_table db @ [r]\<rparr>))"

definition insert_valuation :: "db \<Rightarrow> valuation_row \<Rightarrow> db result" where
  "insert_valuation db v =
     (if list_ex (\<lambda>x. val_transaction x = val_transaction v \<and> val_side x = val_side v \<and> val_revision x = val_revision v)
        (valuations_table db)
      then Inl ''UNIQUE constraint failed: transaction_valuations''
      else Inr (db\<lparr>valuations_table := valuations_table db @ [v]\<rparr>))"

definition RATE_POLICY :: string where
  "RATE_POLICY = ''ecb-prior-rate-fx-uplift-1.02-half-even-v1''"

definition valuation_row_of ::
  "'d platform \<Rightarrow> string \<Rightarrow> string \<Rightarrow> string \<Rightarrow> nat \<Rightarrow> string \<Rightarrow> side_valuation \<Rightarrow> valuation_row" where
  "valuation_row_of P i side date revision currency v =
     \<lparr>val_transaction = i, val_side = side, val_revision = revision, val_native = Some (amount_native v),
      val_eur = Some (amount_eur v), val_currency = Some currency,
      val_exchange_to_eur = Some (exchange_to_eur_numerator v @ ''/'' @ exchange_to_eur_denominator v),
      val_exchange_to_native = Some (exchange_to_native_numerator v @ ''/'' @ exchange_to_native_denominator v),
      val_date = date, val_source = ''canonical-db-policy'', val_rate_set = Some RATE_POLICY,
      val_source_cells = write_json P (valuation_side_json v)\<rparr>"

definition insert_valuations ::
  "'d platform \<Rightarrow> write_request \<Rightarrow> sides \<Rightarrow> nat \<Rightarrow> transaction_valuation \<Rightarrow> db \<Rightarrow> db result" where
  "insert_valuations P p sd revision v db =
     and_then (insert_valuation db (valuation_row_of P (wr_transaction_id p) ''from'' (wr_date p) revision
       (wa_currency (sd_from_account sd)) (from_side v))) (\<lambda>d.
     insert_valuation d (valuation_row_of P (wr_transaction_id p) ''to'' (wr_date p) revision
       (wa_currency (sd_to_account sd)) (to_side v)))"

definition next_transaction_row :: "db \<Rightarrow> int" where
  "next_transaction_row db =
     (case last_max tx_source_row (filter (\<lambda>t. tx_sheet t = ''Transactions'') (transactions_table db)) of
        None \<Rightarrow> 0 | Some t \<Rightarrow> tx_source_row t) + 1"

definition transaction_row_of ::
  "'d platform \<Rightarrow> string \<Rightarrow> string \<Rightarrow> write_request \<Rightarrow> sides \<Rightarrow> string option \<Rightarrow> int \<Rightarrow> transaction_row" where
  "transaction_row_of P subject fingerprint p sd occurred_at source_row =
     \<lparr>tx_id = wr_transaction_id p, tx_kind = wr_kind p, tx_date = wr_date p, tx_amount = wr_amount p,
      tx_input_currency = Some (input_currency_of p sd),
      tx_from_category = Some (wc_id (sd_from_category sd)), tx_to_category = Some (wc_id (sd_to_category sd)),
      tx_from_account = Some (wa_id (sd_from_account sd)), tx_to_account = Some (wa_id (sd_to_account sd)),
      tx_description = wr_description p, tx_to_amount = stored_to_amount p, tx_to_currency = stored_to_currency p sd,
      tx_currency_override = (input_currency_of p sd \<noteq> default_currency (wr_kind p) (wa_currency (sd_from_account sd))
        (wa_currency (sd_to_account sd))),
      tx_to_amount_override = (wr_kind p = ''transfer'' \<and> wr_to_amount p \<noteq> None),
      tx_created_at = Some (now_text P), tx_created_by = Some subject, tx_revision = 1,
      tx_workbook = ''canonical-live'', tx_sheet = ''Transactions'', tx_source_row = source_row,
      tx_fingerprint = fingerprint, tx_source_json = write_json P (source_request p sd occurred_at),
      tx_occurred_at = occurred_at\<rparr>"

section \<open>Posting to the accounts\<close>

definition set_balance :: "string \<Rightarrow> string \<Rightarrow> string \<Rightarrow> db \<Rightarrow> db" where
  "set_balance i native eur db =
     db\<lparr>accounts_table := map (\<lambda>a. if acc_id a = i
       then a\<lparr>acc_native_balance := Some native, acc_eur_balance := Some eur, acc_revision := acc_revision a + 1\<rparr> else a)
       (accounts_table db)\<rparr>"

definition account_json :: "string \<Rightarrow> string \<Rightarrow> string \<Rightarrow> int \<Rightarrow> json" where
  "account_json i native eur revision = JObj [(''accountId'', JStr i), (''balanceNative'', JStr native),
     (''balanceEur'', JStr eur), (''ledgerRevision'', JInt revision)]"

text \<open>One account of the projection; \<open>combine\<close> adds the delta, or subtracts it when a transaction is deleted.\<close>

definition post_delta ::
  "'d platform \<Rightarrow> rate_observation list \<Rightarrow> (string \<Rightarrow> string \<Rightarrow> string result) \<Rightarrow> db \<times> json list
     \<Rightarrow> string \<times> string \<Rightarrow> (db \<times> json list) api" where
  "post_delta P observations combine = (\<lambda>(db, out) (i, delta).
     and_then (load_db_account db i) (\<lambda>a.
     if \<not> wa_is_real a \<or> \<not> wa_is_active a then Inr (db, out)
     else
       and_then (internal (fetch_one (account_of db i))) (\<lambda>row.
       and_then (ok_or (acc_native_balance row) (conflict ''A touched account has no canonical native balance.'')) (\<lambda>balance.
       and_then (internal (combine balance delta)) (\<lambda>native.
       and_then (map_err conflict (account_balance_eur native (wa_currency a) (today P) observations)) (\<lambda>eur.
       Inr (set_balance i native eur db, out @ [account_json i native eur (acc_revision row + 1)])))))))"

definition post_deltas ::
  "'d platform \<Rightarrow> rate_observation list \<Rightarrow> (string \<Rightarrow> string \<Rightarrow> string result) \<Rightarrow> db
     \<Rightarrow> (string \<times> string) list \<Rightarrow> (db \<times> json list) api" where
  "post_deltas P observations combine db deltas = fold_result (post_delta P observations combine) (db, []) deltas"

section \<open>Recording a transaction\<close>

definition revision_snapshot :: "write_request \<Rightarrow> sides \<Rightarrow> string option \<Rightarrow> string \<Rightarrow> transaction_valuation \<Rightarrow> json" where
  "revision_snapshot p sd occurred_at username v = JObj
     [(''transaction'', source_request p sd occurred_at), (''recordedByName'', JStr username),
      (''operationId'', JStr (wr_operation_id p)), (''valuationPolicy'', JStr RATE_POLICY),
      (''fromValuation'', valuation_side_json (from_side v)), (''toValuation'', valuation_side_json (to_side v))]"

definition create_response ::
  "write_request \<Rightarrow> transaction_valuation \<Rightarrow> json list \<Rightarrow> budget_category list \<Rightarrow> json" where
  "create_response p v accounts cats = JObj
     [(''recorded'', JBool True), (''operationId'', JStr (wr_operation_id p)), (''transactionId'', JStr (wr_transaction_id p)),
      (''kind'', JStr (wr_kind p)), (''month'', JStr (take 7 (wr_date p))),
      (''valuationStale'', JBool (stale (from_side v) \<or> stale (to_side v))), (''accounts'', JArr accounts),
      (''categories'', JArr (map category_json cats))]"

text \<open>The rows of the transaction itself.\<close>

definition record_rows ::
  "'d platform \<Rightarrow> string \<Rightarrow> string \<Rightarrow> string \<Rightarrow> write_request \<Rightarrow> sides \<Rightarrow> string option \<Rightarrow> transaction_valuation
     \<Rightarrow> db \<Rightarrow> db result" where
  "record_rows P subject username fingerprint p sd occurred_at v db =
     and_then (insert_transaction db (transaction_row_of P subject fingerprint p sd occurred_at (next_transaction_row db))) (\<lambda>d1.
     and_then (insert_revision d1 \<lparr>rev_transaction = wr_transaction_id p, rev_revision = 1,
       rev_operation = Some (wr_operation_id p), rev_snapshot = write_json P (revision_snapshot p sd occurred_at username v),
       rev_recorded_at = now_text P\<rparr>) (\<lambda>d2.
     insert_valuations P p sd 1 v d2))"

text \<open>The checks that come before the first write.\<close>

definition check_write ::
  "'d platform \<Rightarrow> write_env \<Rightarrow> write_request \<Rightarrow> db
     \<Rightarrow> (sides \<times> transaction_valuation \<times> projection \<times> string option) api" where
  "check_write P W p db =
     and_then (request_sides db p) (\<lambda>sd.
     and_then (check_currencies p sd) (\<lambda>_.
     and_then (request_valuation p sd (ecb_observations db)) (\<lambda>v.
     and_then (internal (project_transaction (request_effect p sd v))) (\<lambda>projected.
     and_then (map_err conflict (require_open P db (take 7 (wr_date p)))) (\<lambda>_.
     and_then (guard (transaction_of db (wr_transaction_id p) = None) (conflict ''transactionId already exists.'')) (\<lambda>_.
     and_then (resolve_transaction_timestamp P W (wr_date p) (wr_occurred_at p) (wr_date_only p)) (\<lambda>occurred_at.
     and_then (validate_db_correction P db p) (\<lambda>_.
     Inr (sd, v, projected, occurred_at)))))))))"

definition fresh_create ::
  "'d platform \<Rightarrow> write_env \<Rightarrow> string \<Rightarrow> string \<Rightarrow> string \<Rightarrow> write_request \<Rightarrow> db \<Rightarrow> (json \<times> db) api option" where
  "fresh_create P W subject username fingerprint p db =
     returned (Some (and_then (check_write P W p db) (\<lambda>(sd, v, projected, occurred_at).
       and_then (internal (record_rows P subject username fingerprint p sd occurred_at v db)) (\<lambda>d1.
       and_then (post_deltas P (ecb_observations db) add_decimal_text d1 (account_deltas projected)) (\<lambda>(d2, accounts).
       and_then (map_err bad_request (receipt d2 (wr_transaction_id p) (wr_income_treatment p) (wr_expected_month p))) (\<lambda>d3.
       Inr (v, accounts, d3))))))) (\<lambda>(v, accounts, d3).
     returned (sync_api P d3 (Some (wr_operation_id p))) (\<lambda>d4.
     returned (map_option internal (budget_categories P d4 (take 7 (wr_date p)))) (\<lambda>cats.
     let response = create_response p v accounts cats in
     Some (Inr (response, set_response (wr_operation_id p) (write_json P response) d4)))))"

text \<open>A repeated operation of the same actor and content returns the stored response.\<close>

definition replay_create :: "'d platform \<Rightarrow> string \<Rightarrow> string \<Rightarrow> operation_row \<Rightarrow> db \<Rightarrow> (json \<times> db) api" where
  "replay_create P subject fingerprint o' db =
     and_then (guard (op_actor o' = subject \<and> op_fingerprint o' = fingerprint
         \<and> list_ex (\<lambda>r. rev_operation r = Some (op_id o')) (revisions_table db))
       (conflict ''operationId was already used for a different finance operation.'')) (\<lambda>_.
     and_then (stored_response P o') (\<lambda>r. Inr (r, db)))"

definition create_db_transaction ::
  "'d platform \<Rightarrow> write_env \<Rightarrow> (string \<times> string) api \<Rightarrow> write_request \<Rightarrow> db \<Rightarrow> (json \<times> db) api option" where
  "create_db_transaction P W session payload db =
     returned (Some (and_then session (\<lambda>(subject, username).
       and_then (guard (writes_enabled W) (unavailable ''Database transaction writes are not enabled.'')) (\<lambda>_.
       and_then (normalize_db_transaction_write UNALLOCATED payload) (\<lambda>p.
       and_then (guard (is_uuid_v7 (valid_uuid W) (wr_operation_id p) \<and> is_uuid_v7 (valid_uuid W) (wr_transaction_id p))
         (bad_request ''operationId and transactionId must be UUIDv7 values.'')) (\<lambda>_.
       and_then (internal (initialize P db)) (\<lambda>d. Inr (subject, username, p, d))))))))
     (\<lambda>(subject, username, p, d).
       let fingerprint = write_fingerprint P p in
       case find_operation d (wr_operation_id p) of
         Some o' \<Rightarrow> Some (replay_create P subject fingerprint o' d)
       | None \<Rightarrow> fresh_create P W subject username fingerprint p
           (d\<lparr>operations_table := operations_table d @ [\<lparr>op_id = wr_operation_id p, op_actor = subject,
             op_fingerprint = fingerprint, op_response = ''{}''\<rparr>]\<rparr>))"

end
