(* ===== verification/TransactionChanges.thy ===== *)
theory TransactionChanges
  imports TransactionWrites
begin

text \<open>
  Editing and deleting a recorded transaction (\<open>edit_db_transaction\<close> and \<open>delete_db_transaction\<close> in
  \<open>server.rs\<close>). Both are optimistic: the request carries the revision of the transaction and of every
  real account it touches, and is refused when one of them has changed since.
\<close>

section \<open>The stored valuation\<close>

definition json_ratio :: "json \<Rightarrow> string \<Rightarrow> string \<times> string" where
  "json_ratio audit name =
     (case json_field audit name of
        None \<Rightarrow> (''1'', ''1'')
      | Some v \<Rightarrow> (case (json_field v ''numerator'', json_field v ''denominator'') of
          (Some (JStr n), Some (JStr d)) \<Rightarrow> (n, d) | _ \<Rightarrow> (''1'', ''1'')))"

definition json_dates :: "json option \<Rightarrow> (string, string option) btree" where
  "json_dates j = (case j of
     Some (JObj kvs) \<Rightarrow> bt_collect (map (\<lambda>(c, d). (c, case d of JStr t \<Rightarrow> Some t | _ \<Rightarrow> None)) kvs)
   | _ \<Rightarrow> [])"

definition incomplete_valuation :: api_error where
  "incomplete_valuation = conflict ''The saved transaction valuation is incomplete.''"

definition load_stored_side_valuation :: "'d platform \<Rightarrow> db \<Rightarrow> string \<Rightarrow> string \<Rightarrow> side_valuation api" where
  "load_stored_side_valuation P db i side =
     and_then (ok_or (latest_valuation db i side) (conflict ''The transaction has no saved valuation to revise.'')) (\<lambda>v.
     and_then (internal (read_json P (val_source_cells v))) (\<lambda>audit.
     and_then (ok_or (val_native v) incomplete_valuation) (\<lambda>native.
     and_then (ok_or (val_eur v) incomplete_valuation) (\<lambda>eur.
     let (en, ed) = json_ratio audit ''exchangeToEur''; (nn, nd) = json_ratio audit ''exchangeToNative'' in
     Inr \<lparr>amount_native = native, amount_eur = eur, exchange_to_eur_numerator = en, exchange_to_eur_denominator = ed,
       exchange_to_native_numerator = nn, exchange_to_native_denominator = nd,
       applied_rate_dates = json_dates (json_field audit ''appliedRateDates''),
       stale = (json_field audit ''stale'' = Some (JBool True))\<rparr>))))"

definition stored_valuation :: "'d platform \<Rightarrow> db \<Rightarrow> string \<Rightarrow> transaction_valuation api" where
  "stored_valuation P db i =
     and_then (load_stored_side_valuation P db i ''from'') (\<lambda>f.
     and_then (load_stored_side_valuation P db i ''to'') (\<lambda>t. Inr \<lparr>from_side = f, to_side = t\<rparr>))"

section \<open>Expected revisions\<close>

text \<open>The expected account revisions of a request, trimmed, checked and sorted by account.\<close>

definition expected_message :: string where
  "expected_message = ''Expected account revisions must have unique account IDs and nonnegative values.''"

definition check_expected :: "(string \<times> int) list \<Rightarrow> (string \<times> int) list api" where
  "check_expected expected =
     and_then (fold_result (\<lambda>seen (i, r).
         let i' = trim i in
         if i' = [] \<or> 256 < length i' \<or> r < 0 \<or> i' \<in> fst ` set seen then Inl (bad_request expected_message)
         else Inr (seen @ [(i', r)])) [] expected) (\<lambda>seen. Inr (sort_key fst seen))"

definition expected_json :: "(string \<times> int) list \<Rightarrow> json" where
  "expected_json expected = JArr (map (\<lambda>(i, r). JObj [(''accountId'', JStr i), (''revision'', JInt r)]) expected)"

text \<open>Every involved real account must be named with its current revision, and no other.\<close>

definition check_revisions :: "string \<Rightarrow> string \<Rightarrow> db \<Rightarrow> write_account list \<Rightarrow> (string \<times> int) list \<Rightarrow> unit api" where
  "check_revisions missing changed db accounts expected =
     (let involved = remdups (map wa_id (filter wa_is_real accounts)) in
      if list_ex (\<lambda>(i, r). i \<notin> set involved) expected \<or> list_ex (\<lambda>i. i \<notin> fst ` set expected) involved
      then Inl (bad_request missing)
      else and_then (map_result (\<lambda>i.
          and_then (internal (fetch_one (account_of db i))) (\<lambda>a.
          guard (Some (acc_revision a) = map_of expected i) (conflict changed))) involved) (\<lambda>_. Inr ()))"

definition KINDS :: "string list" where
  "KINDS = [''expense'', ''income'', ''transfer'', ''reallocate'']"

text \<open>A delta of zero does not touch its account.\<close>

definition post_changes ::
  "'d platform \<Rightarrow> rate_observation list \<Rightarrow> (string \<Rightarrow> string \<Rightarrow> string result) \<Rightarrow> db
     \<Rightarrow> (string \<times> string) list \<Rightarrow> (db \<times> json list) api" where
  "post_changes P observations combine db deltas =
     post_deltas P observations combine db (filter (\<lambda>(i, delta). delta \<noteq> ''0'') deltas)"

text \<open>The effect that a stored transaction has had.\<close>

definition row_effect :: "transaction_row \<Rightarrow> transaction_valuation \<Rightarrow> transaction_effect" where
  "row_effect t v =
     \<lparr>from_account_id = tx_from_account t, to_account_id = tx_to_account t, from_category_id = tx_from_category t,
      to_category_id = tx_to_category t, effect_kind = tx_kind t, effect_amount = tx_amount t, effect_valuation = v\<rparr>"

section \<open>Deleting a transaction\<close>

record delete_request =
  dr_operation_id :: string
  dr_transaction_id :: string
  dr_expected_revision :: int
  dr_expected_accounts :: "(string \<times> int) list"

definition delete_fingerprint :: "'d platform \<Rightarrow> delete_request \<Rightarrow> string" where
  "delete_fingerprint P q = sha256_hex P (write_json P (JObj
     [(''operationId'', JStr (dr_operation_id q)), (''transactionId'', JStr (dr_transaction_id q)),
      (''expectedRevision'', JInt (dr_expected_revision q)),
      (''expectedAccountRevisions'', expected_json (dr_expected_accounts q))]))"

definition revision_message :: string where
  "revision_message = ''operationId and transactionId must be UUIDv7 values and valid revisions are required.''"

definition normalize_delete :: "write_env \<Rightarrow> delete_request \<Rightarrow> delete_request api" where
  "normalize_delete W q0 =
     (let q = q0\<lparr>dr_operation_id := trim (dr_operation_id q0), dr_transaction_id := trim (dr_transaction_id q0)\<rparr> in
      and_then (guard (is_uuid_v7 (valid_uuid W) (dr_operation_id q) \<and> is_uuid_v7 (valid_uuid W) (dr_transaction_id q)
        \<and> 1 \<le> dr_expected_revision q \<and> length (dr_expected_accounts q) \<le> 100) (bad_request revision_message)) (\<lambda>_.
      and_then (check_expected (dr_expected_accounts q)) (\<lambda>expected.
      Inr (q\<lparr>dr_expected_accounts := expected\<rparr>))))"

definition dependent_audit :: "db \<Rightarrow> string \<Rightarrow> bool" where
  "dependent_audit db i \<longleftrightarrow> list_ex (\<lambda>c. cor_original c = i) (corrections_table db)
     \<or> list_ex (\<lambda>r. ri_transaction r = Some i) (batch_items_table db)"

definition check_delete :: "'d platform \<Rightarrow> db \<Rightarrow> delete_request \<Rightarrow> transaction_row api" where
  "check_delete P db q =
     and_then (ok_or (transaction_of db (dr_transaction_id q)) (not_found ''The transaction to delete was not found.'')) (\<lambda>t.
     and_then (guard (tx_workbook t = ''canonical-live'')
       (conflict ''Imported source transactions cannot be deleted through this route.'')) (\<lambda>_.
     and_then (guard (int (tx_revision t) = dr_expected_revision q)
       (conflict ''The transaction changed after it was loaded. Refresh and retry the deletion.'')) (\<lambda>_.
     and_then (guard (tx_kind t \<in> set KINDS) (conflict ''This transaction kind cannot be deleted.'')) (\<lambda>_.
     and_then (guard (\<not> dependent_audit db (dr_transaction_id q))
       (conflict (''This transaction is referenced by a reconciliation or '' @
         ''category correction and cannot be deleted.''))) (\<lambda>_.
     and_then (map_err conflict (require_open P db (take 7 (tx_date t)))) (\<lambda>_.
     and_then (guard (\<not> month_closed db (take 7 (tx_date t)))
       (conflict ''Transactions in a closed budget month cannot be deleted.'')) (\<lambda>_. Inr t)))))))"

text \<open>The four ids of a transaction that this server has written are never \<open>NULL\<close>.\<close>

definition row_accounts :: "db \<Rightarrow> transaction_row \<Rightarrow> (write_account \<times> write_account) api" where
  "row_accounts db t =
     and_then (ok_or (tx_from_account t) internal_error) (\<lambda>fa.
     and_then (ok_or (tx_to_account t) internal_error) (\<lambda>ta.
     and_then (ok_or (tx_from_category t) internal_error) (\<lambda>_.
     and_then (ok_or (tx_to_category t) internal_error) (\<lambda>_.
     and_then (load_db_account db fa) (\<lambda>a.
     and_then (load_db_account db ta) (\<lambda>b. Inr (a, b)))))))"

definition valuation_audit :: "valuation_row \<Rightarrow> json" where
  "valuation_audit v = JObj
     [(''side'', JStr (val_side v)), (''accountCurrency'', json_option (val_currency v)),
      (''exchangeToEur'', json_option (val_exchange_to_eur v)), (''exchangeToNative'', json_option (val_exchange_to_native v)),
      (''amountNative'', json_option (val_native v)), (''amountEur'', json_option (val_eur v)),
      (''effectiveDate'', JStr (val_date v)), (''valuationSource'', JStr (val_source v)),
      (''rateSetVersion'', json_option (val_rate_set v)), (''revision'', JInt (int (val_revision v))),
      (''sourceCells'', JStr (val_source_cells v))]"

text \<open>What is kept of a deleted transaction: its row with the audit of its revisions and valuations.\<close>

definition deleted_snapshot :: "db \<Rightarrow> string \<Rightarrow> delete_request \<Rightarrow> transaction_row \<Rightarrow> json" where
  "deleted_snapshot db subject q t = JObj
     [(''id'', JStr (dr_transaction_id q)), (''kind'', JStr (tx_kind t)), (''effectiveDate'', JStr (tx_date t)),
      (''description'', JStr (tx_description t)), (''amount'', JStr (tx_amount t)),
      (''inputCurrency'', json_option (tx_input_currency t)), (''fromCategoryId'', json_option (tx_from_category t)),
      (''toCategoryId'', json_option (tx_to_category t)), (''fromAccountId'', json_option (tx_from_account t)),
      (''toAccountId'', json_option (tx_to_account t)), (''sourceSheet'', JStr (tx_sheet t)),
      (''originalRowFingerprint'', JStr (tx_fingerprint t)), (''sourceRow'', JInt (tx_source_row t)),
      (''sourceRowJson'', JStr (tx_source_json t)), (''revision'', JInt (int (tx_revision t))),
      (''revisionAudit'', JArr (map (\<lambda>r. JStr (rev_snapshot r))
        (sort_key rev_revision (filter (\<lambda>r. rev_transaction r = dr_transaction_id q) (revisions_table db))))),
      (''valuationAudit'', JArr (map valuation_audit
        (sort_key (\<lambda>v. (val_side v, val_revision v))
          (filter (\<lambda>v. val_transaction v = dr_transaction_id q) (valuations_table db))))),
      (''deletedBy'', JStr subject), (''operationId'', JStr (dr_operation_id q))]"

text \<open>Revisions and valuations are deleted with their transaction (\<open>ON DELETE CASCADE\<close>).\<close>

definition delete_transaction :: "string \<Rightarrow> db \<Rightarrow> db" where
  "delete_transaction i db =
     db\<lparr>transactions_table := filter (\<lambda>t. tx_id t \<noteq> i) (transactions_table db),
        revisions_table := filter (\<lambda>r. rev_transaction r \<noteq> i) (revisions_table db),
        valuations_table := filter (\<lambda>v. val_transaction v \<noteq> i) (valuations_table db)\<rparr>"

definition delete_response :: "'d platform \<Rightarrow> delete_request \<Rightarrow> json list \<Rightarrow> budget_category list \<Rightarrow> json \<Rightarrow> json" where
  "delete_response P q accounts cats snapshot = JObj
     [(''deleted'', JBool True), (''operationId'', JStr (dr_operation_id q)), (''transactionId'', JStr (dr_transaction_id q)),
      (''recordedAt'', JStr (now_text P)), (''accounts'', JArr accounts), (''categories'', JArr (map category_json cats)),
      (''deletedTransaction'', snapshot)]"

definition fresh_delete ::
  "'d platform \<Rightarrow> string \<Rightarrow> delete_request \<Rightarrow> db \<Rightarrow> (json \<times> db) api option" where
  "fresh_delete P subject q db =
     returned (Some (and_then (check_delete P db q) (\<lambda>t.
       and_then (row_accounts db t) (\<lambda>(a, b).
       and_then (stored_valuation P db (dr_transaction_id q)) (\<lambda>v.
       and_then (internal (project_transaction (row_effect t v))) (\<lambda>projected.
       and_then (check_revisions ''Provide the current ledger revision for every real account affected by this deletion.''
         ''An account changed after it was loaded. Refresh and retry the deletion.'' db [a, b] (dr_expected_accounts q)) (\<lambda>_.
       and_then (post_changes P (ecb_observations db) subtract_decimal_text db (account_deltas projected)) (\<lambda>(d1, accounts).
       Inr (t, accounts, delete_transaction (dr_transaction_id q) d1))))))))) (\<lambda>(t, accounts, d1).
     returned (sync_api P d1 (Some (dr_operation_id q))) (\<lambda>d2.
     returned (map_option internal (budget_categories P d2 (take 7 (tx_date t)))) (\<lambda>cats.
     let response = delete_response P q accounts cats (deleted_snapshot db subject q t) in
     Some (Inr (response, set_response (dr_operation_id q) (write_json P response) d2)))))"

definition replay_delete :: "'d platform \<Rightarrow> string \<Rightarrow> string \<Rightarrow> operation_row \<Rightarrow> db \<Rightarrow> (json \<times> db) api" where
  "replay_delete P subject fingerprint o' db =
     and_then (stored_response P o') (\<lambda>r.
     and_then (guard (op_actor o' = subject \<and> op_fingerprint o' = fingerprint \<and> json_field r ''deleted'' = Some (JBool True))
       (conflict ''operationId was already used for a different finance operation.'')) (\<lambda>_. Inr (r, db)))"

definition delete_db_transaction ::
  "'d platform \<Rightarrow> write_env \<Rightarrow> string api \<Rightarrow> delete_request \<Rightarrow> db \<Rightarrow> (json \<times> db) api option" where
  "delete_db_transaction P W actor payload db =
     returned (Some (and_then actor (\<lambda>subject.
       and_then (guard (writes_enabled W) (unavailable ''Database transaction writes are not enabled.'')) (\<lambda>_.
       and_then (normalize_delete W payload) (\<lambda>q.
       and_then (internal (initialize P db)) (\<lambda>d. Inr (subject, q, d)))))))
     (\<lambda>(subject, q, d).
       let fingerprint = delete_fingerprint P q in
       case find_operation d (dr_operation_id q) of
         Some o' \<Rightarrow> Some (replay_delete P subject fingerprint o' d)
       | None \<Rightarrow> fresh_delete P subject q
           (d\<lparr>operations_table := operations_table d @ [\<lparr>op_id = dr_operation_id q, op_actor = subject,
             op_fingerprint = fingerprint, op_response = ''{}''\<rparr>]\<rparr>))"

section \<open>Editing a transaction\<close>

record edit_request =
  er_transaction :: write_request
  er_expected_revision :: int
  er_expected_accounts :: "(string \<times> int) list"

definition normalize_edit :: "write_env \<Rightarrow> edit_request \<Rightarrow> edit_request api" where
  "normalize_edit W q =
     and_then (normalize_db_transaction_write UNALLOCATED (er_transaction q)) (\<lambda>p.
     and_then (guard (is_uuid_v7 (valid_uuid W) (wr_operation_id p) \<and> is_uuid_v7 (valid_uuid W) (wr_transaction_id p)
       \<and> 1 \<le> er_expected_revision q \<and> length (er_expected_accounts q) \<le> 100) (bad_request revision_message)) (\<lambda>_.
     and_then (check_expected (er_expected_accounts q)) (\<lambda>expected.
     Inr (q\<lparr>er_transaction := p, er_expected_accounts := expected\<rparr>))))"

text \<open>\<open>serde(flatten)\<close> writes the fields of the transaction first.\<close>

definition edit_fingerprint :: "'d platform \<Rightarrow> edit_request \<Rightarrow> string" where
  "edit_fingerprint P q = sha256_hex P (write_json P (JObj (request_json (er_transaction q) @
     [(''expectedRevision'', JInt (er_expected_revision q)),
      (''expectedAccountRevisions'', expected_json (er_expected_accounts q))])))"

definition check_edit :: "'d platform \<Rightarrow> db \<Rightarrow> edit_request \<Rightarrow> transaction_row api" where
  "check_edit P db q =
     (let p = er_transaction q in
     and_then (ok_or (transaction_of db (wr_transaction_id p)) (not_found ''The transaction to edit was not found.'')) (\<lambda>t.
     and_then (guard (tx_workbook t = ''canonical-live'')
       (conflict ''Imported source transactions are not editable through this route.'')) (\<lambda>_.
     and_then (guard (int (tx_revision t) = er_expected_revision q)
       (conflict ''The transaction changed after it was loaded. Refresh and retry the edit.'')) (\<lambda>_.
     and_then (guard (tx_kind t \<in> set KINDS) (conflict ''This transaction kind cannot be edited.'')) (\<lambda>_.
     and_then (guard (take 7 (tx_date t) = take 7 (wr_date p)) (conflict ''An edit must stay in its original month.'')) (\<lambda>_.
     and_then (map_err conflict (require_open P db (take 7 (tx_date t)))) (\<lambda>_.
     and_then (guard (\<not> month_closed db (take 7 (tx_date t)))
       (conflict (''Closed-month transactions cannot be edited. Use the '' @ ''category-only correction operation.''))) (\<lambda>_.
     and_then (guard (\<not> list_ex (\<lambda>c. cor_original c = wr_transaction_id p) (corrections_table db))
       (conflict ''A transaction with a recorded category correction cannot be edited.'')) (\<lambda>_. Inr t)))))))))"

text \<open>The stored valuation is kept when nothing it was computed from has changed.\<close>

definition inputs_unchanged ::
  "write_request \<Rightarrow> sides \<Rightarrow> transaction_row \<Rightarrow> write_account \<Rightarrow> write_account \<Rightarrow> bool" where
  "inputs_unchanged p sd t a b \<longleftrightarrow>
     tx_amount t = wr_amount p \<and> tx_date t = wr_date p
     \<and> unwrap_or (tx_input_currency t) (default_currency (tx_kind t) (wa_currency a) (wa_currency b)) = input_currency_of p sd
     \<and> wa_currency a = wa_currency (sd_from_account sd) \<and> wa_currency b = wa_currency (sd_to_account sd)
     \<and> (if tx_kind t = ''transfer'' then unwrap_or (tx_to_amount t) (tx_amount t) else tx_amount t) = valuation_to_amount p"

text \<open>\<open>difference_maps\<close>: the entries where two maps differ, an absent entry counting as zero.\<close>

definition difference_maps ::
  "(string, string) btree \<Rightarrow> (string, string) btree \<Rightarrow> (string, string) btree result" where
  "difference_maps newer older =
     fold_result (\<lambda>out key.
       and_then (subtract_decimal_text (unwrap_or (bt_get newer key) ''0'') (unwrap_or (bt_get older key) ''0'')) (\<lambda>d.
       Inr (if d \<noteq> ''0'' then bt_insert key d out else out))) [] (remdups (map fst newer @ map fst older))"

definition edited_row ::
  "'d platform \<Rightarrow> write_request \<Rightarrow> sides \<Rightarrow> string option \<Rightarrow> nat \<Rightarrow> transaction_row \<Rightarrow> transaction_row" where
  "edited_row P p sd occurred_at revision t =
     t\<lparr>tx_kind := wr_kind p, tx_date := wr_date p, tx_description := wr_description p, tx_amount := wr_amount p,
       tx_input_currency := Some (input_currency_of p sd), tx_to_amount := stored_to_amount p,
       tx_to_currency := stored_to_currency p sd, tx_from_category := Some (wc_id (sd_from_category sd)),
       tx_to_category := Some (wc_id (sd_to_category sd)), tx_from_account := Some (wa_id (sd_from_account sd)),
       tx_to_account := Some (wa_id (sd_to_account sd)),
       tx_currency_override := (input_currency_of p sd \<noteq> default_currency (wr_kind p) (wa_currency (sd_from_account sd))
         (wa_currency (sd_to_account sd))),
       tx_to_amount_override := (wr_kind p = ''transfer'' \<and> wr_to_amount p \<noteq> None),
       tx_revision := revision, tx_source_json := write_json P (source_request p sd occurred_at),
       tx_occurred_at := occurred_at\<rparr>"

definition update_transaction :: "string \<Rightarrow> (transaction_row \<Rightarrow> transaction_row) \<Rightarrow> db \<Rightarrow> db result" where
  "update_transaction i f db =
     (if list_ex (\<lambda>t. tx_id t = i \<and> \<not> date_glob (tx_date (f t))) (transactions_table db)
      then Inl ''CHECK constraint failed: effective_date''
      else Inr (db\<lparr>transactions_table := map (\<lambda>t. if tx_id t = i then f t else t) (transactions_table db)\<rparr>))"

definition edit_occurred_at ::
  "'d platform \<Rightarrow> write_env \<Rightarrow> write_request \<Rightarrow> transaction_row \<Rightarrow> string option api" where
  "edit_occurred_at P W p t =
     (if \<not> wr_date_only p \<and> wr_occurred_at p = None \<and> tx_date t = wr_date p then Inr (tx_occurred_at t)
      else resolve_transaction_timestamp P W (wr_date p) (wr_occurred_at p) (wr_date_only p))"

text \<open>What an edit computes before its first write: the valuation, and the change of every account.\<close>

definition plan_edit ::
  "'d platform \<Rightarrow> edit_request \<Rightarrow> transaction_row \<Rightarrow> db
     \<Rightarrow> (sides \<times> transaction_valuation \<times> bool \<times> (string \<times> string) list) api" where
  "plan_edit P q t db =
     (let p = er_transaction q in
     and_then (request_sides db p) (\<lambda>sd.
     and_then (check_currencies p sd) (\<lambda>_.
     and_then (row_accounts db t) (\<lambda>(a, b).
     and_then (stored_valuation P db (wr_transaction_id p)) (\<lambda>old.
     and_then (internal (project_transaction (row_effect t old))) (\<lambda>before.
     let unchanged = inputs_unchanged p sd t a b in
     and_then (if unchanged then Inr old else request_valuation p sd (ecb_observations db)) (\<lambda>v.
     and_then (internal (project_transaction (request_effect p sd v))) (\<lambda>after.
     and_then (internal (difference_maps (account_deltas after) (account_deltas before))) (\<lambda>deltas.
     and_then (check_revisions ''Provide the current ledger revision for every real account affected by this edit.''
       ''An account changed after it was loaded. Refresh and retry the edit.'' db
       [a, b, sd_from_account sd, sd_to_account sd] (er_expected_accounts q)) (\<lambda>_.
     Inr (sd, v, unchanged, deltas)))))))))))"

definition edit_snapshot ::
  "edit_request \<Rightarrow> sides \<Rightarrow> string option \<Rightarrow> string \<Rightarrow> string \<Rightarrow> nat \<Rightarrow> bool \<Rightarrow> transaction_valuation \<Rightarrow> json" where
  "edit_snapshot q sd occurred_at subject username revision unchanged v =
     (let p = er_transaction q in JObj
     [(''operationId'', JStr (wr_operation_id p)), (''recordedBy'', JStr subject), (''recordedByName'', JStr username),
      (''transactionId'', JStr (wr_transaction_id p)), (''previousRevision'', JInt (int revision - 1)),
      (''revision'', JInt (int revision)), (''request'', source_request p sd occurred_at),
      (''valuationPreserved'', JBool unchanged), (''fromValuation'', valuation_side_json (from_side v)),
      (''toValuation'', valuation_side_json (to_side v)),
      (''expectedAccountRevisions'', expected_json (er_expected_accounts q))])"

definition edit_response ::
  "write_request \<Rightarrow> nat \<Rightarrow> transaction_valuation \<Rightarrow> json list \<Rightarrow> budget_category list \<Rightarrow> json" where
  "edit_response p revision v accounts cats = JObj
     [(''updated'', JBool True), (''operationId'', JStr (wr_operation_id p)), (''transactionId'', JStr (wr_transaction_id p)),
      (''revision'', JInt (int revision)), (''valuationStale'', JBool (stale (from_side v) \<or> stale (to_side v))),
      (''accounts'', JArr accounts), (''categories'', JArr (map category_json cats))]"

text \<open>The writes of an edit up to the receipt.\<close>

definition edit_rows ::
  "'d platform \<Rightarrow> write_env \<Rightarrow> edit_request \<Rightarrow> transaction_row \<Rightarrow> sides \<Rightarrow> transaction_valuation \<Rightarrow> bool
     \<Rightarrow> (string \<times> string) list \<Rightarrow> db \<Rightarrow> (string option \<times> json list \<times> db) api" where
  "edit_rows P W q t sd v unchanged deltas db =
     (let p = er_transaction q; revision = Suc (tx_revision t) in
     and_then (edit_occurred_at P W p t) (\<lambda>occurred_at.
     and_then (validate_db_correction P db p) (\<lambda>_.
     and_then (internal (update_transaction (wr_transaction_id p) (edited_row P p sd occurred_at revision) db)) (\<lambda>d1.
     and_then (internal (if unchanged then Inr d1 else insert_valuations P p sd revision v d1)) (\<lambda>d2.
     and_then (post_changes P (ecb_observations db) add_decimal_text d2 deltas) (\<lambda>(d3, accounts).
     and_then (map_err bad_request (receipt d3 (wr_transaction_id p) (wr_income_treatment p) (wr_expected_month p))) (\<lambda>d4.
     Inr (occurred_at, accounts, d4))))))))"

definition fresh_edit ::
  "'d platform \<Rightarrow> write_env \<Rightarrow> string \<Rightarrow> string \<Rightarrow> edit_request \<Rightarrow> db \<Rightarrow> (json \<times> db) api option" where
  "fresh_edit P W subject username q db =
     (let p = er_transaction q in
     returned (Some (and_then (check_edit P db q) (\<lambda>t.
       and_then (plan_edit P q t db) (\<lambda>(sd, v, unchanged, deltas).
       and_then (edit_rows P W q t sd v unchanged deltas db) (\<lambda>(occurred_at, accounts, d1).
       Inr (t, sd, v, unchanged, occurred_at, accounts, d1)))))) (\<lambda>(t, sd, v, unchanged, occurred_at, accounts, d1).
     returned (sync_api P d1 (Some (wr_operation_id p))) (\<lambda>d2.
     returned (map_option internal (budget_categories P d2 (take 7 (tx_date t)))) (\<lambda>cats.
     let revision = Suc (tx_revision t) in
     returned (Some (internal (insert_revision d2 \<lparr>rev_transaction = wr_transaction_id p, rev_revision = revision,
       rev_operation = Some (wr_operation_id p),
       rev_snapshot = write_json P (edit_snapshot q sd occurred_at subject username revision unchanged v),
       rev_recorded_at = now_text P\<rparr>))) (\<lambda>d3.
     let response = edit_response p revision v accounts cats in
     Some (Inr (response, set_response (wr_operation_id p) (write_json P response) d3)))))))"

definition replay_edit ::
  "'d platform \<Rightarrow> string \<Rightarrow> string \<Rightarrow> edit_request \<Rightarrow> operation_row \<Rightarrow> db \<Rightarrow> (json \<times> db) api" where
  "replay_edit P subject fingerprint q o' db =
     and_then (guard (op_actor o' = subject \<and> op_fingerprint o' = fingerprint
         \<and> map_option rev_transaction (first_row (filter (\<lambda>r. rev_operation r = Some (op_id o')) (revisions_table db)))
           = Some (wr_transaction_id (er_transaction q)))
       (conflict ''operationId was already used for a different finance operation.'')) (\<lambda>_.
     and_then (stored_response P o') (\<lambda>r. Inr (r, db)))"

definition edit_db_transaction ::
  "'d platform \<Rightarrow> write_env \<Rightarrow> (string \<times> string) api \<Rightarrow> edit_request \<Rightarrow> db \<Rightarrow> (json \<times> db) api option" where
  "edit_db_transaction P W session payload db =
     returned (Some (and_then session (\<lambda>(subject, username).
       and_then (guard (writes_enabled W) (unavailable ''Database transaction writes are not enabled.'')) (\<lambda>_.
       and_then (normalize_edit W payload) (\<lambda>q.
       and_then (internal (initialize P db)) (\<lambda>d. Inr (subject, username, q, d)))))))
     (\<lambda>(subject, username, q, d).
       let fingerprint = edit_fingerprint P q; i = wr_operation_id (er_transaction q) in
       case find_operation d i of
         Some o' \<Rightarrow> Some (replay_edit P subject fingerprint q o' d)
       | None \<Rightarrow> fresh_edit P W subject username q
           (d\<lparr>operations_table := operations_table d @ [\<lparr>op_id = i, op_actor = subject,
             op_fingerprint = fingerprint, op_response = ''{}''\<rparr>]\<rparr>))"

end
