(* ===== verification/Postings.thy ===== *)
theory Postings
  imports TransactionChanges
begin

text \<open>
  The contract of the transaction handlers: what a posting does to an account (locale \<open>posting\<close>, once
  for adding and once for subtracting), what the receipt and the ledger leave alone (\<open>keeps_books\<close>), and
  what a successful handler has checked and written (the rules \<open>..._E\<close>).
\<close>

section \<open>What a posting does to the accounts\<close>

text \<open>
  An account after a posting: its balance has moved by the change that is meant for it and its
  revision has advanced; an account that is not named, not real or not active is the same row.
\<close>

definition account_posted :: "(string \<Rightarrow> rat) \<Rightarrow> string set \<Rightarrow> account_row \<Rightarrow> account_row \<Rightarrow> bool" where
  "account_posted change touched a a' \<longleftrightarrow>
     (if acc_is_real a \<and> acc_is_active a \<and> acc_id a \<in> touched
      then (\<exists>balance t e. acc_native_balance a = Some balance \<and> canonical_text t
          \<and> text_value t = text_value balance + change (acc_id a)
          \<and> a' = a\<lparr>acc_native_balance := Some t, acc_eur_balance := Some e, acc_revision := acc_revision a + 1\<rparr>)
      else a' = a)"

definition accounts_posted :: "(string \<Rightarrow> rat) \<Rightarrow> string set \<Rightarrow> db \<Rightarrow> db \<Rightarrow> bool" where
  "accounts_posted change touched db db' \<longleftrightarrow>
     db' = db\<lparr>accounts_table := accounts_table db'\<rparr>
     \<and> list_all2 (account_posted change touched) (accounts_table db) (accounts_table db')"

lemma account_posted_key: "account_posted c k a a' \<Longrightarrow> acc_id a' = acc_id a \<and> acc_is_real a' = acc_is_real a
    \<and> acc_is_active a' = acc_is_active a"
  by (auto simp: account_posted_def split: if_splits)

lemma account_posted_trans:
  assumes "account_posted c {i} a a1" "account_posted c k a1 a2" "i \<notin> k"
  shows "account_posted c (insert i k) a a2"
proof (cases "acc_id a = i")
  case True
  with account_posted_key [OF assms(1)] assms(2,3) have "a2 = a1" by (auto simp: account_posted_def split: if_splits)
  with True assms(1) show ?thesis by (auto simp: account_posted_def)
next
  case False
  with assms(1) have "a1 = a" by (simp add: account_posted_def)
  with False assms(2) show ?thesis by (auto simp: account_posted_def)
qed

lemma accounts_posted_refl: "accounts_posted c {} db db"
  by (simp add: accounts_posted_def account_posted_def list_all2_refl)

lemma accounts_posted_trans:
  assumes "accounts_posted c {i} db db1" "accounts_posted c k db1 db2" "i \<notin> k"
  shows "accounts_posted c (insert i k) db db2"
proof -
  from assms have "list_all2 (account_posted c (insert i k)) (accounts_table db) (accounts_table db2)"
    using list_all2_trans [of "account_posted c {i}" "account_posted c k" "account_posted c (insert i k)"]
      account_posted_trans unfolding accounts_posted_def by blast
  moreover have "db2 = db\<lparr>accounts_table := accounts_table db2\<rparr>"
    using assms(1,2) unfolding accounts_posted_def by (metis db.surjective db.update_convs(3))
  ultimately show ?thesis by (simp add: accounts_posted_def)
qed

lemma accounts_posted_ids: "accounts_posted c k db db' \<Longrightarrow> map acc_id (accounts_table db') = map acc_id (accounts_table db)"
  unfolding accounts_posted_def
  by (auto simp: list_all2_conv_all_nth list_eq_iff_nth_eq dest!: account_posted_key)

lemma account_of_distinct:
  assumes "distinct (map acc_id (accounts_table db))"
  shows "account_of db i = Some a \<longleftrightarrow> a \<in> set (accounts_table db) \<and> acc_id a = i"
proof
  assume "account_of db i = Some a"
  then show "a \<in> set (accounts_table db) \<and> acc_id a = i" unfolding account_of_def by (auto dest: first_row_filter)
next
  assume a: "a \<in> set (accounts_table db) \<and> acc_id a = i"
  then obtain b where b: "account_of db i = Some b"
    by (cases "account_of db i") (auto simp: account_of_def first_row_def filter_empty_conv split: list.splits)
  then have "b \<in> set (accounts_table db) \<and> acc_id b = i" unfolding account_of_def by (auto dest: first_row_filter)
  with a assms b show "account_of db i = Some a" by (metis distinct_map inj_onD)
qed

section \<open>The contract of a posting\<close>

text \<open>Deltas are added when a transaction is recorded or edited, and subtracted when it is deleted.\<close>

locale posting =
  fixes combine :: "string \<Rightarrow> string \<Rightarrow> string result" and sign :: rat
  assumes combine_value: "combine a b = Inr c \<Longrightarrow> canonical_text c \<and> text_value c = text_value a + sign * text_value b"
begin

lemma post_one:
  assumes "post_delta P observations combine (db, out) (i, delta) = Inr (db', out')"
    and "distinct (map acc_id (accounts_table db))"
  shows "accounts_posted (\<lambda>j. if j = i then sign * text_value delta else 0) {i} db db'"
proof -
  from assms(1) obtain a where a: "account_of db i = Some a"
    by (auto simp: post_delta_def load_db_account_def result_simps)
  from assms(1) have post: "if \<not> acc_is_real a \<or> \<not> acc_is_active a then db' = db
      else \<exists>balance t e. acc_native_balance a = Some balance \<and> combine balance delta = Inr t \<and> db' = set_balance i t e db"
    by (auto simp: a post_delta_def load_db_account_def fetch_one_def result_simps write_account_of_def split: if_splits)
  have row: "b = a" if "b \<in> set (accounts_table db)" "acc_id b = i" for b
    using account_of_distinct [OF assms(2), of i a] a that assms(2) by (metis distinct_map inj_onD)
  show ?thesis
  proof (cases "acc_is_real a \<and> acc_is_active a")
    case False
    with post have "db' = db" by auto
    moreover have "account_posted f {i} b b" if "b \<in> set (accounts_table db)" for b f
      using row [OF that] False by (auto simp: account_posted_def)
    ultimately show ?thesis by (auto simp: accounts_posted_def list_all2_same)
  next
    case True
    with post obtain balance t e where t: "acc_native_balance a = Some balance" "combine balance delta = Inr t"
      "db' = set_balance i t e db" by auto
    have "account_posted (\<lambda>j. if j = i then sign * text_value delta else 0) {i} b
        (if acc_id b = i then b\<lparr>acc_native_balance := Some t, acc_eur_balance := Some e, acc_revision := acc_revision b + 1\<rparr> else b)"
      if "b \<in> set (accounts_table db)" for b
      using row [OF that] True t(1) combine_value [OF t(2)] by (auto simp: account_posted_def)
    then show ?thesis by (simp add: t(3) accounts_posted_def set_balance_def list_all2_map2 list_all2_same)
  qed
qed

lemma posted_cong: "accounts_posted c k db db' \<Longrightarrow> (\<And>i. i \<in> k \<Longrightarrow> c i = d i) \<Longrightarrow> accounts_posted d k db db'"
  unfolding accounts_posted_def account_posted_def by (auto elim!: list_all2_mono split: if_splits)

lemma post_all:
  assumes "fold_result (post_delta P observations combine) (db, out) deltas = Inr (db', out')"
    and "distinct (map acc_id (accounts_table db))" "distinct (map fst deltas)"
  shows "accounts_posted (\<lambda>j. sign * bt_entry deltas j) (fst ` set deltas) db db'"
  using assms
proof (induction deltas arbitrary: db out)
  case Nil
  then show ?case using accounts_posted_refl by simp
next
  case (Cons x deltas)
  obtain i delta where x: "x = (i, delta)" by (cases x)
  from Cons.prems(1) obtain db1 out1 where
    1: "post_delta P observations combine (db, out) (i, delta) = Inr (db1, out1)" and
    2: "fold_result (post_delta P observations combine) (db1, out1) deltas = Inr (db', out')"
    by (auto simp: x result_simps)
  note one = post_one [OF 1 Cons.prems(2)]
  have "distinct (map acc_id (accounts_table db1))" using accounts_posted_ids [OF one] Cons.prems(2) by simp
  from Cons.IH [OF 2 this] Cons.prems(3) have rest:
    "accounts_posted (\<lambda>j. sign * bt_entry deltas j) (fst ` set deltas) db1 db'" by simp
  have "i \<notin> fst ` set deltas" using Cons.prems(3) by (simp add: x)
  moreover have "accounts_posted (\<lambda>j. sign * bt_entry (x # deltas) j) {i} db db1"
    by (rule posted_cong [OF one]) (simp add: x bt_entry_def bt_get_def)
  moreover have "accounts_posted (\<lambda>j. sign * bt_entry (x # deltas) j) (fst ` set deltas) db1 db'"
    by (rule posted_cong [OF rest]) (use calculation(1) in \<open>auto simp: x bt_entry_def bt_get_def\<close>)
  ultimately show ?case using accounts_posted_trans by (simp add: x)
qed

end

interpretation credit: posting add_decimal_text 1
  by unfold_locales (auto dest: money.add_val)

interpretation debit: posting subtract_decimal_text "- 1"
  by unfold_locales (auto dest: money.sub_val)

section \<open>What the other steps of a write keep\<close>

text \<open>The tables of the transactions and the accounts; the plan ledger has tables of its own.\<close>

definition same_books :: "db \<Rightarrow> db \<Rightarrow> bool" where
  "same_books db db' \<longleftrightarrow> accounts_table db' = accounts_table db \<and> transactions_table db' = transactions_table db
     \<and> valuations_table db' = valuations_table db \<and> revisions_table db' = revisions_table db
     \<and> closures_table db' = closures_table db \<and> categories_table db' = categories_table db
     \<and> rates_table db' = rates_table db \<and> corrections_table db' = corrections_table db
     \<and> batch_items_table db' = batch_items_table db"

definition keeps_books :: "db \<Rightarrow> db \<Rightarrow> bool" where
  "keeps_books db db' \<longleftrightarrow> same_books db db' \<and> operations_table db' = operations_table db"

lemmas books_defs = keeps_books_def same_books_def

lemma keeps_books_refl: "keeps_books db db"
  by (simp add: books_defs)

lemma keeps_books_trans: "keeps_books a b \<Longrightarrow> keeps_books b c \<Longrightarrow> keeps_books a c"
  by (simp add: books_defs)

lemma keeps_same: "keeps_books db db' \<Longrightarrow> same_books db db'"
  by (simp add: keeps_books_def)

lemma same_books_trans: "same_books a b \<Longrightarrow> same_books b c \<Longrightarrow> same_books a c"
  by (simp add: same_books_def)

lemma grows_keeps_books: "grows_to db db' \<Longrightarrow> keeps_books db db'"
  by (auto simp: books_defs grows_to_def)

lemma initialize_keeps_books: "initialize P db = Inr d \<Longrightarrow> keeps_books db d"
  by (drule initialize_openings) (auto simp: books_defs)

lemma ensure_income_keeps_books: "ensure_income db m = Inr d \<Longrightarrow> keeps_books db d"
  by (rule grows_keeps_books, rule ensure_income_grows)

lemma receipt_keeps_books:
  assumes "receipt db i treatment expected = Inr d"
  shows "keeps_books db d"
proof -
  have recorded: "keeps_books db d" if "record_receipt db i m t e old = Inr d" for m t e old
  proof -
    from that obtain d0 matching where target: "receipt_target db m t e old = Inr (d0, matching)"
      and d: "d = d0\<lparr>receipts_table := upsert_receipt
        \<lparr>rec_transaction = i, rec_treatment = t, rec_expected_month = matching\<rparr> (receipts_table d0)\<rparr>"
      by (rule record_receipt_E)
    have "keeps_books db d0"
      using receipt_target_cases [OF target] ensure_income_keeps_books keeps_books_refl by (cases "t = ''salary''") auto
    with d show ?thesis by (simp add: books_defs)
  qed
  from assms have "d = db \<or> (\<exists>rs. d = db\<lparr>receipts_table := rs\<rparr>) \<or> (\<exists>m t e old. record_receipt db i m t e old = Inr d)"
    unfolding receipt_def Let_def and_then_eq_Inr by (auto simp only: and_then_eq_Inr sum.inject split: if_split_asm) blast+
  then show ?thesis using recorded by (auto simp: books_defs)
qed

lemma sync_keeps_books: "sync_api P db operation = Some (Inr d) \<Longrightarrow> keeps_books db d"
  by (rule grows_keeps_books, rule sync_api_E(2))

definition new_operation :: "string \<Rightarrow> string \<Rightarrow> string \<Rightarrow> db \<Rightarrow> db" where
  "new_operation i subject fingerprint db = db\<lparr>operations_table := operations_table db @
     [\<lparr>op_id = i, op_actor = subject, op_fingerprint = fingerprint, op_response = ''{}''\<rparr>]\<rparr>"

lemma new_operation_books: "same_books db (new_operation i subject fingerprint db)"
  by (simp add: same_books_def new_operation_def)

lemma set_response_books: "same_books db (set_response i text db)"
  by (simp add: same_books_def set_response_def)

section \<open>The change of an effect\<close>

text \<open>What a transaction moves on an account, in the currency of the account.\<close>

definition native_change :: "transaction_effect \<Rightarrow> string \<Rightarrow> rat" where
  "native_change e i =
     (if to_account_id e = Some i then text_value (amount_native (to_side (effect_valuation e))) else 0)
     - (if from_account_id e = Some i then text_value (amount_native (from_side (effect_valuation e))) else 0)"

definition effect_accounts :: "transaction_effect \<Rightarrow> string set" where
  "effect_accounts e = {i. from_account_id e = Some i \<or> to_account_id e = Some i}"

lemma add_delta_keys: "fst ` set (add_delta m k d) = insert k (fst ` set m)" "bt_ok m \<Longrightarrow> bt_ok (add_delta m k d)"
  by (simp_all add: add_delta_def Let_def keys_bt_insert bt_ok_insert)

lemma add_parsed_keys:
  assumes "add_parsed key t f m = Inr m'"
  shows "fst ` set m' = fst ` set m \<union> {i. key = Some i}" "bt_ok m \<Longrightarrow> bt_ok m'"
proof -
  have "fst ` set m' = fst ` set m \<union> {i. key = Some i} \<and> (bt_ok m \<longrightarrow> bt_ok m')"
  proof (cases key)
    case None
    with assms show ?thesis by (simp add: add_parsed_def)
  next
    case (Some k)
    with assms obtain d where "m' = add_delta m k d" by (auto simp: add_parsed_def result_simps)
    with Some show ?thesis by (auto simp: add_delta_keys)
  qed
  then show "fst ` set m' = fst ` set m \<union> {i. key = Some i}" "bt_ok m \<Longrightarrow> bt_ok m'" by auto
qed

lemma account_deltas_keys:
  assumes "project_transaction e = Inr p"
  shows "fst ` set (account_deltas p) = effect_accounts e" "bt_ok (account_deltas p)"
proof -
  from assms obtain a1 where
    a1: "add_parsed (from_account_id e) (amount_native (from_side (effect_valuation e))) decimal_negated [] = Inr a1" and
    a2: "add_parsed (to_account_id e) (amount_native (to_side (effect_valuation e))) id a1 = Inr (account_deltas p)"
    by (auto simp: project_transaction_def Let_def result_simps)
  from add_parsed_keys [OF a1] add_parsed_keys [OF a2]
  show "fst ` set (account_deltas p) = effect_accounts e" "bt_ok (account_deltas p)"
    by (auto simp: effect_accounts_def bt_ok_def)
qed

lemma account_deltas_change:
  assumes "project_transaction e = Inr p"
  shows "bt_entry (account_deltas p) = native_change e"
  by (rule ext) (simp add: project_transaction_entries(1) [OF assms] native_change_def)

section \<open>The same books give the same checks\<close>

lemma same_books_reads:
  assumes "same_books db d"
  shows "load_db_account d = load_db_account db" "account_of d = account_of db" "load_db_category d = load_db_category db"
    "load_system_db_account d = load_system_db_account db" "load_system_db_category d = load_system_db_category db"
    "transaction_of d = transaction_of db" "ecb_observations d = ecb_observations db" "month_closed d = month_closed db"
    "latest_valuation d = latest_valuation db" "next_transaction_row d = next_transaction_row db"
    "dependent_audit d = dependent_audit db"
  using assms
  by (auto simp: same_books_def fun_eq_iff load_db_account_def account_of_def load_db_category_def load_system_db_account_def
      load_system_db_category_def transaction_of_def ecb_observations_def month_closed_def latest_valuation_def
      next_transaction_row_def dependent_audit_def cong: option.case_cong list.case_cong)

lemma keeps_find_operation: "keeps_books db d \<Longrightarrow> find_operation d = find_operation db"
  by (simp add: fun_eq_iff find_operation_def keeps_books_def)

lemma same_books_sides:
  assumes "same_books db d"
  shows "request_sides d = request_sides db"
proof -
  have "load_request_account d = load_request_account db" "load_request_category d = load_request_category db"
    by (simp_all add: fun_eq_iff load_request_account_def load_request_category_def same_books_reads [OF assms])
  moreover have "assign_sides d = assign_sides db"
    by (simp add: fun_eq_iff assign_sides_def same_books_reads [OF assms])
  ultimately show ?thesis by (intro ext) (simp add: request_sides_def)
qed

lemma same_books_stored: "same_books db d \<Longrightarrow> stored_valuation P d = stored_valuation P db"
  by (simp add: fun_eq_iff stored_valuation_def load_stored_side_valuation_def same_books_reads)

section \<open>What a successful write has checked and written\<close>

lemma check_write_E:
  assumes "check_write P W p db = Inr (sd, v, projected, occurred_at)"
  shows "request_sides db p = Inr sd" "request_valuation p sd (ecb_observations db) = Inr v"
    "project_transaction (request_effect p sd v) = Inr projected" "require_open P db (take 7 (wr_date p)) = Inr ()"
    "transaction_of db (wr_transaction_id p) = None"
  using assms by (auto simp: check_write_def result_simps)

lemma record_rows_E:
  assumes "record_rows P subject username fingerprint p sd occurred_at v db = Inr d"
  shows "d = db\<lparr>
      transactions_table := transactions_table db @
        [transaction_row_of P subject fingerprint p sd occurred_at (next_transaction_row db)],
      revisions_table := revisions_table db @ [\<lparr>rev_transaction = wr_transaction_id p, rev_revision = 1,
        rev_operation = Some (wr_operation_id p), rev_snapshot = write_json P (revision_snapshot p sd occurred_at username v),
        rev_recorded_at = now_text P\<rparr>],
      valuations_table := valuations_table db @
        [valuation_row_of P (wr_transaction_id p) ''from'' (wr_date p) 1 (wa_currency (sd_from_account sd)) (from_side v),
         valuation_row_of P (wr_transaction_id p) ''to'' (wr_date p) 1 (wa_currency (sd_to_account sd)) (to_side v)]\<rparr>"
  using assms
  by (auto simp: record_rows_def insert_transaction_def insert_revision_def insert_valuations_def insert_valuation_def
      result_simps split: if_splits)

lemma post_deltas_posted:
  assumes "post_deltas P observations add_decimal_text db (account_deltas projected) = Inr (d, accounts)"
    and "project_transaction e = Inr projected" "distinct (map acc_id (accounts_table db))"
  shows "accounts_posted (native_change e) (effect_accounts e) db d"
  using credit.post_all [OF assms(1) [unfolded post_deltas_def] assms(3) bt_ok_distinct [OF account_deltas_keys(2) [OF assms(2)]]]
  by (simp add: account_deltas_keys(1) [OF assms(2)] account_deltas_change [OF assms(2)])

lemma fresh_create_E:
  assumes "fresh_create P W subject username fingerprint p db = Some (Inr (r, db'))"
  obtains sd v projected occurred_at d1 d2 d3 d4 accounts cats where
    "check_write P W p db = Inr (sd, v, projected, occurred_at)"
    "record_rows P subject username fingerprint p sd occurred_at v db = Inr d1"
    "post_deltas P (ecb_observations db) add_decimal_text d1 (account_deltas projected) = Inr (d2, accounts)"
    "receipt d2 (wr_transaction_id p) (wr_income_treatment p) (wr_expected_month p) = Inr d3"
    "sync_api P d3 (Some (wr_operation_id p)) = Some (Inr d4)" "keeps_books d2 d4"
    "r = create_response p v accounts cats" "db' = set_response (wr_operation_id p) (write_json P r) d4"
proof -
  from assms obtain sd v projected occurred_at d1 d2 d3 d4 accounts cats where
    1: "check_write P W p db = Inr (sd, v, projected, occurred_at)"
    "record_rows P subject username fingerprint p sd occurred_at v db = Inr d1"
    "post_deltas P (ecb_observations db) add_decimal_text d1 (account_deltas projected) = Inr (d2, accounts)" and
    2: "receipt d2 (wr_transaction_id p) (wr_income_treatment p) (wr_expected_month p) = Inr d3"
    "sync_api P d3 (Some (wr_operation_id p)) = Some (Inr d4)" and
    3: "r = create_response p v accounts cats" "db' = set_response (wr_operation_id p) (write_json P r) d4"
    unfolding fresh_create_def by (auto simp: result_simps Let_def)
  have "keeps_books d2 d4"
    using receipt_keeps_books [OF 2(1)] sync_keeps_books [OF 2(2)] by (rule keeps_books_trans)
  with 1 2 3 that show ?thesis by blast
qed

lemma normalize_ids:
  assumes "normalize_db_transaction_write u p = Inr q"
  shows "wr_operation_id q = wr_operation_id p" "wr_transaction_id q = wr_transaction_id p"
proof -
  from assms obtain amt to_amt where "finish_request u ((trim_request p)\<lparr>wr_amount := amt, wr_to_amount := to_amt,
       wr_currency := normalize_currency (wr_currency p)\<rparr>) = Inr q" by (rule normalize_E)
  from finish_request_E(1) [OF this] show "wr_operation_id q = wr_operation_id p" "wr_transaction_id q = wr_transaction_id p"
    by (simp_all add: default_income_category_def trim_request_def)
qed

lemma create_fresh_E:
  assumes "create_db_transaction P W session payload db = Some (Inr (r, db'))"
    and "find_operation db (wr_operation_id payload) = None"
  obtains subject username p d where "session = Inr (subject, username)" "writes_enabled W"
    "normalize_db_transaction_write UNALLOCATED payload = Inr p" "keeps_books db d"
    "wr_operation_id p = wr_operation_id payload" "wr_transaction_id p = wr_transaction_id payload"
    "fresh_create P W subject username (write_fingerprint P p) p
       (new_operation (wr_operation_id p) subject (write_fingerprint P p) d) = Some (Inr (r, db'))"
proof -
  from assms(1) obtain subject username p d where s: "session = Inr (subject, username)" "writes_enabled W"
    "normalize_db_transaction_write UNALLOCATED payload = Inr p" and i: "initialize P db = Inr d"
    and rest: "(case find_operation d (wr_operation_id p) of
         Some o' \<Rightarrow> Some (replay_create P subject (write_fingerprint P p) o' d)
       | None \<Rightarrow> fresh_create P W subject username (write_fingerprint P p) p
           (new_operation (wr_operation_id p) subject (write_fingerprint P p) d)) = Some (Inr (r, db'))"
    unfolding create_db_transaction_def new_operation_def by (auto simp: result_simps Let_def)
  note d = initialize_keeps_books [OF i] and ids = normalize_ids [OF s(3)]
  have "find_operation d (wr_operation_id p) = None" using assms(2) by (simp add: keeps_find_operation [OF d] ids)
  with rest s d ids that show ?thesis by simp
qed

section \<open>The changes of an edit and a deletion\<close>

text \<open>Only the accounts whose balance really changes are touched.\<close>

definition moved :: "(string \<Rightarrow> rat) \<Rightarrow> string set" where
  "moved change = {i. change i \<noteq> 0}"

lemma zero_delta: "canonical_text t \<Longrightarrow> t = ''0'' \<longleftrightarrow> text_value t = 0"
  using money.canon_unique [of t "''0''"] money.zero_canon money.zero_val by auto

lemma values_bt_insert: "\<forall>t\<in>snd ` set m. Q t \<Longrightarrow> Q v \<Longrightarrow> \<forall>t\<in>snd ` set (bt_insert k v m). Q t"
  by (induction m) auto

lemma add_delta_canonical:
  assumes "canonical d" "\<forall>t\<in>snd ` set m. canonical_text t"
  shows "\<forall>t\<in>snd ` set (add_delta m k d). canonical_text t"
proof -
  have "\<exists>c. canonical c \<and> add_delta m k d = bt_insert k (decimal_format (decimal_add c d)) m"
  proof (cases "bt_get m k")
    case None
    then show ?thesis by (intro exI [of _ "\<lparr>coefficient = 0, scale = 0\<rparr>"]) (simp add: add_delta_def canonical_def)
  next
    case (Some t)
    then show ?thesis
      by (intro exI [of _ "unwrap_or (ok (decimal_parse t)) \<lparr>coefficient = 0, scale = 0\<rparr>"], cases "decimal_parse t")
        (auto simp: add_delta_def canonical_def dest: parse_canonical)
  qed
  then obtain c where c: "canonical c" "add_delta m k d = bt_insert k (decimal_format (decimal_add c d)) m" by blast
  show ?thesis unfolding c(2) by (rule values_bt_insert [OF assms(2)]) (simp add: c(1) assms(1) canonical_add)
qed

lemma account_deltas_canonical:
  assumes "project_transaction e = Inr p"
  shows "\<forall>t\<in>snd ` set (account_deltas p). canonical_text t"
proof -
  have step: "\<forall>t\<in>snd ` set m'. canonical_text t"
    if "add_parsed key t f m = Inr m'" "\<And>d. canonical d \<Longrightarrow> canonical (f d)" "\<forall>t\<in>snd ` set m. canonical_text t"
    for key t f m m'
  proof (cases key)
    case None
    with that show ?thesis by (simp add: add_parsed_def)
  next
    case (Some k)
    with that(1) obtain d where "decimal_parse t = Inr d" "m' = add_delta m k (f d)" by (auto simp: add_parsed_def result_simps)
    with that(2,3) add_delta_canonical [of "f d" m k] parse_canonical [of t d] show ?thesis by simp
  qed
  from assms obtain a1 where
    a1: "add_parsed (from_account_id e) (amount_native (from_side (effect_valuation e))) decimal_negated [] = Inr a1" and
    a2: "add_parsed (to_account_id e) (amount_native (to_side (effect_valuation e))) id a1 = Inr (account_deltas p)"
    by (auto simp: project_transaction_def Let_def result_simps)
  from step [OF a1] have "\<forall>t\<in>snd ` set a1. canonical_text t" by simp
  from step [OF a2 _ this] show ?thesis by simp
qed

lemma bt_get_filter: "distinct (map fst m) \<Longrightarrow> bt_get (filter Q m) k = (case bt_get m k of
    None \<Rightarrow> None | Some v \<Rightarrow> if Q (k, v) then Some v else None)"
proof (induction m)
  case (Cons e m)
  obtain a b where e: "e = (a, b)" by (cases e)
  have "a \<notin> fst ` set m" using Cons.prems by (simp add: e)
  then have "bt_get (filter Q m) a = None" by (auto simp: bt_get_none)
  with Cons show ?case by (auto simp: e bt_get_def)
qed (simp add: bt_get_def)

lemma changes_keys:
  assumes "distinct (map fst m)" "\<forall>t\<in>snd ` set m. canonical_text t"
  shows "fst ` set (filter (\<lambda>(i, delta). delta \<noteq> ''0'') m) = moved (bt_entry m)"
proof
  have entry: "bt_entry m i = text_value t" if "(i, t) \<in> set m" for i t
    using assms(1) that by (auto simp: bt_entry_def bt_get_def map_of_eq_Some_iff)
  show "fst ` set (filter (\<lambda>(i, delta). delta \<noteq> ''0'') m) \<subseteq> moved (bt_entry m)"
    using assms(2) entry zero_delta by (fastforce simp: moved_def)
  show "moved (bt_entry m) \<subseteq> fst ` set (filter (\<lambda>(i, delta). delta \<noteq> ''0'') m)"
  proof
    fix i
    assume "i \<in> moved (bt_entry m)"
    then obtain t where t: "bt_get m i = Some t" "text_value t \<noteq> 0"
      by (cases "bt_get m i") (auto simp: moved_def bt_entry_def)
    then have "(i, t) \<in> set m" by (auto simp: bt_get_def dest: map_of_SomeD)
    with t(2) show "i \<in> fst ` set (filter (\<lambda>(i, delta). delta \<noteq> ''0'') m)" using money.zero_val by force
  qed
qed

context posting
begin

lemma post_changed:
  assumes "post_changes P observations combine db deltas = Inr (db', out)" "distinct (map acc_id (accounts_table db))"
    and "distinct (map fst deltas)" "\<forall>t\<in>snd ` set deltas. canonical_text t"
  shows "accounts_posted (\<lambda>j. sign * bt_entry deltas j) (moved (bt_entry deltas)) db db'"
proof -
  let ?m = "filter (\<lambda>(i, delta). delta \<noteq> ''0'') deltas"
  have posted: "accounts_posted (\<lambda>j. sign * bt_entry ?m j) (fst ` set ?m) db db'"
    using assms(1) unfolding post_changes_def post_deltas_def
    by (rule post_all) (use assms(2,3) in \<open>simp_all add: distinct_map_filter\<close>)
  have "bt_entry ?m j = bt_entry deltas j" if "j \<in> moved (bt_entry deltas)" for j
    using that money.zero_val
    by (auto simp: bt_entry_def bt_get_filter [OF assms(3)] moved_def split: option.split)
  with posted_cong [OF posted [unfolded changes_keys [OF assms(3,4)]]] show ?thesis by simp
qed

end

section \<open>The difference of two projections\<close>

lemma difference_maps_entries:
  assumes "difference_maps newer older = Inr m"
  shows "bt_entry m = (\<lambda>j. bt_entry newer j - bt_entry older j)" "bt_ok m" "\<forall>t\<in>snd ` set m. canonical_text t"
proof -
  let ?f = "\<lambda>out key. and_then (subtract_decimal_text (unwrap_or (bt_get newer key) ''0'') (unwrap_or (bt_get older key) ''0''))
    (\<lambda>d. Inr (if d \<noteq> ''0'' then bt_insert key d out else out))"
  have entry: "text_value (unwrap_or (bt_get m k) ''0'') = bt_entry m k" for m :: "(string, string) btree" and k
    by (auto simp: bt_entry_def money.zero_val split: option.split)
  have all: "(\<forall>j. bt_entry m j = (if j \<in> set keys then bt_entry newer j - bt_entry older j else bt_entry out j))
      \<and> (bt_ok out \<longrightarrow> bt_ok m) \<and> ((\<forall>t\<in>snd ` set out. canonical_text t) \<longrightarrow> (\<forall>t\<in>snd ` set m. canonical_text t))"
    if "fold_result ?f out keys = Inr m" "distinct keys" "fst ` set out \<inter> set keys = {}" for out keys m
    using that
  proof (induction keys arbitrary: out)
    case (Cons key keys)
    from Cons.prems(1) obtain d where
      d: "subtract_decimal_text (unwrap_or (bt_get newer key) ''0'') (unwrap_or (bt_get older key) ''0'') = Inr d"
      and rest: "fold_result ?f (if d \<noteq> ''0'' then bt_insert key d out else out) keys = Inr m"
      by (auto simp: result_simps)
    let ?out = "if d \<noteq> ''0'' then bt_insert key d out else out"
    from d have v: "canonical_text d" "text_value d = bt_entry newer key - bt_entry older key"
      by (auto dest!: money.sub_val simp: entry)
    have "fst ` set ?out \<inter> set keys = {}" using Cons.prems(2,3) by (auto simp: keys_bt_insert)
    note IH = Cons.IH [OF rest _ this]
    have "bt_entry ?out j = (if j = key then text_value d else bt_entry out j)" for j
      using Cons.prems(3) zero_delta [OF v(1)] bt_get_none [of out key]
      by (auto simp: bt_entry_def bt_get_insert split: option.split)
    moreover have "(\<forall>t\<in>snd ` set out. canonical_text t) \<longrightarrow> (\<forall>t\<in>snd ` set ?out. canonical_text t)"
      using values_bt_insert [of out canonical_text d key] v(1) by simp
    moreover have "bt_ok out \<longrightarrow> bt_ok ?out" by (simp add: bt_ok_insert)
    ultimately have out: "\<forall>j. bt_entry ?out j = (if j = key then bt_entry newer key - bt_entry older key else bt_entry out j)"
      "bt_ok out \<longrightarrow> bt_ok ?out" "(\<forall>t\<in>snd ` set out. canonical_text t) \<longrightarrow> (\<forall>t\<in>snd ` set ?out. canonical_text t)"
      using v(2) by (simp_all only:) simp
    from IH Cons.prems(2) have m: "\<forall>j. bt_entry m j = (if j \<in> set keys then bt_entry newer j - bt_entry older j else bt_entry ?out j)"
      "bt_ok ?out \<longrightarrow> bt_ok m" "(\<forall>t\<in>snd ` set ?out. canonical_text t) \<longrightarrow> (\<forall>t\<in>snd ` set m. canonical_text t)"
      by simp_all
    have "bt_entry m j = (if j \<in> set (key # keys) then bt_entry newer j - bt_entry older j else bt_entry out j)" for j
      using m(1) [rule_format, of j] out(1) [rule_format, of j]
      by (cases "j \<in> set keys"; cases "j = key") (simp_all only: list.set insert_iff if_True if_False simp_thms)
    with m(2,3) out(2,3) show ?case by blast
  qed simp
  have "m \<noteq> m \<or> (\<forall>j. bt_entry m j = bt_entry newer j - bt_entry older j) \<and> bt_ok m \<and> (\<forall>t\<in>snd ` set m. canonical_text t)"
  proof -
    note all [OF assms [unfolded difference_maps_def]]
    moreover have "bt_entry newer j - bt_entry older j = 0" if "j \<notin> set (remdups (map fst newer @ map fst older))" for j
      using that bt_get_none [of newer j] bt_get_none [of older j] by (simp add: bt_entry_def)
    ultimately show ?thesis by (auto simp: bt_ok_def)
  qed
  then show "bt_entry m = (\<lambda>j. bt_entry newer j - bt_entry older j)" "bt_ok m" "\<forall>t\<in>snd ` set m. canonical_text t" by auto
qed

lemma accounts_posted_fields:
  assumes "accounts_posted c k db db'"
  shows "transactions_table db' = transactions_table db" "valuations_table db' = valuations_table db"
    "revisions_table db' = revisions_table db" "closures_table db' = closures_table db"
    "operations_table db' = operations_table db" "categories_table db' = categories_table db" "rates_table db' = rates_table db"
proof -
  from assms obtain x where "db' = db\<lparr>accounts_table := x\<rparr>" unfolding accounts_posted_def by blast
  then show "transactions_table db' = transactions_table db" "valuations_table db' = valuations_table db"
    "revisions_table db' = revisions_table db" "closures_table db' = closures_table db"
    "operations_table db' = operations_table db" "categories_table db' = categories_table db" "rates_table db' = rates_table db"
    by simp_all
qed

lemma new_operation_found:
  assumes "find_operation db i = None" "operations_table d = operations_table (new_operation i subject fingerprint db)"
  shows "find_operation (set_response i text d) i
    = Some \<lparr>op_id = i, op_actor = subject, op_fingerprint = fingerprint, op_response = text\<rparr>"
proof -
  have "filter (\<lambda>x. op_id x = i) (operations_table db) = []"
    using assms(1) by (simp add: find_operation_def first_row_def split: list.splits)
  moreover have "filter (\<lambda>x. op_id x = i) (map (\<lambda>x. if op_id x = i then x\<lparr>op_response := text\<rparr> else x) xs)
      = map (\<lambda>x. x\<lparr>op_response := text\<rparr>) (filter (\<lambda>x. op_id x = i) xs)" for xs :: "operation_row list"
    by (induction xs) auto
  ultimately show ?thesis
    by (simp add: find_operation_def set_response_def assms(2) new_operation_def first_row_def)
qed

lemma create_E:
  assumes "create_db_transaction P W session payload db = Some (Inr (r, db'))"
    and "find_operation db (wr_operation_id payload) = None" "distinct (map acc_id (accounts_table db))"
  obtains subject username p sd v occurred_at t where "session = Inr (subject, username)" "writes_enabled W"
    "normalize_db_transaction_write UNALLOCATED payload = Inr p" "request_sides db p = Inr sd"
    "request_valuation p sd (ecb_observations db) = Inr v" "\<not> month_closed db (take 7 (wr_date p))"
    "wr_transaction_id p = wr_transaction_id payload"
    "transaction_of db (wr_transaction_id payload) = None"
    "t = transaction_row_of P subject (write_fingerprint P p) p sd occurred_at (next_transaction_row db)"
    "transactions_table db' = transactions_table db @ [t]"
    "list_all2 (account_posted (native_change (row_effect t v)) (effect_accounts (row_effect t v)))
       (accounts_table db) (accounts_table db')"
    "valuations_table db' = valuations_table db @
        [valuation_row_of P (wr_transaction_id p) ''from'' (wr_date p) 1 (wa_currency (sd_from_account sd)) (from_side v),
         valuation_row_of P (wr_transaction_id p) ''to'' (wr_date p) 1 (wa_currency (sd_to_account sd)) (to_side v)]"
    "revisions_table db' = revisions_table db @ [\<lparr>rev_transaction = wr_transaction_id p, rev_revision = 1,
        rev_operation = Some (wr_operation_id p), rev_snapshot = write_json P (revision_snapshot p sd occurred_at username v),
        rev_recorded_at = now_text P\<rparr>]"
    "find_operation db' (wr_operation_id payload) = Some \<lparr>op_id = wr_operation_id payload, op_actor = subject,
       op_fingerprint = write_fingerprint P p, op_response = write_json P r\<rparr>"
    "closures_table db' = closures_table db"
proof -
  from assms(1,2) obtain subject username p d where s: "session = Inr (subject, username)" "writes_enabled W"
    "normalize_db_transaction_write UNALLOCATED payload = Inr p" and k: "keeps_books db d" and
    ids: "wr_operation_id p = wr_operation_id payload" "wr_transaction_id p = wr_transaction_id payload" and
    f: "fresh_create P W subject username (write_fingerprint P p) p
       (new_operation (wr_operation_id p) subject (write_fingerprint P p) d) = Some (Inr (r, db'))"
    by (rule create_fresh_E)
  let ?d = "new_operation (wr_operation_id p) subject (write_fingerprint P p) d"
  have same: "same_books db ?d" using keeps_same [OF k] new_operation_books by (rule same_books_trans)
  from f obtain sd v projected occurred_at d1 d2 d3 d4 accounts cats where
    c: "check_write P W p ?d = Inr (sd, v, projected, occurred_at)" and
    w: "record_rows P subject username (write_fingerprint P p) p sd occurred_at v ?d = Inr d1" and
    post: "post_deltas P (ecb_observations ?d) add_decimal_text d1 (account_deltas projected) = Inr (d2, accounts)" and
    b: "keeps_books d2 d4" and db': "db' = set_response (wr_operation_id p) (write_json P r) d4"
    by (rule fresh_create_E)
  note w = record_rows_E [OF w] and c = check_write_E [OF c]
  let ?t = "transaction_row_of P subject (write_fingerprint P p) p sd occurred_at (next_transaction_row db)"
  have "request_effect p sd v = row_effect ?t v" by (simp add: request_effect_def row_effect_def transaction_row_of_def)
  moreover have "accounts_table d1 = accounts_table db" using same by (simp add: w same_books_def)
  ultimately have posted: "accounts_posted (native_change (row_effect ?t v)) (effect_accounts (row_effect ?t v)) d1 d2"
    using post_deltas_posted [OF post c(3)] assms(3) by simp
  have kept: "same_books d2 db'"
    unfolding db' using keeps_same [OF b] set_response_books by (rule same_books_trans)
  note p = accounts_posted_fields [OF posted]
  have tables: "transactions_table db' = transactions_table d1" "valuations_table db' = valuations_table d1"
    "revisions_table db' = revisions_table d1" "closures_table db' = closures_table d1" "accounts_table db' = accounts_table d2"
    using kept by (simp_all add: same_books_def p)
  have "operations_table d4 = operations_table ?d"
    using b by (simp add: keeps_books_def p w)
  then have ops: "find_operation db' (wr_operation_id payload) = Some \<lparr>op_id = wr_operation_id payload, op_actor = subject,
       op_fingerprint = write_fingerprint P p, op_response = write_json P r\<rparr>"
    unfolding db' using new_operation_found [of d "wr_operation_id p"] assms(2) keeps_find_operation [OF k] ids(1) by simp
  note reads = same_books_reads [OF same] same_books_sides [OF same]
  have base: "transactions_table ?d = transactions_table db" "valuations_table ?d = valuations_table db"
    "revisions_table ?d = revisions_table db" "closures_table ?d = closures_table db"
    using same by (simp_all add: same_books_def)
  have "\<not> month_closed db (take 7 (wr_date p))" using require_open_E [OF c(4)] unfolding reads .
  note checked = c(1,2,5) [unfolded reads] this and rows = tables [unfolded w, simplified, unfolded base reads]
  show ?thesis
  proof (rule that [of subject username p sd v ?t occurred_at])
    show "list_all2 (account_posted (native_change (row_effect ?t v)) (effect_accounts (row_effect ?t v)))
       (accounts_table db) (accounts_table db')"
      using posted \<open>accounts_table d1 = accounts_table db\<close> by (simp add: accounts_posted_def tables)
  qed (use s ids ops checked rows in simp_all)
qed

section \<open>A successful deletion\<close>

lemma check_revisions_E:
  assumes "check_revisions missing changed db accounts expected = Inr u" "a \<in> set accounts" "wa_is_real a"
  shows "\<exists>row. account_of db (wa_id a) = Some row \<and> map_of expected (wa_id a) = Some (acc_revision row)"
proof -
  let ?check = "\<lambda>i. and_then (internal (fetch_one (account_of db i))) (\<lambda>row.
    guard (Some (acc_revision row) = map_of expected i) (conflict changed))"
  have each: "map_result f xs = Inr ys \<Longrightarrow> x \<in> set xs \<Longrightarrow> \<exists>y. f x = Inr y"
    for f :: "string \<Rightarrow> unit api" and xs ys x
    by (induction xs arbitrary: ys) (auto simp: result_simps)
  from assms(1) obtain us where "map_result ?check (remdups (map wa_id (filter wa_is_real accounts))) = Inr us"
    by (auto simp: check_revisions_def Let_def result_simps split: if_splits)
  from each [OF this, of "wa_id a"] assms(2,3) have "\<exists>u. ?check (wa_id a) = Inr u" by auto
  then show ?thesis by (auto simp: fetch_one_def result_simps split: option.splits)
qed

lemma check_delete_E:
  assumes "check_delete P db q = Inr t"
  shows "transaction_of db (dr_transaction_id q) = Some t" "tx_workbook t = ''canonical-live''"
    "int (tx_revision t) = dr_expected_revision q" "\<not> dependent_audit db (dr_transaction_id q)"
    "\<not> month_closed db (take 7 (tx_date t))"
  using assms by (auto simp: check_delete_def result_simps)

lemma fresh_delete_E:
  assumes "fresh_delete P subject q db = Some (Inr (r, db'))"
  obtains t a b v projected d1 accounts d2 cats where "check_delete P db q = Inr t" "row_accounts db t = Inr (a, b)"
    "stored_valuation P db (dr_transaction_id q) = Inr v" "project_transaction (row_effect t v) = Inr projected"
    "check_revisions ''Provide the current ledger revision for every real account affected by this deletion.''
         ''An account changed after it was loaded. Refresh and retry the deletion.'' db [a, b] (dr_expected_accounts q) = Inr ()"
    "post_changes P (ecb_observations db) subtract_decimal_text db (account_deltas projected) = Inr (d1, accounts)"
    "keeps_books (delete_transaction (dr_transaction_id q) d1) d2"
    "r = delete_response P q accounts cats (deleted_snapshot db subject q t)"
    "db' = set_response (dr_operation_id q) (write_json P r) d2"
proof -
  from assms obtain t a b v projected d1 accounts d2 cats where 1: "check_delete P db q = Inr t" "row_accounts db t = Inr (a, b)"
    "stored_valuation P db (dr_transaction_id q) = Inr v" "project_transaction (row_effect t v) = Inr projected"
    "check_revisions ''Provide the current ledger revision for every real account affected by this deletion.''
         ''An account changed after it was loaded. Refresh and retry the deletion.'' db [a, b] (dr_expected_accounts q) = Inr ()"
    "post_changes P (ecb_observations db) subtract_decimal_text db (account_deltas projected) = Inr (d1, accounts)"
    and s: "sync_api P (delete_transaction (dr_transaction_id q) d1) (Some (dr_operation_id q)) = Some (Inr d2)"
    and 2: "r = delete_response P q accounts cats (deleted_snapshot db subject q t)"
    "db' = set_response (dr_operation_id q) (write_json P r) d2"
    unfolding fresh_delete_def by (auto simp: result_simps Let_def)
  from 1 sync_keeps_books [OF s] 2 that show ?thesis by blast
qed

lemma normalize_delete_ids:
  assumes "normalize_delete W q0 = Inr q"
  shows "dr_operation_id q = trim (dr_operation_id q0)" "dr_transaction_id q = trim (dr_transaction_id q0)"
    "dr_expected_revision q = dr_expected_revision q0"
  using assms by (auto simp: normalize_delete_def result_simps Let_def)

lemma delete_fresh_E:
  assumes "delete_db_transaction P W actor payload db = Some (Inr (r, db'))"
    and "find_operation db (trim (dr_operation_id payload)) = None"
  obtains subject q d where "actor = Inr subject" "writes_enabled W" "normalize_delete W payload = Inr q" "keeps_books db d"
    "fresh_delete P subject q (new_operation (dr_operation_id q) subject (delete_fingerprint P q) d) = Some (Inr (r, db'))"
proof -
  from assms(1) obtain subject q d where s: "actor = Inr subject" "writes_enabled W" "normalize_delete W payload = Inr q"
    and i: "initialize P db = Inr d"
    and rest: "(case find_operation d (dr_operation_id q) of
         Some o' \<Rightarrow> Some (replay_delete P subject (delete_fingerprint P q) o' d)
       | None \<Rightarrow> fresh_delete P subject q
           (new_operation (dr_operation_id q) subject (delete_fingerprint P q) d)) = Some (Inr (r, db'))"
    unfolding delete_db_transaction_def new_operation_def by (auto simp: result_simps Let_def)
  note d = initialize_keeps_books [OF i] and ids = normalize_delete_ids [OF s(3)]
  have "find_operation d (dr_operation_id q) = None" using assms(2) by (simp add: keeps_find_operation [OF d] ids)
  with rest s d that show ?thesis by simp
qed

lemma account_of_accounts: "account_of (delete_transaction i db) = account_of db" "accounts_table (delete_transaction i db) = accounts_table db"
  by (simp_all add: fun_eq_iff account_of_def delete_transaction_def)

text \<open>A loaded account is a row of the table.\<close>

definition account_row_for :: "db \<Rightarrow> write_account \<Rightarrow> bool" where
  "account_row_for db w \<longleftrightarrow> (\<exists>x. account_of db (wa_id w) = Some x \<and> wa_is_real w = acc_is_real x)"

lemma load_db_account_row: "load_db_account db i = Inr w \<Longrightarrow> wa_id w = i \<and> account_row_for db w"
proof -
  assume "load_db_account db i = Inr w"
  then obtain x where x: "account_of db i = Some x" "w = write_account_of x"
    by (auto simp: load_db_account_def result_simps)
  then have "acc_id x = i" unfolding account_of_def by (auto dest: first_row_filter)
  with x show "wa_id w = i \<and> account_row_for db w" by (simp add: write_account_of_def account_row_for_def)
qed

lemma row_accounts_E:
  assumes "row_accounts db t = Inr (a, b)"
  shows "tx_from_account t = Some (wa_id a)" "tx_to_account t = Some (wa_id b)" "account_row_for db a" "account_row_for db b"
proof -
  from assms obtain fa ta where "tx_from_account t = Some fa" "tx_to_account t = Some ta"
    "load_db_account db fa = Inr a" "load_db_account db ta = Inr b"
    by (auto simp: row_accounts_def result_simps)
  with load_db_account_row [of db fa a] load_db_account_row [of db ta b]
  show "tx_from_account t = Some (wa_id a)" "tx_to_account t = Some (wa_id b)" "account_row_for db a" "account_row_for db b"
    by auto
qed

text \<open>The revisions that a request expects are the current ones of every real account it touches.\<close>

definition revisions_current :: "db \<Rightarrow> (string \<times> int) list \<Rightarrow> string set \<Rightarrow> bool" where
  "revisions_current db expected touched \<longleftrightarrow>
     (\<forall>i\<in>touched. \<forall>a. account_of db i = Some a \<longrightarrow> acc_is_real a \<longrightarrow> map_of expected i = Some (acc_revision a))"

lemma post_changes_moved:
  assumes "post_changes P observations subtract_decimal_text db (account_deltas projected) = Inr (d, accounts)"
    and "project_transaction e = Inr projected" "distinct (map acc_id (accounts_table db))"
  shows "accounts_posted (\<lambda>i. - native_change e i) (moved (native_change e)) db d"
  using debit.post_changed [OF assms(1,3) bt_ok_distinct [OF account_deltas_keys(2) [OF assms(2)]]
      account_deltas_canonical [OF assms(2)]]
  by (simp add: account_deltas_change [OF assms(2)])

lemma delete_E:
  assumes "delete_db_transaction P W actor payload db = Some (Inr (r, db'))"
    and "find_operation db (trim (dr_operation_id payload)) = None" "distinct (map acc_id (accounts_table db))"
  obtains subject q t v where "actor = Inr subject" "writes_enabled W" "normalize_delete W payload = Inr q"
    "dr_transaction_id q = trim (dr_transaction_id payload)"
    "transaction_of db (trim (dr_transaction_id payload)) = Some t" "tx_workbook t = ''canonical-live''"
    "int (tx_revision t) = dr_expected_revision payload" "\<not> dependent_audit db (trim (dr_transaction_id payload))"
    "\<not> month_closed db (take 7 (tx_date t))" "stored_valuation P db (trim (dr_transaction_id payload)) = Inr v"
    "revisions_current db (dr_expected_accounts q) (effect_accounts (row_effect t v))"
    "transactions_table db' = filter (\<lambda>x. tx_id x \<noteq> trim (dr_transaction_id payload)) (transactions_table db)"
    "revisions_table db' = filter (\<lambda>x. rev_transaction x \<noteq> trim (dr_transaction_id payload)) (revisions_table db)"
    "valuations_table db' = filter (\<lambda>x. val_transaction x \<noteq> trim (dr_transaction_id payload)) (valuations_table db)"
    "list_all2 (account_posted (\<lambda>i. - native_change (row_effect t v) i) (moved (native_change (row_effect t v))))
       (accounts_table db) (accounts_table db')"
    "closures_table db' = closures_table db"
proof -
  from assms(1,2) obtain subject q d where s: "actor = Inr subject" "writes_enabled W" "normalize_delete W payload = Inr q"
    and k: "keeps_books db d" and
    f: "fresh_delete P subject q (new_operation (dr_operation_id q) subject (delete_fingerprint P q) d) = Some (Inr (r, db'))"
    by (rule delete_fresh_E)
  let ?d = "new_operation (dr_operation_id q) subject (delete_fingerprint P q) d"
  have same: "same_books db ?d" using keeps_same [OF k] new_operation_books by (rule same_books_trans)
  from f obtain t a b v projected d1 accounts d2 cats where c: "check_delete P ?d q = Inr t" and
    ab: "row_accounts ?d t = Inr (a, b)" and
    v: "stored_valuation P ?d (dr_transaction_id q) = Inr v" and projected: "project_transaction (row_effect t v) = Inr projected" and
    rev: "check_revisions ''Provide the current ledger revision for every real account affected by this deletion.''
         ''An account changed after it was loaded. Refresh and retry the deletion.'' ?d [a, b] (dr_expected_accounts q) = Inr ()" and
    post: "post_changes P (ecb_observations ?d) subtract_decimal_text ?d (account_deltas projected) = Inr (d1, accounts)" and
    b: "keeps_books (delete_transaction (dr_transaction_id q) d1) d2" and
    db': "db' = set_response (dr_operation_id q) (write_json P r) d2" by (rule fresh_delete_E)
  note ids = normalize_delete_ids [OF s(3)] and reads = same_books_reads [OF same] same_books_stored [OF same]
  have base: "accounts_table ?d = accounts_table db" "transactions_table ?d = transactions_table db"
    "valuations_table ?d = valuations_table db" "revisions_table ?d = revisions_table db" "closures_table ?d = closures_table db"
    using same by (simp_all add: same_books_def)
  have posted: "accounts_posted (\<lambda>i. - native_change (row_effect t v) i) (moved (native_change (row_effect t v))) ?d d1"
    using assms(3) by (intro post_changes_moved [OF post projected]) (simp add: base)
  have kept: "same_books (delete_transaction (dr_transaction_id q) d1) db'"
    unfolding db' using keeps_same [OF b] set_response_books by (rule same_books_trans)
  have rows: "transactions_table db' = filter (\<lambda>x. tx_id x \<noteq> dr_transaction_id q) (transactions_table db)"
    "revisions_table db' = filter (\<lambda>x. rev_transaction x \<noteq> dr_transaction_id q) (revisions_table db)"
    "valuations_table db' = filter (\<lambda>x. val_transaction x \<noteq> dr_transaction_id q) (valuations_table db)"
    "closures_table db' = closures_table db" "accounts_table db' = accounts_table d1"
    using kept by (simp_all add: same_books_def delete_transaction_def accounts_posted_fields [OF posted] base)
  have "revisions_current ?d (dr_expected_accounts q) (effect_accounts (row_effect t v))"
    using check_revisions_E [OF rev, of a] check_revisions_E [OF rev, of b] row_accounts_E [OF ab]
    by (auto simp: revisions_current_def effect_accounts_def row_effect_def account_row_for_def)
  then have "revisions_current db (dr_expected_accounts q) (effect_accounts (row_effect t v))"
    by (simp add: revisions_current_def reads)
  note rev = this and checked = check_delete_E [OF c, unfolded reads] v [unfolded reads]
  show ?thesis
  proof (rule that [of subject q t v])
    show "list_all2 (account_posted (\<lambda>i. - native_change (row_effect t v) i) (moved (native_change (row_effect t v))))
       (accounts_table db) (accounts_table db')"
      using posted by (simp add: accounts_posted_def rows base)
  qed (use s ids rev checked rows in simp_all)
qed

section \<open>A successful edit\<close>

lemma load_system_account_row:
  assumes "load_system_db_account db name = Inr w" "distinct (map acc_id (accounts_table db))"
  shows "account_row_for db w \<and> \<not> wa_is_real w"
proof -
  from assms(1) obtain a where a: "filter (\<lambda>a. same_nocase (acc_source_name a) name) (accounts_table db) = [a]"
    "\<not> acc_is_real a" "w = write_account_of a"
    by (auto simp: load_system_db_account_def split: list.splits if_splits)
  then have "a \<in> set (accounts_table db)" by (metis filter_eq_Cons_iff in_set_conv_decomp)
  with a account_of_distinct [OF assms(2), of "acc_id a" a] show ?thesis
    by (simp add: write_account_of_def account_row_for_def)
qed

lemma map_result_elements: "map_result f xs = Inr ys \<Longrightarrow> y \<in> set ys \<Longrightarrow> \<exists>x\<in>set xs. f x = Inr y"
  by (force simp: result_simps in_set_conv_nth list_all2_conv_all_nth)

lemma request_sides_rows:
  assumes "request_sides db p = Inr sd" "distinct (map acc_id (accounts_table db))"
  shows "account_row_for db (sd_from_account sd)" "account_row_for db (sd_to_account sd)"
proof -
  from assms(1) obtain ids accounts cats where
    loaded: "map_result (load_request_account db) ids = Inr accounts" and sides: "assign_sides db p accounts cats = Inr sd"
    by (auto simp: request_sides_def result_simps)
  have "account_row_for db w" if "w \<in> set accounts" for w
    using map_result_elements [OF loaded that]
    by (auto simp: load_request_account_def result_simps dest: load_db_account_row)
  then have named: "account_row_for db w" if "named_account accounts i = Inr w" for i w
    using that by (auto simp: named_account_def result_simps bind_eq_Some_conv dest!: first_row_filter)
  note row = load_system_account_row [OF _ assms(2)]
  from sides show "account_row_for db (sd_from_account sd)" "account_row_for db (sd_to_account sd)"
    by (auto simp: assign_sides_def Let_def result_simps split: if_splits dest: row named)
qed

lemma plan_edit_E:
  assumes "plan_edit P q t db = Inr (sd, v, unchanged, deltas)" "distinct (map acc_id (accounts_table db))"
  obtains old a b where "request_sides db (er_transaction q) = Inr sd" "row_accounts db t = Inr (a, b)"
    "unchanged = inputs_unchanged (er_transaction q) sd t a b"
    "stored_valuation P db (wr_transaction_id (er_transaction q)) = Inr old"
    "unchanged \<longrightarrow> v = old" "\<not> unchanged \<longrightarrow> request_valuation (er_transaction q) sd (ecb_observations db) = Inr v"
    "bt_entry deltas = (\<lambda>i. native_change (request_effect (er_transaction q) sd v) i - native_change (row_effect t old) i)"
    "distinct (map fst deltas)" "\<forall>d\<in>snd ` set deltas. canonical_text d"
    "revisions_current db (er_expected_accounts q)
       (effect_accounts (row_effect t old) \<union> effect_accounts (request_effect (er_transaction q) sd v))"
proof -
  let ?p = "er_transaction q"
  from assms(1) obtain a b old before after where
    1: "request_sides db ?p = Inr sd" "stored_valuation P db (wr_transaction_id ?p) = Inr old"
    and ab: "row_accounts db t = Inr (a, b)"
    and before: "project_transaction (row_effect t old) = Inr before"
    and u: "unchanged = inputs_unchanged ?p sd t a b"
    and v: "(if unchanged then Inr old else request_valuation ?p sd (ecb_observations db)) = Inr v"
    and after: "project_transaction (request_effect ?p sd v) = Inr after"
    and deltas: "difference_maps (account_deltas after) (account_deltas before) = Inr deltas"
    and rev: "check_revisions ''Provide the current ledger revision for every real account affected by this edit.''
       ''An account changed after it was loaded. Refresh and retry the edit.'' db
       [a, b, sd_from_account sd, sd_to_account sd] (er_expected_accounts q) = Inr ()"
    unfolding plan_edit_def Let_def by (auto simp: result_simps)
  note d = difference_maps_entries [OF deltas]
  have "revisions_current db (er_expected_accounts q)
       (effect_accounts (row_effect t old) \<union> effect_accounts (request_effect ?p sd v))"
    using check_revisions_E [OF rev, of a] check_revisions_E [OF rev, of b] row_accounts_E [OF ab]
      check_revisions_E [OF rev, of "sd_from_account sd"] check_revisions_E [OF rev, of "sd_to_account sd"]
      request_sides_rows [OF 1(1) assms(2)]
    by (auto simp: revisions_current_def effect_accounts_def row_effect_def request_effect_def account_row_for_def)
  moreover have "bt_entry deltas = (\<lambda>i. native_change (request_effect ?p sd v) i - native_change (row_effect t old) i)"
    by (simp add: d(1) account_deltas_change [OF before] account_deltas_change [OF after])
  ultimately show ?thesis using 1 v d(3) bt_ok_distinct [OF d(2)] by (intro that [OF _ ab u]) (auto split: if_splits)
qed

lemma check_edit_E:
  assumes "check_edit P db q = Inr t"
  shows "transaction_of db (wr_transaction_id (er_transaction q)) = Some t" "tx_workbook t = ''canonical-live''"
    "int (tx_revision t) = er_expected_revision q" "take 7 (wr_date (er_transaction q)) = take 7 (tx_date t)"
    "\<not> month_closed db (take 7 (tx_date t))"
    "\<not> (\<exists>c\<in>set (corrections_table db). cor_original c = wr_transaction_id (er_transaction q))"
  using assms by (auto simp: check_edit_def result_simps Let_def list_ex_iff)

text \<open>The rows of an edit: the transaction is updated in place, its valuations are appended.\<close>

definition edited_valuations :: "'d platform \<Rightarrow> write_request \<Rightarrow> sides \<Rightarrow> nat \<Rightarrow> transaction_valuation \<Rightarrow> bool \<Rightarrow> valuation_row list" where
  "edited_valuations P p sd revision v unchanged = (if unchanged then [] else
     [valuation_row_of P (wr_transaction_id p) ''from'' (wr_date p) revision (wa_currency (sd_from_account sd)) (from_side v),
      valuation_row_of P (wr_transaction_id p) ''to'' (wr_date p) revision (wa_currency (sd_to_account sd)) (to_side v)])"

definition replaced :: "string \<Rightarrow> (transaction_row \<Rightarrow> transaction_row) \<Rightarrow> transaction_row list \<Rightarrow> transaction_row list" where
  "replaced i f ts = map (\<lambda>t. if tx_id t = i then f t else t) ts"

lemma edit_rows_E:
  assumes "edit_rows P W q t sd v unchanged deltas db = Inr (occurred_at, accounts, d4)"
    and "distinct (map acc_id (accounts_table db))" "distinct (map fst deltas)" "\<forall>d\<in>snd ` set deltas. canonical_text d"
  defines "p \<equiv> er_transaction q"
  obtains d2 d3 where "d2 = db\<lparr>
      transactions_table := replaced (wr_transaction_id p) (edited_row P p sd occurred_at (Suc (tx_revision t))) (transactions_table db),
      valuations_table := valuations_table db @ edited_valuations P p sd (Suc (tx_revision t)) v unchanged\<rparr>"
    "accounts_posted (bt_entry deltas) (moved (bt_entry deltas)) d2 d3" "keeps_books d3 d4"
proof -
  from assms(1) obtain d1 d2 d3 where
    1: "update_transaction (wr_transaction_id p) (edited_row P p sd occurred_at (Suc (tx_revision t))) db = Inr d1" and
    2: "(if unchanged then Inr d1 else insert_valuations P p sd (Suc (tx_revision t)) v d1) = Inr d2" and
    3: "post_changes P (ecb_observations db) add_decimal_text d2 deltas = Inr (d3, accounts)" and
    4: "receipt d3 (wr_transaction_id p) (wr_income_treatment p) (wr_expected_month p) = Inr d4"
    unfolding edit_rows_def Let_def p_def by (auto simp: result_simps)
  from 1 have d1: "d1 = db\<lparr>transactions_table := replaced (wr_transaction_id p)
      (edited_row P p sd occurred_at (Suc (tx_revision t))) (transactions_table db)\<rparr>"
    by (simp add: update_transaction_def replaced_def split: if_splits)
  have d2: "d2 = db\<lparr>
      transactions_table := replaced (wr_transaction_id p) (edited_row P p sd occurred_at (Suc (tx_revision t))) (transactions_table db),
      valuations_table := valuations_table db @ edited_valuations P p sd (Suc (tx_revision t)) v unchanged\<rparr>"
    using 2 by (auto simp: d1 edited_valuations_def insert_valuations_def insert_valuation_def result_simps split: if_splits)
  have "accounts_posted (bt_entry deltas) (moved (bt_entry deltas)) d2 d3"
    using credit.post_changed [OF 3 _ assms(3,4)] assms(2) by (simp add: d2)
  with d2 receipt_keeps_books [OF 4] that show ?thesis by blast
qed

lemma fresh_edit_E:
  assumes "fresh_edit P W subject username q db = Some (Inr (r, db'))"
  defines "p \<equiv> er_transaction q"
  obtains t sd v unchanged deltas occurred_at accounts d1 d2 cats snapshot where
    "check_edit P db q = Inr t" "plan_edit P q t db = Inr (sd, v, unchanged, deltas)"
    "edit_rows P W q t sd v unchanged deltas db = Inr (occurred_at, accounts, d1)" "keeps_books d1 d2"
    "r = edit_response p (Suc (tx_revision t)) v accounts cats"
    "db' = set_response (wr_operation_id p) (write_json P r) (d2\<lparr>revisions_table := revisions_table d2 @
       [\<lparr>rev_transaction = wr_transaction_id p, rev_revision = Suc (tx_revision t), rev_operation = Some (wr_operation_id p),
         rev_snapshot = snapshot, rev_recorded_at = now_text P\<rparr>]\<rparr>)"
proof -
  from assms(1) obtain t sd v unchanged deltas occurred_at accounts d1 d2 d3 cats where
    1: "check_edit P db q = Inr t" "plan_edit P q t db = Inr (sd, v, unchanged, deltas)"
    "edit_rows P W q t sd v unchanged deltas db = Inr (occurred_at, accounts, d1)" and
    s: "sync_api P d1 (Some (wr_operation_id p)) = Some (Inr d2)" and
    3: "insert_revision d2 \<lparr>rev_transaction = wr_transaction_id p, rev_revision = Suc (tx_revision t),
         rev_operation = Some (wr_operation_id p),
         rev_snapshot = write_json P (edit_snapshot q sd occurred_at subject username (Suc (tx_revision t)) unchanged v),
         rev_recorded_at = now_text P\<rparr> = Inr d3" and
    4: "r = edit_response p (Suc (tx_revision t)) v accounts cats" "db' = set_response (wr_operation_id p) (write_json P r) d3"
    unfolding fresh_edit_def Let_def p_def by (auto simp: result_simps)
  from 3 have "d3 = d2\<lparr>revisions_table := revisions_table d2 @
       [\<lparr>rev_transaction = wr_transaction_id p, rev_revision = Suc (tx_revision t), rev_operation = Some (wr_operation_id p),
         rev_snapshot = write_json P (edit_snapshot q sd occurred_at subject username (Suc (tx_revision t)) unchanged v),
         rev_recorded_at = now_text P\<rparr>]\<rparr>" by (simp add: insert_revision_def split: if_splits)
  with that [OF 1 sync_keeps_books [OF s] 4(1)] 4(2) show ?thesis by simp
qed

lemma normalize_edit_E:
  assumes "normalize_edit W payload = Inr q"
  shows "normalize_db_transaction_write UNALLOCATED (er_transaction payload) = Inr (er_transaction q)"
    "wr_operation_id (er_transaction q) = wr_operation_id (er_transaction payload)"
    "wr_transaction_id (er_transaction q) = wr_transaction_id (er_transaction payload)"
    "er_expected_revision q = er_expected_revision payload"
proof -
  from assms show n: "normalize_db_transaction_write UNALLOCATED (er_transaction payload) = Inr (er_transaction q)"
    and "er_expected_revision q = er_expected_revision payload"
    by (auto simp: normalize_edit_def result_simps)
  from normalize_ids [OF n] show "wr_operation_id (er_transaction q) = wr_operation_id (er_transaction payload)"
    "wr_transaction_id (er_transaction q) = wr_transaction_id (er_transaction payload)" by auto
qed

lemma edit_fresh_E:
  assumes "edit_db_transaction P W session payload db = Some (Inr (r, db'))"
    and "find_operation db (wr_operation_id (er_transaction payload)) = None"
  obtains subject username q d where "session = Inr (subject, username)" "writes_enabled W" "normalize_edit W payload = Inr q"
    "keeps_books db d" "fresh_edit P W subject username q (new_operation (wr_operation_id (er_transaction q)) subject
       (edit_fingerprint P q) d) = Some (Inr (r, db'))"
proof -
  from assms(1) obtain subject username q d where s: "session = Inr (subject, username)" "writes_enabled W"
    "normalize_edit W payload = Inr q" and i: "initialize P db = Inr d"
    and rest: "(case find_operation d (wr_operation_id (er_transaction q)) of
         Some o' \<Rightarrow> Some (replay_edit P subject (edit_fingerprint P q) q o' d)
       | None \<Rightarrow> fresh_edit P W subject username q
           (new_operation (wr_operation_id (er_transaction q)) subject (edit_fingerprint P q) d)) = Some (Inr (r, db'))"
    unfolding edit_db_transaction_def new_operation_def by (auto simp: result_simps Let_def)
  note d = initialize_keeps_books [OF i] and ids = normalize_edit_E [OF s(3)]
  have "find_operation d (wr_operation_id (er_transaction q)) = None" using assms(2) by (simp add: keeps_find_operation [OF d] ids)
  with rest s d that show ?thesis by simp
qed

lemma edit_E:
  assumes "edit_db_transaction P W session payload db = Some (Inr (r, db'))"
    and "find_operation db (wr_operation_id (er_transaction payload)) = None" "distinct (map acc_id (accounts_table db))"
  obtains subject username q p t sd a b old v occurred_at snapshot unchanged where "session = Inr (subject, username)"
    "writes_enabled W" "normalize_edit W payload = Inr q" "p = er_transaction q"
    "wr_transaction_id p = wr_transaction_id (er_transaction payload)"
    "transaction_of db (wr_transaction_id p) = Some t" "tx_workbook t = ''canonical-live''"
    "int (tx_revision t) = er_expected_revision payload" "take 7 (wr_date p) = take 7 (tx_date t)"
    "\<not> month_closed db (take 7 (tx_date t))"
    "\<not> (\<exists>c\<in>set (corrections_table db). cor_original c = wr_transaction_id p)"
    "request_sides db p = Inr sd" "stored_valuation P db (wr_transaction_id p) = Inr old"
    "row_accounts db t = Inr (a, b)" "unchanged = inputs_unchanged p sd t a b"
    "unchanged \<longrightarrow> v = old" "\<not> unchanged \<longrightarrow> request_valuation p sd (ecb_observations db) = Inr v"
    "revisions_current db (er_expected_accounts q) (effect_accounts (row_effect t old) \<union> effect_accounts (request_effect p sd v))"
    "transactions_table db' = replaced (wr_transaction_id p) (edited_row P p sd occurred_at (Suc (tx_revision t))) (transactions_table db)"
    "valuations_table db' = valuations_table db @ edited_valuations P p sd (Suc (tx_revision t)) v unchanged"
    "revisions_table db' = revisions_table db @ [\<lparr>rev_transaction = wr_transaction_id p, rev_revision = Suc (tx_revision t),
       rev_operation = Some (wr_operation_id p), rev_snapshot = snapshot, rev_recorded_at = now_text P\<rparr>]"
    "list_all2 (account_posted (\<lambda>i. native_change (request_effect p sd v) i - native_change (row_effect t old) i)
       (moved (\<lambda>i. native_change (request_effect p sd v) i - native_change (row_effect t old) i)))
       (accounts_table db) (accounts_table db')"
    "closures_table db' = closures_table db"
proof -
  from assms(1,2) obtain subject username q d where s: "session = Inr (subject, username)" "writes_enabled W"
    "normalize_edit W payload = Inr q" and k: "keeps_books db d" and
    f: "fresh_edit P W subject username q (new_operation (wr_operation_id (er_transaction q)) subject
       (edit_fingerprint P q) d) = Some (Inr (r, db'))" by (rule edit_fresh_E)
  define p where "p = er_transaction q"
  let ?d = "new_operation (wr_operation_id (er_transaction q)) subject (edit_fingerprint P q) d"
  have same: "same_books db ?d" using keeps_same [OF k] new_operation_books by (rule same_books_trans)
  note reads = same_books_reads [OF same] same_books_stored [OF same] same_books_sides [OF same]
  have base: "accounts_table ?d = accounts_table db" "transactions_table ?d = transactions_table db"
    "valuations_table ?d = valuations_table db" "revisions_table ?d = revisions_table db" "closures_table ?d = closures_table db"
    "corrections_table ?d = corrections_table db"
    using same by (simp_all add: same_books_def)
  note ids = normalize_edit_E [OF s(3), folded p_def]
  have distinct: "distinct (map acc_id (accounts_table ?d))" using assms(3) by (simp only: base)
  from f obtain t sd v unchanged deltas occurred_at accounts d1 d2 cats snapshot where
    c: "check_edit P ?d q = Inr t" and plan: "plan_edit P q t ?d = Inr (sd, v, unchanged, deltas)" and
    rows: "edit_rows P W q t sd v unchanged deltas ?d = Inr (occurred_at, accounts, d1)" and k2: "keeps_books d1 d2" and
    db': "db' = set_response (wr_operation_id p) (write_json P r) (d2\<lparr>revisions_table := revisions_table d2 @
       [\<lparr>rev_transaction = wr_transaction_id p, rev_revision = Suc (tx_revision t), rev_operation = Some (wr_operation_id p),
         rev_snapshot = snapshot, rev_recorded_at = now_text P\<rparr>]\<rparr>)"
    unfolding p_def by (rule fresh_edit_E)
  from plan distinct obtain old a b where old: "request_sides ?d p = Inr sd" "stored_valuation P ?d (wr_transaction_id p) = Inr old"
    "unchanged \<longrightarrow> v = old" "\<not> unchanged \<longrightarrow> request_valuation p sd (ecb_observations ?d) = Inr v" and
    ab: "row_accounts ?d t = Inr (a, b)" "unchanged = inputs_unchanged p sd t a b" and
    deltas: "bt_entry deltas = (\<lambda>i. native_change (request_effect p sd v) i - native_change (row_effect t old) i)"
    "distinct (map fst deltas)" "\<forall>d\<in>snd ` set deltas. canonical_text d" and
    rev: "revisions_current ?d (er_expected_accounts q) (effect_accounts (row_effect t old) \<union> effect_accounts (request_effect p sd v))"
    unfolding p_def by (rule plan_edit_E)
  from rows distinct deltas(2,3) obtain e2 e3 where e2: "e2 = ?d\<lparr>
      transactions_table := replaced (wr_transaction_id p) (edited_row P p sd occurred_at (Suc (tx_revision t))) (transactions_table ?d),
      valuations_table := valuations_table ?d @ edited_valuations P p sd (Suc (tx_revision t)) v unchanged\<rparr>"
    and posted: "accounts_posted (bt_entry deltas) (moved (bt_entry deltas)) e2 e3" and k1: "keeps_books e3 d1"
    unfolding p_def by (rule edit_rows_E)
  have "same_books e3 d2" using keeps_same [OF k1] keeps_same [OF k2] by (rule same_books_trans)
  then have tables: "transactions_table db' = transactions_table e2" "valuations_table db' = valuations_table e2"
    "revisions_table db' = revisions_table e2 @ [\<lparr>rev_transaction = wr_transaction_id p, rev_revision = Suc (tx_revision t),
       rev_operation = Some (wr_operation_id p), rev_snapshot = snapshot, rev_recorded_at = now_text P\<rparr>]"
    "closures_table db' = closures_table e2" "accounts_table db' = accounts_table e3"
    by (simp_all add: db' set_response_def same_books_def accounts_posted_fields [OF posted])
  note checked = check_edit_E [OF c, unfolded reads base, folded p_def] old [unfolded reads]
  have revc: "revisions_current db (er_expected_accounts q) (effect_accounts (row_effect t old) \<union> effect_accounts (request_effect p sd v))"
    using rev by (simp add: revisions_current_def reads)
  have ab: "row_accounts db t = Inr (a, b)" "unchanged = inputs_unchanged p sd t a b"
    using ab by (simp_all add: row_accounts_def load_db_account_def reads)
  note written = tables(1-4) [unfolded e2, simplified, unfolded base]
  show ?thesis
  proof (rule that [of subject username q p t sd old a b unchanged v occurred_at snapshot])
    show "list_all2 (account_posted (\<lambda>i. native_change (request_effect p sd v) i - native_change (row_effect t old) i)
       (moved (\<lambda>i. native_change (request_effect p sd v) i - native_change (row_effect t old) i)))
       (accounts_table db) (accounts_table db')"
      using posted unfolding accounts_posted_def deltas(1) tables by (simp add: e2 base)
  qed (use s ids checked ab revc written p_def in simp_all)
qed

section \<open>Postings that cancel\<close>

lemma latest_new_valuation:
  assumes "\<forall>x\<in>set vs. val_transaction x \<noteq> i" "val_transaction a = i" "val_transaction b = i" "val_side a = ''from''" "val_side b = ''to''"
    "valuations_table db = vs @ [a, b]"
  shows "latest_valuation db i ''from'' = Some a" "latest_valuation db i ''to'' = Some b"
proof -
  have "filter (\<lambda>v. val_transaction v = i \<and> val_side v = s) vs = []" for s
    using assms(1) by (auto simp: filter_empty_conv)
  then show "latest_valuation db i ''from'' = Some a" "latest_valuation db i ''to'' = Some b"
    using assms(2-6) by (simp_all add: latest_valuation_def last_max_def)
qed

lemma stored_amounts:
  assumes "stored_valuation P db i = Inr v" "latest_valuation db i ''from'' = Some a" "latest_valuation db i ''to'' = Some b"
  shows "val_native a = Some (amount_native (from_side v))" "val_native b = Some (amount_native (to_side v))"
  using assms by (auto simp: stored_valuation_def load_stored_side_valuation_def result_simps Let_def case_prod_beta)

definition same_balance :: "account_row \<Rightarrow> account_row \<Rightarrow> bool" where
  "same_balance a a' \<longleftrightarrow> acc_id a' = acc_id a
     \<and> map_option text_value (acc_native_balance a') = map_option text_value (acc_native_balance a)"

lemma posted_back:
  assumes "account_posted c k a a1" "account_posted (\<lambda>i. - c i) (moved c) a1 a2" "\<And>i. i \<notin> k \<Longrightarrow> c i = 0"
  shows "same_balance a a2"
proof (cases "acc_id a \<in> moved c")
  case True
  then have "acc_id a \<in> k" using assms(3) by (auto simp: moved_def)
  with True assms(1,2) show ?thesis
    by (auto simp: account_posted_def same_balance_def split: if_splits)
next
  case False
  with account_posted_key [OF assms(1)] assms(2) have "a2 = a1" by (auto simp: account_posted_def split: if_splits)
  with False assms(1) show ?thesis
    by (auto simp: account_posted_def same_balance_def moved_def split: if_splits)
qed

end
