(* ===== verification/Books.thy ===== *)
theory Books
  imports Postings
begin

text \<open>
  The books of the household as an abstract machine: \<open>book_event\<close> adds, replaces or strikes a row of an
  open month, and every request that the handlers of the transactions accept is such an event
  (\<open>create_event\<close>, \<open>edit_event\<close>, \<open>delete_event\<close>).
\<close>

section \<open>The books over a sequence of writes\<close>

text \<open>
  The tables agree with each other: ids are unique, and every revision and valuation belongs to a
  transaction that is at least at that revision.
\<close>

definition books_ok :: "db \<Rightarrow> bool" where
  "books_ok db \<longleftrightarrow> distinct (map acc_id (accounts_table db)) \<and> distinct (map tx_id (transactions_table db))
     \<and> (\<forall>v\<in>set (valuations_table db). \<exists>t\<in>set (transactions_table db). tx_id t = val_transaction v \<and> val_revision v \<le> tx_revision t)
     \<and> (\<forall>r\<in>set (revisions_table db). \<exists>t\<in>set (transactions_table db). tx_id t = rev_transaction r \<and> rev_revision r \<le> tx_revision t)"

text \<open>
  One request of the household. The clock and the environment may differ from step to step, so a
  step takes them from a set.
\<close>

inductive write_step :: "('d platform \<times> write_env) set \<Rightarrow> db \<Rightarrow> db \<Rightarrow> bool" for Ps where
  recorded: "(P, W) \<in> Ps \<Longrightarrow> create_db_transaction P W session payload db = Some (Inr (r, db')) \<Longrightarrow> write_step Ps db db'"
| edited: "(P, W) \<in> Ps \<Longrightarrow> edit_db_transaction P W session change db = Some (Inr (r, db')) \<Longrightarrow> write_step Ps db db'"
| deleted: "(P, W) \<in> Ps \<Longrightarrow> delete_db_transaction P W actor removal db = Some (Inr (r, db')) \<Longrightarrow> write_step Ps db db'"

definition closed_rows :: "db \<Rightarrow> db \<Rightarrow> transaction_row list" where
  "closed_rows db db' = filter (\<lambda>t. month_closed db (take 7 (tx_date t))) (transactions_table db')"

lemma replay_books:
  assumes "find_operation db i = Some o'" "initialize P db = Inr d"
  shows "find_operation d i = Some o'" "keeps_books db d"
  using assms(1) keeps_find_operation [OF initialize_keeps_books [OF assms(2)]] initialize_keeps_books [OF assms(2)] by auto

lemma create_replayed:
  assumes "create_db_transaction P W session payload db = Some (Inr (r, db'))"
    and "find_operation db (wr_operation_id payload) = Some o'"
  shows "keeps_books db db' \<and> stored_response P o' = Inr r"
proof -
  from assms(1) obtain subject username p d where n: "normalize_db_transaction_write UNALLOCATED payload = Inr p"
    and i: "initialize P db = Inr d" and rest: "(case find_operation d (wr_operation_id p) of
         Some o' \<Rightarrow> Some (replay_create P subject (write_fingerprint P p) o' d)
       | None \<Rightarrow> fresh_create P W subject username (write_fingerprint P p) p
           (new_operation (wr_operation_id p) subject (write_fingerprint P p) d)) = Some (Inr (r, db'))"
    unfolding create_db_transaction_def new_operation_def by (auto simp: result_simps Let_def)
  with replay_books [OF assms(2) i] normalize_ids [OF n] show ?thesis
    by (auto simp: replay_create_def result_simps)
qed

lemma edit_replayed:
  assumes "edit_db_transaction P W session payload db = Some (Inr (r, db'))"
    and "find_operation db (wr_operation_id (er_transaction payload)) = Some o'"
  shows "keeps_books db db' \<and> stored_response P o' = Inr r"
proof -
  from assms(1) obtain subject username q d where n: "normalize_edit W payload = Inr q"
    and i: "initialize P db = Inr d" and rest: "(case find_operation d (wr_operation_id (er_transaction q)) of
         Some o' \<Rightarrow> Some (replay_edit P subject (edit_fingerprint P q) q o' d)
       | None \<Rightarrow> fresh_edit P W subject username q
           (new_operation (wr_operation_id (er_transaction q)) subject (edit_fingerprint P q) d)) = Some (Inr (r, db'))"
    unfolding edit_db_transaction_def new_operation_def by (auto simp: result_simps Let_def)
  with replay_books [OF assms(2) i] normalize_edit_E [OF n] show ?thesis
    by (auto simp: replay_edit_def result_simps)
qed

lemma delete_replayed:
  assumes "delete_db_transaction P W actor payload db = Some (Inr (r, db'))"
    and "find_operation db (trim (dr_operation_id payload)) = Some o'"
  shows "keeps_books db db' \<and> stored_response P o' = Inr r"
proof -
  from assms(1) obtain subject q d where n: "normalize_delete W payload = Inr q" and i: "initialize P db = Inr d"
    and rest: "(case find_operation d (dr_operation_id q) of
         Some o' \<Rightarrow> Some (replay_delete P subject (delete_fingerprint P q) o' d)
       | None \<Rightarrow> fresh_delete P subject q
           (new_operation (dr_operation_id q) subject (delete_fingerprint P q) d)) = Some (Inr (r, db'))"
    unfolding delete_db_transaction_def new_operation_def by (auto simp: result_simps Let_def)
  with replay_books [OF assms(2) i] normalize_delete_ids [OF n] show ?thesis
    by (auto simp: replay_delete_def result_simps)
qed

section \<open>The books, abstractly\<close>

text \<open>
  The books of the household: the rows, which revisions of them have a valuation or an audit, and the
  closed months. An event adds a row, replaces one within its month, or strikes one out, always in an
  open month.
\<close>

record books =
  bk_rows :: "transaction_row list"
  bk_valued :: "(string \<times> nat) list"
  bk_revised :: "(string \<times> nat) list"
  bk_closed :: "string \<Rightarrow> bool"

definition books_of :: "db \<Rightarrow> books" where
  "books_of db = \<lparr>bk_rows = transactions_table db,
     bk_valued = map (\<lambda>v. (val_transaction v, val_revision v)) (valuations_table db),
     bk_revised = map (\<lambda>r. (rev_transaction r, rev_revision r)) (revisions_table db), bk_closed = month_closed db\<rparr>"

abbreviation tx_month :: "transaction_row \<Rightarrow> string" where
  "tx_month t \<equiv> take 7 (tx_date t)"

inductive book_event :: "books \<Rightarrow> books \<Rightarrow> bool" where
  idle: "book_event b b"
| add: "tx_id t \<notin> tx_id ` set (bk_rows b) \<Longrightarrow> \<not> bk_closed b (tx_month t) \<Longrightarrow> tx_revision t = 1 \<Longrightarrow>
    book_event b (b\<lparr>bk_rows := bk_rows b @ [t], bk_valued := bk_valued b @ [(tx_id t, 1), (tx_id t, 1)],
      bk_revised := bk_revised b @ [(tx_id t, 1)]\<rparr>)"
| change: "t \<in> set (bk_rows b) \<Longrightarrow> \<not> bk_closed b (tx_month t) \<Longrightarrow> tx_id t' = tx_id t \<Longrightarrow> tx_month t' = tx_month t \<Longrightarrow>
    tx_revision t' = Suc (tx_revision t) \<Longrightarrow> vs \<in> {[], [(tx_id t, tx_revision t'), (tx_id t, tx_revision t')]} \<Longrightarrow>
    book_event b (b\<lparr>bk_rows := map (\<lambda>x. if tx_id x = tx_id t then t' else x) (bk_rows b), bk_valued := bk_valued b @ vs,
      bk_revised := bk_revised b @ [(tx_id t, tx_revision t')]\<rparr>)"
| strike: "t \<in> set (bk_rows b) \<Longrightarrow> \<not> bk_closed b (tx_month t) \<Longrightarrow>
    book_event b (b\<lparr>bk_rows := filter (\<lambda>x. tx_id x \<noteq> tx_id t) (bk_rows b),
      bk_valued := filter (\<lambda>x. fst x \<noteq> tx_id t) (bk_valued b), bk_revised := filter (\<lambda>x. fst x \<noteq> tx_id t) (bk_revised b)\<rparr>)"

definition noted :: "transaction_row list \<Rightarrow> string \<times> nat \<Rightarrow> bool" where
  "noted rows x \<longleftrightarrow> (\<exists>t\<in>set rows. tx_id t = fst x \<and> snd x \<le> tx_revision t)"

definition books_sound :: "books \<Rightarrow> bool" where
  "books_sound b \<longleftrightarrow> distinct (map tx_id (bk_rows b))
     \<and> (\<forall>x\<in>set (bk_valued b). noted (bk_rows b) x) \<and> (\<forall>x\<in>set (bk_revised b). noted (bk_rows b) x)"

lemma books_ok_sound: "books_ok db \<longleftrightarrow> distinct (map acc_id (accounts_table db)) \<and> books_sound (books_of db)"
  by (auto simp: books_ok_def books_sound_def books_of_def noted_def)

lemma replaced_ids: "tx_id t' = i \<Longrightarrow> map tx_id (map (\<lambda>x. if tx_id x = i then t' else x) xs) = map tx_id xs"
  by auto

lemma noted_append: "noted rows x \<Longrightarrow> noted (rows @ ts) x"
  by (auto simp: noted_def)

lemma noted_replaced:
  assumes "distinct (map tx_id rows)" "t \<in> set rows" "tx_id t' = tx_id t" "tx_revision t \<le> tx_revision t'"
  shows "noted rows x \<Longrightarrow> noted (map (\<lambda>x. if tx_id x = tx_id t then t' else x) rows) x"
    and "noted (map (\<lambda>x. if tx_id x = tx_id t then t' else x) rows) (tx_id t, tx_revision t')"
proof -
  let ?rows = "map (\<lambda>x. if tx_id x = tx_id t then t' else x) rows"
  have t': "t' \<in> set ?rows" using assms(2) by (auto simp: image_iff)
  then show "noted ?rows (tx_id t, tx_revision t')" using assms(3) by (auto simp: noted_def)
  assume "noted rows x"
  then obtain u where u: "u \<in> set rows" "tx_id u = fst x" "snd x \<le> tx_revision u" unfolding noted_def by blast
  show "noted ?rows x"
  proof (cases "tx_id u = tx_id t")
    case True
    then have "u = t" using assms(1,2) u(1) by (auto simp: distinct_map dest: inj_onD)
    with u assms(3,4) t' show ?thesis unfolding noted_def by (intro bexI [of _ t']) auto
  next
    case False
    with u show ?thesis unfolding noted_def by (intro bexI [of _ u]) auto
  qed
qed

lemma book_event_sound: "book_event b b' \<Longrightarrow> books_sound b \<Longrightarrow> books_sound b'"
proof (induction rule: book_event.induct)
  case (add t b)
  moreover have "noted (bk_rows b @ [t]) (tx_id t, 1)" using add.hyps(3) by (auto simp: noted_def)
  ultimately show ?case by (auto simp: books_sound_def noted_append)
next
  case (change t b t' vs)
  note rows = noted_replaced [of "bk_rows b" t t', OF _ change.hyps(1,3)]
  from change.prems rows change.hyps(3,5,6) show ?case
    by (auto simp: books_sound_def replaced_ids simp del: map_map)
next
  case (strike t b)
  then show ?case by (fastforce simp: books_sound_def distinct_map_filter noted_def)
qed

lemma book_event_closed:
  "book_event b b' \<Longrightarrow> books_sound b \<Longrightarrow> bk_closed b' = bk_closed b
     \<and> filter (\<lambda>t. bk_closed b (tx_month t)) (bk_rows b') = filter (\<lambda>t. bk_closed b (tx_month t)) (bk_rows b)"
proof (induction rule: book_event.induct)
  case (change t b t' vs)
  have same: "x = t" if "x \<in> set (bk_rows b)" "tx_id x = tx_id t" for x
    using change.prems change.hyps(1) that by (auto simp: books_sound_def distinct_map dest: inj_onD)
  have "filter (\<lambda>t. bk_closed b (tx_month t)) (map (\<lambda>x. if tx_id x = tx_id t then t' else x) xs)
      = filter (\<lambda>t. bk_closed b (tx_month t)) xs" if "set xs \<subseteq> set (bk_rows b)" for xs
    using that by (induction xs) (use same change.hyps(2,4) in auto)
  then show ?case by simp
next
  case (strike t b)
  have same: "x = t" if "x \<in> set (bk_rows b)" "tx_id x = tx_id t" for x
    using strike.prems strike.hyps(1) that by (auto simp: books_sound_def distinct_map dest: inj_onD)
  then show ?case using strike.hyps(2) by (auto intro!: filter_cong)
qed auto

section \<open>The handlers implement the books\<close>

lemma posted_ids: "list_all2 (account_posted c k) xs ys \<Longrightarrow> map acc_id ys = map acc_id xs"
  by (auto simp: list_all2_conv_all_nth list_eq_iff_nth_eq dest!: account_posted_key)

lemma keeps_books_idle: "keeps_books db db' \<Longrightarrow> books_of db' = books_of db \<and> accounts_table db' = accounts_table db"
  by (simp add: books_defs books_of_def fun_eq_iff month_closed_def)

lemma transaction_of_Some: "transaction_of db i = Some t \<Longrightarrow> t \<in> set (transactions_table db) \<and> tx_id t = i"
  unfolding transaction_of_def by (rule first_row_filter)

lemma transaction_of_None: "transaction_of db i = None \<Longrightarrow> i \<notin> tx_id ` set (transactions_table db)"
  by (auto simp: transaction_of_def first_row_def filter_empty_conv split: list.splits)

lemma closed_cong: "closures_table db' = closures_table db \<Longrightarrow> month_closed db' = month_closed db"
  by (simp add: fun_eq_iff month_closed_def)

lemma create_event:
  assumes "create_db_transaction P W session payload db = Some (Inr (r, db'))" "books_ok db"
  shows "book_event (books_of db) (books_of db') \<and> map acc_id (accounts_table db') = map acc_id (accounts_table db)"
proof (cases "find_operation db (wr_operation_id payload)")
  case (Some o')
  from create_replayed [OF assms(1) Some] have "keeps_books db db'" by simp
  from keeps_books_idle [OF this] show ?thesis by (simp add: book_event.idle)
next
  case None
  have distinct: "distinct (map acc_id (accounts_table db))" using assms(2) by (simp add: books_ok_def)
  show ?thesis
  proof (rule create_E [OF assms(1) None distinct])
    fix subject username p sd v occurred_at t snapshot
    assume p: "\<not> month_closed db (take 7 (wr_date p))" "wr_transaction_id p = wr_transaction_id payload"
      "transaction_of db (wr_transaction_id payload) = None"
      "t = transaction_row_of P subject (write_fingerprint P p) p sd occurred_at (next_transaction_row db)"
      and rows: "transactions_table db' = transactions_table db @ [t]"
      "valuations_table db' = valuations_table db @
        [valuation_row_of P (wr_transaction_id p) ''from'' (wr_date p) 1 (wa_currency (sd_from_account sd)) (from_side v),
         valuation_row_of P (wr_transaction_id p) ''to'' (wr_date p) 1 (wa_currency (sd_to_account sd)) (to_side v)]"
      "revisions_table db' = revisions_table db @ [\<lparr>rev_transaction = wr_transaction_id p, rev_revision = 1,
        rev_operation = Some (wr_operation_id p), rev_snapshot = snapshot, rev_recorded_at = now_text P\<rparr>]"
      "closures_table db' = closures_table db"
      and posted: "list_all2 (account_posted (native_change (row_effect t v)) (effect_accounts (row_effect t v)))
       (accounts_table db) (accounts_table db')"
    have t: "tx_id t = wr_transaction_id payload" "tx_date t = wr_date p" "tx_revision t = 1"
      by (simp_all add: p(2,4) transaction_row_of_def)
    have "books_of db' = (books_of db)\<lparr>bk_rows := bk_rows (books_of db) @ [t],
        bk_valued := bk_valued (books_of db) @ [(tx_id t, 1), (tx_id t, 1)],
        bk_revised := bk_revised (books_of db) @ [(tx_id t, 1)]\<rparr>"
      by (simp add: books_of_def rows closed_cong [OF rows(4)] valuation_row_of_def t p(2))
    moreover have "book_event (books_of db) \<dots>"
    proof (rule book_event.add)
      show "tx_id t \<notin> tx_id ` set (bk_rows (books_of db))" using transaction_of_None [OF p(3)] by (simp add: books_of_def t)
      show "\<not> bk_closed (books_of db) (tx_month t)" using p(1) by (simp add: books_of_def t)
    qed (rule t(3))
    ultimately show ?thesis using posted_ids [OF posted] by simp
  qed
qed

lemma edit_event:
  assumes "edit_db_transaction P W session payload db = Some (Inr (r, db'))" "books_ok db"
  shows "book_event (books_of db) (books_of db') \<and> map acc_id (accounts_table db') = map acc_id (accounts_table db)"
proof (cases "find_operation db (wr_operation_id (er_transaction payload))")
  case (Some o')
  from edit_replayed [OF assms(1) Some] have "keeps_books db db'" by simp
  from keeps_books_idle [OF this] show ?thesis by (simp add: book_event.idle)
next
  case None
  have distinct: "distinct (map acc_id (accounts_table db))" "distinct (map tx_id (transactions_table db))"
    using assms(2) by (simp_all add: books_ok_def)
  show ?thesis
  proof (rule edit_E [OF assms(1) None distinct(1)])
    fix p t sd v occurred_at snapshot unchanged c
    assume p: "transaction_of db (wr_transaction_id p) = Some t" "take 7 (wr_date p) = take 7 (tx_date t)"
      "\<not> month_closed db (take 7 (tx_date t))"
      and rows: "transactions_table db' = replaced (wr_transaction_id p) (edited_row P p sd occurred_at (Suc (tx_revision t))) (transactions_table db)"
      "valuations_table db' = valuations_table db @ edited_valuations P p sd (Suc (tx_revision t)) v unchanged"
      "revisions_table db' = revisions_table db @ [\<lparr>rev_transaction = wr_transaction_id p, rev_revision = Suc (tx_revision t),
       rev_operation = Some (wr_operation_id p), rev_snapshot = snapshot, rev_recorded_at = now_text P\<rparr>]"
      "closures_table db' = closures_table db"
      and posted: "list_all2 (account_posted c (moved c)) (accounts_table db) (accounts_table db')"
    define t' where "t' = edited_row P p sd occurred_at (Suc (tx_revision t)) t"
    note t = transaction_of_Some [OF p(1)]
    have t': "tx_id t' = tx_id t" "tx_month t' = tx_month t" "tx_revision t' = Suc (tx_revision t)"
      by (simp_all add: t'_def edited_row_def p(2))
    have "x = t" if "x \<in> set (transactions_table db)" "tx_id x = tx_id t" for x
      using distinct(2) t that unfolding distinct_map inj_on_def by blast
    then have replaced: "transactions_table db' = map (\<lambda>x. if tx_id x = tx_id t then t' else x) (transactions_table db)"
      using t by (auto simp: rows replaced_def t'_def)
    let ?vs = "map (\<lambda>v. (val_transaction v, val_revision v)) (edited_valuations P p sd (Suc (tx_revision t)) v unchanged)"
    have "books_of db' = (books_of db)\<lparr>bk_rows := map (\<lambda>x. if tx_id x = tx_id t then t' else x) (bk_rows (books_of db)),
        bk_valued := bk_valued (books_of db) @ ?vs, bk_revised := bk_revised (books_of db) @ [(tx_id t, tx_revision t')]\<rparr>"
      using t by (simp add: books_of_def replaced rows(2-4) closed_cong [OF rows(4)] t'(3))
    moreover have "book_event (books_of db) \<dots>"
      by (rule book_event.change [OF _ _ t']) (use p t t' in \<open>simp_all add: books_of_def edited_valuations_def valuation_row_of_def\<close>)
    ultimately show ?thesis using posted_ids [OF posted] by simp
  qed
qed

lemma delete_event:
  assumes "delete_db_transaction P W actor payload db = Some (Inr (r, db'))" "books_ok db"
  shows "book_event (books_of db) (books_of db') \<and> map acc_id (accounts_table db') = map acc_id (accounts_table db)"
proof (cases "find_operation db (trim (dr_operation_id payload))")
  case (Some o')
  from delete_replayed [OF assms(1) Some] have "keeps_books db db'" by simp
  from keeps_books_idle [OF this] show ?thesis by (simp add: book_event.idle)
next
  case None
  have distinct: "distinct (map acc_id (accounts_table db))" using assms(2) by (simp add: books_ok_def)
  show ?thesis
  proof (rule delete_E [OF assms(1) None distinct])
    fix t v
    assume p: "transaction_of db (trim (dr_transaction_id payload)) = Some t" "\<not> month_closed db (take 7 (tx_date t))"
      and rows: "transactions_table db' = filter (\<lambda>x. tx_id x \<noteq> trim (dr_transaction_id payload)) (transactions_table db)"
      "revisions_table db' = filter (\<lambda>x. rev_transaction x \<noteq> trim (dr_transaction_id payload)) (revisions_table db)"
      "valuations_table db' = filter (\<lambda>x. val_transaction x \<noteq> trim (dr_transaction_id payload)) (valuations_table db)"
      "closures_table db' = closures_table db"
      and posted: "list_all2 (account_posted (\<lambda>i. - native_change (row_effect t v) i) (moved (native_change (row_effect t v))))
         (accounts_table db) (accounts_table db')"
    note t = transaction_of_Some [OF p(1)]
    have "books_of db' = (books_of db)\<lparr>bk_rows := filter (\<lambda>x. tx_id x \<noteq> tx_id t) (bk_rows (books_of db)),
        bk_valued := filter (\<lambda>x. fst x \<noteq> tx_id t) (bk_valued (books_of db)),
        bk_revised := filter (\<lambda>x. fst x \<noteq> tx_id t) (bk_revised (books_of db))\<rparr>"
      using t by (simp add: books_of_def rows closed_cong [OF rows(4)] filter_map comp_def)
    moreover have "book_event (books_of db) \<dots>"
    proof (rule book_event.strike)
      show "t \<in> set (bk_rows (books_of db))" using t by (simp add: books_of_def)
      show "\<not> bk_closed (books_of db) (tx_month t)" using p(2) by (simp add: books_of_def)
    qed
    ultimately show ?thesis using posted_ids [OF posted] by simp
  qed
qed

lemma write_step_sound: "write_step Ps db db' \<Longrightarrow> books_ok db \<Longrightarrow> book_event (books_of db) (books_of db') \<and> books_ok db'"
proof (induction rule: write_step.induct)
  case (recorded P W session payload db r db')
  with create_event [OF recorded(2,3)] book_event_sound show ?case unfolding books_ok_sound by metis
next
  case (edited P W session change db r db')
  with edit_event [OF edited(2,3)] book_event_sound show ?case unfolding books_ok_sound by metis
next
  case (deleted P W actor removal db r db')
  with delete_event [OF deleted(2,3)] book_event_sound show ?case unfolding books_ok_sound by metis
qed

section \<open>No operation is forgotten\<close>

definition op_ids :: "db \<Rightarrow> string set" where
  "op_ids db = op_id ` set (operations_table db)"

lemma op_ids_eqs [simp]:
  "op_ids (set_response i text db) = op_ids db" "op_ids (db\<lparr>revisions_table := rs\<rparr>) = op_ids db"
  "op_ids (new_operation i subject fingerprint db) = insert i (op_ids db)" "op_ids (delete_transaction i db) = op_ids db"
proof -
  have "map op_id (operations_table (set_response i text db)) = map op_id (operations_table db)" by (simp add: set_response_def)
  then show "op_ids (set_response i text db) = op_ids db" by (metis op_ids_def list.set_map)
qed (simp_all add: op_ids_def new_operation_def delete_transaction_def)

lemma op_ids_keeps: "keeps_books db d \<Longrightarrow> op_ids d = op_ids db"
  by (simp add: keeps_books_def op_ids_def)

lemma op_ids_posted: "accounts_posted c k db d \<Longrightarrow> op_ids d = op_ids db"
  using accounts_posted_fields(5) by (simp add: op_ids_def)

lemma find_operation_ids: "find_operation db i \<noteq> None \<longleftrightarrow> i \<in> op_ids db"
proof -
  have "find_operation db i = None \<longleftrightarrow> filter (\<lambda>x. op_id x = i) (operations_table db) = []"
    by (simp add: find_operation_def first_row_def split: list.split)
  then show ?thesis by (auto simp: op_ids_def filter_empty_conv)
qed

lemma create_operations:
  assumes "create_db_transaction P W session payload db = Some (Inr (r, db'))" "books_ok db"
  shows "op_ids db' = insert (wr_operation_id payload) (op_ids db)"
proof (cases "find_operation db (wr_operation_id payload)")
  case (Some o')
  with create_replayed [OF assms(1) Some] find_operation_ids [of db "wr_operation_id payload"] show ?thesis
    by (auto simp: op_ids_keeps)
next
  case None
  from assms(1) None show ?thesis
  proof (rule create_fresh_E)
    fix subject username p d
    let ?d = "new_operation (wr_operation_id p) subject (write_fingerprint P p) d"
    assume k: "keeps_books db d" "wr_operation_id p = wr_operation_id payload"
      and f: "fresh_create P W subject username (write_fingerprint P p) p ?d = Some (Inr (r, db'))"
    from f show ?thesis
    proof (rule fresh_create_E)
      fix sd v projected occurred_at d1 d2 d4 accounts
      assume c: "check_write P W p ?d = Inr (sd, v, projected, occurred_at)"
        and w: "record_rows P subject username (write_fingerprint P p) p sd occurred_at v ?d = Inr d1"
        and post: "post_deltas P (ecb_observations ?d) add_decimal_text d1 (account_deltas projected) = Inr (d2, accounts)"
        and b: "keeps_books d2 d4" and db': "db' = set_response (wr_operation_id p) (write_json P r) d4"
      have d1: "op_ids d1 = op_ids ?d" "accounts_table d1 = accounts_table db"
        using k(1) by (simp_all add: record_rows_E [OF w] op_ids_def books_defs new_operation_def)
      have "distinct (map acc_id (accounts_table d1))" using assms(2) d1(2) by (simp add: books_ok_def)
      from op_ids_posted [OF post_deltas_posted [OF post check_write_E(3) [OF c] this]] show ?thesis
        by (simp add: db' op_ids_keeps [OF b] d1 op_ids_keeps [OF k(1)] k(2))
    qed
  qed
qed

lemma edit_operations:
  assumes "edit_db_transaction P W session payload db = Some (Inr (r, db'))" "books_ok db"
  shows "op_ids db \<subseteq> op_ids db'"
proof (cases "find_operation db (wr_operation_id (er_transaction payload))")
  case (Some o')
  with edit_replayed [OF assms(1) Some] show ?thesis by (auto simp: op_ids_keeps)
next
  case None
  from assms(1) None show ?thesis
  proof (rule edit_fresh_E)
    fix subject username q d
    let ?d = "new_operation (wr_operation_id (er_transaction q)) subject (edit_fingerprint P q) d"
    assume k: "keeps_books db d" and f: "fresh_edit P W subject username q ?d = Some (Inr (r, db'))"
    have distinct: "distinct (map acc_id (accounts_table ?d))" using assms(2) k by (simp add: books_ok_def books_defs new_operation_def)
    from f show ?thesis
    proof (rule fresh_edit_E)
      fix t sd v unchanged deltas occurred_at accounts d1 d2 rows
      assume plan: "plan_edit P q t ?d = Inr (sd, v, unchanged, deltas)"
        and rows: "edit_rows P W q t sd v unchanged deltas ?d = Inr (occurred_at, accounts, d1)" and k2: "keeps_books d1 d2"
        and db': "db' = set_response (wr_operation_id (er_transaction q)) (write_json P r) (d2\<lparr>revisions_table := rows\<rparr>)"
      have deltas: "distinct (map fst deltas)" "\<forall>d\<in>snd ` set deltas. canonical_text d"
        by (rule plan_edit_E [OF plan distinct], assumption)+
      from rows distinct deltas show ?thesis
      proof (rule edit_rows_E)
        fix e2 e3 ts vs
        assume "e2 = ?d\<lparr>transactions_table := ts, valuations_table := vs\<rparr>" and posted: "accounts_posted (bt_entry deltas) (moved (bt_entry deltas)) e2 e3"
          and k1: "keeps_books e3 d1"
        then have "op_ids e2 = op_ids ?d" by (simp add: op_ids_def)
        with op_ids_posted [OF posted] show ?thesis
          by (auto simp: db' op_ids_keeps [OF k2] op_ids_keeps [OF k1] op_ids_keeps [OF k])
      qed
    qed
  qed
qed

lemma delete_operations:
  assumes "delete_db_transaction P W actor payload db = Some (Inr (r, db'))" "books_ok db"
  shows "op_ids db \<subseteq> op_ids db'"
proof (cases "find_operation db (trim (dr_operation_id payload))")
  case (Some o')
  with delete_replayed [OF assms(1) Some] show ?thesis by (auto simp: op_ids_keeps)
next
  case None
  from assms(1) None show ?thesis
  proof (rule delete_fresh_E)
    fix subject q d
    let ?d = "new_operation (dr_operation_id q) subject (delete_fingerprint P q) d"
    assume k: "keeps_books db d" and f: "fresh_delete P subject q ?d = Some (Inr (r, db'))"
    have distinct: "distinct (map acc_id (accounts_table ?d))" using assms(2) k by (simp add: books_ok_def books_defs new_operation_def)
    from f show ?thesis
    proof (rule fresh_delete_E)
      fix t v projected d1 accounts d2
      assume e: "project_transaction (row_effect t v) = Inr projected"
        and post: "post_changes P (ecb_observations ?d) subtract_decimal_text ?d (account_deltas projected) = Inr (d1, accounts)"
        and b: "keeps_books (delete_transaction (dr_transaction_id q) d1) d2"
        and db': "db' = set_response (dr_operation_id q) (write_json P r) d2"
      from op_ids_posted [OF post_changes_moved [OF post e distinct]] show ?thesis
        by (auto simp: db' op_ids_keeps [OF b] op_ids_keeps [OF k])
    qed
  qed
qed

lemma write_step_operations: "write_step Ps db db' \<Longrightarrow> books_ok db \<Longrightarrow> op_ids db \<subseteq> op_ids db'"
proof (induction rule: write_step.induct)
  case (recorded P W session payload db r db')
  show ?case by (simp add: create_operations [OF recorded(2,3)] subset_insertI)
qed (erule (1) edit_operations, erule (1) delete_operations)

lemma write_steps_operations: "(write_step Ps)\<^sup>*\<^sup>* db db' \<Longrightarrow> books_ok db \<Longrightarrow> op_ids db \<subseteq> op_ids db' \<and> books_ok db'"
  by (induction rule: rtranclp_induct) (use write_step_operations write_step_sound in blast)+

section \<open>A deletion right after the recording\<close>

lemma delete_restores:
  assumes "delete_db_transaction P W actor removal db1 = Some (Inr (r, db2))"
    and "find_operation db1 (trim (dr_operation_id removal)) = None" "books_ok db"
    and "transaction_of db (tx_id t) = None" "trim (dr_transaction_id removal) = tx_id t"
    and rows: "transactions_table db1 = transactions_table db @ [t]" "valuations_table db1 = valuations_table db @ [a, b]"
      "revisions_table db1 = revisions_table db @ [audit]"
    and cells: "rev_transaction audit = tx_id t" "val_transaction a = tx_id t" "val_transaction b = tx_id t" "val_side a = ''from''" "val_side b = ''to''"
      "val_native a = Some (amount_native (from_side v)) \<and> val_native b = Some (amount_native (to_side v))"
    and posted: "list_all2 (account_posted (native_change (row_effect t v)) (effect_accounts (row_effect t v)))
        (accounts_table db) (accounts_table db1)"
  shows "transactions_table db2 = transactions_table db \<and> valuations_table db2 = valuations_table db
     \<and> revisions_table db2 = revisions_table db \<and> list_all2 same_balance (accounts_table db) (accounts_table db2)"
proof -
  note fresh = transaction_of_None [OF assms(4)]
  then have others: "\<forall>x\<in>set (transactions_table db). tx_id x \<noteq> tx_id t" by (metis imageI)
  have other_notes: "\<forall>x\<in>set (valuations_table db). val_transaction x \<noteq> tx_id t"
    "\<forall>x\<in>set (revisions_table db). rev_transaction x \<noteq> tx_id t"
    using assms(3) fresh unfolding books_ok_def by (metis imageI)+
  have distinct: "distinct (map acc_id (accounts_table db1))" using assms(3) posted_ids [OF posted] by (simp add: books_ok_def)
  have "filter (\<lambda>x. tx_id x = tx_id t) (transactions_table db) = []" using others by (simp add: filter_empty_conv)
  then have found: "transaction_of db1 (tx_id t) = Some t" by (simp add: transaction_of_def rows(1) first_row_def)
  show ?thesis
  proof (rule delete_E [OF assms(1,2) distinct, unfolded assms(5)])
    fix t' v'
    assume t': "transaction_of db1 (tx_id t) = Some t'" "stored_valuation P db1 (tx_id t) = Inr v'"
      and rows2: "transactions_table db2 = filter (\<lambda>x. tx_id x \<noteq> tx_id t) (transactions_table db1)"
        "revisions_table db2 = filter (\<lambda>x. rev_transaction x \<noteq> tx_id t) (revisions_table db1)"
        "valuations_table db2 = filter (\<lambda>x. val_transaction x \<noteq> tx_id t) (valuations_table db1)"
      and undone: "list_all2 (account_posted (\<lambda>i. - native_change (row_effect t' v') i) (moved (native_change (row_effect t' v'))))
        (accounts_table db1) (accounts_table db2)"
    have "t' = t" using t'(1) found by simp
    moreover have "native_change (row_effect t v') = native_change (row_effect t v)"
      using stored_amounts [OF t'(2) latest_new_valuation [OF other_notes(1) cells(2-5) rows(2)]] cells(6)
      by (simp add: native_change_def row_effect_def fun_eq_iff)
    ultimately have reversed: "list_all2 (account_posted (\<lambda>i. - native_change (row_effect t v) i) (moved (native_change (row_effect t v))))
        (accounts_table db1) (accounts_table db2)" using undone by simp
    have "list_all2 same_balance (accounts_table db) (accounts_table db2)"
      by (rule list_all2_trans [OF _ posted reversed])
        (rule posted_back, assumption+, auto simp: native_change_def effect_accounts_def)
    then show ?thesis using others other_notes cells by (simp add: rows2 rows filter_id_conv)
  qed
qed

end
