(* ===== verification/TransactionSamples.thy ===== *)
theory TransactionSamples
  imports Books RequestProperties
begin

text \<open>
  A household with two accounts that transfers cash: the request, its valuation and effect, and the runs
  of the three handlers on it, evaluated step by step.
\<close>

section \<open>A household with two accounts\<close>

definition tx_db :: db where
  "tx_db = empty_db\<lparr>
     categories_table := [\<lparr>cat_id = ''move'', cat_name = ''Balance Transfer'', cat_is_real = False, cat_source_row = 1\<rparr>],
     accounts_table := [\<lparr>acc_id = ''bank'', acc_currency = Some ''EUR'', acc_is_real = True, acc_is_active = True,
         acc_native_balance = Some (whole 500), acc_source_name = ''Bank'', acc_eur_balance = Some (whole 500), acc_revision = 0,
         acc_type = None, acc_source_row = 1, acc_actual_native = None, acc_actual_eur = None, acc_reconciliation = None\<rparr>,
       \<lparr>acc_id = ''cash'', acc_currency = Some ''EUR'', acc_is_real = True, acc_is_active = True,
         acc_native_balance = Some (whole 20), acc_source_name = ''Cash'', acc_eur_balance = Some (whole 20), acc_revision = 0,
         acc_type = None, acc_source_row = 2, acc_actual_native = None, acc_actual_eur = None, acc_reconciliation = None\<rparr>],
     imports_table := [\<lparr>imp_manifest = ''2026-01'', imp_committed_at = ''2026-01-01''\<rparr>]\<rparr>"

definition tx_env :: write_env where
  "tx_env = \<lparr>writes_enabled = True, valid_uuid = (\<lambda>_. True), seconds_since = (\<lambda>_. Some 0), days_between = (\<lambda>_ _. Some 0)\<rparr>"

definition op_one :: string where "op_one = ''00000000-0000-7000-8000-000000000001''"

definition tx_one :: string where "tx_one = ''00000000-0000-7000-8000-00000000000a''"

definition tx_request :: write_request where
  "tx_request = \<lparr>wr_operation_id = op_one, wr_transaction_id = tx_one, wr_kind = ''transfer'', wr_date = ''2026-01-05'',
     wr_occurred_at = None, wr_date_only = True, wr_description = ''cash'', wr_amount = whole 40,
     wr_currency = None, wr_to_amount = None, wr_from_category = None, wr_to_category = None,
     wr_from_account = Some ''bank'', wr_to_account = Some ''cash'', wr_income_treatment = None, wr_corrects = None,
     wr_expected_month = None\<rparr>"

lemma tx_normal_amount:
  assumes "\<not> 64 < length (whole z)" "0 < z"
  shows "normalize_db_transaction_write UNALLOCATED (tx_request\<lparr>wr_operation_id := i, wr_amount := whole z\<rparr>)
    = Inr (tx_request\<lparr>wr_operation_id := i, wr_amount := whole z\<rparr>)"
proof -
  have trims: "trim ''transfer'' = ''transfer''" "trim ''2026-01-05'' = ''2026-01-05''" "trim ''cash'' = ''cash''"
    "trim ''bank'' = ''bank''" by (simp_all add: trim_id)
  have cases: "ascii_lower (CHR ''e'') = CHR ''e''" "ascii_lower (CHR ''f'') = CHR ''f''" "ascii_lower (CHR ''s'') = CHR ''s''"
    "ascii_lower (CHR ''n'') = CHR ''n''" "ascii_lower (CHR ''a'') = CHR ''a''" "ascii_lower (CHR ''t'') = CHR ''t''"
    "ascii_lower (CHR ''r'') = CHR ''r''" by code_simp+
  have date: "valid_date ''2026-01-05''" by code_simp
  have count: "\<not> 500 < char_count ''cash''" by (simp add: char_count_def)
  note t = trims cases date count
  have "\<not> starts_with (whole z) ''-''" "whole z \<noteq> ''0''"
    using assms(2) starts_with_minus_format [of "\<lparr>coefficient = z, scale = 0\<rparr>"] whole_inject [of z 0]
    by (simp_all add: whole_def [symmetric] dec_value_def zero_whole)
  then have "round_positive (whole z) ''amount'' = Inr (whole z)"
    using posted_whole [of z] assms(1) by (simp add: round_positive_def)
  then show ?thesis
    by (simp add: normalize_db_transaction_write_def trim_request_def tx_request_def t Let_def check_request_def
        round_to_amount_def normalize_currency_def income_options_invalid_def finish_request_def
        default_income_category_def trimmed_id_def)
qed

lemma tx_normal: "normalize_db_transaction_write UNALLOCATED tx_request = Inr tx_request"
  using tx_normal_amount [of 40 op_one] by (simp add: tx_request_def whole_eval to_string_eval)

lemma round_whole:
  "ratio_ok r \<Longrightarrow> ratio_value r = of_int z \<Longrightarrow> decimal_format (ratio_round_decimal r 2 mode) = whole z"
proof -
  assume r: "ratio_ok r" "ratio_value r = of_int z"
  then have "rounded_coefficient r 2 mode = z * 100" by (intro round_exact) simp_all
  then show ?thesis by (intro money.canon_unique) (simp_all add: canonical_round dec_value_round)
qed

lemma eur_valuation:
  "\<exists>v. calculate_valuation (whole z) ''EUR'' ''EUR'' (whole z) ''EUR'' date observations HalfEven = Inr v
     \<and> amount_native (from_side v) = whole z \<and> amount_eur (from_side v) = whole z
     \<and> amount_native (to_side v) = whole z \<and> amount_eur (to_side v) = whole z"
proof -
  have one: "ratio_divide ratio_one (decimal_as_ratio \<lparr>coefficient = 1, scale = 0\<rparr>) \<noteq> Inl e"
    "ratio_divide (decimal_as_ratio \<lparr>coefficient = 1, scale = 0\<rparr>) (decimal_as_ratio \<lparr>coefficient = 1, scale = 0\<rparr>) \<noteq> Inl e" for e
    using ratio_divide_Inr_iff [of "decimal_as_ratio \<lparr>coefficient = 1, scale = 0\<rparr>"]
    by (auto simp: money_simps dec_value_def) (metis sum.distinct(1))+
  obtain x y where "ratio_divide ratio_one (decimal_as_ratio \<lparr>coefficient = 1, scale = 0\<rparr>) = Inr x"
    "ratio_divide (decimal_as_ratio \<lparr>coefficient = 1, scale = 0\<rparr>) (decimal_as_ratio \<lparr>coefficient = 1, scale = 0\<rparr>) = Inr y"
    using one by (metis sum.exhaust)
  then have "\<exists>v. calculate_valuation (whole z) ''EUR'' ''EUR'' (whole z) ''EUR'' date observations HalfEven = Inr v"
    by (simp add: calculate_valuation_def select_prior_rate_def whole_parse parse_one source_rates_def Let_def)
  then obtain v where v: "calculate_valuation (whole z) ''EUR'' ''EUR'' (whole z) ''EUR'' date observations HalfEven = Inr v"
    by blast
  then obtain da db ri rf rt di df dt e n t where c: "decimal_parse (whole z) = Inr da" "decimal_parse (whole z) = Inr db"
    "select_prior_rate ''EUR'' date observations = Inr ri" "select_prior_rate ''EUR'' date observations = Inr rf"
    "select_prior_rate ''EUR'' date observations = Inr rt"
    "decimal_parse (rate_quote ri) = Inr di" "decimal_parse (rate_quote rf) = Inr df" "decimal_parse (rate_quote rt) = Inr dt"
    "ratio_ok e" "ratio_value e = source_adjustment_of ''EUR'' / dec_value di"
    "ratio_ok n" "ratio_value n = (if ''EUR'' = ''EUR'' then 1 else source_adjustment_of ''EUR'' * dec_value df / dec_value di)"
    "ratio_ok t" "ratio_value t = 1 / dec_value dt"
    "amount_eur (from_side v) = decimal_format (ratio_round_decimal (ratio_multiply (decimal_as_ratio da) e) 2 HalfEven)"
    "amount_native (from_side v) = decimal_format (ratio_round_decimal (ratio_multiply (decimal_as_ratio da) n) 2 HalfEven)"
    "amount_eur (to_side v) = decimal_format (ratio_round_decimal (ratio_multiply (decimal_as_ratio db) t) 2 HalfEven)"
    "amount_native (to_side v) = decimal_format (ratio_round_decimal (decimal_as_ratio db) 2 HalfEven)"
    by (rule calculate_valuation_cases)
  have eur: "dec_value di = 1" "dec_value dt = 1"
    using c(3,5,6,8) by (auto simp: select_prior_rate_def parse_one dec_value_def)
  have z: "dec_value da = of_int z" "dec_value db = of_int z" using c(1,2) by (auto simp: whole_parse dec_value_def)
  have "amount_eur (from_side v) = whole z" unfolding c(15) using c(9,10) eur z
    by (intro round_whole) (simp_all add: money_simps source_adjustment_of_def)
  moreover have "amount_native (from_side v) = whole z" unfolding c(16) using c(11,12) z
    by (intro round_whole) (simp_all add: money_simps)
  moreover have "amount_eur (to_side v) = whole z" unfolding c(17) using c(13,14) eur z
    by (intro round_whole) (simp_all add: money_simps)
  moreover have "amount_native (to_side v) = whole z" unfolding c(18) using z
    by (intro round_whole) (simp_all add: money_simps)
  ultimately show ?thesis using v by blast
qed

lemma whole_zero_add: "decimal_format (decimal_add \<lparr>coefficient = 0, scale = 0\<rparr> d) = whole z"
  if "canonical d" "dec_value d = of_int z"
proof -
  have "canonical \<lparr>coefficient = 0, scale = 0\<rparr>" by (simp add: canonical_def)
  with that show ?thesis by (intro money.canon_unique) (simp_all add: canonical_add money_simps dec_value_zero)
qed

lemma eur_projection:
  assumes "from_account_id e = Some a" "to_account_id e = Some b" "a < b" "effect_kind e \<noteq> ''reallocate''"
    "amount_native (from_side (effect_valuation e)) = whole z" "amount_native (to_side (effect_valuation e)) = whole z"
    "amount_eur (from_side (effect_valuation e)) = whole z" "amount_eur (to_side (effect_valuation e)) = whole z"
  shows "\<exists>p. project_transaction e = Inr p \<and> account_deltas p = [(a, whole (- z)), (b, whole z)]"
proof -
  have "decimal_format (decimal_add \<lparr>coefficient = 0, scale = 0\<rparr> (decimal_negated \<lparr>coefficient = z, scale = 0\<rparr>)) = whole (- z)"
    by (rule whole_zero_add) (simp_all add: canonical_def decimal_negated_def dec_value_def)
  moreover have "decimal_format (decimal_add \<lparr>coefficient = 0, scale = 0\<rparr> \<lparr>coefficient = z, scale = 0\<rparr>) = whole z"
    by (rule whole_zero_add) (simp_all add: canonical_def dec_value_def)
  moreover have "a \<noteq> b" "\<not> b < a" using assms(3) by auto
  moreover obtain x1 where "add_parsed (from_category_id e) (whole z) id [] = Inr x1"
    by (cases "from_category_id e") (auto simp: add_parsed_def whole_parse)
  moreover obtain x2 where "add_parsed (to_category_id e) (whole z) decimal_negated x1 = Inr x2"
    by (cases "to_category_id e") (auto simp: add_parsed_def whole_parse)
  ultimately show ?thesis using assms
    by (simp add: project_transaction_def Let_def add_parsed_def [of "Some _"] whole_parse add_delta_def bt_get_def)
qed

text \<open>The history of a household without real categories is one month with no rows.\<close>

lemma tx_history:
  assumes "categories_table d = categories_table tx_db" "ledger_state_table d = None" "imports_table d = imports_table tx_db"
    "closures_table d = []" "snapshots_table d = []"
  shows "\<exists>cats. budget_categories sample_platform d ''2026-01'' = Some (Inr cats)"
  by (simp add: budget_categories_def history_def evaluate assms tx_db_def apply_ledger_def)

lemma tx_sides:
  assumes "accounts_table d = accounts_table tx_db" "categories_table d = categories_table tx_db"
  shows "request_sides d tx_request = Inr
    \<lparr>sd_from_account = \<lparr>wa_id = ''bank'', wa_currency = ''EUR'', wa_is_real = True, wa_is_active = True\<rparr>,
     sd_to_account = \<lparr>wa_id = ''cash'', wa_currency = ''EUR'', wa_is_real = True, wa_is_active = True\<rparr>,
     sd_from_category = \<lparr>wc_id = ''move'', wc_is_real = False\<rparr>, sd_to_category = \<lparr>wc_id = ''move'', wc_is_real = False\<rparr>\<rparr>"
  by (simp add: request_sides_def request_ids_def tx_request_def transfer_ids_def required_id_def load_request_account_def
      load_db_account_def account_of_def assms tx_db_def first_row_def write_account_of_def assign_sides_def Let_def
      named_account_def named_side_category_def load_system_db_category_def same_nocase_def ascii_lower_def write_category_of_def
      trim_id)

definition tx_sides_value :: sides where
  "tx_sides_value =
    \<lparr>sd_from_account = \<lparr>wa_id = ''bank'', wa_currency = ''EUR'', wa_is_real = True, wa_is_active = True\<rparr>,
     sd_to_account = \<lparr>wa_id = ''cash'', wa_currency = ''EUR'', wa_is_real = True, wa_is_active = True\<rparr>,
     sd_from_category = \<lparr>wc_id = ''move'', wc_is_real = False\<rparr>, sd_to_category = \<lparr>wc_id = ''move'', wc_is_real = False\<rparr>\<rparr>"

definition tx_start :: db where
  "tx_start = tx_db\<lparr>operations_table := [\<lparr>op_id = op_one, op_actor = ''me'',
     op_fingerprint = write_fingerprint sample_platform tx_request, op_response = ''{}''\<rparr>]\<rparr>"

definition tx_valued :: "transaction_valuation \<Rightarrow> bool" where
  "tx_valued v \<longleftrightarrow> amount_native (from_side v) = whole 40 \<and> amount_eur (from_side v) = whole 40
     \<and> amount_native (to_side v) = whole 40 \<and> amount_eur (to_side v) = whole 40"

lemma tx_check: "\<exists>v projected. check_write sample_platform tx_env tx_request tx_start = Inr (tx_sides_value, v, projected, None)
   \<and> account_deltas projected = [(''bank'', whole (-40)), (''cash'', whole 40)] \<and> tx_valued v"
proof -
  obtain v where v: "calculate_valuation (whole 40) ''EUR'' ''EUR'' (whole 40) ''EUR'' ''2026-01-05'' [] HalfEven = Inr v"
    "amount_native (from_side v) = whole 40" "amount_eur (from_side v) = whole 40"
    "amount_native (to_side v) = whole 40" "amount_eur (to_side v) = whole 40"
    using eur_valuation [of 40 "''2026-01-05''" "[]"] by blast
  have sides: "request_sides tx_start tx_request = Inr tx_sides_value"
    unfolding tx_sides_value_def by (rule tx_sides) (simp_all add: tx_start_def)
  have currencies: "check_currencies tx_request tx_sides_value = Inr ()"
    by (simp add: check_currencies_def tx_sides_value_def tx_request_def Let_def)
  have value': "request_valuation tx_request tx_sides_value (ecb_observations tx_start) = Inr v"
    using v by (simp add: request_valuation_def tx_request_def tx_sides_value_def input_currency_of_def default_currency_def
        valuation_to_amount_def ecb_observations_def tx_start_def tx_db_def empty_db_def POSTING_ROUNDING_MODE_def)
  have "\<exists>p. project_transaction (request_effect tx_request tx_sides_value v) = Inr p
      \<and> account_deltas p = [(''bank'', whole (- 40)), (''cash'', whole 40)]"
    by (rule eur_projection) (simp_all add: request_effect_def tx_request_def tx_sides_value_def v(2-5))
  then obtain p where p: "project_transaction (request_effect tx_request tx_sides_value v) = Inr p"
    "account_deltas p = [(''bank'', whole (- 40)), (''cash'', whole 40)]" by blast
  have o': "require_open sample_platform tx_start (take 7 (wr_date tx_request)) = Inr ()"
    by (simp add: require_open_def tx_start_def tx_db_def tx_request_def evaluate)
  have "transaction_of tx_start (wr_transaction_id tx_request) = None" "wr_date_only tx_request" "wr_corrects tx_request = None"
    by (simp_all add: transaction_of_def first_row_def tx_start_def tx_db_def empty_db_def tx_request_def)
  then show ?thesis using p v
    by (simp add: check_write_def sides currencies value' o' resolve_transaction_timestamp_def validate_db_correction_def tx_valued_def)
qed

text \<open>The tables after the transfer has been recorded, with its valuation \<open>v\<close>.\<close>

definition tx_row :: transaction_row where
  "tx_row = transaction_row_of sample_platform ''me'' (write_fingerprint sample_platform tx_request) tx_request tx_sides_value None 1"

definition tx_posted :: "account_row list" where
  "tx_posted = [\<lparr>acc_id = ''bank'', acc_currency = Some ''EUR'', acc_is_real = True, acc_is_active = True,
         acc_native_balance = Some (whole 460), acc_source_name = ''Bank'', acc_eur_balance = Some (whole 460), acc_revision = 1,
         acc_type = None, acc_source_row = 1, acc_actual_native = None, acc_actual_eur = None, acc_reconciliation = None\<rparr>,
       \<lparr>acc_id = ''cash'', acc_currency = Some ''EUR'', acc_is_real = True, acc_is_active = True,
         acc_native_balance = Some (whole 60), acc_source_name = ''Cash'', acc_eur_balance = Some (whole 60), acc_revision = 1,
         acc_type = None, acc_source_row = 2, acc_actual_native = None, acc_actual_eur = None, acc_reconciliation = None\<rparr>]"

definition tx_rows :: "transaction_valuation \<Rightarrow> db \<Rightarrow> db" where
  "tx_rows v db = db\<lparr>transactions_table := [tx_row],
     revisions_table := [\<lparr>rev_transaction = tx_one, rev_revision = 1, rev_operation = Some op_one, rev_snapshot = ''json'',
       rev_recorded_at = ''2026-01-20T09:00:00.000Z''\<rparr>],
     valuations_table := [valuation_row_of sample_platform tx_one ''from'' ''2026-01-05'' 1 ''EUR'' (from_side v),
       valuation_row_of sample_platform tx_one ''to'' ''2026-01-05'' 1 ''EUR'' (to_side v)]\<rparr>"

definition tx_after :: "transaction_valuation \<Rightarrow> db" where
  "tx_after v = set_response op_one ''json'' ((tx_rows v tx_start)\<lparr>accounts_table := tx_posted\<rparr>)"

lemma tx_record:
  "record_rows sample_platform ''me'' ''Me'' (write_fingerprint sample_platform tx_request) tx_request tx_sides_value None v tx_start
     = Inr (tx_rows v tx_start)"
  (is "?w = _")
proof -
  have "tx_date (transaction_row_of P s f tx_request sd o' n) = ''2026-01-05''" for P :: "int platform" and s f sd o' n
    by (simp add: transaction_row_of_def tx_request_def)
  moreover have "date_glob ''2026-01-05''" by code_simp
  ultimately have "\<exists>d1. ?w = Inr d1"
    by (simp add: record_rows_def insert_transaction_def insert_revision_def insert_valuations_def insert_valuation_def
        valuation_row_of_def tx_start_def tx_db_def empty_db_def)
  then obtain d1 where w: "?w = Inr d1" by blast
  have "next_transaction_row tx_start = 1"
    by (simp add: next_transaction_row_def tx_start_def tx_db_def empty_db_def last_max_def)
  moreover have "transactions_table tx_start = []" "revisions_table tx_start = []" "valuations_table tx_start = []"
    by (simp_all add: tx_start_def tx_db_def empty_db_def)
  moreover have "wr_transaction_id tx_request = tx_one" "wr_operation_id tx_request = op_one" "wr_date tx_request = ''2026-01-05''"
    "wa_currency (sd_from_account tx_sides_value) = ''EUR''" "wa_currency (sd_to_account tx_sides_value) = ''EUR''"
    "write_json sample_platform j = ''json''" "now_text sample_platform = ''2026-01-20T09:00:00.000Z''" for j
    by (simp_all add: tx_request_def tx_sides_value_def sample_platform_def)
  ultimately show ?thesis unfolding w using record_rows_E [OF w] by (simp add: tx_rows_def tx_row_def)
qed

text \<open>While the ledger has not started, a write ends with the history of the month.\<close>

lemma tx_ledger:
  assumes "categories_table d = categories_table tx_db" "ledger_state_table d = None" "imports_table d = imports_table tx_db"
    "closures_table d = []" "snapshots_table d = []"
  shows "receipt d i t e = Inr d" "sync_api sample_platform d o' = Some (Inr d)"
    "\<exists>cats. budget_categories sample_platform d ''2026-01'' = Some (Inr cats)"
proof -
  have "start d = None" using assms(2) by (simp add: start_def)
  then show "receipt d i t e = Inr d" "sync_api sample_platform d o' = Some (Inr d)"
    by (simp_all add: receipt_def sync_api_def sync_def)
qed (rule tx_history [OF assms])

lemma tx_run: "\<exists>r v. tx_valued v
   \<and> create_db_transaction sample_platform tx_env (Inr (''me'', ''Me'')) tx_request tx_db = Some (Inr (r, tx_after v))"
proof -
  have uuid: "is_uuid_v7 (valid_uuid tx_env) (wr_operation_id tx_request)" "is_uuid_v7 (valid_uuid tx_env) (wr_transaction_id tx_request)"
    by (simp_all add: is_uuid_v7_def op_one_def tx_one_def ascii_lower_def tx_env_def tx_request_def)
  have init: "initialize sample_platform tx_db = Inr tx_db"
    by (simp add: initialize_def opening_missing_def tx_db_def evaluate)
  obtain v projected where c: "tx_valued v" "check_write sample_platform tx_env tx_request tx_start = Inr (tx_sides_value, v, projected, None)"
    "account_deltas projected = [(''bank'', whole (-40)), (''cash'', whole 40)]" using tx_check by blast
  let ?d = "(tx_rows v tx_start)\<lparr>accounts_table := tx_posted\<rparr>"
  have d: "accounts_table (tx_rows v tx_start) = accounts_table tx_db" by (simp add: tx_rows_def tx_start_def)
  obtain out where d2: "post_deltas sample_platform (ecb_observations tx_start) add_decimal_text (tx_rows v tx_start)
      (account_deltas projected) = Inr (?d, out)"
    by (simp add: c(3) post_deltas_def post_delta_def load_db_account_def account_of_def d tx_db_def write_account_of_def first_row_def
        fetch_one_def add_whole account_balance_eur_whole set_balance_def tx_posted_def)
  have "categories_table ?d = categories_table tx_db" "ledger_state_table ?d = None" "imports_table ?d = imports_table tx_db"
    "closures_table ?d = []" "snapshots_table ?d = []"
    by (simp_all add: tx_rows_def tx_start_def tx_db_def empty_db_def)
  note quiet = tx_ledger [OF this]
  then obtain cats where cats: "budget_categories sample_platform ?d ''2026-01'' = Some (Inr cats)" by blast
  have f: "take 7 (wr_date tx_request) = ''2026-01''" "wr_operation_id tx_request = op_one" "write_json sample_platform j = ''json''" for j
    by (simp_all add: tx_request_def sample_platform_def)
  have "\<exists>r. fresh_create sample_platform tx_env ''me'' ''Me'' (write_fingerprint sample_platform tx_request) tx_request tx_start
      = Some (Inr (r, tx_after v))"
    by (simp add: fresh_create_def c(2) tx_record d2 quiet(1,2) f cats Let_def tx_after_def)
  then obtain r where run: "fresh_create sample_platform tx_env ''me'' ''Me'' (write_fingerprint sample_platform tx_request)
      tx_request tx_start = Some (Inr (r, tx_after v))" by blast
  have none: "find_operation tx_db (wr_operation_id tx_request) = None" "operations_table tx_db = []"
    by (simp_all add: find_operation_def first_row_def tx_db_def empty_db_def)
  have fields: "writes_enabled tx_env" "tx_start = tx_db\<lparr>operations_table := operations_table tx_db @
      [\<lparr>op_id = wr_operation_id tx_request, op_actor = ''me'', op_fingerprint = write_fingerprint sample_platform tx_request,
        op_response = ''{}''\<rparr>]\<rparr>"
    by (simp_all add: tx_env_def tx_start_def none tx_request_def)
  show ?thesis using c(1)
    by (intro exI [of _ r] exI [of _ v])
      (simp add: create_db_transaction_def tx_normal uuid init none(1) fields(1) run [unfolded fields(2)] Let_def)
qed

section \<open>Changing the transfer\<close>

definition op_two :: string where "op_two = ''00000000-0000-7000-8000-000000000002''"

definition tx_removal :: delete_request where
  "tx_removal = \<lparr>dr_operation_id = op_two, dr_transaction_id = tx_one, dr_expected_revision = 1,
     dr_expected_accounts = [(''bank'', 1), (''cash'', 1)]\<rparr>"

lemma tx_trims: "trim op_two = op_two" "trim tx_one = tx_one" "trim ''bank'' = ''bank''" "trim ''cash'' = ''cash''"
  by (simp_all add: trim_id op_two_def tx_one_def)

lemma tx_uuids: "is_uuid_v7 (valid_uuid tx_env) op_one" "is_uuid_v7 (valid_uuid tx_env) op_two" "is_uuid_v7 (valid_uuid tx_env) tx_one"
  by (simp_all add: is_uuid_v7_def op_one_def op_two_def tx_one_def ascii_lower_def tx_env_def)

lemma tx_expected: "check_expected [(''bank'', 1), (''cash'', 1)] = Inr [(''bank'', 1), (''cash'', 1)]"
  by (simp add: check_expected_def tx_trims)

lemma tx_ops: "op_two \<noteq> op_one"
  by (simp add: op_two_def op_one_def)

text \<open>The database when the second request is checked.\<close>

definition tx_next :: "transaction_valuation \<Rightarrow> string \<Rightarrow> db" where
  "tx_next v fingerprint = new_operation op_two ''me'' fingerprint (tx_after v)"

lemma tx_next_tables:
  "accounts_table (tx_next v s) = tx_posted" "categories_table (tx_next v s) = categories_table tx_db"
  "transactions_table (tx_next v s) = [tx_row]" "corrections_table (tx_next v s) = []" "batch_items_table (tx_next v s) = []"
  "closures_table (tx_next v s) = []" "snapshots_table (tx_next v s) = []" "imports_table (tx_next v s) = imports_table tx_db"
  "ledger_state_table (tx_next v s) = None" "rates_table (tx_next v s) = []"
  "revisions_table (tx_next v s) = [\<lparr>rev_transaction = tx_one, rev_revision = 1, rev_operation = Some op_one, rev_snapshot = ''json'',
       rev_recorded_at = ''2026-01-20T09:00:00.000Z''\<rparr>]"
  "valuations_table (tx_next v s) = [valuation_row_of sample_platform tx_one ''from'' ''2026-01-05'' 1 ''EUR'' (from_side v),
       valuation_row_of sample_platform tx_one ''to'' ''2026-01-05'' 1 ''EUR'' (to_side v)]"
  by (simp_all add: tx_next_def new_operation_def tx_after_def set_response_def tx_rows_def tx_start_def tx_db_def empty_db_def)

lemma tx_row_fields:
  "tx_id tx_row = tx_one" "tx_kind tx_row = ''transfer''" "tx_date tx_row = ''2026-01-05''" "tx_amount tx_row = whole 40"
  "tx_from_account tx_row = Some ''bank''" "tx_to_account tx_row = Some ''cash''" "tx_from_category tx_row = Some ''move''"
  "tx_to_category tx_row = Some ''move''" "tx_revision tx_row = 1" "tx_workbook tx_row = ''canonical-live''"
  "tx_input_currency tx_row = Some ''EUR''" "tx_to_amount tx_row = None"
  by (simp_all add: tx_row_def transaction_row_of_def tx_request_def tx_sides_value_def input_currency_of_def default_currency_def
      stored_to_amount_def)

lemma tx_found: "transaction_of (tx_next v s) tx_one = Some tx_row"
  by (simp add: transaction_of_def tx_next_tables tx_row_fields first_row_def)

lemma tx_stored:
  assumes "tx_valued v"
  shows "\<exists>w. stored_valuation sample_platform (tx_next v s) tx_one = Inr w \<and> tx_valued w"
proof -
  have "latest_valuation (tx_next v s) tx_one ''from'' = Some (valuation_row_of sample_platform tx_one ''from'' ''2026-01-05'' 1 ''EUR'' (from_side v))"
    "latest_valuation (tx_next v s) tx_one ''to'' = Some (valuation_row_of sample_platform tx_one ''to'' ''2026-01-05'' 1 ''EUR'' (to_side v))"
    by (rule latest_new_valuation [where vs = "[]"], simp_all add: tx_next_tables valuation_row_of_def)+
  then show ?thesis using assms
    by (simp add: stored_valuation_def load_stored_side_valuation_def valuation_row_of_def sample_platform_def json_ratio_def
        json_field_def tx_valued_def Let_def)
qed

lemma tx_row_deltas:
  "tx_valued w \<Longrightarrow> \<exists>p. project_transaction (row_effect tx_row w) = Inr p
     \<and> account_deltas p = [(''bank'', whole (-40)), (''cash'', whole 40)]"
  by (rule eur_projection) (simp_all add: row_effect_def tx_row_fields tx_valued_def)

lemma tx_row_accounts:
  "row_accounts (tx_next v s) tx_row = Inr
     (\<lparr>wa_id = ''bank'', wa_currency = ''EUR'', wa_is_real = True, wa_is_active = True\<rparr>,
      \<lparr>wa_id = ''cash'', wa_currency = ''EUR'', wa_is_real = True, wa_is_active = True\<rparr>)"
  by (simp add: row_accounts_def tx_row_fields load_db_account_def account_of_def tx_next_tables tx_posted_def first_row_def
      write_account_of_def)

lemma tx_open: "require_open sample_platform (tx_next v s) ''2026-01'' = Inr ()" "\<not> month_closed (tx_next v s) m"
  by (simp_all add: require_open_def month_closed_def evaluate tx_next_tables tx_db_def)

lemma tx_removed: "tx_valued v \<Longrightarrow>
  \<exists>r db'. delete_db_transaction sample_platform tx_env (Inr ''me'') tx_removal (tx_after v) = Some (Inr (r, db'))"
proof -
  assume "tx_valued v"
  let ?f = "delete_fingerprint sample_platform tx_removal"
  let ?d = "tx_next v ?f"
  have n: "normalize_delete tx_env tx_removal = Inr tx_removal"
    by (simp add: normalize_delete_def tx_removal_def tx_trims tx_uuids tx_expected)
  have ids: "dr_operation_id tx_removal = op_two" "dr_transaction_id tx_removal = tx_one" by (simp_all add: tx_removal_def)
  have init: "initialize sample_platform (tx_after v) = Inr (tx_after v)"
    by (simp add: initialize_def opening_missing_def tx_after_def set_response_def tx_rows_def tx_start_def tx_db_def evaluate)
  have c: "check_delete sample_platform ?d tx_removal = Inr tx_row"
    by (simp add: check_delete_def ids tx_found tx_row_fields tx_open dependent_audit_def tx_next_tables KINDS_def)
      (simp add: tx_removal_def)
  from tx_stored [OF \<open>tx_valued v\<close>] obtain w where w: "stored_valuation sample_platform ?d tx_one = Inr w" "tx_valued w" by blast
  from tx_row_deltas [OF w(2)] obtain p where p: "project_transaction (row_effect tx_row w) = Inr p"
    "account_deltas p = [(''bank'', whole (-40)), (''cash'', whole 40)]" by blast
  have rev: "check_revisions m1 m2 ?d
      [\<lparr>wa_id = ''bank'', wa_currency = ''EUR'', wa_is_real = True, wa_is_active = True\<rparr>,
       \<lparr>wa_id = ''cash'', wa_currency = ''EUR'', wa_is_real = True, wa_is_active = True\<rparr>] (dr_expected_accounts tx_removal) = Inr ()" for m1 m2
    by (simp add: check_revisions_def tx_removal_def account_of_def tx_next_tables tx_posted_def first_row_def fetch_one_def Let_def)
  obtain out e where e: "post_changes sample_platform (ecb_observations ?d) subtract_decimal_text ?d (account_deltas p) = Inr (e, out)"
    "e = ?d\<lparr>accounts_table := accounts_table e\<rparr>"
    by (simp add: p(2) post_changes_def post_deltas_def post_delta_def load_db_account_def account_of_def tx_next_tables tx_posted_def
        write_account_of_def first_row_def fetch_one_def sub_whole account_balance_eur_whole set_balance_def zero_whole)
  have "categories_table (delete_transaction tx_one e) = categories_table tx_db" "ledger_state_table (delete_transaction tx_one e) = None"
    "imports_table (delete_transaction tx_one e) = imports_table tx_db" "closures_table (delete_transaction tx_one e) = []"
    "snapshots_table (delete_transaction tx_one e) = []"
    by (subst e(2), simp add: delete_transaction_def tx_next_tables)+
  note quiet = tx_ledger [OF this]
  then obtain cats where cats: "budget_categories sample_platform (delete_transaction tx_one e) ''2026-01'' = Some (Inr cats)" by blast
  have "\<exists>r db'. fresh_delete sample_platform ''me'' tx_removal ?d = Some (Inr (r, db'))"
    by (simp add: fresh_delete_def c tx_row_accounts ids w(1) p(1) rev e(1) quiet(1,2) tx_row_fields cats Let_def)
  then obtain r db' where run: "fresh_delete sample_platform ''me'' tx_removal ?d = Some (Inr (r, db'))" by blast
  have none: "find_operation (tx_after v) op_two = None"
    by (simp add: tx_after_def find_operation_def set_response_def tx_rows_def tx_start_def first_row_def tx_ops [symmetric])
  have "writes_enabled tx_env" by (simp add: tx_env_def)
  then show ?thesis
    by (simp add: delete_db_transaction_def n init ids none run [unfolded tx_next_def new_operation_def] Let_def)
qed

definition tx_changed :: write_request where
  "tx_changed = tx_request\<lparr>wr_operation_id := op_two, wr_amount := whole 55\<rparr>"

definition tx_edit :: edit_request where
  "tx_edit = \<lparr>er_transaction = tx_changed, er_expected_revision = 1, er_expected_accounts = [(''bank'', 1), (''cash'', 1)]\<rparr>"

lemma tx_changed_fields:
  "wr_operation_id tx_changed = op_two" "wr_transaction_id tx_changed = tx_one" "wr_kind tx_changed = ''transfer''"
  "wr_date tx_changed = ''2026-01-05''" "wr_amount tx_changed = whole 55" "wr_date_only tx_changed" "wr_corrects tx_changed = None"
  "wr_to_amount tx_changed = None" "wr_currency tx_changed = None"
  by (simp_all add: tx_changed_def tx_request_def)

lemma tx_changed_plan:
  assumes "tx_valued v"
  shows "\<exists>w. plan_edit sample_platform tx_edit tx_row (tx_next v s) = Inr (tx_sides_value, w, False, [(''bank'', whole (-15)), (''cash'', whole 15)])"
proof -
  let ?d = "tx_next v s"
  have "request_sides ?d tx_changed = request_sides ?d tx_request"
    by (simp add: tx_changed_def request_sides_def request_ids_def expense_ids_def income_ids_def transfer_ids_def
        reallocate_ids_def assign_sides_def)
  then have sides: "request_sides ?d tx_changed = Inr tx_sides_value"
    by (simp add: request_sides_def request_ids_def tx_request_def transfer_ids_def required_id_def load_request_account_def
        load_db_account_def account_of_def tx_next_tables tx_posted_def tx_db_def first_row_def write_account_of_def assign_sides_def
        Let_def named_account_def named_side_category_def load_system_db_category_def same_nocase_def ascii_lower_def
        write_category_of_def tx_sides_value_def trim_id)
  have currencies: "check_currencies tx_changed tx_sides_value = Inr ()"
    by (simp add: check_currencies_def tx_sides_value_def tx_changed_fields Let_def)
  obtain w where w: "calculate_valuation (whole 55) ''EUR'' ''EUR'' (whole 55) ''EUR'' ''2026-01-05'' [] HalfEven = Inr w"
    "amount_native (from_side w) = whole 55" "amount_eur (from_side w) = whole 55"
    "amount_native (to_side w) = whole 55" "amount_eur (to_side w) = whole 55"
    using eur_valuation [of 55 "''2026-01-05''" "[]"] by blast
  have value': "request_valuation tx_changed tx_sides_value (ecb_observations ?d) = Inr w"
    using w by (simp add: request_valuation_def tx_changed_fields tx_sides_value_def input_currency_of_def default_currency_def
        valuation_to_amount_def ecb_observations_def tx_next_tables POSTING_ROUNDING_MODE_def)
  have "\<exists>p. project_transaction (request_effect tx_changed tx_sides_value w) = Inr p
      \<and> account_deltas p = [(''bank'', whole (- 55)), (''cash'', whole 55)]"
    by (rule eur_projection) (simp_all add: request_effect_def tx_changed_fields tx_sides_value_def w(2-5))
  then obtain after where after: "project_transaction (request_effect tx_changed tx_sides_value w) = Inr after"
    "account_deltas after = [(''bank'', whole (- 55)), (''cash'', whole 55)]" by blast
  from tx_stored [OF assms] obtain old where old: "stored_valuation sample_platform ?d tx_one = Inr old" "tx_valued old" by blast
  from tx_row_deltas [OF old(2)] obtain before where before: "project_transaction (row_effect tx_row old) = Inr before"
    "account_deltas before = [(''bank'', whole (-40)), (''cash'', whole 40)]" by blast
  have difference: "difference_maps (account_deltas after) (account_deltas before) = Inr [(''bank'', whole (-15)), (''cash'', whole 15)]"
    by (simp add: difference_maps_def after(2) before(2) bt_get_def sub_whole zero_whole)
  have unchanged: "\<not> inputs_unchanged tx_changed tx_sides_value tx_row a b" for a b
    by (simp add: inputs_unchanged_def tx_changed_fields tx_row_fields)
  have rev: "check_revisions m1 m2 ?d
      [\<lparr>wa_id = ''bank'', wa_currency = ''EUR'', wa_is_real = True, wa_is_active = True\<rparr>,
       \<lparr>wa_id = ''cash'', wa_currency = ''EUR'', wa_is_real = True, wa_is_active = True\<rparr>,
       sd_from_account tx_sides_value, sd_to_account tx_sides_value] (er_expected_accounts tx_edit) = Inr ()" for m1 m2
    by (simp add: check_revisions_def tx_edit_def account_of_def tx_next_tables tx_posted_def first_row_def fetch_one_def Let_def
        tx_sides_value_def)
  have edit: "er_transaction tx_edit = tx_changed" by (simp add: tx_edit_def)
  show ?thesis
    by (simp add: plan_edit_def edit sides currencies tx_row_accounts tx_changed_fields(2) old(1) before(1) unchanged value' after(1)
        difference rev Let_def)
qed

lemma tx_edited: "tx_valued v \<Longrightarrow>
  \<exists>r db'. edit_db_transaction sample_platform tx_env (Inr (''me'', ''Me'')) tx_edit (tx_after v) = Some (Inr (r, db'))"
proof -
  assume v: "tx_valued v"
  let ?f = "edit_fingerprint sample_platform tx_edit"
  let ?d = "tx_next v ?f"
  have edit: "er_transaction tx_edit = tx_changed" "er_expected_revision tx_edit = 1"
    "er_expected_accounts tx_edit = [(''bank'', 1), (''cash'', 1)]" "wr_operation_id (er_transaction tx_edit) = op_two"
    by (simp_all add: tx_edit_def tx_changed_fields)
  have "normalize_db_transaction_write UNALLOCATED tx_changed = Inr tx_changed"
    unfolding tx_changed_def by (rule tx_normal_amount) (simp_all add: whole_eval to_string_eval)
  then have n: "normalize_edit tx_env tx_edit = Inr tx_edit"
    by (simp add: normalize_edit_def edit tx_changed_fields tx_uuids tx_expected)
  have init: "initialize sample_platform (tx_after v) = Inr (tx_after v)"
    by (simp add: initialize_def opening_missing_def tx_after_def set_response_def tx_rows_def tx_start_def tx_db_def evaluate)
  have c: "check_edit sample_platform ?d tx_edit = Inr tx_row"
    by (simp add: check_edit_def edit tx_changed_fields tx_found tx_row_fields tx_open tx_next_tables KINDS_def)
  from tx_changed_plan [OF v] obtain w where plan: "plan_edit sample_platform tx_edit tx_row ?d
      = Inr (tx_sides_value, w, False, [(''bank'', whole (-15)), (''cash'', whole 15)])" by blast
  have glob: "date_glob ''2026-01-05''" by code_simp
  have dates: "tx_date (edited_row P tx_changed sd o' n t) = ''2026-01-05''" for P :: "int platform" and sd o' n t
    by (simp add: edited_row_def tx_changed_fields)
  obtain d1 where d1: "update_transaction tx_one (edited_row sample_platform tx_changed tx_sides_value None (Suc (tx_revision tx_row))) ?d = Inr d1"
    "d1 = ?d\<lparr>transactions_table := transactions_table d1\<rparr>"
    by (simp add: update_transaction_def dates glob list_ex_iff)
  obtain d2 where d2: "insert_valuations sample_platform tx_changed tx_sides_value (Suc (tx_revision tx_row)) w d1 = Inr d2"
    "d2 = ?d\<lparr>transactions_table := transactions_table d1, valuations_table := valuations_table d2\<rparr>"
  proof -
    have "valuations_table d1 = valuations_table ?d" by (subst d1(2)) simp
    then have "\<exists>d2. insert_valuations sample_platform tx_changed tx_sides_value (Suc (tx_revision tx_row)) w d1 = Inr d2
        \<and> d2 = d1\<lparr>valuations_table := valuations_table d2\<rparr>"
      by (simp add: insert_valuations_def insert_valuation_def tx_next_tables valuation_row_of_def tx_row_fields)
    then show ?thesis using that d1(2) by (metis db.surjective db.update_convs(4,5))
  qed
  have t2: "accounts_table d2 = tx_posted" by (subst d2(2)) (simp add: tx_next_tables)
  have "\<exists>d3 out. post_changes sample_platform (ecb_observations ?d) add_decimal_text d2 [(''bank'', whole (-15)), (''cash'', whole 15)] = Inr (d3, out)
     \<and> d3 = d2\<lparr>accounts_table := accounts_table d3\<rparr>"
    by (simp add: post_changes_def post_deltas_def post_delta_def load_db_account_def account_of_def t2 tx_posted_def
        write_account_of_def first_row_def fetch_one_def add_whole account_balance_eur_whole set_balance_def zero_whole)
  then obtain d3 out where d3: "post_changes sample_platform (ecb_observations ?d) add_decimal_text d2
      [(''bank'', whole (-15)), (''cash'', whole 15)] = Inr (d3, out)" "d3 = d2\<lparr>accounts_table := accounts_table d3\<rparr>" by blast
  have "categories_table d3 = categories_table tx_db" "ledger_state_table d3 = None" "imports_table d3 = imports_table tx_db"
    "closures_table d3 = []" "snapshots_table d3 = []" and revs: "revisions_table d3 = revisions_table ?d"
    by (subst d3(2), subst d2(2), simp add: tx_next_tables)+
  note quiet = tx_ledger [OF this(1-5)]
  then obtain cats where cats: "budget_categories sample_platform d3 ''2026-01'' = Some (Inr cats)" by blast
  have rows: "edit_rows sample_platform tx_env tx_edit tx_row tx_sides_value w False [(''bank'', whole (-15)), (''cash'', whole 15)] ?d
      = Inr (None, out, d3)"
    by (simp add: edit_rows_def edit edit_occurred_at_def resolve_transaction_timestamp_def tx_changed_fields validate_db_correction_def
        d1(1) d2(1) d3(1) quiet(1) Let_def)
  have "\<exists>r db'. fresh_edit sample_platform tx_env ''me'' ''Me'' tx_edit ?d = Some (Inr (r, db'))"
    by (simp add: fresh_edit_def c plan rows quiet(2) cats tx_row_fields insert_revision_def revs tx_next_tables edit
        tx_changed_fields Let_def)
  then obtain r db' where run: "fresh_edit sample_platform tx_env ''me'' ''Me'' tx_edit ?d = Some (Inr (r, db'))" by blast
  have none: "find_operation (tx_after v) op_two = None"
    by (simp add: tx_after_def find_operation_def set_response_def tx_rows_def tx_start_def first_row_def tx_ops [symmetric])
  have "writes_enabled tx_env" by (simp add: tx_env_def)
  then show ?thesis
    by (simp add: edit_db_transaction_def n init edit(4) none run [unfolded tx_next_def new_operation_def] Let_def)
qed

lemma tx_after_tables:
  "accounts_table (tx_after v) = tx_posted" "transactions_table (tx_after v) = [tx_row]" "closures_table (tx_after v) = []"
  "distinct (map acc_id (accounts_table (tx_after v)))" "distinct (map tx_id (transactions_table (tx_after v)))"
  "find_operation (tx_after v) op_two = None"
  by (simp_all add: tx_after_def set_response_def tx_rows_def tx_start_def tx_posted_def find_operation_def first_row_def
      tx_ops [symmetric] tx_db_def empty_db_def)

lemma tx_db_ok: "books_ok tx_db" "distinct (map acc_id (accounts_table tx_db))" "find_operation tx_db (wr_operation_id tx_request) = None"
  "transactions_table tx_db = []"
  by (simp_all add: books_ok_def find_operation_def first_row_def tx_db_def empty_db_def)

end
