(* ===== verification/TransactionProperties.thy ===== *)
theory TransactionProperties
  imports TransactionSamples
begin

text \<open>
  The properties of recording, editing and deleting a transaction, each applied to the transfer of
  theory \<open>TransactionSamples\<close>.
\<close>

text \<open>C1: A new transaction that the household records appends exactly one row, in an open month and
  under a fresh id, with the valuation computed from the stored rates. Every real and active account
  that the row names moves by exactly its native amount and advances its revision, every other account
  row is unchanged, and the response is stored under the operation.\<close>

theorem transaction_recorded:
  assumes "create_db_transaction P W session payload db = Some (Inr (r, db'))"
    and "find_operation db (wr_operation_id payload) = None" "distinct (map acc_id (accounts_table db))"
  shows "\<exists>subject username p sd v t. session = Inr (subject, username)
     \<and> normalize_db_transaction_write UNALLOCATED payload = Inr p
     \<and> request_sides db p = Inr sd \<and> request_valuation p sd (ecb_observations db) = Inr v
     \<and> transaction_of db (tx_id t) = None \<and> \<not> month_closed db (tx_month t)
     \<and> tx_id t = wr_transaction_id payload \<and> tx_date t = wr_date p \<and> tx_created_by t = Some subject \<and> tx_revision t = 1
     \<and> row_effect t v = request_effect p sd v
     \<and> transactions_table db' = transactions_table db @ [t]
     \<and> list_all2 (account_posted (native_change (row_effect t v)) (effect_accounts (row_effect t v)))
         (accounts_table db) (accounts_table db')
     \<and> (\<exists>o'. find_operation db' (wr_operation_id payload) = Some o' \<and> op_actor o' = subject \<and> op_response o' = write_json P r)"
proof (rule create_E [OF assms])
  fix subject username p sd v occurred_at t
  assume p: "session = Inr (subject, username)" "normalize_db_transaction_write UNALLOCATED payload = Inr p"
    "request_sides db p = Inr sd" "request_valuation p sd (ecb_observations db) = Inr v"
    "\<not> month_closed db (take 7 (wr_date p))" "wr_transaction_id p = wr_transaction_id payload"
    "transaction_of db (wr_transaction_id payload) = None"
    and t: "t = transaction_row_of P subject (write_fingerprint P p) p sd occurred_at (next_transaction_row db)"
    and rows: "transactions_table db' = transactions_table db @ [t]"
    "list_all2 (account_posted (native_change (row_effect t v)) (effect_accounts (row_effect t v)))
       (accounts_table db) (accounts_table db')"
    "find_operation db' (wr_operation_id payload) = Some \<lparr>op_id = wr_operation_id payload, op_actor = subject,
       op_fingerprint = write_fingerprint P p, op_response = write_json P r\<rparr>"
  have "tx_id t = wr_transaction_id payload" "tx_date t = wr_date p" "tx_created_by t = Some subject" "tx_revision t = 1"
    "row_effect t v = request_effect p sd v"
    by (simp_all add: t transaction_row_of_def p(6) row_effect_def request_effect_def)
  with p rows show ?thesis by (intro exI [of _ subject] exI [of _ username] exI [of _ p] exI [of _ sd] exI [of _ v] exI [of _ t]) simp
qed

theorem transaction_recorded_witness:
  "\<exists>r db' t v. create_db_transaction sample_platform tx_env (Inr (''me'', ''Me'')) tx_request tx_db = Some (Inr (r, db'))
     \<and> transactions_table db' = [t]
     \<and> list_all2 (account_posted (native_change (row_effect t v)) (effect_accounts (row_effect t v)))
         (accounts_table tx_db) (accounts_table db')"
proof -
  obtain r db' where run: "create_db_transaction sample_platform tx_env (Inr (''me'', ''Me'')) tx_request tx_db = Some (Inr (r, db'))"
    using tx_run by blast
  have "find_operation tx_db (wr_operation_id tx_request) = None" "distinct (map acc_id (accounts_table tx_db))"
    "transactions_table tx_db = []"
    by (simp_all add: find_operation_def first_row_def tx_db_def empty_db_def)
  with transaction_recorded [OF run] run show ?thesis by auto
qed

lemma row_replaced:
  assumes "distinct (map tx_id ts)" "t \<in> set ts"
  shows "map (\<lambda>x. if tx_id x = tx_id t then f x else x) ts = map (\<lambda>x. if x = t then f t else x) ts"
proof (rule map_cong [OF refl])
  fix x assume "x \<in> set ts"
  with assms have "tx_id x = tx_id t \<longleftrightarrow> x = t" by (auto simp: distinct_map dest: inj_onD)
  then show "(if tx_id x = tx_id t then f x else x) = (if x = t then f t else x)" by simp
qed

text \<open>C22: An edit of a transaction needs its current revision and that of every real account it touches
  before or after. It replaces that one row, within its month and while the month is open, advances its
  revision and appends one audit revision. The stored valuation stands exactly when the amount, the date, the
  input currency, the currencies of both accounts and the destination amount are those of the stored row;
  otherwise the new row is valued afresh from the stored rates and both sides of the valuation are
  appended. The balances of the real and active accounts move by the difference of the new effect
  and the stored one.\<close>

theorem transaction_edited:
  assumes "edit_db_transaction P W session payload db = Some (Inr (r, db'))"
    and "find_operation db (wr_operation_id (er_transaction payload)) = None" "distinct (map acc_id (accounts_table db))"
    and "distinct (map tx_id (transactions_table db))"
  shows "\<exists>q p t t' sd a b old v. normalize_edit W payload = Inr q \<and> p = er_transaction q
     \<and> t \<in> set (transactions_table db) \<and> tx_id t = wr_transaction_id (er_transaction payload)
     \<and> tx_workbook t = ''canonical-live'' \<and> int (tx_revision t) = er_expected_revision payload
     \<and> \<not> month_closed db (tx_month t) \<and> tx_month t' = tx_month t \<and> tx_id t' = tx_id t \<and> tx_revision t' = Suc (tx_revision t)
     \<and> request_sides db p = Inr sd \<and> stored_valuation P db (tx_id t) = Inr old \<and> row_accounts db t = Inr (a, b)
     \<and> (if tx_amount t = wr_amount p \<and> tx_date t = wr_date p
          \<and> unwrap_or (tx_input_currency t) (default_currency (tx_kind t) (wa_currency a) (wa_currency b)) = input_currency_of p sd
          \<and> wa_currency a = wa_currency (sd_from_account sd) \<and> wa_currency b = wa_currency (sd_to_account sd)
          \<and> (if tx_kind t = ''transfer'' then unwrap_or (tx_to_amount t) (tx_amount t) else tx_amount t) = valuation_to_amount p
        then v = old \<and> valuations_table db' = valuations_table db
        else request_valuation p sd (ecb_observations db) = Inr v
          \<and> (\<exists>x y. valuations_table db' = valuations_table db @ [x, y]
             \<and> (\<forall>z\<in>{x, y}. val_transaction z = tx_id t \<and> val_revision z = tx_revision t')
             \<and> val_side x = ''from'' \<and> val_native x = Some (amount_native (from_side v))
             \<and> val_side y = ''to'' \<and> val_native y = Some (amount_native (to_side v))))
     \<and> row_effect t' v = request_effect p sd v
     \<and> revisions_current db (er_expected_accounts q) (effect_accounts (row_effect t old) \<union> effect_accounts (row_effect t' v))
     \<and> transactions_table db' = map (\<lambda>x. if x = t then t' else x) (transactions_table db)
     \<and> (\<exists>rev. revisions_table db' = revisions_table db @ [rev] \<and> rev_transaction rev = tx_id t \<and> rev_revision rev = tx_revision t')
     \<and> list_all2 (account_posted (\<lambda>j. native_change (row_effect t' v) j - native_change (row_effect t old) j)
           (moved (\<lambda>j. native_change (row_effect t' v) j - native_change (row_effect t old) j)))
         (accounts_table db) (accounts_table db')"
proof (rule edit_E [OF assms(1-3)])
  fix q p t sd a b old v occurred_at snapshot unchanged
  assume p: "normalize_edit W payload = Inr q" "p = er_transaction q"
    "wr_transaction_id p = wr_transaction_id (er_transaction payload)"
    "transaction_of db (wr_transaction_id p) = Some t" "tx_workbook t = ''canonical-live''"
    "int (tx_revision t) = er_expected_revision payload" "take 7 (wr_date p) = take 7 (tx_date t)"
    "\<not> month_closed db (take 7 (tx_date t))" "request_sides db p = Inr sd" "stored_valuation P db (wr_transaction_id p) = Inr old"
    "row_accounts db t = Inr (a, b)"
    "revisions_current db (er_expected_accounts q) (effect_accounts (row_effect t old) \<union> effect_accounts (request_effect p sd v))"
    and u: "unchanged = inputs_unchanged p sd t a b" "unchanged \<longrightarrow> v = old"
      "\<not> unchanged \<longrightarrow> request_valuation p sd (ecb_observations db) = Inr v"
    and rows: "transactions_table db' = replaced (wr_transaction_id p) (edited_row P p sd occurred_at (Suc (tx_revision t))) (transactions_table db)"
    "valuations_table db' = valuations_table db @ edited_valuations P p sd (Suc (tx_revision t)) v unchanged"
    "revisions_table db' = revisions_table db @ [\<lparr>rev_transaction = wr_transaction_id p, rev_revision = Suc (tx_revision t),
       rev_operation = Some (wr_operation_id p), rev_snapshot = snapshot, rev_recorded_at = now_text P\<rparr>]"
    and posted: "list_all2 (account_posted (\<lambda>i. native_change (request_effect p sd v) i - native_change (row_effect t old) i)
       (moved (\<lambda>i. native_change (request_effect p sd v) i - native_change (row_effect t old) i)))
       (accounts_table db) (accounts_table db')"
  define t' where "t' = edited_row P p sd occurred_at (Suc (tx_revision t)) t"
  note t = transaction_of_Some [OF p(4)]
  have f: "tx_id t' = tx_id t" "tx_month t' = tx_month t" "tx_revision t' = Suc (tx_revision t)" "row_effect t' v = request_effect p sd v"
    by (simp_all add: t'_def edited_row_def p(7) row_effect_def request_effect_def)
  have table: "transactions_table db' = map (\<lambda>x. if x = t then t' else x) (transactions_table db)"
    using row_replaced [OF assms(4), of t] t by (simp add: rows(1) replaced_def t'_def)
  have valued: "if unchanged then v = old \<and> valuations_table db' = valuations_table db
      else request_valuation p sd (ecb_observations db) = Inr v
        \<and> (\<exists>x y. valuations_table db' = valuations_table db @ [x, y]
           \<and> (\<forall>z\<in>{x, y}. val_transaction z = tx_id t \<and> val_revision z = tx_revision t')
           \<and> val_side x = ''from'' \<and> val_native x = Some (amount_native (from_side v))
           \<and> val_side y = ''to'' \<and> val_native y = Some (amount_native (to_side v)))"
    using u(2,3) t f(3) by (simp add: rows(2) edited_valuations_def valuation_row_of_def)
  show ?thesis
  proof (rule exI [of _ q], rule exI [of _ p], rule exI [of _ t], rule exI [of _ t'], rule exI [of _ sd], rule exI [of _ a],
      rule exI [of _ b], rule exI [of _ old], rule exI [of _ v], unfold f(4), intro conjI)
    show "tx_id t = wr_transaction_id (er_transaction payload)" "stored_valuation P db (tx_id t) = Inr old" using t p(3,10) by simp_all
    show "\<exists>rev. revisions_table db' = revisions_table db @ [rev] \<and> rev_transaction rev = tx_id t \<and> rev_revision rev = tx_revision t'"
      by (intro exI conjI, rule rows(3)) (simp_all add: t f(3))
  qed (rule refl p(1,2,5,6,8,9,11,12) f(1-3) table posted conjunct1 [OF t] valued [unfolded u(1) inputs_unchanged_def])+
qed

theorem transaction_edited_witness:
  "\<exists>v r db' t'. edit_db_transaction sample_platform tx_env (Inr (''me'', ''Me'')) tx_edit (tx_after v) = Some (Inr (r, db'))
     \<and> transactions_table db' = [t'] \<and> tx_revision t' = 2"
proof -
  obtain v where "tx_valued v" using tx_run by blast
  then obtain r db' where run: "edit_db_transaction sample_platform tx_env (Inr (''me'', ''Me'')) tx_edit (tx_after v) = Some (Inr (r, db'))"
    using tx_edited by blast
  have "find_operation (tx_after v) (wr_operation_id (er_transaction tx_edit)) = None"
    by (simp add: tx_edit_def tx_changed_fields tx_after_tables)
  from transaction_edited [OF run this tx_after_tables(4,5)]
  have "\<exists>t t'. t \<in> set [tx_row] \<and> tx_revision t' = Suc (tx_revision t) \<and> transactions_table db' = map (\<lambda>x. if x = t then t' else x) [tx_row]"
    unfolding tx_after_tables(2) by blast
  then have "\<exists>t'. transactions_table db' = [t'] \<and> tx_revision t' = 2" by (auto simp: tx_row_fields)
  with run show ?thesis by blast
qed

text \<open>C23: A deletion needs the current revision of the transaction and of every real account it touches,
  an open month, and that no reconciliation or correction refers to it. It removes the row with its
  valuations and revisions, no other row, and takes the stored effect off the balances.\<close>

theorem transaction_deleted:
  assumes "delete_db_transaction P W actor payload db = Some (Inr (r, db'))"
    and "find_operation db (trim (dr_operation_id payload)) = None" "distinct (map acc_id (accounts_table db))"
  defines "i \<equiv> trim (dr_transaction_id payload)"
  shows "\<exists>q t v. normalize_delete W payload = Inr q \<and> transaction_of db i = Some t \<and> tx_workbook t = ''canonical-live''
     \<and> int (tx_revision t) = dr_expected_revision payload \<and> \<not> month_closed db (tx_month t) \<and> \<not> dependent_audit db i
     \<and> stored_valuation P db i = Inr v
     \<and> revisions_current db (dr_expected_accounts q) (effect_accounts (row_effect t v))
     \<and> transactions_table db' = filter (\<lambda>x. tx_id x \<noteq> i) (transactions_table db)
     \<and> valuations_table db' = filter (\<lambda>x. val_transaction x \<noteq> i) (valuations_table db)
     \<and> revisions_table db' = filter (\<lambda>x. rev_transaction x \<noteq> i) (revisions_table db)
     \<and> list_all2 (account_posted (\<lambda>j. - native_change (row_effect t v) j) (moved (native_change (row_effect t v))))
         (accounts_table db) (accounts_table db')"
  unfolding i_def by (rule delete_E [OF assms(1-3)]) blast

theorem transaction_deleted_witness:
  "\<exists>v r db'. delete_db_transaction sample_platform tx_env (Inr ''me'') tx_removal (tx_after v) = Some (Inr (r, db'))
     \<and> transactions_table db' = []"
proof -
  obtain v where "tx_valued v" using tx_run by blast
  then obtain r db' where run: "delete_db_transaction sample_platform tx_env (Inr ''me'') tx_removal (tx_after v) = Some (Inr (r, db'))"
    using tx_removed by blast
  have ids: "trim (dr_operation_id tx_removal) = op_two" "trim (dr_transaction_id tx_removal) = tx_one"
    by (simp_all add: tx_removal_def tx_trims)
  have "find_operation (tx_after v) (trim (dr_operation_id tx_removal)) = None" by (simp add: ids tx_after_tables)
  from transaction_deleted [OF run this tx_after_tables(4)]
  have "transactions_table db' = filter (\<lambda>x. tx_id x \<noteq> tx_one) [tx_row]" unfolding ids tx_after_tables(2) by blast
  then have "transactions_table db' = []" by (simp add: tx_row_fields)
  with run show ?thesis by blast
qed

text \<open>C24: Deleting a transaction right after it was recorded restores the tables of transactions,
  valuations and revisions and the native balance of every account.\<close>

theorem recorded_then_deleted:
  assumes "create_db_transaction P W session payload db = Some (Inr (r, db1))"
    and "find_operation db (wr_operation_id payload) = None"
    and "delete_db_transaction P' W' actor removal db1 = Some (Inr (r', db2))"
    and "find_operation db1 (trim (dr_operation_id removal)) = None"
    and "trim (dr_transaction_id removal) = wr_transaction_id payload" "books_ok db"
  shows "transactions_table db2 = transactions_table db \<and> valuations_table db2 = valuations_table db
     \<and> revisions_table db2 = revisions_table db \<and> list_all2 same_balance (accounts_table db) (accounts_table db2)"
proof -
  have distinct: "distinct (map acc_id (accounts_table db))" using assms(6) by (simp add: books_ok_def)
  show ?thesis
  proof (rule create_E [OF assms(1,2) distinct])
    fix subject p sd v occurred_at t s
    assume t: "transaction_of db (wr_transaction_id payload) = None" "wr_transaction_id p = wr_transaction_id payload"
        "t = transaction_row_of P subject (write_fingerprint P p) p sd occurred_at (next_transaction_row db)"
      and rows: "transactions_table db1 = transactions_table db @ [t]"
        "valuations_table db1 = valuations_table db @
          [valuation_row_of P (wr_transaction_id p) ''from'' (wr_date p) 1 (wa_currency (sd_from_account sd)) (from_side v),
           valuation_row_of P (wr_transaction_id p) ''to'' (wr_date p) 1 (wa_currency (sd_to_account sd)) (to_side v)]"
        "revisions_table db1 = revisions_table db @ [\<lparr>rev_transaction = wr_transaction_id p, rev_revision = 1,
          rev_operation = Some (wr_operation_id p), rev_snapshot = s, rev_recorded_at = now_text P\<rparr>]"
      and posted: "list_all2 (account_posted (native_change (row_effect t v)) (effect_accounts (row_effect t v)))
        (accounts_table db) (accounts_table db1)"
    show ?thesis
      by (rule delete_restores [OF assms(3,4,6) _ _ rows(1,2,3) _ _ _ _ _ _ posted])
        (simp_all add: assms(5) t transaction_row_of_def valuation_row_of_def)
  qed
qed

theorem recorded_then_deleted_witness:
  "\<exists>v r db2. delete_db_transaction sample_platform tx_env (Inr ''me'') tx_removal (tx_after v) = Some (Inr (r, db2))
     \<and> transactions_table db2 = [] \<and> list_all2 same_balance (accounts_table tx_db) (accounts_table db2)"
proof -
  obtain r v where v: "tx_valued v"
    and run: "create_db_transaction sample_platform tx_env (Inr (''me'', ''Me'')) tx_request tx_db = Some (Inr (r, tx_after v))"
    using tx_run by blast
  from tx_removed [OF v] obtain r' db2 where
    run2: "delete_db_transaction sample_platform tx_env (Inr ''me'') tx_removal (tx_after v) = Some (Inr (r', db2))" by blast
  have ids: "trim (dr_operation_id tx_removal) = op_two" "trim (dr_transaction_id tx_removal) = wr_transaction_id tx_request"
    by (simp_all add: tx_removal_def tx_trims tx_request_def)
  have "find_operation (tx_after v) (trim (dr_operation_id tx_removal)) = None" by (simp add: ids tx_after_tables)
  from recorded_then_deleted [OF run tx_db_ok(3) run2 this ids(2) tx_db_ok(1)] run2 show ?thesis by (auto simp: tx_db_ok(4))
qed

text \<open>C3: Recording, editing and deleting refine the abstract books: a request that succeeds, repeated
  or not, is one event on the rows, their valuations and their revisions, in an open month; and the
  tables stay consistent.\<close>

theorem writes_keep_books:
  "write_step Ps db db' \<Longrightarrow> books_ok db \<Longrightarrow> book_event (books_of db) (books_of db') \<and> books_ok db'"
  by (rule write_step_sound)

theorem writes_keep_books_witness: "\<exists>v. books_ok (tx_after v) \<and> book_event (books_of tx_db) (books_of (tx_after v))"
proof -
  obtain r v where run: "create_db_transaction sample_platform tx_env (Inr (''me'', ''Me'')) tx_request tx_db = Some (Inr (r, tx_after v))"
    using tx_run by blast
  have "write_step {(sample_platform, tx_env)} tx_db (tx_after v)" by (rule write_step.recorded [OF _ run]) simp
  from writes_keep_books [OF this tx_db_ok(1)] show ?thesis by blast
qed

text \<open>C2: Over any sequence of successful requests, at any times, the rows of the closed months stay as
  they were, in order, and no month is opened or closed by them.\<close>

theorem closed_rows_frozen:
  assumes "(write_step Ps)\<^sup>*\<^sup>* db db'" "books_ok db"
  shows "closed_rows db db' = closed_rows db db \<and> month_closed db' = month_closed db \<and> books_ok db'"
  using assms(1)
proof induction
  case base
  then show ?case using assms(2) by simp
next
  case (step d db')
  from write_step_sound [OF step(2)] step(3) have e: "book_event (books_of d) (books_of db')" "books_ok db'" by auto
  from book_event_closed [OF e(1)] step(3) have "month_closed db' = month_closed d"
    "filter (\<lambda>t. month_closed d (tx_month t)) (transactions_table db') = filter (\<lambda>t. month_closed d (tx_month t)) (transactions_table d)"
    by (auto simp: books_ok_sound books_of_def)
  with step(3) e(2) show ?case by (simp add: closed_rows_def)
qed

theorem closed_rows_frozen_witness:
  "\<exists>v. (write_step {(sample_platform, tx_env)})\<^sup>*\<^sup>* tx_db (tx_after v) \<and> closed_rows tx_db (tx_after v) = closed_rows tx_db tx_db"
proof -
  obtain r v where run: "create_db_transaction sample_platform tx_env (Inr (''me'', ''Me'')) tx_request tx_db = Some (Inr (r, tx_after v))"
    using tx_run by blast
  have "write_step {(sample_platform, tx_env)} tx_db (tx_after v)" by (rule write_step.recorded [OF _ run]) simp
  then have "(write_step {(sample_platform, tx_env)})\<^sup>*\<^sup>* tx_db (tx_after v)" by blast
  with closed_rows_frozen [OF this tx_db_ok(1)] show ?thesis by blast
qed

end
