(* ===== verification/Reconciliation.thy ===== *)
theory Reconciliation
  imports TransactionWrites
begin

text \<open>
  Reconciling the accounts at a month end (\<open>record_db_reconciliation\<close> in \<open>server.rs\<close>): the household
  names the balances it observes, and the difference from the recorded balances becomes one
  replaceable adjustment per account and date. The texts of affected transaction ids kept beside an
  operation are not modelled.
\<close>

section \<open>The request\<close>

text \<open>
  \<open>closing_before d\<close> is SQLite's \<open>date(d, 'start of month', '-1 day')\<close>, and \<open>julian_after a b\<close> the comparison
  \<open>julianday(a) > julianday(b)\<close>, \<open>None\<close> where it is \<open>NULL\<close>.
\<close>

record reconcile_env = write_env +
  reconcile_enabled :: bool
  closing_before :: "string \<Rightarrow> string option"
  julian_after :: "string \<Rightarrow> string \<Rightarrow> bool option"

record reconcile_account =
  rq_account :: string
  rq_actual :: string
  rq_transaction :: string
  rq_revision :: int

record reconcile_request =
  rc_operation :: string
  rc_date :: string
  rc_observed_at :: "string option"
  rc_observed_date :: "string option"
  rc_accounts :: "reconcile_account list"

definition account_message :: string where
  "account_message = ''Each account needs a unique ID, UUIDv7 transaction ID, nonnegative expected revision, and valid actual balance.''"

definition normalize_account ::
  "reconcile_env \<Rightarrow> string list \<times> string list \<times> reconcile_account list \<Rightarrow> reconcile_account
     \<Rightarrow> (string list \<times> string list \<times> reconcile_account list) api" where
  "normalize_account E = (\<lambda>(ids, transactions, out) a0.
     let a = a0\<lparr>rq_account := trim (rq_account a0), rq_transaction := map ascii_lower (rq_transaction a0)\<rparr> in
     and_then (guard (\<not> (rq_account a = [] \<or> 256 < length (rq_account a) \<or> rq_account a \<in> set ids
         \<or> \<not> is_uuid_v7 (valid_uuid E) (rq_transaction a) \<or> rq_transaction a \<in> set transactions
         \<or> rq_revision a < 0 \<or> 64 < length (rq_actual a))) (bad_request account_message)) (\<lambda>_.
     and_then (map_err (\<lambda>_. bad_request ''Actual balances must be valid decimal amounts.'')
       (round_posted_decimal_text (rq_actual a) 2)) (\<lambda>actual.
     Inr (ids @ [rq_account a], transactions @ [rq_transaction a], out @ [a\<lparr>rq_actual := actual\<rparr>]))))"

definition normalize_reconciliation :: "reconcile_env \<Rightarrow> reconcile_request \<Rightarrow> reconcile_request api" where
  "normalize_reconciliation E q =
     and_then (guard (is_uuid_v7 (valid_uuid E) (rc_operation q) \<and> valid_date (rc_date q))
       (bad_request ''operationId must be UUIDv7 and date must be valid.'')) (\<lambda>_.
     and_then (guard (rc_accounts q \<noteq> [] \<and> length (rc_accounts q) \<le> 100)
       (bad_request ''Provide one to one hundred accounts to reconcile.'')) (\<lambda>_.
     and_then (fold_result (normalize_account E) ([], [], []) (rc_accounts q)) (\<lambda>(ids, transactions, accounts).
     Inr (q\<lparr>rc_date := trim (rc_date q), rc_accounts := sort_key rq_account accounts\<rparr>))))"

definition reconcile_json :: "reconcile_request \<Rightarrow> json" where
  "reconcile_json q = JObj ([(''operationId'', JStr (rc_operation q)), (''date'', JStr (rc_date q))]
     @ optional_field ''observedAt'' (rc_observed_at q) @ optional_field ''observedDate'' (rc_observed_date q)
     @ [(''accounts'', JArr (map (\<lambda>a. JObj [(''accountId'', JStr (rq_account a)), (''actualBalance'', JStr (rq_actual a)),
          (''transactionId'', JStr (rq_transaction a)), (''expectedRevision'', JInt (rq_revision a))]) (rc_accounts q)))])"

definition reconcile_fingerprint :: "'d platform \<Rightarrow> reconcile_request \<Rightarrow> string" where
  "reconcile_fingerprint P q = sha256_hex P (write_json P (reconcile_json q))"

section \<open>The period\<close>

definition is_ascii :: "string \<Rightarrow> bool" where
  "is_ascii s \<longleftrightarrow> list_all (\<lambda>c. (of_char c :: nat) < 128) s"

definition observation_text_ok :: "string \<Rightarrow> string \<Rightarrow> bool" where
  "observation_text_ok observed_at observed_date \<longleftrightarrow> valid_date observed_date \<and> length observed_at \<le> 40
     \<and> is_ascii observed_at \<and> CHR ''T'' \<in> set observed_at \<and> ends_with observed_at ''Z''"

definition observation_fresh :: "reconcile_env \<Rightarrow> string \<Rightarrow> string \<Rightarrow> string \<Rightarrow> bool" where
  "observation_fresh E date observed_at observed_date \<longleftrightarrow>
     (case seconds_since E observed_at of None \<Rightarrow> False | Some s \<Rightarrow> -60 \<le> s \<and> s \<le> 86400)
     \<and> (case days_between E observed_date (take 10 observed_at) of None \<Rightarrow> False | Some d \<Rightarrow> d \<le> 1)
     \<and> (case closing_before E observed_date of None \<Rightarrow> False | Some latest \<Rightarrow> date \<le> latest)
     \<and> (case last_day_of_month (take 7 date) of None \<Rightarrow> False | Some d \<Rightarrow> date = take 7 date @ ''-'' @ pad_zero 2 d)"

definition check_observation :: "reconcile_env \<Rightarrow> reconcile_request \<Rightarrow> unit api" where
  "check_observation E q =
     (case (rc_observed_at q, rc_observed_date q) of
        (Some observed_at, Some observed_date) \<Rightarrow>
          and_then (guard (observation_text_ok observed_at observed_date)
            (bad_request ''The balance observation must have a valid date and UTC timestamp.'')) (\<lambda>_.
          guard (observation_fresh E (rc_date q) observed_at observed_date)
            (conflict ''Refresh reconciliation to check current balances for the previous month.''))
      | (None, None) \<Rightarrow> Inr ()
      | _ \<Rightarrow> Inl (bad_request ''Provide both the observation timestamp and local date.''))"

definition check_period :: "'d platform \<Rightarrow> reconcile_env \<Rightarrow> db \<Rightarrow> reconcile_request \<Rightarrow> unit api" where
  "check_period P E db q =
     and_then (guard (\<not> (month_closed db (take 7 (rc_date q)) \<or> this_month P < take 7 (rc_date q)))
       (conflict ''Reconciliation requires a period that is not closed or in the future.'')) (\<lambda>_.
     check_observation E q)"

section \<open>The activity after the closing date\<close>

record activity =
  act_through :: string
  act_after :: string
  act_transactions :: "json list"

definition no_activity :: activity where
  "no_activity = \<lparr>act_through = ''0'', act_after = ''0'', act_transactions = []\<rparr>"

definition activity_rows :: "db \<Rightarrow> string \<Rightarrow> string \<Rightarrow> transaction_row list" where
  "activity_rows db i closing_date = sort_key (\<lambda>t. (tx_date t, tx_id t))
     (filter (\<lambda>t. closing_date < tx_date t \<and> (tx_from_account t = Some i \<or> tx_to_account t = Some i)) (transactions_table db))"

definition native_side :: "db \<Rightarrow> transaction_row \<Rightarrow> string \<Rightarrow> string api" where
  "native_side db t side = ok_or (valuation_native db (tx_id t) side)
     (conflict ''An account transaction is missing its native valuation.'')"

definition activity_net :: "db \<Rightarrow> string \<Rightarrow> transaction_row \<Rightarrow> string api" where
  "activity_net db i t =
     and_then (if tx_from_account t = Some i
         then and_then (native_side db t ''from'') (\<lambda>a. internal (subtract_decimal_text ''0'' a)) else Inr ''0'') (\<lambda>net.
     if tx_to_account t = Some i
     then and_then (native_side db t ''to'') (\<lambda>a. internal (add_decimal_text net a)) else Inr net)"

text \<open>A timestamp after the observation; the comparison with a \<open>NULL\<close> cannot be read.\<close>

definition after_cutoff :: "reconcile_env \<Rightarrow> string option \<Rightarrow> transaction_row \<Rightarrow> bool api" where
  "after_cutoff E observed_at t =
     (case tx_occurred_at t of
        None \<Rightarrow> Inr False
      | Some occurred_at \<Rightarrow> ok_or (Option.bind observed_at (julian_after E occurred_at)) internal_error)"

definition activity_json :: "transaction_row \<Rightarrow> string \<Rightarrow> json" where
  "activity_json t net = JObj [(''id'', JStr (tx_id t)), (''revision'', JInt (int (tx_revision t))), (''date'', JStr (tx_date t)),
     (''occurredAt'', json_option (tx_occurred_at t)), (''description'', JStr (tx_description t)), (''netNative'', JStr net)]"

definition add_activity ::
  "reconcile_env \<Rightarrow> db \<Rightarrow> string \<Rightarrow> string \<Rightarrow> string option \<Rightarrow> activity \<Rightarrow> transaction_row \<Rightarrow> activity api" where
  "add_activity E db i observed_date observed_at act t =
     and_then (activity_net db i t) (\<lambda>net.
     and_then (if tx_date t \<le> observed_date then after_cutoff E observed_at t else Inr True) (\<lambda>later.
     if \<not> later
     then and_then (internal (add_decimal_text (act_through act) net)) (\<lambda>s.
       Inr (act\<lparr>act_through := s, act_transactions := act_transactions act @ [activity_json t net]\<rparr>))
     else and_then (internal (add_decimal_text (act_after act) net)) (\<lambda>s. Inr (act\<lparr>act_after := s\<rparr>))))"

definition reconciliation_activity ::
  "reconcile_env \<Rightarrow> db \<Rightarrow> string \<Rightarrow> string \<Rightarrow> string \<Rightarrow> string option \<Rightarrow> activity api" where
  "reconciliation_activity E db i closing_date observed_date observed_at =
     fold_result (add_activity E db i observed_date observed_at) no_activity (activity_rows db i closing_date)"

section \<open>The adjustment of an account\<close>

text \<open>The rows that an adjustment replaces: \<open>JOIN\<close>s on the system account and the system category.\<close>

definition existing_adjustments :: "db \<Rightarrow> string \<Rightarrow> string \<Rightarrow> transaction_row list" where
  "existing_adjustments db date i = filter (\<lambda>t. tx_kind t = ''reconciliation'' \<and> tx_date t = date \<and> tx_from_account t = Some i
     \<and> list_ex (\<lambda>a. tx_to_account t = Some (acc_id a) \<and> same_nocase (acc_source_name a) ''Reconciliation'') (accounts_table db)
     \<and> list_ex (\<lambda>c. tx_from_category t = Some (cat_id c) \<and> same_nocase (cat_name c) ''Reconciliation'') (categories_table db))
     (transactions_table db)"

text \<open>What an account is reconciled with, computed before its rows are written.\<close>

record adjustment_plan =
  pl_account :: write_account
  pl_existing :: "transaction_row option"
  pl_transaction :: string
  pl_current_revision :: int
  pl_prior :: string
  pl_base :: string
  pl_activity :: activity
  pl_target :: string
  pl_closing :: string
  pl_adjustment :: string
  pl_actual :: string
  pl_revision :: nat
  pl_valuation :: transaction_valuation

definition load_reconciled_account :: "db \<Rightarrow> reconcile_account \<Rightarrow> (write_account \<times> string \<times> int) api" where
  "load_reconciled_account db a =
     and_then (load_db_account db (rq_account a)) (\<lambda>account.
     and_then (guard (wa_is_real account \<and> wa_is_active account \<and> wa_currency account \<in> {''EUR'', ''PHP'', ''USD''})
       (bad_request ''Only active real accounts can be reconciled.'')) (\<lambda>_.
     and_then (internal (fetch_one (account_of db (wa_id account)))) (\<lambda>row.
     and_then (ok_or (acc_native_balance row) (conflict ''A reconciled account has no canonical native balance.'')) (\<lambda>balance.
     and_then (guard (acc_revision row = rq_revision a)
       (conflict ''An account changed after its balance was loaded. Refresh the account balances and reconcile again.'')) (\<lambda>_.
     Inr (account, balance, acc_revision row))))))"

definition load_adjustment :: "db \<Rightarrow> string \<Rightarrow> reconcile_account \<Rightarrow> string \<Rightarrow> (transaction_row option \<times> string) api" where
  "load_adjustment db date a i =
     and_then (guard (length (existing_adjustments db date i) \<le> 1)
       (conflict ''More than one reconciliation adjustment exists for an account and date.'')) (\<lambda>_.
     let existing = first_row (existing_adjustments db date i);
         transaction = (case existing of None \<Rightarrow> rq_transaction a | Some t \<Rightarrow> tx_id t) in
     and_then (guard (transaction = rq_transaction a \<or> transaction_of db (rq_transaction a) = None)
       (conflict ''transactionId is already used by another transaction.'')) (\<lambda>_.
     Inr (existing, transaction)))"

text \<open>Without an observation no activity is taken into account.\<close>

definition planned_activity :: "reconcile_env \<Rightarrow> reconcile_request \<Rightarrow> db \<Rightarrow> string \<Rightarrow> activity api" where
  "planned_activity E q db i = (case rc_observed_date q of
     None \<Rightarrow> Inr no_activity
   | Some observed_date \<Rightarrow> reconciliation_activity E db i (rc_date q) observed_date (rc_observed_at q))"

definition plan_adjustment ::
  "reconcile_env \<Rightarrow> reconcile_request \<Rightarrow> write_account \<Rightarrow> rate_observation list \<Rightarrow> db \<Rightarrow> reconcile_account \<Rightarrow> adjustment_plan api" where
  "plan_adjustment E q system observations db a =
     and_then (load_reconciled_account db a) (\<lambda>(account, balance, revision).
     and_then (load_adjustment db (rc_date q) a (wa_id account)) (\<lambda>(existing, transaction).
     let prior = (case existing of None \<Rightarrow> ''0'' | Some t \<Rightarrow> tx_amount t) in
     and_then (internal (add_decimal_text balance prior)) (\<lambda>base.
     and_then (planned_activity E q db (wa_id account)) (\<lambda>act.
     and_then (internal (add_decimal_text (rq_actual a) (act_after act))) (\<lambda>target.
     and_then (internal (subtract_decimal_text (rq_actual a) (act_through act))) (\<lambda>closing.
     and_then (internal (subtract_decimal_text base target)) (\<lambda>raw.
     and_then (internal (round_posted_decimal_text raw 2)) (\<lambda>adjustment.
     and_then (internal (round_posted_decimal_text (rq_actual a) 2)) (\<lambda>actual.
     and_then (map_err conflict (calculate_valuation adjustment (wa_currency account) (wa_currency account) ''0''
       (wa_currency system) (rc_date q) observations POSTING_ROUNDING_MODE)) (\<lambda>v.
     Inr \<lparr>pl_account = account, pl_existing = existing, pl_transaction = transaction, pl_current_revision = revision,
       pl_prior = prior, pl_base = base, pl_activity = act, pl_target = target, pl_closing = closing,
       pl_adjustment = adjustment, pl_actual = actual,
       pl_revision = (case existing of None \<Rightarrow> 0 | Some t \<Rightarrow> tx_revision t) + 1, pl_valuation = v\<rparr>))))))))))"

section \<open>The rows of an adjustment\<close>

definition adjustment_json :: "reconcile_request \<Rightarrow> adjustment_plan \<Rightarrow> json" where
  "adjustment_json q pl = JObj
     [(''operationId'', JStr (rc_operation q)), (''transactionId'', JStr (pl_transaction pl)), (''date'', JStr (rc_date q)),
      (''kind'', JStr ''reconciliation''), (''accountId'', JStr (wa_id (pl_account pl))), (''amount'', JStr (pl_adjustment pl)),
      (''actualBalance'', JStr (pl_actual pl)), (''observedAt'', json_option (rc_observed_at q)),
      (''observedDate'', json_option (rc_observed_date q)), (''closingBalance'', JStr (pl_closing pl)),
      (''postMonthActivity'', JStr (act_through (pl_activity pl))),
      (''includedTransactions'', JArr (act_transactions (pl_activity pl)))]"

definition update_adjustment :: "adjustment_plan \<Rightarrow> db \<Rightarrow> db" where
  "update_adjustment pl db = db\<lparr>transactions_table := map (\<lambda>t. if tx_id t = pl_transaction pl
     then t\<lparr>tx_amount := pl_adjustment pl, tx_input_currency := Some (wa_currency (pl_account pl)), tx_revision := pl_revision pl\<rparr>
     else t) (transactions_table db)\<rparr>"

definition adjustment_row ::
  "'d platform \<Rightarrow> string \<Rightarrow> reconcile_request \<Rightarrow> write_account \<Rightarrow> write_category \<Rightarrow> int \<Rightarrow> adjustment_plan \<Rightarrow> transaction_row" where
  "adjustment_row P subject q system category source_row pl =
     \<lparr>tx_id = pl_transaction pl, tx_kind = ''reconciliation'', tx_date = rc_date q, tx_amount = pl_adjustment pl,
      tx_input_currency = Some (wa_currency (pl_account pl)), tx_from_category = Some (wc_id category),
      tx_to_category = Some (wc_id category), tx_from_account = Some (wa_id (pl_account pl)),
      tx_to_account = Some (wa_id system), tx_description = ''reconciliation'', tx_to_amount = None, tx_to_currency = None,
      tx_currency_override = False, tx_to_amount_override = False, tx_created_at = Some (now_text P),
      tx_created_by = Some subject, tx_revision = 1, tx_workbook = ''canonical-live'', tx_sheet = ''Transactions'',
      tx_source_row = source_row, tx_fingerprint = reconcile_fingerprint P q,
      tx_source_json = write_json P (adjustment_json q pl), tx_occurred_at = None\<rparr>"

definition write_adjustment ::
  "'d platform \<Rightarrow> string \<Rightarrow> reconcile_request \<Rightarrow> write_account \<Rightarrow> write_category \<Rightarrow> adjustment_plan \<Rightarrow> db \<Rightarrow> db result" where
  "write_adjustment P subject q system category pl db =
     (if pl_existing pl \<noteq> None then Inr (update_adjustment pl db)
      else insert_transaction db (adjustment_row P subject q system category (next_transaction_row db) pl))"

definition adjustment_snapshot :: "reconcile_request \<Rightarrow> string \<Rightarrow> reconcile_account \<Rightarrow> adjustment_plan \<Rightarrow> json" where
  "adjustment_snapshot q subject a pl = JObj
     [(''transaction'', adjustment_json q pl), (''operationId'', JStr (rc_operation q)),
      (''expectedAccountRevision'', JInt (rq_revision a)), (''accountLedgerRevision'', JInt (pl_current_revision pl + 1)),
      (''recordedBy'', JStr subject), (''actualBalance'', JStr (pl_actual pl)),
      (''balanceBeforeReplacement'', JStr (pl_base pl)), (''replacedAdjustment'', JStr (pl_prior pl)),
      (''newAdjustment'', JStr (pl_adjustment pl)), (''valuationPolicy'', JStr RATE_POLICY),
      (''fromValuation'', valuation_side_json (from_side (pl_valuation pl))),
      (''toValuation'', valuation_side_json (to_side (pl_valuation pl)))]"

definition set_reconciled :: "string \<Rightarrow> string \<Rightarrow> string \<Rightarrow> string \<Rightarrow> string \<Rightarrow> string \<Rightarrow> db \<Rightarrow> db" where
  "set_reconciled i native eur actual actual_eur adjustment db =
     db\<lparr>accounts_table := map (\<lambda>a. if acc_id a = i
       then a\<lparr>acc_native_balance := Some native, acc_eur_balance := Some eur, acc_actual_native := Some actual,
         acc_actual_eur := Some actual_eur, acc_reconciliation := Some adjustment, acc_revision := acc_revision a + 1\<rparr> else a)
       (accounts_table db)\<rparr>"

definition insert_item :: "db \<Rightarrow> batch_item_row \<Rightarrow> db result" where
  "insert_item db r =
     (if list_ex (\<lambda>x. ri_batch x = ri_batch r \<and> ri_account x = ri_account r) (batch_items_table db)
      then Inl ''UNIQUE constraint failed: reconciliation_items''
      else Inr (db\<lparr>batch_items_table := batch_items_table db @ [r]\<rparr>))"

definition item_of :: "'d platform \<Rightarrow> reconcile_request \<Rightarrow> int \<Rightarrow> adjustment_plan \<Rightarrow> batch_item_row" where
  "item_of P q revision pl =
     \<lparr>ri_batch = rc_operation q, ri_account = wa_id (pl_account pl), ri_transaction = Some (pl_transaction pl),
      ri_actual = Some (pl_closing pl), ri_variance = Some (pl_adjustment pl), ri_revision = revision,
      ri_observed = (if rc_observed_at q \<noteq> None then Some (pl_actual pl) else None),
      ri_activity = Some (act_through (pl_activity pl)),
      ri_included = Some (write_json P (JArr (act_transactions (pl_activity pl))))\<rparr>"

definition adjustment_result :: "adjustment_plan \<Rightarrow> string \<Rightarrow> int \<Rightarrow> json" where
  "adjustment_result pl current_eur revision = JObj
     [(''accountId'', JStr (wa_id (pl_account pl))), (''transactionId'', JStr (pl_transaction pl)),
      (''actualBalance'', JStr (pl_actual pl)), (''adjustment'', JStr (pl_adjustment pl)),
      (''balanceNative'', JStr (pl_actual pl)), (''balanceEur'', JStr current_eur), (''ledgerRevision'', JInt revision)]"

text \<open>The adjustment with its revision and its two valuations.\<close>

definition record_adjustment ::
  "'d platform \<Rightarrow> string \<Rightarrow> reconcile_request \<Rightarrow> write_account \<Rightarrow> write_category \<Rightarrow> reconcile_account \<Rightarrow> adjustment_plan
     \<Rightarrow> db \<Rightarrow> db result" where
  "record_adjustment P subject q system category a pl db =
     and_then (write_adjustment P subject q system category pl db) (\<lambda>d1.
     and_then (insert_revision d1 \<lparr>rev_transaction = pl_transaction pl, rev_revision = pl_revision pl,
       rev_operation = Some (rc_operation q), rev_snapshot = write_json P (adjustment_snapshot q subject a pl),
       rev_recorded_at = now_text P\<rparr>) (\<lambda>d2.
     and_then (insert_valuation d2 (valuation_row_of P (pl_transaction pl) ''from'' (rc_date q) (pl_revision pl)
       (wa_currency (pl_account pl)) (from_side (pl_valuation pl)))) (\<lambda>d3.
     insert_valuation d3 (valuation_row_of P (pl_transaction pl) ''to'' (rc_date q) (pl_revision pl)
       (wa_currency system) (to_side (pl_valuation pl))))))"

definition reconcile_one ::
  "'d platform \<Rightarrow> reconcile_env \<Rightarrow> string \<Rightarrow> reconcile_request \<Rightarrow> write_account \<Rightarrow> write_category \<Rightarrow> rate_observation list
     \<Rightarrow> db \<times> json list \<Rightarrow> reconcile_account \<Rightarrow> (db \<times> json list) api" where
  "reconcile_one P E subject q system category observations = (\<lambda>(db, out) a.
     and_then (plan_adjustment E q system observations db a) (\<lambda>pl.
     and_then (internal (record_adjustment P subject q system category a pl db)) (\<lambda>d1.
     and_then (map_err conflict (account_balance_eur (pl_target pl) (wa_currency (pl_account pl)) (today P) observations)) (\<lambda>eur.
     and_then (internal (account_balance_eur (pl_actual pl) (wa_currency (pl_account pl)) (today P) observations)) (\<lambda>actual_eur.
     let d2 = set_reconciled (wa_id (pl_account pl)) (pl_target pl) eur (pl_actual pl) actual_eur (pl_adjustment pl) d1 in
     and_then (internal (fetch_one (account_of d2 (wa_id (pl_account pl))))) (\<lambda>row.
     and_then (internal (insert_item d2 (item_of P q (acc_revision row) pl))) (\<lambda>d3.
     Inr (d3, out @ [adjustment_result pl eur (acc_revision row)]))))))))"

section \<open>The handler\<close>

definition insert_batch :: "db \<Rightarrow> batch_row \<Rightarrow> db result" where
  "insert_batch db b =
     (if list_ex (\<lambda>x. rb_id x = rb_id b \<or> rb_operation x = rb_operation b) (batches_table db)
      then Inl ''UNIQUE constraint failed: reconciliation_batches''
      else Inr (db\<lparr>batches_table := batches_table db @ [b]\<rparr>))"

definition batch_of :: "'d platform \<Rightarrow> string \<Rightarrow> reconcile_request \<Rightarrow> batch_row" where
  "batch_of P subject q = \<lparr>rb_id = rc_operation q, rb_operation = rc_operation q, rb_date = rc_date q, rb_actor = subject,
     rb_submitted_at = now_text P, rb_observed_at = rc_observed_at q, rb_observed_date = rc_observed_date q\<rparr>"

definition reconcile_response :: "'d platform \<Rightarrow> reconcile_request \<Rightarrow> json list \<Rightarrow> json" where
  "reconcile_response P q results = JObj [(''recorded'', JBool True), (''operationId'', JStr (rc_operation q)),
     (''date'', JStr (rc_date q)), (''submittedAt'', JStr (now_text P)), (''accounts'', JArr results)]"

definition fresh_reconciliation :: "'d platform \<Rightarrow> reconcile_env \<Rightarrow> string \<Rightarrow> reconcile_request \<Rightarrow> db \<Rightarrow> (json \<times> db) api" where
  "fresh_reconciliation P E subject q db =
     and_then (check_period P E db q) (\<lambda>_.
     and_then (internal (insert_batch db (batch_of P subject q))) (\<lambda>d1.
     and_then (load_system_db_account d1 ''Reconciliation'') (\<lambda>system.
     and_then (load_system_db_category d1 ''Reconciliation'') (\<lambda>category.
     and_then (fold_result (reconcile_one P E subject q system category (ecb_observations d1)) (d1, []) (rc_accounts q)) (\<lambda>(d2, results).
     let response = reconcile_response P q results in
     Inr (response, set_response (rc_operation q) (write_json P response) d2))))))"

definition replay_reconciliation :: "'d platform \<Rightarrow> string \<Rightarrow> reconcile_request \<Rightarrow> operation_row \<Rightarrow> db \<Rightarrow> (json \<times> db) api" where
  "replay_reconciliation P subject q o' db =
     and_then (guard (op_actor o' = subject \<and> op_fingerprint o' = reconcile_fingerprint P q
         \<and> list_ex (\<lambda>b. rb_operation b = rc_operation q) (batches_table db))
       (conflict ''operationId was already used for a different finance operation.'')) (\<lambda>_.
     and_then (stored_response P o') (\<lambda>r. Inr (r, db)))"

definition record_db_reconciliation ::
  "'d platform \<Rightarrow> reconcile_env \<Rightarrow> string api \<Rightarrow> reconcile_request \<Rightarrow> db \<Rightarrow> (json \<times> db) api" where
  "record_db_reconciliation P E session payload db =
     and_then session (\<lambda>subject.
     and_then (guard (reconcile_enabled E) (unavailable ''Database reconciliation writes are not enabled.'')) (\<lambda>_.
     and_then (normalize_reconciliation E payload) (\<lambda>q.
     and_then (internal (initialize P db)) (\<lambda>d.
     case find_operation d (rc_operation q) of
       Some o' \<Rightarrow> replay_reconciliation P subject q o' d
     | None \<Rightarrow> fresh_reconciliation P E subject q
         (d\<lparr>operations_table := operations_table d @ [\<lparr>op_id = rc_operation q, op_actor = subject,
            op_fingerprint = reconcile_fingerprint P q, op_response = ''{}''\<rparr>]\<rparr>)))))"

end
