(* ===== verification/Reconciled.thy ===== *)
theory Reconciled
  imports Reconciliation Books
begin

text \<open>
  What a successful reconciliation has checked and written: the adjustment of one account, the frame
  around it, and the events of the books it consists of.
\<close>

section \<open>What a successful adjustment has checked and written\<close>

lemma account_of_E:
  assumes "account_of db i = Some row"
  shows "row \<in> set (accounts_table db)" "acc_id row = i"
  using first_row_filter [OF assms [unfolded account_of_def]] by auto

lemma plan_adjustment_E:
  assumes "plan_adjustment E q system observations db a = Inr pl"
  obtains row balance where "account_of db (rq_account a) = Some row" "acc_native_balance row = Some balance"
    "acc_is_real row" "acc_is_active row" "acc_revision row = rq_revision a" "pl_current_revision pl = rq_revision a"
    "wa_id (pl_account pl) = rq_account a" "length (existing_adjustments db (rc_date q) (rq_account a)) \<le> 1"
    "pl_existing pl = first_row (existing_adjustments db (rc_date q) (rq_account a))"
    "pl_transaction pl = (case pl_existing pl of None \<Rightarrow> rq_transaction a | Some t \<Rightarrow> tx_id t)"
    "pl_revision pl = (case pl_existing pl of None \<Rightarrow> 0 | Some t \<Rightarrow> tx_revision t) + 1"
    "planned_activity E q db (rq_account a) = Inr (pl_activity pl)"
    "text_value (pl_prior pl) = (case pl_existing pl of None \<Rightarrow> 0 | Some t \<Rightarrow> text_value (tx_amount t))"
    "text_value (pl_target pl) = text_value (rq_actual a) + text_value (act_after (pl_activity pl))"
    "text_value (pl_closing pl) = text_value (rq_actual a) - text_value (act_through (pl_activity pl))"
    "200 * \<bar>text_value (pl_adjustment pl) - (text_value balance + text_value (pl_prior pl) - text_value (pl_target pl))\<bar> \<le> 1"
proof -
  from assms obtain account balance revision existing transaction raw where
    1: "load_reconciled_account db a = Inr (account, balance, revision)" and
    2: "load_adjustment db (rc_date q) a (wa_id account) = Inr (existing, transaction)" and
    3: "add_decimal_text balance (pl_prior pl) = Inr (pl_base pl)" "pl_prior pl = (case existing of None \<Rightarrow> ''0'' | Some t \<Rightarrow> tx_amount t)"
      "planned_activity E q db (wa_id account) = Inr (pl_activity pl)"
      "add_decimal_text (rq_actual a) (act_after (pl_activity pl)) = Inr (pl_target pl)"
      "subtract_decimal_text (rq_actual a) (act_through (pl_activity pl)) = Inr (pl_closing pl)"
      "subtract_decimal_text (pl_base pl) (pl_target pl) = Inr raw" "round_posted_decimal_text raw 2 = Inr (pl_adjustment pl)"
      "pl_account pl = account" "pl_existing pl = existing" "pl_transaction pl = transaction" "pl_current_revision pl = revision"
      "pl_revision pl = (case existing of None \<Rightarrow> 0 | Some t \<Rightarrow> tx_revision t) + 1"
    by (auto simp: plan_adjustment_def Let_def result_simps)
  from 1 obtain row row' where row: "account_of db (rq_account a) = Some row" "account = write_account_of row" and
    loaded: "wa_is_real account" "wa_is_active account" "account_of db (wa_id account) = Some row'" "acc_native_balance row' = Some balance"
      "acc_revision row' = rq_revision a" "revision = rq_revision a"
    unfolding load_reconciled_account_def load_db_account_def fetch_one_def
    by (simp only: result_simps) (auto simp: guard_def split: if_splits)
  note i = account_of_E(2) [OF row(1)]
  from loaded(3) row have "row' = row" by (simp add: write_account_of_def i)
  note facts = loaded [unfolded row(2) \<open>row' = row\<close>]
  from 2 have adj: "length (existing_adjustments db (rc_date q) (rq_account a)) \<le> 1"
    "existing = first_row (existing_adjustments db (rc_date q) (rq_account a))"
    "transaction = (case existing of None \<Rightarrow> rq_transaction a | Some t \<Rightarrow> tx_id t)"
    by (auto simp: load_adjustment_def Let_def result_simps row(2) write_account_of_def i)
  from round_posted_nearest [OF 3(7)] obtain k where k: "text_value (pl_adjustment pl) = of_int k / 10 ^ 2"
    "2 * \<bar>of_int k - text_value raw * 10 ^ 2\<bar> \<le> 1" by auto
  have "200 * \<bar>text_value (pl_adjustment pl) - text_value raw\<bar> = 2 * \<bar>of_int k - text_value raw * 10 ^ 2\<bar>"
    by (simp add: k(1) abs_if field_simps)
  with k(2) have near: "200 * \<bar>text_value (pl_adjustment pl) - text_value raw\<bar> \<le> 1" by simp
  have "text_value raw = text_value balance + text_value (pl_prior pl) - text_value (pl_target pl)"
    using money.add_val [OF 3(1)] money.sub_val [OF 3(6)] by simp
  with near have near: "200 * \<bar>text_value (pl_adjustment pl) - (text_value balance + text_value (pl_prior pl) - text_value (pl_target pl))\<bar> \<le> 1"
    by simp
  have account: "wa_id account = rq_account a" by (simp add: row(2) write_account_of_def i)
  show ?thesis
  proof (rule that [OF row(1) facts(4) _ _ facts(5) _ _ _ _ _ _ _ _ _ _ near])
    show "acc_is_real row" "acc_is_active row" using facts(1,2) by (simp_all add: write_account_of_def)
    show "text_value (pl_prior pl) = (case pl_existing pl of None \<Rightarrow> 0 | Some t \<Rightarrow> text_value (tx_amount t))"
      by (simp add: 3 zero_text split: option.split)
    show "text_value (pl_target pl) = text_value (rq_actual a) + text_value (act_after (pl_activity pl))"
      "text_value (pl_closing pl) = text_value (rq_actual a) - text_value (act_through (pl_activity pl))"
      using money.add_val [OF 3(4)] money.sub_val [OF 3(5)] by simp_all
  qed (use 3 account adj loaded(6) in simp_all)
qed

text \<open>The account row after its reconciliation.\<close>

definition reconciled_row :: "adjustment_plan \<Rightarrow> string \<Rightarrow> string \<Rightarrow> account_row \<Rightarrow> account_row" where
  "reconciled_row pl eur actual_eur b = b\<lparr>acc_native_balance := Some (pl_target pl), acc_eur_balance := Some eur,
     acc_actual_native := Some (pl_actual pl), acc_actual_eur := Some actual_eur, acc_reconciliation := Some (pl_adjustment pl),
     acc_revision := acc_revision b + 1\<rparr>"

definition adjusted_row :: "adjustment_plan \<Rightarrow> transaction_row \<Rightarrow> transaction_row" where
  "adjusted_row pl t = t\<lparr>tx_amount := pl_adjustment pl, tx_input_currency := Some (wa_currency (pl_account pl)), tx_revision := pl_revision pl\<rparr>"

lemma reconciled_row_simps [simp]:
  "acc_id (reconciled_row pl e x b) = acc_id b" "acc_is_real (reconciled_row pl e x b) = acc_is_real b"
  "acc_is_active (reconciled_row pl e x b) = acc_is_active b" "acc_source_name (reconciled_row pl e x b) = acc_source_name b"
  "acc_revision (reconciled_row pl e x b) = acc_revision b + 1" "acc_native_balance (reconciled_row pl e x b) = Some (pl_target pl)"
  "tx_id (adjusted_row pl t) = tx_id t" "tx_date (adjusted_row pl t) = tx_date t" "tx_kind (adjusted_row pl t) = tx_kind t"
  "tx_from_account (adjusted_row pl t) = tx_from_account t" "tx_to_account (adjusted_row pl t) = tx_to_account t"
  "tx_from_category (adjusted_row pl t) = tx_from_category t" "tx_amount (adjusted_row pl t) = pl_adjustment pl"
  "tx_revision (adjusted_row pl t) = pl_revision pl"
  by (simp_all add: reconciled_row_def adjusted_row_def)

lemma record_adjustment_E:
  assumes "record_adjustment P subject q system category a pl db = Inr db'"
  obtains rows r v w where
    "db' = db\<lparr>transactions_table := rows, revisions_table := revisions_table db @ [r], valuations_table := valuations_table db @ [v, w]\<rparr>"
    "pl_existing pl \<noteq> None \<longrightarrow> rows = map (\<lambda>t. if tx_id t = pl_transaction pl then adjusted_row pl t else t) (transactions_table db)"
    "pl_existing pl = None \<longrightarrow> (\<exists>n. rows = transactions_table db @ [adjustment_row P subject q system category n pl])
       \<and> pl_transaction pl \<notin> tx_id ` set (transactions_table db)"
    "rev_transaction r = pl_transaction pl" "rev_revision r = pl_revision pl" "rev_operation r = Some (rc_operation q)"
    "val_transaction v = pl_transaction pl" "val_revision v = pl_revision pl"
    "val_transaction w = pl_transaction pl" "val_revision w = pl_revision pl"
proof -
  from assms obtain d1 where d1: "write_adjustment P subject q system category pl db = Inr d1" and
    rest: "and_then (insert_revision d1 \<lparr>rev_transaction = pl_transaction pl, rev_revision = pl_revision pl,
       rev_operation = Some (rc_operation q), rev_snapshot = write_json P (adjustment_snapshot q subject a pl),
       rev_recorded_at = now_text P\<rparr>) (\<lambda>d2.
     and_then (insert_valuation d2 (valuation_row_of P (pl_transaction pl) ''from'' (rc_date q) (pl_revision pl)
       (wa_currency (pl_account pl)) (from_side (pl_valuation pl)))) (\<lambda>d3.
     insert_valuation d3 (valuation_row_of P (pl_transaction pl) ''to'' (rc_date q) (pl_revision pl)
       (wa_currency system) (to_side (pl_valuation pl))))) = Inr db'"
    by (auto simp: record_adjustment_def result_simps)
  obtain rows where rows: "d1 = db\<lparr>transactions_table := rows\<rparr>"
    "pl_existing pl \<noteq> None \<longrightarrow> rows = map (\<lambda>t. if tx_id t = pl_transaction pl then adjusted_row pl t else t) (transactions_table db)"
    "pl_existing pl = None \<longrightarrow> (\<exists>n. rows = transactions_table db @ [adjustment_row P subject q system category n pl])
       \<and> pl_transaction pl \<notin> tx_id ` set (transactions_table db)"
  proof (cases "pl_existing pl = None")
    case True
    let ?t = "adjustment_row P subject q system category (next_transaction_row db) pl"
    have "tx_id ?t = pl_transaction pl" by (simp add: adjustment_row_def)
    with True d1 have "d1 = db\<lparr>transactions_table := transactions_table db @ [?t]\<rparr>" "pl_transaction pl \<notin> tx_id ` set (transactions_table db)"
      by (auto simp: write_adjustment_def insert_transaction_def list_ex_iff split: if_splits)
    with True show ?thesis using that [of "transactions_table db @ [?t]"] by blast
  next
    case False
    with d1 have "d1 = db\<lparr>transactions_table := map (\<lambda>t. if tx_id t = pl_transaction pl then adjusted_row pl t else t) (transactions_table db)\<rparr>"
      by (auto simp: write_adjustment_def update_adjustment_def adjusted_row_def)
    from that [OF this] False show ?thesis by simp
  qed
  from rest rows(1) show ?thesis
    by (intro that [OF _ rows(2,3)])
      (auto simp: insert_revision_def insert_valuation_def valuation_row_of_def result_simps split: if_splits)
qed

lemma filter_updated:
  assumes "\<And>b. acc_id (f b) = acc_id b"
  shows "filter (\<lambda>b. acc_id b = i) (map (\<lambda>b. if acc_id b = i then f b else b) xs) = map f (filter (\<lambda>b. acc_id b = i) xs)"
  by (induction xs) (simp_all add: assms)

lemma reconcile_one_E:
  assumes "reconcile_one P E subject q system category observations (db, out) a = Inr (db', out')"
  obtains pl d1 eur actual_eur where "plan_adjustment E q system observations db a = Inr pl"
    "record_adjustment P subject q system category a pl db = Inr d1"
    "db' = d1\<lparr>accounts_table := map (\<lambda>b. if acc_id b = rq_account a then reconciled_row pl eur actual_eur b else b) (accounts_table db),
       batch_items_table := batch_items_table db @ [item_of P q (rq_revision a + 1) pl]\<rparr>"
    "\<forall>x\<in>set (batch_items_table db). \<not> (ri_batch x = rc_operation q \<and> ri_account x = rq_account a)"
    "out' = out @ [adjustment_result pl eur (rq_revision a + 1)]"
proof -
  from assms obtain pl d1 eur actual_eur d2 row where
    pl: "plan_adjustment E q system observations db a = Inr pl" and
    d1: "record_adjustment P subject q system category a pl db = Inr d1" and
    d2: "d2 = set_reconciled (wa_id (pl_account pl)) (pl_target pl) eur (pl_actual pl) actual_eur (pl_adjustment pl) d1" and
    row: "account_of d2 (wa_id (pl_account pl)) = Some row" and
    item: "insert_item d2 (item_of P q (acc_revision row) pl) = Inr db'" and
    out: "out' = out @ [adjustment_result pl eur (acc_revision row)]"
    by (auto simp: reconcile_one_def Let_def fetch_one_def result_simps)
  from plan_adjustment_E [OF pl] obtain old where old: "account_of db (rq_account a) = Some old" "acc_revision old = rq_revision a"
    and i: "wa_id (pl_account pl) = rq_account a" by metis
  have same: "accounts_table d1 = accounts_table db" "batch_items_table d1 = batch_items_table db"
    by (rule record_adjustment_E [OF d1], simp)+
  have accounts: "accounts_table d2 = map (\<lambda>b. if acc_id b = rq_account a then reconciled_row pl eur actual_eur b else b) (accounts_table db)"
    by (simp add: d2 set_reconciled_def i same reconciled_row_def cong: if_cong)
  have "filter (\<lambda>b. acc_id b = rq_account a) (accounts_table d2)
      = map (reconciled_row pl eur actual_eur) (filter (\<lambda>b. acc_id b = rq_account a) (accounts_table db))"
    unfolding accounts by (rule filter_updated) simp
  with old row have "acc_revision row = rq_revision a + 1"
    by (auto simp: account_of_def first_row_def i split: list.splits)
  with item out pl d1 d2 accounts show ?thesis
    by (intro that [OF pl d1, of eur actual_eur])
      (auto simp: insert_item_def item_of_def list_ex_iff set_reconciled_def same i split: if_splits)
qed

section \<open>The frame of an adjustment\<close>

text \<open>The system account and category that the adjustments are booked against.\<close>

definition system_ready :: "write_account \<Rightarrow> write_category \<Rightarrow> db \<Rightarrow> bool" where
  "system_ready system category db \<longleftrightarrow>
     (\<exists>b\<in>set (accounts_table db). acc_id b = wa_id system \<and> same_nocase (acc_source_name b) ''Reconciliation'')
     \<and> (\<exists>c\<in>set (categories_table db). cat_id c = wc_id category \<and> same_nocase (cat_name c) ''Reconciliation'')"

text \<open>What the adjustments of the accounts \<open>ids\<close> leave as it is, for the other accounts and for the month.\<close>

definition frame :: "reconcile_env \<Rightarrow> reconcile_request \<Rightarrow> string set \<Rightarrow> db \<Rightarrow> db \<Rightarrow> bool" where
  "frame E q ids db db' \<longleftrightarrow>
     (\<forall>i. i \<notin> ids \<longrightarrow> account_of db' i = account_of db i
        \<and> existing_adjustments db' (rc_date q) i = existing_adjustments db (rc_date q) i)
     \<and> (\<forall>i. planned_activity E q db' i = planned_activity E q db i)
     \<and> set (batch_items_table db) \<subseteq> set (batch_items_table db')
     \<and> map (\<lambda>a. (acc_id a, acc_is_real a, acc_is_active a)) (accounts_table db')
         = map (\<lambda>a. (acc_id a, acc_is_real a, acc_is_active a)) (accounts_table db)
     \<and> closures_table db' = closures_table db \<and> operations_table db' = operations_table db
     \<and> batches_table db' = batches_table db"

lemma frame_refl: "frame E q ids db db"
  by (simp add: frame_def)

lemma frame_trans: "frame E q A a b \<Longrightarrow> frame E q B b c \<Longrightarrow> frame E q (A \<union> B) a c"
  by (auto simp: frame_def)

lemma account_of_updated:
  assumes "\<And>b. acc_id (f b) = acc_id b" "accounts_table db' = map (\<lambda>b. if acc_id b = i then f b else b) (accounts_table db)"
  shows "account_of db' j = (if j = i then map_option f (account_of db j) else account_of db j)"
proof -
  have "filter (\<lambda>b. acc_id b = j) (map (\<lambda>b. if acc_id b = i then f b else b) xs) = filter (\<lambda>b. acc_id b = j) xs" if "j \<noteq> i" for xs
    using that by (induction xs) (simp_all add: assms(1))
  moreover have "first_row (map f xs) = map_option f (first_row xs)" for xs by (cases xs) (simp_all add: first_row_def)
  ultimately show ?thesis by (simp add: account_of_def assms(2) filter_updated [OF assms(1)])
qed

lemma fold_result_cong:
  "(\<And>s x. x \<in> set xs \<Longrightarrow> f s x = g s x) \<Longrightarrow> fold_result f s xs = fold_result g s xs"
proof (induction xs arbitrary: s)
  case (Cons x xs)
  then have "fold_result f t xs = fold_result g t xs" for t by simp
  with Cons.prems [of x s] show ?case by (simp add: and_then_def split: sum.split)
qed simp

lemma planned_activity_cong:
  assumes "filter (\<lambda>t. rc_date q < tx_date t) (transactions_table db') = filter (\<lambda>t. rc_date q < tx_date t) (transactions_table db)"
    and "\<And>t side. t \<in> set (transactions_table db) \<Longrightarrow> rc_date q < tx_date t \<Longrightarrow> latest_valuation db' (tx_id t) side = latest_valuation db (tx_id t) side"
  shows "planned_activity E q db' i = planned_activity E q db i"
proof -
  have split: "activity_rows d i (rc_date q) = sort_key (\<lambda>t. (tx_date t, tx_id t)) (filter (\<lambda>t. tx_from_account t = Some i \<or> tx_to_account t = Some i)
      (filter (\<lambda>t. rc_date q < tx_date t) (transactions_table d)))" for d
    by (simp add: activity_rows_def conj_commute)
  have rows: "activity_rows db' i (rc_date q) = activity_rows db i (rc_date q)" by (simp only: split assms(1))
  have "add_activity E db' i od oa act t = add_activity E db i od oa act t" if "t \<in> set (activity_rows db i (rc_date q))" for od oa act t
    using that assms(2) by (simp add: activity_rows_def add_activity_def activity_net_def native_side_def valuation_native_def)
  then have "reconciliation_activity E db' i (rc_date q) od oa = reconciliation_activity E db i (rc_date q) od oa" for od oa
    unfolding reconciliation_activity_def rows by (rule fold_result_cong)
  then show ?thesis by (simp add: planned_activity_def split: option.split)
qed

lemma existing_cases:
  assumes "length (existing_adjustments db date i) \<le> 1"
  shows "existing_adjustments db date i = (case first_row (existing_adjustments db date i) of None \<Rightarrow> [] | Some t \<Rightarrow> [t])"
  using assms by (cases "existing_adjustments db date i") (auto simp: first_row_def)

lemma existing_row:
  assumes "t \<in> set (existing_adjustments db date i)"
  shows "t \<in> set (transactions_table db)" "tx_date t = date" "tx_from_account t = Some i" "tx_kind t = ''reconciliation''"
  using assms by (auto simp: existing_adjustments_def)

section \<open>One adjustment\<close>

lemma filter_map_same: "(\<And>x. P (f x) = P x) \<Longrightarrow> filter P (map f xs) = map f (filter P xs)"
  by (induction xs) simp_all

lemma distinct_tx: "distinct (map tx_id ts) \<Longrightarrow> x \<in> set ts \<Longrightarrow> y \<in> set ts \<Longrightarrow> tx_id x = tx_id y \<Longrightarrow> x = y"
  by (rule inj_onD [of tx_id "set ts"]) (simp_all add: distinct_map)

lemma existing_same_names:
  assumes "map (\<lambda>a. (acc_id a, acc_source_name a)) (accounts_table db') = map (\<lambda>a. (acc_id a, acc_source_name a)) (accounts_table db)"
    and "categories_table db' = categories_table db"
  shows "existing_adjustments (db'\<lparr>transactions_table := ts\<rparr>) date i = existing_adjustments (db\<lparr>transactions_table := ts\<rparr>) date i"
proof -
  have "list_ex (\<lambda>a. x = Some (acc_id a) \<and> same_nocase (acc_source_name a) n) (accounts_table d)
      = list_ex (\<lambda>p. x = Some (fst p) \<and> same_nocase (snd p) n) (map (\<lambda>a. (acc_id a, acc_source_name a)) (accounts_table d))" for x n and d :: db
    by (simp add: list_ex_iff)
  then show ?thesis by (simp add: existing_adjustments_def assms)
qed

lemma plan_adjustment_basic:
  assumes "plan_adjustment E q system observations db a = Inr pl"
  shows "wa_id (pl_account pl) = rq_account a" "length (existing_adjustments db (rc_date q) (rq_account a)) \<le> 1"
    "pl_existing pl = first_row (existing_adjustments db (rc_date q) (rq_account a))"
    "pl_transaction pl = (case pl_existing pl of None \<Rightarrow> rq_transaction a | Some t \<Rightarrow> tx_id t)"
    "pl_revision pl = (case pl_existing pl of None \<Rightarrow> 0 | Some t \<Rightarrow> tx_revision t) + 1"
  by (rule plan_adjustment_E [OF assms], assumption)+

lemma record_adjustment_tables:
  assumes "record_adjustment P subject q system category a pl db = Inr d1"
  shows "\<exists>r v w. d1 = db\<lparr>transactions_table := transactions_table d1, revisions_table := revisions_table db @ [r],
      valuations_table := valuations_table db @ [v, w]\<rparr> \<and> rev_transaction r = pl_transaction pl \<and> rev_revision r = pl_revision pl
      \<and> rev_operation r = Some (rc_operation q) \<and> val_transaction v = pl_transaction pl \<and> val_revision v = pl_revision pl
      \<and> val_transaction w = pl_transaction pl \<and> val_revision w = pl_revision pl"
    and "pl_existing pl \<noteq> None \<Longrightarrow> transactions_table d1
      = map (\<lambda>t. if tx_id t = pl_transaction pl then adjusted_row pl t else t) (transactions_table db)"
    and "pl_existing pl = None \<Longrightarrow> \<exists>n. transactions_table d1 = transactions_table db @ [adjustment_row P subject q system category n pl]"
    and "pl_existing pl = None \<Longrightarrow> pl_transaction pl \<notin> tx_id ` set (transactions_table db)"
  by (rule record_adjustment_E [OF assms], auto)+

lemma record_adjustment_frame:
  assumes "plan_adjustment E q system observations db a = Inr pl" "record_adjustment P subject q system category a pl db = Inr d1"
    and "distinct (map tx_id (transactions_table db))" "system_ready system category db"
  shows "distinct (map tx_id (transactions_table d1))
    \<and> filter (\<lambda>t. rc_date q < tx_date t) (transactions_table d1) = filter (\<lambda>t. rc_date q < tx_date t) (transactions_table db)
    \<and> (\<forall>t\<in>set (transactions_table db). rc_date q < tx_date t \<longrightarrow> tx_id t \<noteq> pl_transaction pl)
    \<and> (\<forall>i. i \<noteq> rq_account a \<longrightarrow> existing_adjustments d1 (rc_date q) i = existing_adjustments db (rc_date q) i)
    \<and> (\<exists>t. existing_adjustments d1 (rc_date q) (rq_account a) = [t] \<and> tx_amount t = pl_adjustment pl \<and> tx_id t = pl_transaction pl)"
proof -
  note plan = plan_adjustment_basic [OF assms(1)]
  note old = existing_cases [OF plan(2), folded plan(3)]
  define rows where "rows = transactions_table d1"
  note tables = record_adjustment_tables [OF assms(2), folded rows_def]
  from tables(1) obtain r v w where d1:
    "d1 = db\<lparr>transactions_table := rows, revisions_table := revisions_table db @ [r], valuations_table := valuations_table db @ [v, w]\<rparr>"
    by blast
  have same: "existing_adjustments d1 (rc_date q) i = existing_adjustments (db\<lparr>transactions_table := rows\<rparr>) (rc_date q) i" for i
    by (simp add: d1 existing_adjustments_def)
  show ?thesis
  proof (cases "pl_existing pl")
    case None
    from tables(3,4) [OF None] obtain n where n: "rows = transactions_table db @ [adjustment_row P subject q system category n pl]"
      "pl_transaction pl \<notin> tx_id ` set (transactions_table db)" by blast
    let ?t = "adjustment_row P subject q system category n pl"
    have row: "tx_id ?t = pl_transaction pl" "tx_date ?t = rc_date q" "tx_amount ?t = pl_adjustment pl"
      by (simp_all add: adjustment_row_def)
    have new: "existing_adjustments (db\<lparr>transactions_table := [?t]\<rparr>) (rc_date q) i = (if i = rq_account a then [?t] else [])" for i
      using assms(4) by (auto simp: existing_adjustments_def adjustment_row_def plan(1) system_ready_def list_ex_iff)
    have "existing_adjustments (db\<lparr>transactions_table := rows\<rparr>) (rc_date q) i
        = existing_adjustments db (rc_date q) i @ existing_adjustments (db\<lparr>transactions_table := [?t]\<rparr>) (rc_date q) i" for i
      by (simp add: n existing_adjustments_def)
    with new old None have existing: "existing_adjustments d1 (rc_date q) i
        = (if i = rq_account a then [?t] else existing_adjustments db (rc_date q) i)" for i
      by (simp add: same)
    have fresh: "tx_id t \<noteq> pl_transaction pl" if "t \<in> set (transactions_table db)" for t
      using n(2) imageI [OF that, of tx_id] by (cases "tx_id t = pl_transaction pl") simp_all
    from existing n row assms(3) fresh show ?thesis
      by (auto simp: d1)
  next
    case (Some e)
    let ?f = "\<lambda>t. if tx_id t = pl_transaction pl then adjusted_row pl t else t"
    from Some tables(2) have rows: "rows = map ?f (transactions_table db)" by simp
    from Some old have e: "existing_adjustments db (rc_date q) (rq_account a) = [e]" by simp
    note er = existing_row [of e db "rc_date q" "rq_account a", unfolded e, simplified]
    have tid: "pl_transaction pl = tx_id e" by (simp add: plan(4) Some)
    have only: "x = e" if "x \<in> set (transactions_table db)" "tx_id x = tx_id e" for x
      by (rule distinct_tx [OF assms(3) that(1) er(1) that(2)])
    have "existing_adjustments (db\<lparr>transactions_table := rows\<rparr>) (rc_date q) i = map ?f (existing_adjustments db (rc_date q) i)" for i
      unfolding existing_adjustments_def rows by (simp, rule filter_map_same) simp
    moreover have "map ?f (existing_adjustments db (rc_date q) i) = existing_adjustments db (rc_date q) i" if "i \<noteq> rq_account a" for i
    proof (rule map_idI)
      fix x assume "x \<in> set (existing_adjustments db (rc_date q) i)"
      from existing_row [OF this] only [of x] er(3) that show "?f x = x" by (auto simp: tid)
    qed
    ultimately have existing: "i \<noteq> rq_account a \<Longrightarrow> existing_adjustments d1 (rc_date q) i = existing_adjustments db (rc_date q) i"
      "existing_adjustments d1 (rc_date q) (rq_account a) = [adjusted_row pl e]" for i
      by (simp_all add: same e tid)
    have "map ?f (filter (\<lambda>t. rc_date q < tx_date t) (transactions_table db)) = filter (\<lambda>t. rc_date q < tx_date t) (transactions_table db)"
      by (rule map_idI) (use er(2) in \<open>auto simp: tid dest!: only\<close>)
    moreover have "filter (\<lambda>t. rc_date q < tx_date t) rows = map ?f (filter (\<lambda>t. rc_date q < tx_date t) (transactions_table db))"
      unfolding rows by (rule filter_map_same) simp
    moreover have "map tx_id rows = map tx_id (transactions_table db)" by (simp add: rows)
    ultimately show ?thesis
      using existing er(2) assms(3) by (auto simp: d1 tid simp del: map_map dest!: only)
  qed
qed

text \<open>What reconciling an account makes of it.\<close>

definition settled :: "reconcile_env \<Rightarrow> reconcile_request \<Rightarrow> db \<Rightarrow> db \<Rightarrow> reconcile_account \<Rightarrow> bool" where
  "settled E q db db' a \<longleftrightarrow> (\<exists>row row' balance balance' act t item closing.
     account_of db (rq_account a) = Some row \<and> account_of db' (rq_account a) = Some row'
     \<and> acc_is_real row \<and> acc_is_active row \<and> acc_revision row = rq_revision a \<and> acc_revision row' = rq_revision a + 1
     \<and> acc_native_balance row = Some balance \<and> acc_native_balance row' = Some balance'
     \<and> planned_activity E q db (rq_account a) = Inr act
     \<and> text_value balance' = text_value (rq_actual a) + text_value (act_after act)
     \<and> existing_adjustments db' (rc_date q) (rq_account a) = [t]
     \<and> 200 * \<bar>text_value (tx_amount t) - (text_value balance
          + (case first_row (existing_adjustments db (rc_date q) (rq_account a)) of None \<Rightarrow> 0 | Some e \<Rightarrow> text_value (tx_amount e))
          - text_value balance')\<bar> \<le> 1
     \<and> item \<in> set (batch_items_table db') \<and> ri_batch item = rc_operation q \<and> ri_account item = rq_account a
     \<and> ri_transaction item = Some (tx_id t) \<and> ri_revision item = rq_revision a + 1
     \<and> ri_actual item = Some closing \<and> text_value closing = text_value (rq_actual a) - text_value (act_through act))"

lemma reconcile_one_frame:
  assumes "reconcile_one P E subject q system category observations (db, out) a = Inr (db', out')"
    and "distinct (map tx_id (transactions_table db))" "system_ready system category db"
  shows "distinct (map tx_id (transactions_table db'))" "system_ready system category db'" "frame E q {rq_account a} db db'"
    "settled E q db db' a" "categories_table db' = categories_table db"
proof -
  from assms(1) obtain pl d1 eur actual_eur where pl: "plan_adjustment E q system observations db a = Inr pl" and
    d1: "record_adjustment P subject q system category a pl db = Inr d1" and
    db': "db' = d1\<lparr>accounts_table := map (\<lambda>b. if acc_id b = rq_account a then reconciled_row pl eur actual_eur b else b) (accounts_table db),
       batch_items_table := batch_items_table db @ [item_of P q (rq_revision a + 1) pl]\<rparr>"
    by (rule reconcile_one_E)
  note f = record_adjustment_frame [OF pl d1 assms(2,3)]
  from record_adjustment_tables(1) [OF d1] obtain r v w where d: "d1 = db\<lparr>transactions_table := transactions_table d1,
      revisions_table := revisions_table db @ [r], valuations_table := valuations_table db @ [v, w]\<rparr>"
    "val_transaction v = pl_transaction pl" "val_transaction w = pl_transaction pl" by blast
  have other: "accounts_table d1 = accounts_table db" "categories_table d1 = categories_table db" "closures_table d1 = closures_table db"
    "operations_table d1 = operations_table db" "batches_table d1 = batches_table db" "batch_items_table d1 = batch_items_table db"
    by (subst d(1), simp)+
  show "distinct (map tx_id (transactions_table db'))" using f by (simp add: db')
  show "system_ready system category db'"
  proof -
    let ?f = "\<lambda>b. if acc_id b = rq_account a then reconciled_row pl eur actual_eur b else b"
    from assms(3) obtain b where b: "b \<in> set (accounts_table db)" "acc_id b = wa_id system" "same_nocase (acc_source_name b) ''Reconciliation''"
      unfolding system_ready_def by blast
    from b(1) have "?f b \<in> set (accounts_table db')" unfolding db' by (simp del: if_split)
    moreover have "acc_id (?f b) = wa_id system" "same_nocase (acc_source_name (?f b)) ''Reconciliation''" using b by simp_all
    ultimately show ?thesis using assms(3) unfolding system_ready_def by (auto simp: db' other)
  qed
  show "categories_table db' = categories_table db" by (simp add: db' other)
  have account: "account_of db' j = (if j = rq_account a then map_option (reconciled_row pl eur actual_eur) (account_of db j) else account_of db j)" for j
    by (rule account_of_updated) (simp_all add: db')
  have existing: "existing_adjustments db' date i = existing_adjustments d1 date i" for date i
  proof -
    have "existing_adjustments (db'\<lparr>transactions_table := transactions_table d1\<rparr>) date i
        = existing_adjustments (d1\<lparr>transactions_table := transactions_table d1\<rparr>) date i"
      by (rule existing_same_names) (simp_all add: db' other)
    then show ?thesis by (simp add: db')
  qed
  have "latest_valuation db' i side = latest_valuation db i side" if "i \<noteq> pl_transaction pl" for i side
  proof -
    have "valuations_table db' = valuations_table db @ [v, w]" unfolding db' by (subst d(1)) simp
    with that d(2,3) show ?thesis by (simp add: latest_valuation_def)
  qed
  with f have planned: "planned_activity E q db' i = planned_activity E q db i" for i
    by (intro planned_activity_cong) (simp_all add: db')
  show "frame E q {rq_account a} db db'"
  proof -
    have "closures_table db' = closures_table db" "operations_table db' = operations_table db" "batches_table db' = batches_table db"
      "set (batch_items_table db) \<subseteq> set (batch_items_table db')"
      "map (\<lambda>a. (acc_id a, acc_is_real a, acc_is_active a)) (accounts_table db')
         = map (\<lambda>a. (acc_id a, acc_is_real a, acc_is_active a)) (accounts_table db)"
      by (auto simp: db' other)
    with f planned show ?thesis by (simp add: frame_def account existing)
  qed
  from f obtain t where t: "existing_adjustments db' (rc_date q) (rq_account a) = [t]" "tx_amount t = pl_adjustment pl" "tx_id t = pl_transaction pl"
    by (auto simp: existing)
  have item: "item_of P q (rq_revision a + 1) pl \<in> set (batch_items_table db')" by (simp add: db')
  show "settled E q db db' a"
  proof (rule plan_adjustment_E [OF pl])
    fix row balance
    assume row: "account_of db (rq_account a) = Some row" "acc_native_balance row = Some balance"
      "acc_is_real row" "acc_is_active row" "acc_revision row = rq_revision a" "wa_id (pl_account pl) = rq_account a"
      "pl_existing pl = first_row (existing_adjustments db (rc_date q) (rq_account a))"
      "planned_activity E q db (rq_account a) = Inr (pl_activity pl)"
      "text_value (pl_prior pl) = (case pl_existing pl of None \<Rightarrow> 0 | Some t \<Rightarrow> text_value (tx_amount t))"
      "text_value (pl_target pl) = text_value (rq_actual a) + text_value (act_after (pl_activity pl))"
      "text_value (pl_closing pl) = text_value (rq_actual a) - text_value (act_through (pl_activity pl))"
      "200 * \<bar>text_value (pl_adjustment pl) - (text_value balance + text_value (pl_prior pl) - text_value (pl_target pl))\<bar> \<le> 1"
    show "settled E q db db' a"
      unfolding settled_def
      by (rule exI [of _ row], rule exI [of _ "reconciled_row pl eur actual_eur row"], rule exI [of _ balance],
          rule exI [of _ "pl_target pl"], rule exI [of _ "pl_activity pl"], rule exI [of _ t],
          rule exI [of _ "item_of P q (rq_revision a + 1) pl"], rule exI [of _ "pl_closing pl"])
        (use row t item in \<open>simp add: account item_of_def\<close>)
  qed
qed

section \<open>All adjustments\<close>

lemma settled_later:
  assumes "settled E q db d a" "frame E q B d d'" "rq_account a \<notin> B"
  shows "settled E q db d' a"
proof -
  from assms(2,3) have same: "account_of d' (rq_account a) = account_of d (rq_account a)"
    "existing_adjustments d' (rc_date q) (rq_account a) = existing_adjustments d (rc_date q) (rq_account a)"
    and items: "set (batch_items_table d) \<subseteq> set (batch_items_table d')" by (simp_all add: frame_def)
  from assms(1) show ?thesis
    unfolding settled_def same by (elim ex_forward conj_forward) (assumption | erule subsetD [OF items])+
qed

lemma settled_earlier: "settled E q d d' a \<Longrightarrow> frame E q B db d \<Longrightarrow> rq_account a \<notin> B \<Longrightarrow> settled E q db d' a"
  unfolding settled_def frame_def by simp

lemma reconcile_all:
  assumes "fold_result (reconcile_one P E subject q system category observations) (db, out) as = Inr (db', out')"
    and "distinct (map tx_id (transactions_table db))" "system_ready system category db" "distinct (map rq_account as)"
  shows "distinct (map tx_id (transactions_table db')) \<and> frame E q (rq_account ` set as) db db' \<and> (\<forall>a\<in>set as. settled E q db db' a)"
  using assms
proof (induction as arbitrary: db out)
  case Nil
  then show ?case by (simp add: frame_refl)
next
  case (Cons a as)
  obtain db1 out1 where 1: "reconcile_one P E subject q system category observations (db, out) a = Inr (db1, out1)" and
    2: "fold_result (reconcile_one P E subject q system category observations) (db1, out1) as = Inr (db', out')"
    using Cons.prems(1) by (auto simp: result_simps)
  note f = reconcile_one_frame [OF 1 Cons.prems(2,3)]
  from Cons.prems(4) have new: "rq_account a \<notin> rq_account ` set as" "distinct (map rq_account as)" by simp_all
  from Cons.IH [OF 2 f(1,2) new(2)] have rest: "distinct (map tx_id (transactions_table db'))"
    "frame E q (rq_account ` set as) db1 db'" "\<forall>b\<in>set as. settled E q db1 db' b" by simp_all
  have "settled E q db db' b" if "b \<in> set as" for b
  proof -
    have "rq_account b \<notin> {rq_account a}" using that new(1) by (metis image_eqI singletonD)
    with rest(3) that settled_earlier [OF _ f(3)] show ?thesis by blast
  qed
  with rest frame_trans [OF f(3) rest(2)] settled_later [OF f(4) rest(2) new(1)] show ?case by simp
qed

section \<open>The request and the handler\<close>

lemma normalize_accounts:
  assumes "fold_result (normalize_account E) (ids, txs, out) as = Inr (ids', txs', out')" "ids = map rq_account out" "distinct ids"
  shows "ids' = map rq_account out' \<and> distinct ids' \<and> set ids' = set ids \<union> trim ` rq_account ` set as"
  using assms
proof (induction as arbitrary: ids txs out)
  case (Cons a as)
  then obtain actual where "trim (rq_account a) \<notin> set ids" and
    rest: "fold_result (normalize_account E) (ids @ [trim (rq_account a)], txs @ [map ascii_lower (rq_transaction a)],
      out @ [a\<lparr>rq_account := trim (rq_account a), rq_transaction := map ascii_lower (rq_transaction a), rq_actual := actual\<rparr>]) as
      = Inr (ids', txs', out')"
    by (auto simp: normalize_account_def Let_def result_simps)
  with Cons.IH [OF rest] Cons.prems(2,3) show ?case by auto
qed force

lemma normalize_reconciliation_E:
  assumes "normalize_reconciliation E payload = Inr q"
  shows "rc_operation q = rc_operation payload" "distinct (map rq_account (rc_accounts q))" "rc_date q = trim (rc_date payload)"
    "rq_account ` set (rc_accounts q) = trim ` rq_account ` set (rc_accounts payload)"
    "rc_observed_at q = rc_observed_at payload" "rc_observed_date q = rc_observed_date payload"
proof -
  from assms obtain ids txs accounts where f: "fold_result (normalize_account E) ([], [], []) (rc_accounts payload) = Inr (ids, txs, accounts)"
    and q: "q = payload\<lparr>rc_date := trim (rc_date payload), rc_accounts := sort_key rq_account accounts\<rparr>"
    by (auto simp: normalize_reconciliation_def result_simps)
  note n0 = normalize_accounts [OF f, simplified]
  note n = n0 [THEN conjunct1] n0 [THEN conjunct2, THEN conjunct1] n0 [THEN conjunct2, THEN conjunct2]
  have "mset (map rq_account (sort_key rq_account accounts)) = mset (map rq_account accounts)" by simp
  with n(1,2) have "distinct (map rq_account (sort_key rq_account accounts))" by (metis mset_eq_imp_distinct_iff)
  moreover have "rq_account ` set accounts = trim ` rq_account ` set (rc_accounts payload)" using n(3) unfolding n(1) by simp
  ultimately show "rc_operation q = rc_operation payload" "distinct (map rq_account (rc_accounts q))" "rc_date q = trim (rc_date payload)"
    "rq_account ` set (rc_accounts q) = trim ` rq_account ` set (rc_accounts payload)"
    "rc_observed_at q = rc_observed_at payload" "rc_observed_date q = rc_observed_date payload"
    by (simp_all add: q)
qed

lemma load_system_ready:
  assumes "load_system_db_account db ''Reconciliation'' = Inr system" "load_system_db_category db ''Reconciliation'' = Inr category"
  shows "system_ready system category db"
proof -
  from assms(1) obtain b where "filter (\<lambda>a. same_nocase (acc_source_name a) ''Reconciliation'') (accounts_table db) = [b]"
    "system = write_account_of b" by (auto simp: load_system_db_account_def split: list.splits if_splits)
  then have "b \<in> set (filter (\<lambda>a. same_nocase (acc_source_name a) ''Reconciliation'') (accounts_table db))" "acc_id b = wa_id system"
    by (simp_all add: write_account_of_def)
  moreover from assms(2) obtain c where "filter (\<lambda>c. same_nocase (cat_name c) ''Reconciliation'') (categories_table db) = [c]"
    "category = write_category_of c" by (auto simp: load_system_db_category_def split: list.splits if_splits)
  then have "c \<in> set (filter (\<lambda>c. same_nocase (cat_name c) ''Reconciliation'') (categories_table db))" "cat_id c = wc_id category"
    by (simp_all add: write_category_of_def)
  ultimately show ?thesis by (auto simp: system_ready_def)
qed

text \<open>The database in which the adjustments begin: with the operation and the batch.\<close>

definition begun :: "'d platform \<Rightarrow> string \<Rightarrow> reconcile_request \<Rightarrow> db \<Rightarrow> db" where
  "begun P subject q d = (new_operation (rc_operation q) subject (reconcile_fingerprint P q) d)
     \<lparr>batches_table := batches_table d @ [batch_of P subject q]\<rparr>"

lemma record_reconciliation_E:
  assumes "record_db_reconciliation P E session payload db = Inr (r, db')" "find_operation db (rc_operation payload) = None"
  obtains subject q d d2 system category results where "session = Inr subject" "normalize_reconciliation E payload = Inr q"
    "initialize P db = Inr d" "check_period P E (new_operation (rc_operation q) subject (reconcile_fingerprint P q) d) q = Inr ()"
    "\<forall>b\<in>set (batches_table d). rb_id b \<noteq> rc_operation q \<and> rb_operation b \<noteq> rc_operation q"
    "system_ready system category (begun P subject q d)"
    "fold_result (reconcile_one P E subject q system category (ecb_observations (begun P subject q d))) (begun P subject q d, []) (rc_accounts q)
       = Inr (d2, results)"
    "r = reconcile_response P q results" "db' = set_response (rc_operation q) (write_json P r) d2"
proof -
  from assms(1) obtain subject q d where q: "session = Inr subject" "normalize_reconciliation E payload = Inr q" "initialize P db = Inr d"
    and rest: "(case find_operation d (rc_operation q) of
       Some o' \<Rightarrow> replay_reconciliation P subject q o' d
     | None \<Rightarrow> fresh_reconciliation P E subject q (new_operation (rc_operation q) subject (reconcile_fingerprint P q) d)) = Inr (r, db')"
    unfolding record_db_reconciliation_def new_operation_def by (simp only: result_simps) blast
  have none: "find_operation d (rc_operation q) = None"
    using assms(2) keeps_find_operation [OF initialize_keeps_books [OF q(3)]] normalize_reconciliation_E(1) [OF q(2)] by simp
  let ?d = "new_operation (rc_operation q) subject (reconcile_fingerprint P q) d"
  from rest none obtain d1 system category d2 results where
    1: "check_period P E ?d q = Inr ()" "insert_batch ?d (batch_of P subject q) = Inr d1"
      "load_system_db_account d1 ''Reconciliation'' = Inr system" "load_system_db_category d1 ''Reconciliation'' = Inr category"
      "fold_result (reconcile_one P E subject q system category (ecb_observations d1)) (d1, []) (rc_accounts q) = Inr (d2, results)"
      "r = reconcile_response P q results" "db' = set_response (rc_operation q) (write_json P r) d2"
    by (auto simp: fresh_reconciliation_def Let_def result_simps)
  from 1(2) have d1: "d1 = begun P subject q d" "\<forall>b\<in>set (batches_table d). rb_id b \<noteq> rc_operation q \<and> rb_operation b \<noteq> rc_operation q"
    by (auto simp: insert_batch_def begun_def batch_of_def new_operation_def list_ex_iff split: if_splits)
  from that [OF q 1(1) d1(2) load_system_ready [OF 1(3,4), unfolded d1(1)] 1(5) [unfolded d1(1)] 1(6,7)] show ?thesis .
qed

section \<open>The books\<close>

text \<open>
  What a reconciliation may do to the books, one account after the other: add the adjustment of the account
  for the date, or give the one that is there its next revision, with another amount and currency.
\<close>

inductive adjust_event :: "string \<Rightarrow> string \<Rightarrow> books \<Rightarrow> books \<Rightarrow> bool" for date i where
  adjustment_added: "tx_kind t = ''reconciliation'' \<Longrightarrow> tx_date t = date \<Longrightarrow> tx_from_account t = Some i \<Longrightarrow> tx_revision t = 1 \<Longrightarrow>
    tx_id t \<notin> tx_id ` set (bk_rows b) \<Longrightarrow> \<not> bk_closed b (take 7 date) \<Longrightarrow>
    adjust_event date i b (b\<lparr>bk_rows := bk_rows b @ [t], bk_valued := bk_valued b @ [(tx_id t, 1), (tx_id t, 1)],
      bk_revised := bk_revised b @ [(tx_id t, 1)]\<rparr>)"
| adjustment_replaced: "t \<in> set (bk_rows b) \<Longrightarrow> tx_kind t = ''reconciliation'' \<Longrightarrow> tx_date t = date \<Longrightarrow> tx_from_account t = Some i \<Longrightarrow>
    \<not> bk_closed b (take 7 date) \<Longrightarrow>
    t' = t\<lparr>tx_amount := x, tx_input_currency := c, tx_revision := Suc (tx_revision t)\<rparr> \<Longrightarrow>
    adjust_event date i b (b\<lparr>bk_rows := map (\<lambda>x. if tx_id x = tx_id t then t' else x) (bk_rows b),
      bk_valued := bk_valued b @ [(tx_id t, tx_revision t'), (tx_id t, tx_revision t')],
      bk_revised := bk_revised b @ [(tx_id t, tx_revision t')]\<rparr>)"

inductive adjust_events :: "string \<Rightarrow> string list \<Rightarrow> books \<Rightarrow> books \<Rightarrow> bool" for date where
  all_adjusted: "adjust_events date [] b b"
| adjust_next: "adjust_event date i b c \<Longrightarrow> adjust_events date is c b' \<Longrightarrow> adjust_events date (i # is) b b'"

inductive_simps adjust_events_Nil [simp]: "adjust_events date [] b b'"

inductive_simps adjust_events_Cons: "adjust_events date (i # is) b b'"

lemma adjust_event_book: "adjust_event date i b b' \<Longrightarrow> book_event b b'"
proof (induction rule: adjust_event.induct)
  case (adjustment_added t b)
  then show ?case by (intro book_event.add) simp_all
next
  case (adjustment_replaced t b t' x c)
  then show ?case by (intro book_event.change [of t b t']) simp_all
qed

lemma adjust_event_frame:
  "adjust_event date i b b' \<Longrightarrow> books_sound b \<Longrightarrow>
     filter (\<lambda>t. tx_kind t \<noteq> ''reconciliation'' \<or> tx_date t \<noteq> date \<or> tx_from_account t \<noteq> Some i) (bk_rows b')
       = filter (\<lambda>t. tx_kind t \<noteq> ''reconciliation'' \<or> tx_date t \<noteq> date \<or> tx_from_account t \<noteq> Some i) (bk_rows b)"
proof (induction rule: adjust_event.induct)
  case (adjustment_replaced t b t' x c)
  have same: "x = t" if "x \<in> set (bk_rows b)" "tx_id x = tx_id t" for x
    using adjustment_replaced that by (auto simp: books_sound_def distinct_map dest: inj_onD)
  have "filter (\<lambda>t. tx_kind t \<noteq> ''reconciliation'' \<or> tx_date t \<noteq> date \<or> tx_from_account t \<noteq> Some i)
        (map (\<lambda>x. if tx_id x = tx_id t then t' else x) xs)
      = filter (\<lambda>t. tx_kind t \<noteq> ''reconciliation'' \<or> tx_date t \<noteq> date \<or> tx_from_account t \<noteq> Some i) xs"
    if "set xs \<subseteq> set (bk_rows b)" for xs
    using that by (induction xs) (use same adjustment_replaced.hyps in auto)
  then show ?case by simp
qed auto

text \<open>The rows that are no adjustment of one of the accounts for the date.\<close>

definition other_rows :: "string \<Rightarrow> string set \<Rightarrow> transaction_row list \<Rightarrow> transaction_row list" where
  "other_rows date ids =
     filter (\<lambda>t. \<not> (tx_kind t = ''reconciliation'' \<and> tx_date t = date \<and> (\<exists>i\<in>ids. tx_from_account t = Some i)))"

lemma filter_narrow: "(\<And>x. Q x \<Longrightarrow> P x) \<Longrightarrow> filter P xs = filter P ys \<Longrightarrow> filter Q xs = filter Q ys"
  using filter_filter [of Q P xs] filter_filter [of Q P ys] by (metis (no_types, lifting) filter_cong)

lemma adjust_event_others: "adjust_event date i b b' \<Longrightarrow> books_sound b \<Longrightarrow> i \<in> ids \<Longrightarrow> other_rows date ids (bk_rows b') = other_rows date ids (bk_rows b)"
  unfolding other_rows_def by (rule filter_narrow [OF _ adjust_event_frame]) auto

lemma adjust_events_sound:
  "adjust_events date is b b' \<Longrightarrow> books_sound b \<Longrightarrow> set is \<subseteq> ids \<Longrightarrow> books_sound b' \<and> bk_closed b' = bk_closed b
     \<and> other_rows date ids (bk_rows b') = other_rows date ids (bk_rows b)
     \<and> filter (\<lambda>t. bk_closed b (tx_month t)) (bk_rows b') = filter (\<lambda>t. bk_closed b (tx_month t)) (bk_rows b)"
proof (induction rule: adjust_events.induct)
  case (adjust_next i b c "is" b')
  note e = adjust_event_book [OF adjust_next.hyps(1)]
  with adjust_next book_event_sound [OF e] book_event_closed [OF e] adjust_event_others [OF adjust_next.hyps(1), of ids] show ?case by simp
qed simp

lemma reconcile_one_event:
  assumes "reconcile_one P E subject q system category observations (db, out) a = Inr (db', out')"
    and "books_sound (books_of db)" "\<not> month_closed db (take 7 (rc_date q))"
  shows "adjust_event (rc_date q) (rq_account a) (books_of db) (books_of db')"
proof -
  from assms(1) obtain pl d1 eur actual_eur where pl: "plan_adjustment E q system observations db a = Inr pl" and
    d1: "record_adjustment P subject q system category a pl db = Inr d1" and
    db': "db' = d1\<lparr>accounts_table := map (\<lambda>b. if acc_id b = rq_account a then reconciled_row pl eur actual_eur b else b) (accounts_table db),
       batch_items_table := batch_items_table db @ [item_of P q (rq_revision a + 1) pl]\<rparr>"
    by (rule reconcile_one_E)
  note plan = plan_adjustment_basic [OF pl]
  note old = existing_cases [OF plan(2), folded plan(3)]
  note t = record_adjustment_tables [OF d1]
  from t(1) obtain r v w where d: "d1 = db\<lparr>transactions_table := transactions_table d1,
      revisions_table := revisions_table db @ [r], valuations_table := valuations_table db @ [v, w]\<rparr>"
    "rev_transaction r = pl_transaction pl" "rev_revision r = pl_revision pl"
    "val_transaction v = pl_transaction pl" "val_revision v = pl_revision pl"
    "val_transaction w = pl_transaction pl" "val_revision w = pl_revision pl" by blast
  have tables: "closures_table d1 = closures_table db" "revisions_table d1 = revisions_table db @ [r]"
    "valuations_table d1 = valuations_table db @ [v, w]" by (subst d(1), simp)+
  have closed: "month_closed d1 = month_closed db" by (rule closed_cong [OF tables(1)])
  have after: "books_of db' = (books_of db)\<lparr>bk_rows := transactions_table d1,
      bk_valued := bk_valued (books_of db) @ [(pl_transaction pl, pl_revision pl), (pl_transaction pl, pl_revision pl)],
      bk_revised := bk_revised (books_of db) @ [(pl_transaction pl, pl_revision pl)]\<rparr>"
    using closed by (simp add: books_of_def db' tables d(2-7) fun_eq_iff month_closed_def)
  have open_month: "\<not> bk_closed (books_of db) (take 7 (rc_date q))" using assms(3) by (simp add: books_of_def)
  show ?thesis
  proof (cases "pl_existing pl")
    case None
    from t(3,4) [OF None] obtain n where n: "transactions_table d1 = transactions_table db @ [adjustment_row P subject q system category n pl]"
      "pl_transaction pl \<notin> tx_id ` set (transactions_table db)" by blast
    let ?t = "adjustment_row P subject q system category n pl"
    have row: "tx_id ?t = pl_transaction pl" "tx_date ?t = rc_date q" "tx_revision ?t = 1" "tx_kind ?t = ''reconciliation''"
      "tx_from_account ?t = Some (rq_account a)" using plan(1) by (simp_all add: adjustment_row_def)
    have "adjust_event (rc_date q) (rq_account a) (books_of db) ((books_of db)\<lparr>bk_rows := bk_rows (books_of db) @ [?t],
        bk_valued := bk_valued (books_of db) @ [(tx_id ?t, 1), (tx_id ?t, 1)], bk_revised := bk_revised (books_of db) @ [(tx_id ?t, 1)]\<rparr>)"
      by (rule adjustment_added) (use n(2) open_month row in \<open>simp_all add: books_of_def\<close>)
    then show ?thesis unfolding after by (simp add: n(1) row plan(5) None books_of_def)
  next
    case (Some e)
    with old have "e \<in> set (existing_adjustments db (rc_date q) (rq_account a))" by simp
    note er = existing_row [OF this]
    have tid: "pl_transaction pl = tx_id e" "pl_revision pl = Suc (tx_revision e)" by (simp_all add: plan(4,5) Some)
    have "map (\<lambda>x. if tx_id x = pl_transaction pl then adjusted_row pl x else x) (transactions_table db)
        = map (\<lambda>x. if tx_id x = tx_id e then adjusted_row pl e else x) (transactions_table db)"
    proof -
      have "x = e" if "x \<in> set (transactions_table db)" "tx_id x = tx_id e" for x
        by (rule distinct_tx [OF _ that(1) er(1) that(2)]) (use assms(2) in \<open>simp add: books_sound_def books_of_def\<close>)
      then show ?thesis by (auto simp: tid)
    qed
    with t(2) Some have rows: "transactions_table d1 = map (\<lambda>x. if tx_id x = tx_id e then adjusted_row pl e else x) (transactions_table db)"
      by simp
    have "adjust_event (rc_date q) (rq_account a) (books_of db) ((books_of db)\<lparr>bk_rows := map (\<lambda>x. if tx_id x = tx_id e then adjusted_row pl e else x) (bk_rows (books_of db)),
        bk_valued := bk_valued (books_of db) @ [(tx_id e, tx_revision (adjusted_row pl e)), (tx_id e, tx_revision (adjusted_row pl e))],
        bk_revised := bk_revised (books_of db) @ [(tx_id e, tx_revision (adjusted_row pl e))]\<rparr>)"
      by (rule adjustment_replaced) (use er open_month tid in \<open>simp_all add: books_of_def adjusted_row_def\<close>)
    then show ?thesis unfolding after by (simp add: rows tid books_of_def)
  qed
qed

lemma reconcile_all_events:
  assumes "fold_result (reconcile_one P E subject q system category observations) (db, out) as = Inr (db', out')"
    and "books_sound (books_of db)" "\<not> month_closed db (take 7 (rc_date q))"
  shows "adjust_events (rc_date q) (map rq_account as) (books_of db) (books_of db')"
  using assms
proof (induction as arbitrary: db out)
  case (Cons a as)
  obtain db1 out1 where 1: "reconcile_one P E subject q system category observations (db, out) a = Inr (db1, out1)" and
    2: "fold_result (reconcile_one P E subject q system category observations) (db1, out1) as = Inr (db', out')"
    using Cons.prems(1) by (auto simp: result_simps)
  note event = reconcile_one_event [OF 1 Cons.prems(2,3)]
  note book = adjust_event_book [OF event]
  from book_event_closed [OF book Cons.prems(2)] Cons.prems(3) have "\<not> month_closed db1 (take 7 (rc_date q))"
    by (simp add: books_of_def)
  from Cons.IH [OF 2 book_event_sound [OF book Cons.prems(2)] this] event show ?case
    by (simp add: adjust_events_Cons) blast
qed simp

end
