(* ===== verification/ReconciliationProperties.thy ===== *)
theory ReconciliationProperties
  imports Reconciled TransactionProperties
begin

text \<open>
  The properties of the reconciliation of accounts: what it makes of the accounts it names, that it keeps
  the books, and that a fully reconciled month can be closed.
\<close>

section \<open>What the first steps leave as it is\<close>

lemma same_books_planned:
  assumes "same_books db d"
  shows "existing_adjustments d date i = existing_adjustments db date i" "planned_activity E q d i = planned_activity E q db i"
    "account_of d i = account_of db i"
  using assms same_books_reads(2,9) [OF assms]
  by (auto simp: same_books_def existing_adjustments_def intro!: planned_activity_cong)

lemma begun_books: "initialize P db = Inr d \<Longrightarrow> same_books db (begun P subject q d)"
  by (drule initialize_keeps_books) (auto simp: books_defs begun_def new_operation_def)

lemma settled_books:
  assumes "settled E q a b x" "same_books db a" "same_books b c"
  shows "settled E q db c x"
proof -
  have "set (batch_items_table b) \<subseteq> set (batch_items_table c)" using assms(3) by (simp add: same_books_def)
  then show ?thesis using assms(1) unfolding settled_def same_books_planned [OF assms(2)] same_books_planned [OF assms(3)]
    by (elim ex_forward conj_forward) (assumption | erule subsetD)+
qed

lemma reconciliation_run:
  assumes "record_db_reconciliation P E session payload db = Inr (r, db')" "find_operation db (rc_operation payload) = None"
  shows "\<exists>q. normalize_reconciliation E payload = Inr q"
    and "\<And>q. normalize_reconciliation E payload = Inr q \<Longrightarrow> \<exists>subject d d2 system category results. initialize P db = Inr d
      \<and> check_period P E (new_operation (rc_operation q) subject (reconcile_fingerprint P q) d) q = Inr ()
      \<and> (\<forall>b\<in>set (batches_table d). rb_id b \<noteq> rc_operation q \<and> rb_operation b \<noteq> rc_operation q)
      \<and> system_ready system category (begun P subject q d)
      \<and> fold_result (reconcile_one P E subject q system category (ecb_observations (begun P subject q d))) (begun P subject q d, []) (rc_accounts q)
          = Inr (d2, results) \<and> db' = set_response (rc_operation q) (write_json P r) d2"
proof -
  show "\<exists>q. normalize_reconciliation E payload = Inr q" by (rule record_reconciliation_E [OF assms]) blast
  show "\<exists>subject d d2 system category results. initialize P db = Inr d
      \<and> check_period P E (new_operation (rc_operation q) subject (reconcile_fingerprint P q) d) q = Inr ()
      \<and> (\<forall>b\<in>set (batches_table d). rb_id b \<noteq> rc_operation q \<and> rb_operation b \<noteq> rc_operation q)
      \<and> system_ready system category (begun P subject q d)
      \<and> fold_result (reconcile_one P E subject q system category (ecb_observations (begun P subject q d))) (begun P subject q d, []) (rc_accounts q)
          = Inr (d2, results) \<and> db' = set_response (rc_operation q) (write_json P r) d2"
    if "normalize_reconciliation E payload = Inr q" for q
  proof (rule record_reconciliation_E [OF assms])
    fix subject q' d d2 system category results
    assume f: "normalize_reconciliation E payload = Inr q'" "initialize P db = Inr d"
      "check_period P E (new_operation (rc_operation q') subject (reconcile_fingerprint P q') d) q' = Inr ()"
      "\<forall>b\<in>set (batches_table d). rb_id b \<noteq> rc_operation q' \<and> rb_operation b \<noteq> rc_operation q'"
      "system_ready system category (begun P subject q' d)"
      "fold_result (reconcile_one P E subject q' system category (ecb_observations (begun P subject q' d))) (begun P subject q' d, []) (rc_accounts q')
         = Inr (d2, results)" "db' = set_response (rc_operation q') (write_json P r) d2"
    from f(1) that have "q' = q" by simp
    from f [unfolded this] show ?thesis by (intro exI conjI) assumption+
  qed
qed

lemma reconciliation_settled:
  assumes "record_db_reconciliation P E session payload db = Inr (r, db')" "find_operation db (rc_operation payload) = None"
    and "distinct (map tx_id (transactions_table db))" "normalize_reconciliation E payload = Inr q"
  shows "\<forall>a\<in>set (rc_accounts q). settled E q db db' a" "\<And>i. i \<notin> rq_account ` set (rc_accounts q) \<Longrightarrow> account_of db' i = account_of db i"
proof -
  from reconciliation_run(2) [OF assms(1,2,4)] obtain subject d d2 system category results where
    d: "initialize P db = Inr d" "system_ready system category (begun P subject q d)"
    "fold_result (reconcile_one P E subject q system category (ecb_observations (begun P subject q d))) (begun P subject q d, []) (rc_accounts q)
       = Inr (d2, results)"
    and db': "db' = set_response (rc_operation q) (write_json P r) d2"
    by blast
  note b = begun_books [OF d(1), of subject q]
  have "distinct (map tx_id (transactions_table (begun P subject q d)))" using b assms(3) by (simp add: same_books_def)
  from reconcile_all [OF d(3) this d(2) normalize_reconciliation_E(2) [OF assms(4)]]
  have all: "frame E q (rq_account ` set (rc_accounts q)) (begun P subject q d) d2"
    "\<forall>a\<in>set (rc_accounts q). settled E q (begun P subject q d) d2 a" by simp_all
  note s = set_response_books [of d2 "rc_operation q" "write_json P r", folded db']
  from all(2) settled_books [OF _ b s] show "\<forall>a\<in>set (rc_accounts q). settled E q db db' a" by blast
  fix i assume "i \<notin> rq_account ` set (rc_accounts q)"
  with all(1) show "account_of db' i = account_of db i"
    by (simp add: frame_def same_books_planned(3) [OF s] same_books_planned(3) [OF b])
qed

text \<open>
  C4: Reconciling sets every named account to what was observed. A newly recorded reconciliation needs the
  current revision of each account it names, all real and active; the balance becomes the observed one
  plus the activity after the observation, the revision advances, and exactly one adjustment of the account
  is left for the date: to half a cent, the balance before, with the replaced adjustment taken back, less
  the new balance. The item of the batch keeps the closing balance, the observed one less the activity
  since the closing date. No other account changes.
\<close>

theorem reconciliation_settles:
  assumes "record_db_reconciliation P E session payload db = Inr (r, db')" "find_operation db (rc_operation payload) = None"
    and "distinct (map tx_id (transactions_table db))"
  shows "\<exists>q. normalize_reconciliation E payload = Inr q
     \<and> (\<forall>i. i \<notin> rq_account ` set (rc_accounts q) \<longrightarrow> account_of db' i = account_of db i)
     \<and> (\<forall>a\<in>set (rc_accounts q). \<exists>row row' balance balance' act t item closing.
          account_of db (rq_account a) = Some row \<and> account_of db' (rq_account a) = Some row'
        \<and> acc_is_real row \<and> acc_is_active row \<and> acc_revision row = rq_revision a \<and> acc_revision row' = rq_revision a + 1
        \<and> acc_native_balance row = Some balance \<and> acc_native_balance row' = Some balance'
        \<and> planned_activity E q db (rq_account a) = Inr act
        \<and> text_value balance' = text_value (rq_actual a) + text_value (act_after act)
        \<and> existing_adjustments db' (rc_date q) (rq_account a) = [t]
        \<and> 200 * \<bar>text_value (tx_amount t) - (text_value balance
             + (case first_row (existing_adjustments db (rc_date q) (rq_account a)) of None \<Rightarrow> 0 | Some e \<Rightarrow> text_value (tx_amount e))
             - text_value balance')\<bar> \<le> 1
        \<and> item \<in> set (batch_items_table db') \<and> ri_batch item = rc_operation q \<and> ri_account item = rq_account a
        \<and> ri_transaction item = Some (tx_id t) \<and> ri_revision item = rq_revision a + 1
        \<and> ri_actual item = Some closing \<and> text_value closing = text_value (rq_actual a) - text_value (act_through act))"
proof -
  from reconciliation_run(1) [OF assms(1,2)] obtain q where q: "normalize_reconciliation E payload = Inr q" by blast
  from reconciliation_settled [OF assms q] q show ?thesis unfolding settled_def by blast
qed

lemma reconciliation_replayed:
  assumes "record_db_reconciliation P E session payload db = Inr (r, db')" "find_operation db (rc_operation payload) = Some o'"
  shows "\<exists>q. normalize_reconciliation E payload = Inr q" "keeps_books db db'" "stored_response P o' = Inr r"
proof -
  from assms(1) obtain subject q d where q: "normalize_reconciliation E payload = Inr q" "initialize P db = Inr d"
    and rest: "(case find_operation d (rc_operation q) of
       Some o' \<Rightarrow> replay_reconciliation P subject q o' d
     | None \<Rightarrow> fresh_reconciliation P E subject q (new_operation (rc_operation q) subject (reconcile_fingerprint P q) d)) = Inr (r, db')"
    unfolding record_db_reconciliation_def new_operation_def by (simp only: result_simps) blast
  show "\<exists>q. normalize_reconciliation E payload = Inr q" using q(1) by blast
  from rest assms(2) replay_books [OF assms(2) q(2)] normalize_reconciliation_E(1) [OF q(1)]
  show "keeps_books db db'" "stored_response P o' = Inr r" by (auto simp: replay_reconciliation_def result_simps)
qed

lemma same_books_of: "same_books a b \<Longrightarrow> books_of b = books_of a"
  by (simp add: books_of_def same_books_def fun_eq_iff month_closed_def)

lemma reconciliation_adjusts:
  assumes "record_db_reconciliation P E session payload db = Inr (r, db')" "find_operation db (rc_operation payload) = None"
    and "books_sound (books_of db)" "normalize_reconciliation E payload = Inr q"
  shows "adjust_events (rc_date q) (map rq_account (rc_accounts q)) (books_of db) (books_of db')"
proof -
  from reconciliation_run(2) [OF assms(1,2,4)] obtain subject d d2 system category results where
    d: "initialize P db = Inr d" "check_period P E (new_operation (rc_operation q) subject (reconcile_fingerprint P q) d) q = Inr ()"
    "fold_result (reconcile_one P E subject q system category (ecb_observations (begun P subject q d))) (begun P subject q d, []) (rc_accounts q)
       = Inr (d2, results)"
    and db': "db' = set_response (rc_operation q) (write_json P r) d2" by blast
  note b = same_books_of [OF begun_books [OF d(1), of subject q]]
    and s = same_books_of [OF set_response_books [of d2 "rc_operation q" "write_json P r"], folded db']
  from d(2) have "\<not> month_closed (begun P subject q d) (take 7 (rc_date q))"
    by (simp add: check_period_def begun_def new_operation_def month_closed_def result_simps)
  from reconcile_all_events [OF d(3) _ this] b s assms(3) show ?thesis by simp
qed

text \<open>
  C5: Reconciling keeps the books. A repeated reconciliation returns the stored answer and changes nothing in
  them; a new one treats the named accounts one after the other, and each either gets a new adjustment of the
  date or its adjustment of the date goes to its next revision, with another amount and currency and
  nothing else, in a month that is not closed. So no other row is touched, in particular none of a closed
  month, no month is opened or closed, and the books stay sound.
\<close>

theorem reconciliation_keeps_books:
  assumes "record_db_reconciliation P E session payload db = Inr (r, db')" "books_sound (books_of db)"
  shows "\<exists>q. normalize_reconciliation E payload = Inr q
     \<and> (case find_operation db (rc_operation payload) of
          Some o' \<Rightarrow> keeps_books db db' \<and> stored_response P o' = Inr r
        | None \<Rightarrow> adjust_events (rc_date q) (map rq_account (rc_accounts q)) (books_of db) (books_of db'))
     \<and> filter (\<lambda>t. \<not> (tx_kind t = ''reconciliation'' \<and> tx_date t = rc_date q
            \<and> (\<exists>i\<in>rq_account ` set (rc_accounts q). tx_from_account t = Some i))) (transactions_table db')
       = filter (\<lambda>t. \<not> (tx_kind t = ''reconciliation'' \<and> tx_date t = rc_date q
            \<and> (\<exists>i\<in>rq_account ` set (rc_accounts q). tx_from_account t = Some i))) (transactions_table db)
     \<and> month_closed db' = month_closed db \<and> closed_rows db db' = closed_rows db db \<and> books_sound (books_of db')"
proof (cases "find_operation db (rc_operation payload)")
  case (Some o')
  note same = reconciliation_replayed [OF assms(1) Some]
  from same(2) have "same_books db db'" by (simp add: keeps_books_def)
  with same_books_of [OF this] same assms(2) Some show ?thesis by (auto simp: same_books_def closed_rows_def books_of_def)
next
  case None
  from reconciliation_run(1) [OF assms(1) None] obtain q where q: "normalize_reconciliation E payload = Inr q" by blast
  note events = reconciliation_adjusts [OF assms(1) None assms(2) q]
  from adjust_events_sound [OF events assms(2), of "rq_account ` set (rc_accounts q)"] events q None show ?thesis
    by (auto simp: other_rows_def closed_rows_def books_of_def)
qed

section \<open>A reconciled month can be closed\<close>

lemma position_last:
  assumes "i \<notin> op_id ` set (ops :: operation_row list)" "operations_table db = map f (ops @ [new])" "\<And>x. op_id (f x) = op_id x" "op_id new = i"
  shows "operation_position db i = Some (length ops)" "operation_position db j = Some n \<Longrightarrow> n \<le> length ops"
    "operation_position db j = Some (length ops) \<Longrightarrow> j = i"
proof -
  have ids: "op_id (operations_table db ! n) = (if n < length ops then op_id (ops ! n) else i)" if "n < Suc (length ops)" for n
  proof (cases "n < length ops")
    case False
    with that have "n = length ops" by simp
    then show ?thesis by (simp add: assms nth_append)
  qed (simp add: assms nth_append)
  have len: "length (operations_table db) = Suc (length ops)" by (simp add: assms(2))
  have "op_id (ops ! n) \<noteq> i" if "n < length ops" for n using imageI [OF nth_mem [OF that], of op_id] assms(1) by metis
  then have "find (\<lambda>n. op_id (operations_table db ! n) = i) [0..<length ops] = None"
    by (auto simp: find_None_iff ids)
  moreover have "find P (xs @ [x]) = (case find P xs of None \<Rightarrow> if P x then Some x else None | Some y \<Rightarrow> Some y)" for P :: "nat \<Rightarrow> bool" and xs x
    by (induction xs) simp_all
  ultimately show "operation_position db i = Some (length ops)"
    by (simp add: operation_position_def len ids)
  assume "operation_position db j = Some n"
  then show "n \<le> length ops" by (auto simp: operation_position_def len find_Some_iff less_Suc_eq_le nth_append split: if_splits)
next
  assume "operation_position db j = Some (length ops)"
  then have "op_id (operations_table db ! length ops) = j"
    unfolding operation_position_def find_Some_iff by (auto simp del: upt_Suc)
  then show "j = i" using assms by (simp add: nth_append)
qed

lemma all_reconciled:
  assumes "distinct (map acc_id (accounts_table db))" "rb_id b = batch"
    and "\<forall>a\<in>set (active_accounts db). \<exists>i\<in>set (batch_items_table db). ri_batch i = batch \<and> ri_account i = acc_id a"
  shows "fully_reconciled db b"
proof -
  let ?items = "filter (\<lambda>i. ri_batch i = batch \<and> list_ex (\<lambda>a. acc_id a = ri_account i) (active_accounts db)) (batch_items_table db)"
  have "acc_id a \<in> ri_account ` set ?items" if "a \<in> set (active_accounts db)" for a
  proof -
    from assms(3) that obtain i where "i \<in> set (batch_items_table db)" "ri_batch i = batch" "ri_account i = acc_id a" by blast
    with that have "i \<in> set ?items" by (auto simp: list_ex_iff)
    with \<open>ri_account i = acc_id a\<close> show ?thesis by force
  qed
  moreover have "ri_account i \<in> acc_id ` set (active_accounts db)" if "i \<in> set ?items" for i
    using that by (auto simp: list_ex_iff intro: rev_image_eqI)
  ultimately have "set (map ri_account ?items) = set (map acc_id (active_accounts db))"
    unfolding set_map by blast
  moreover have "distinct (map acc_id (active_accounts db))" using assms(1) by (simp add: active_accounts_def distinct_map_filter)
  then have "card (set (map acc_id (active_accounts db))) = length (map acc_id (active_accounts db))" by (rule distinct_card)
  ultimately have "length (remdups (map ri_account ?items)) = length (map acc_id (active_accounts db))"
    by (simp only: length_remdups_card_conv)
  then show ?thesis by (simp add: fully_reconciled_def reconciled_count_def assms(2))
qed

lemma check_reconciled_I:
  assumes "month_end m = Inr date" "b \<in> set (batches_table db)" "rb_date b = date" "fully_reconciled db b" "\<not> month_closed db m"
    and last: "operation_position db (rb_operation b) = Some n" "\<And>j k. operation_position db j = Some k \<Longrightarrow> k \<le> n"
      "length (operations_table db) \<le> Suc n"
    and only: "\<And>c. c \<in> set (batches_table db) \<Longrightarrow> operation_position db (rb_operation c) = Some n \<Longrightarrow> rb_id c = rb_id b"
      "\<And>c. c \<in> set (batches_table db) \<Longrightarrow> rb_id c = rb_id b \<Longrightarrow> c = b"
  shows "check_reconciled P m db = Inr ()"
proof -
  let ?key = "\<lambda>b. the (operation_position db (rb_operation b))"
  let ?bs = "filter (\<lambda>b. rb_date b = date \<and> operation_position db (rb_operation b) \<noteq> None \<and> fully_reconciled db b) (batches_table db)"
  have b: "b \<in> set ?bs" using assms(2-4) last(1) by simp
  then obtain c where c: "last_max ?key ?bs = Some c" by (cases "last_max ?key ?bs") (auto simp only: last_max_None list.set empty_iff)
  from last_max_in [OF c] have in_bs: "c \<in> set ?bs" and le: "?key b \<le> ?key c" using b by blast+
  from in_bs obtain k where k: "operation_position db (rb_operation c) = Some k" "c \<in> set (batches_table db)" by auto
  with le last(1) have "operation_position db (rb_operation c) = Some n" using last(2) [OF k(1)] by simp
  from only(1) [OF k(2) this] c have latest: "latest_reconciliation db date = Some (rb_id b)" by (simp add: latest_reconciliation_def)
  have "filter (\<lambda>c. rb_id c = rb_id b) (batches_table db) \<noteq> []" using assms(2) by (auto simp: filter_empty_conv)
  then obtain x where x: "first_row (filter (\<lambda>c. rb_id c = rb_id b) (batches_table db)) = Some x"
    by (cases "filter (\<lambda>c. rb_id c = rb_id b) (batches_table db)") (simp_all add: first_row_def)
  with first_row_filter [OF x] only(2) have "x = b" by blast
  with x last(1) have mark: "batch_watermark db (rb_id b) = Some n" by (simp add: batch_watermark_def)
  have "\<not> later_operation db n j" for j
    using last(2) [of j] by (auto simp: later_operation_def not_less split: option.split)
  then have "\<not> changed_before db date n" "drop (Suc n) (operations_table db) = []"
    using last(3) by (auto simp: changed_before_def list_ex_iff split: option.splits)
  then have "reconciliation_current P db date (rb_id b) = Inr True"
    by (simp add: reconciliation_current_def fetch_one_def mark)
  moreover have "list_ex (\<lambda>b. rb_date b = date \<and> fully_reconciled db b) (batches_table db)" using assms(2-4) by (auto simp: list_ex_iff)
  ultimately show ?thesis using assms(1,5) by (simp add: check_reconciled_def latest fetch_one_def)
qed

lemma reconciliation_tables:
  assumes "record_db_reconciliation P E session payload db = Inr (r, db')" "find_operation db (rc_operation payload) = None"
    and "distinct (map tx_id (transactions_table db))" "normalize_reconciliation E payload = Inr q"
  shows "\<exists>subject old. batches_table db' = old @ [batch_of P subject q] \<and> (\<forall>b\<in>set old. rb_id b \<noteq> rc_operation q \<and> rb_operation b \<noteq> rc_operation q)"
    and "\<exists>ops new f. rc_operation q \<notin> op_id ` set (ops :: operation_row list) \<and> operations_table db' = map f (ops @ [new])
      \<and> (\<forall>x. op_id (f x) = op_id x) \<and> op_id new = rc_operation q"
    and "map (\<lambda>a. (acc_id a, acc_is_real a, acc_is_active a)) (accounts_table db') = map (\<lambda>a. (acc_id a, acc_is_real a, acc_is_active a)) (accounts_table db)"
    and "closures_table db' = closures_table db"
proof -
  note n = normalize_reconciliation_E [OF assms(4)]
  from reconciliation_run(2) [OF assms(1,2,4)] obtain subject d d2 system category results where
    d: "initialize P db = Inr d" "\<forall>b\<in>set (batches_table d). rb_id b \<noteq> rc_operation q \<and> rb_operation b \<noteq> rc_operation q"
      "system_ready system category (begun P subject q d)"
      "fold_result (reconcile_one P E subject q system category (ecb_observations (begun P subject q d))) (begun P subject q d, []) (rc_accounts q)
         = Inr (d2, results)" and db': "db' = set_response (rc_operation q) (write_json P r) d2" by blast
  note keep = initialize_keeps_books [OF d(1)] and b = begun_books [OF d(1), of subject q]
  have "distinct (map tx_id (transactions_table (begun P subject q d)))" using b assms(3) by (simp add: same_books_def)
  from reconcile_all [OF d(4) this d(3) n(2)] have frame: "frame E q (rq_account ` set (rc_accounts q)) (begun P subject q d) d2" by simp
  have "batches_table db' = batches_table d @ [batch_of P subject q]" using frame by (simp add: frame_def db' set_response_def begun_def)
  with d(2) show "\<exists>subject old. batches_table db' = old @ [batch_of P subject q] \<and> (\<forall>b\<in>set old. rb_id b \<noteq> rc_operation q \<and> rb_operation b \<noteq> rc_operation q)"
    by blast
  have "operations_table db' = map (\<lambda>x. if op_id x = rc_operation q then x\<lparr>op_response := write_json P r\<rparr> else x) (operations_table db
      @ [\<lparr>op_id = rc_operation q, op_actor = subject, op_fingerprint = reconcile_fingerprint P q, op_response = ''{}''\<rparr>])"
    using frame keep by (simp add: frame_def db' set_response_def begun_def new_operation_def keeps_books_def)
  moreover have "rc_operation q \<notin> op_id ` set (operations_table db)"
    using assms(2) by (auto simp: n(1) find_operation_def first_row_def filter_empty_conv split: list.splits)
  ultimately show "\<exists>ops new f. rc_operation q \<notin> op_id ` set (ops :: operation_row list) \<and> operations_table db' = map f (ops @ [new])
      \<and> (\<forall>x. op_id (f x) = op_id x) \<and> op_id new = rc_operation q"
    by (intro exI conjI allI) (assumption | simp)+
  show "map (\<lambda>a. (acc_id a, acc_is_real a, acc_is_active a)) (accounts_table db') = map (\<lambda>a. (acc_id a, acc_is_real a, acc_is_active a)) (accounts_table db)"
    "closures_table db' = closures_table db"
    using frame b by (simp_all add: frame_def db' set_response_def same_books_def)
qed

text \<open>
  C6: Reconciling every account makes the month ready to be closed. After a new reconciliation of the last day of
  a month that names every active real account, the checks of a month close find the reconciliation complete,
  find it to be the latest, and find that nothing has changed since.
\<close>

theorem reconciled_month_closable:
  assumes "record_db_reconciliation P E session payload db = Inr (r, db')" "find_operation db (rc_operation payload) = None"
    and "distinct (map tx_id (transactions_table db))" "distinct (map acc_id (accounts_table db))"
    and "month_end m = Inr (trim (rc_date payload))" "\<not> month_closed db m"
    and "\<And>a. a \<in> set (active_accounts db) \<Longrightarrow> acc_id a \<in> trim ` rq_account ` set (rc_accounts payload)"
  shows "check_reconciled P m db' = Inr ()"
proof -
  from reconciliation_run(1) [OF assms(1,2)] obtain q where q: "normalize_reconciliation E payload = Inr q" by blast
  note n = normalize_reconciliation_E [OF q] and t = reconciliation_tables [OF assms(1-3) q]
  from t(1) obtain subject old where batches: "batches_table db' = old @ [batch_of P subject q]"
    "\<forall>b\<in>set old. rb_id b \<noteq> rc_operation q \<and> rb_operation b \<noteq> rc_operation q" by blast
  from t(2) obtain ops new f where ops: "rc_operation q \<notin> op_id ` set (ops :: operation_row list)" "operations_table db' = map f (ops @ [new])"
    "\<And>x. op_id (f x) = op_id x" "op_id new = rc_operation q" by blast
  note last = position_last [OF ops]
  let ?b = "batch_of P subject q"
  have "\<exists>i\<in>set (batch_items_table db'). ri_batch i = rc_operation q \<and> ri_account i = acc_id a" if "a \<in> set (active_accounts db')" for a
  proof -
    from that have "(acc_id a, True, True) \<in> set (map (\<lambda>a. (acc_id a, acc_is_real a, acc_is_active a)) (accounts_table db'))"
      by (force simp: active_accounts_def)
    then obtain a0 where "a0 \<in> set (active_accounts db)" "acc_id a0 = acc_id a" unfolding t(3) by (auto simp: active_accounts_def)
    with assms(7) [of a0] n(4) have "acc_id a \<in> rq_account ` set (rc_accounts q)" by simp
    then obtain x where "x \<in> set (rc_accounts q)" "rq_account x = acc_id a" by force
    with reconciliation_settled(1) [OF assms(1-3) q] show ?thesis unfolding settled_def by fastforce
  qed
  moreover have "distinct (map acc_id (accounts_table db'))" using arg_cong [OF t(3), of "map fst"] assms(4) by (simp add: comp_def)
  ultimately have full: "fully_reconciled db' ?b" by (intro all_reconciled) (auto simp: batch_of_def)
  have still_open: "\<not> month_closed db' m" using assms(6) t(4) by (simp add: month_closed_def)
  show ?thesis
  proof (rule check_reconciled_I [OF assms(5) _ _ full still_open _ last(2)])
    show "?b \<in> set (batches_table db')" "rb_date ?b = trim (rc_date payload)" "operation_position db' (rb_operation ?b) = Some (length ops)"
      "length (operations_table db') \<le> Suc (length ops)"
      using last(1) n(3) by (simp_all add: batches batch_of_def ops(2))
    fix c assume c: "c \<in> set (batches_table db')"
    show "rb_id c = rb_id ?b" if "operation_position db' (rb_operation c) = Some (length ops)"
      using c batches(2) last(3) [OF that] by (auto simp: batches(1) batch_of_def)
    show "c = ?b" if "rb_id c = rb_id ?b" using c batches(2) that by (auto simp: batches(1) batch_of_def)
  qed
qed

section \<open>A reconciled household\<close>

definition rec_db :: db where
  "rec_db = empty_db\<lparr>
     categories_table := [\<lparr>cat_id = ''adjust'', cat_name = ''Reconciliation'', cat_is_real = False, cat_source_row = 1\<rparr>],
     accounts_table := [\<lparr>acc_id = ''bank'', acc_currency = Some ''EUR'', acc_is_real = True, acc_is_active = True,
         acc_native_balance = Some (whole 500), acc_source_name = ''Bank'', acc_eur_balance = Some (whole 500), acc_revision = 0,
         acc_type = None, acc_source_row = 1, acc_actual_native = None, acc_actual_eur = None, acc_reconciliation = None\<rparr>,
       \<lparr>acc_id = ''gap'', acc_currency = Some ''EUR'', acc_is_real = False, acc_is_active = True,
         acc_native_balance = None, acc_source_name = ''Reconciliation'', acc_eur_balance = None, acc_revision = 0,
         acc_type = None, acc_source_row = 2, acc_actual_native = None, acc_actual_eur = None, acc_reconciliation = None\<rparr>],
     imports_table := [\<lparr>imp_manifest = ''2026-01'', imp_committed_at = ''2026-01-01''\<rparr>]\<rparr>"

definition rec_env :: reconcile_env where
  "rec_env = \<lparr>writes_enabled = True, valid_uuid = (\<lambda>_. True), seconds_since = (\<lambda>_. Some 0), days_between = (\<lambda>_ _. Some 0),
     reconcile_enabled = True, closing_before = (\<lambda>_. None), julian_after = (\<lambda>_ _. None)\<rparr>"

definition rec_account :: reconcile_account where
  "rec_account = \<lparr>rq_account = ''bank'', rq_actual = whole 480, rq_transaction = tx_one, rq_revision = 0\<rparr>"

definition rec_request :: reconcile_request where
  "rec_request = \<lparr>rc_operation = op_one, rc_date = ''2026-01-31'', rc_observed_at = None, rc_observed_date = None,
     rc_accounts = [rec_account]\<rparr>"

definition rec_start :: db where
  "rec_start = begun sample_platform ''me'' rec_request rec_db"

lemma rec_normal: "normalize_reconciliation rec_env rec_request = Inr rec_request"
proof -
  have "trim ''bank'' = ''bank''" "trim ''2026-01-31'' = ''2026-01-31''" "valid_date ''2026-01-31''" "map ascii_lower tx_one = tx_one"
    by (simp_all add: trim_id tx_one_def ascii_lower_def) code_simp
  moreover have "is_uuid_v7 (valid_uuid rec_env) op_one" "is_uuid_v7 (valid_uuid rec_env) tx_one"
    by (simp_all add: is_uuid_v7_def op_one_def tx_one_def ascii_lower_def rec_env_def)
  moreover have "length (whole 480) = 3" by (simp add: whole_eval to_string_eval)
  ultimately show ?thesis
    by (simp add: normalize_reconciliation_def normalize_account_def rec_request_def rec_account_def Let_def posted_whole)
qed

lemma rec_plan: "\<exists>pl. plan_adjustment rec_env rec_request \<lparr>wa_id = ''gap'', wa_currency = ''EUR'', wa_is_real = False, wa_is_active = True\<rparr>
   [] rec_start rec_account = Inr pl \<and> pl_target pl = whole 480 \<and> pl_actual pl = whole 480 \<and> pl_existing pl = None
   \<and> pl_account pl = \<lparr>wa_id = ''bank'', wa_currency = ''EUR'', wa_is_real = True, wa_is_active = True\<rparr>"
proof -
  have "ratio_divide (decimal_as_ratio \<lparr>coefficient = 1, scale = 0\<rparr>) (decimal_as_ratio \<lparr>coefficient = 1, scale = 0\<rparr>) \<noteq> Inl e"
    "ratio_divide ratio_one (decimal_as_ratio \<lparr>coefficient = 1, scale = 0\<rparr>) \<noteq> Inl e" for e
    using ratio_divide_Inr_iff [of "decimal_as_ratio \<lparr>coefficient = 1, scale = 0\<rparr>"]
    by (auto simp: money_simps dec_value_def) (metis sum.distinct(1))+
  then obtain x y where "ratio_divide ratio_one (decimal_as_ratio \<lparr>coefficient = 1, scale = 0\<rparr>) = Inr x"
    "ratio_divide (decimal_as_ratio \<lparr>coefficient = 1, scale = 0\<rparr>) (decimal_as_ratio \<lparr>coefficient = 1, scale = 0\<rparr>) = Inr y"
    by (metis sum.exhaust)
  then have "\<exists>v. calculate_valuation (whole 20) ''EUR'' ''EUR'' (whole 0) ''EUR'' ''2026-01-31'' [] HalfEven = Inr v"
    by (simp add: calculate_valuation_def select_prior_rate_def whole_parse parse_one source_rates_def Let_def)
  then obtain v where v: "calculate_valuation (whole 20) ''EUR'' ''EUR'' (whole 0) ''EUR'' ''2026-01-31'' [] HalfEven = Inr v" by blast
  have "account_of rec_start ''bank'' = Some (hd (accounts_table rec_db))" "transactions_table rec_start = []"
    by (simp_all add: account_of_def rec_start_def begun_def new_operation_def rec_db_def first_row_def empty_db_def)
  then show ?thesis
    by (simp add: plan_adjustment_def load_reconciled_account_def load_db_account_def rec_account_def rec_request_def load_adjustment_def
        existing_adjustments_def transaction_of_def first_row_def Let_def write_account_of_def fetch_one_def rec_db_def zero_whole
        planned_activity_def no_activity_def add_whole sub_whole posted_whole v POSTING_ROUNDING_MODE_def)
qed

lemma rec_run: "\<exists>r db'. record_db_reconciliation sample_platform rec_env (Inr ''me'') rec_request rec_db = Inr (r, db')"
proof -
  let ?system = "\<lparr>wa_id = ''gap'', wa_currency = ''EUR'', wa_is_real = False, wa_is_active = True\<rparr>"
  let ?category = "\<lparr>wc_id = ''adjust'', wc_is_real = False\<rparr>"
  obtain pl where pl: "plan_adjustment rec_env rec_request ?system [] rec_start rec_account = Inr pl"
    "pl_target pl = whole 480" "pl_actual pl = whole 480" "pl_existing pl = None"
    "pl_account pl = \<lparr>wa_id = ''bank'', wa_currency = ''EUR'', wa_is_real = True, wa_is_active = True\<rparr>" using rec_plan by blast
  have tables: "transactions_table rec_start = []" "revisions_table rec_start = []" "valuations_table rec_start = []"
    "accounts_table rec_start = accounts_table rec_db" "batch_items_table rec_start = []" "categories_table rec_start = categories_table rec_db"
    by (simp_all add: rec_start_def begun_def new_operation_def rec_db_def empty_db_def)
  have date: "date_glob ''2026-01-31''" "tx_date (adjustment_row P s rec_request system c n pl) = ''2026-01-31''" for P :: "int platform" and s system c n
    by code_simp (simp add: adjustment_row_def rec_request_def)
  have "\<exists>d1. record_adjustment sample_platform ''me'' rec_request ?system ?category rec_account pl rec_start = Inr d1"
    by (simp add: record_adjustment_def write_adjustment_def pl(4) insert_transaction_def insert_revision_def insert_valuation_def
        valuation_row_of_def tables date)
  then obtain d1 where d1: "record_adjustment sample_platform ''me'' rec_request ?system ?category rec_account pl rec_start = Inr d1" by blast
  have same: "accounts_table d1 = accounts_table rec_db" "batch_items_table d1 = []"
    by (rule record_adjustment_E [OF d1], simp add: tables)+
  have "\<exists>x. reconcile_one sample_platform rec_env ''me'' rec_request ?system ?category [] (rec_start, []) rec_account = Inr x"
    by (simp add: reconcile_one_def pl d1 account_balance_eur_whole Let_def set_reconciled_def account_of_def same rec_db_def first_row_def
        fetch_one_def insert_item_def)
  then obtain d2 out where one: "reconcile_one sample_platform rec_env ''me'' rec_request ?system ?category [] (rec_start, []) rec_account = Inr (d2, out)"
    by auto
  have init: "initialize sample_platform rec_db = Inr rec_db"
    by (simp add: initialize_def opening_missing_def rec_db_def evaluate)
  have none: "find_operation rec_db op_one = None" by (simp add: find_operation_def first_row_def rec_db_def empty_db_def)
  let ?d = "new_operation op_one ''me'' (reconcile_fingerprint sample_platform rec_request) rec_db"
  have period: "check_period sample_platform rec_env ?d rec_request = Inr ()"
    by (simp add: check_period_def check_observation_def rec_request_def new_operation_def rec_db_def evaluate)
  have batch: "insert_batch ?d (batch_of sample_platform ''me'' rec_request) = Inr rec_start"
    by (simp add: insert_batch_def rec_start_def begun_def new_operation_def rec_db_def empty_db_def rec_request_def)
  have system: "load_system_db_account rec_start ''Reconciliation'' = Inr ?system" "load_system_db_category rec_start ''Reconciliation'' = Inr ?category"
    by (simp_all add: load_system_db_account_def load_system_db_category_def tables rec_db_def same_nocase_def ascii_lower_def
        write_account_of_def write_category_of_def)
  have rates: "ecb_observations rec_start = []" by (simp add: ecb_observations_def rec_start_def begun_def new_operation_def rec_db_def empty_db_def)
  have q: "rc_operation rec_request = op_one" "rc_accounts rec_request = [rec_account]" "reconcile_enabled rec_env"
    by (simp_all add: rec_request_def rec_env_def)
  have "\<exists>x. fresh_reconciliation sample_platform rec_env ''me'' rec_request ?d = Inr x"
    by (simp add: fresh_reconciliation_def period batch system rates q one Let_def)
  then show ?thesis
    by (simp add: record_db_reconciliation_def rec_normal init none q new_operation_def)
qed

theorem reconciliation_settles_witness:
  "\<exists>r db' row t. record_db_reconciliation sample_platform rec_env (Inr ''me'') rec_request rec_db = Inr (r, db')
     \<and> account_of db' ''bank'' = Some row \<and> acc_revision row = 1 \<and> existing_adjustments db' ''2026-01-31'' ''bank'' = [t]
     \<and> 200 * \<bar>text_value (tx_amount t) - 20\<bar> \<le> 1"
proof -
  obtain r db' where run: "record_db_reconciliation sample_platform rec_env (Inr ''me'') rec_request rec_db = Inr (r, db')"
    using rec_run by blast
  have none: "find_operation rec_db (rc_operation rec_request) = None" "distinct (map tx_id (transactions_table rec_db))"
    by (simp_all add: find_operation_def first_row_def rec_db_def empty_db_def)
  have bank: "account_of rec_db ''bank'' = Some (hd (accounts_table rec_db))" "acc_native_balance (hd (accounts_table rec_db)) = Some (whole 500)"
    by (simp_all add: account_of_def rec_db_def first_row_def)
  have gone: "planned_activity rec_env rec_request rec_db ''bank'' = Inr no_activity" "first_row (existing_adjustments rec_db d ''bank'') = None" for d
    by (simp_all add: planned_activity_def rec_request_def existing_adjustments_def rec_db_def empty_db_def first_row_def)
  have a: "rc_accounts rec_request = [rec_account]" "rq_account rec_account = ''bank''" "rq_actual rec_account = whole 480"
    "rq_revision rec_account = 0" "rc_date rec_request = ''2026-01-31''"
    by (simp_all add: rec_request_def rec_account_def)
  from reconciliation_settles [OF run none] obtain row' balance' t where
    "account_of db' ''bank'' = Some row'" "acc_revision row' = 1" "text_value balance' = text_value (whole 480) + text_value (act_after no_activity)"
    "existing_adjustments db' ''2026-01-31'' ''bank'' = [t]" "200 * \<bar>text_value (tx_amount t) - (text_value (whole 500) - text_value balance')\<bar> \<le> 1"
    by (auto simp: rec_normal a bank gone)
  with run show ?thesis by (auto simp: no_activity_def zero_whole)
qed

theorem reconciliation_keeps_books_witness:
  "\<exists>r db'. record_db_reconciliation sample_platform rec_env (Inr ''me'') rec_request rec_db = Inr (r, db')
     \<and> adjust_events ''2026-01-31'' [''bank''] (books_of rec_db) (books_of db') \<and> books_sound (books_of db')"
proof -
  obtain r db' where run: "record_db_reconciliation sample_platform rec_env (Inr ''me'') rec_request rec_db = Inr (r, db')"
    using rec_run by blast
  have none: "find_operation rec_db (rc_operation rec_request) = None" and sound: "books_sound (books_of rec_db)"
    by (simp_all add: find_operation_def first_row_def books_sound_def books_of_def rec_db_def empty_db_def)
  have a: "rc_date rec_request = ''2026-01-31''" "map rq_account (rc_accounts rec_request) = [''bank'']"
    by (simp_all add: rec_request_def rec_account_def)
  from reconciliation_keeps_books [OF run sound] run show ?thesis by (auto simp: rec_normal none a)
qed

theorem reconciled_month_closable_witness:
  "\<exists>r db'. record_db_reconciliation sample_platform rec_env (Inr ''me'') rec_request rec_db = Inr (r, db')
     \<and> check_reconciled sample_platform ''2026-01'' db' = Inr ()"
proof -
  obtain r db' where run: "record_db_reconciliation sample_platform rec_env (Inr ''me'') rec_request rec_db = Inr (r, db')"
    using rec_run by blast
  have start: "find_operation rec_db (rc_operation rec_request) = None" "distinct (map tx_id (transactions_table rec_db))"
    "distinct (map acc_id (accounts_table rec_db))" "\<not> month_closed rec_db ''2026-01''"
    by (simp_all add: find_operation_def first_row_def rec_db_def empty_db_def month_closed_def)
  have "month_end ''2026-01'' = Inr ''2026-01-31''" by code_simp
  then have date: "month_end ''2026-01'' = Inr (trim (rc_date rec_request))" by (simp add: rec_request_def trim_id)
  have named: "acc_id a \<in> trim ` rq_account ` set (rc_accounts rec_request)" if "a \<in> set (active_accounts rec_db)" for a
    using that by (auto simp: active_accounts_def rec_db_def rec_request_def rec_account_def trim_id)
  from reconciled_month_closable [OF run start(1-3) date start(4) named] run show ?thesis by blast
qed

end
