(* ===== verification/Push.thy ===== *)
theory Push
  imports GoogleSessions TransactionWrites
begin

text \<open>
  The notifications of the partner (\<open>push.rs\<close>): the outbox that a recorded transaction fills, the
  policy of the retries, and the worker that drains the outbox. The clock, the random jitter and the
  answers of the notification service to a delivery are the record \<open>push_attempt\<close>; the parser of
  RFC 2822 dates is a parameter. Failures of the database itself are not modelled.
\<close>

section \<open>The outbox\<close>

text \<open>\<open>chars().take(n)\<close> on UTF-8: whole characters, each a first byte with its continuation bytes.\<close>

definition continuation_byte :: "char \<Rightarrow> bool" where
  "continuation_byte c \<longleftrightarrow> 128 \<le> (of_char c :: nat) \<and> (of_char c :: nat) < 192"

fun take_chars :: "nat \<Rightarrow> string \<Rightarrow> string" where
  "take_chars n [] = []"
| "take_chars n (c # cs) =
     (if continuation_byte c then c # take_chars n cs
      else if n = 0 then [] else c # take_chars (n - 1) cs)"

definition live_session :: "auth_db \<Rightarrow> string \<Rightarrow> string \<Rightarrow> int \<Rightarrow> bool" where
  "live_session s subject hash stamp \<longleftrightarrow>
     list_ex (\<lambda>r. pse_id_hash r = hash \<and> pse_subject r = subject \<and> stamp < pse_expires r) (pocket_sessions s)"

definition recipients :: "auth_db \<Rightarrow> string \<Rightarrow> int \<Rightarrow> push_device_row list" where
  "recipients s actor stamp =
     filter (\<lambda>d. dev_subject d \<noteq> actor \<and> live_session s (dev_subject d) (dev_session d) stamp) (push_devices s)"

text \<open>\<open>ON CONFLICT(operation_id, installation_id) DO NOTHING\<close>; the event id is the primary key.\<close>

definition insert_outbox :: "push_outbox_row \<Rightarrow> auth_db \<Rightarrow> auth_db result" where
  "insert_outbox r s =
     (if list_ex (\<lambda>x. out_operation x = out_operation r \<and> out_installation x = out_installation r) (push_outbox s) then Inr s
      else if list_ex (\<lambda>x. out_event x = out_event r) (push_outbox s) then Inl ''UNIQUE constraint failed: push_outbox.event_id''
      else Inr (s\<lparr>push_outbox := push_outbox s @ [r]\<rparr>))"

definition outbox_row_of ::
  "(string \<Rightarrow> string) \<Rightarrow> string \<Rightarrow> string \<Rightarrow> string \<Rightarrow> string \<Rightarrow> int \<Rightarrow> push_device_row \<Rightarrow> push_outbox_row" where
  "outbox_row_of new_event operation i title body stamp d =
     \<lparr>out_event = new_event (dev_installation d), out_operation = operation, out_transaction = i,
      out_title = take_chars 100 title, out_body = take_chars 250 body, out_installation = dev_installation d,
      out_subject = dev_subject d, out_session = dev_session d, out_created = stamp, out_next_attempt = stamp, out_attempts = 0\<rparr>"

definition enqueue ::
  "(string \<Rightarrow> string) \<Rightarrow> string \<Rightarrow> string \<Rightarrow> string \<Rightarrow> string list \<Rightarrow> string \<Rightarrow> string \<Rightarrow> int \<Rightarrow> auth_db \<Rightarrow> auth_db result" where
  "enqueue new_event operation i actor allowed title body stamp s =
     fold_result (\<lambda>s d. if dev_subject d \<notin> set allowed then Inr s
       else insert_outbox (outbox_row_of new_event operation i title body stamp d) s) s (recipients s actor stamp)"

section \<open>Retries\<close>

definition sat_i64 :: "int \<Rightarrow> int" where
  "sat_i64 n = max (- (2 ^ 63)) (min (2 ^ 63 - 1) n)"

definition remaining_ttl :: "int \<Rightarrow> int \<Rightarrow> int option" where
  "remaining_ttl expires stamp =
     (let remaining = sat_i64 (expires - stamp) in if 0 < remaining then Some (min remaining 86400) else None)"

datatype delivery = Sent | InvalidDevice | PermanentFailure | Retry int

definition retry_after :: "(string \<Rightarrow> int option) \<Rightarrow> string option \<Rightarrow> int \<Rightarrow> int" where
  "retry_after rfc2822 v stamp =
     max 60 (unwrap_or (Option.bind v (\<lambda>v. case parse_i64 v of
         Some n \<Rightarrow> if 0 \<le> n then Some n else map_option (\<lambda>d. sat_i64 (d - stamp)) (rfc2822 v)
       | None \<Rightarrow> map_option (\<lambda>d. sat_i64 (d - stamp)) (rfc2822 v))) 60)"

definition retry_base :: "int \<Rightarrow> int" where
  "retry_base attempts = 60 * 2 ^ nat (clamp 0 8 attempts)"

definition retry_delay :: "int \<Rightarrow> int \<Rightarrow> nat \<Rightarrow> int" where
  "retry_delay minimum attempts random =
     (let base = retry_base attempts in sat_i64 (max minimum base + int random mod (base div 2 + 1)))"

definition fcm_error_code :: "json \<Rightarrow> string \<Rightarrow> bool" where
  "fcm_error_code body code =
     (case Option.bind (json_field body ''error'') (\<lambda>e. json_field e ''details'') of
        Some (JArr details) \<Rightarrow> list_ex (\<lambda>v.
          json_field v ''@type'' = Some (JStr ''type.googleapis.com/google.firebase.fcm.v1.FcmError'')
          \<and> json_field v ''errorCode'' = Some (JStr code)) details
      | _ \<Rightarrow> False)"

definition classify_failure :: "nat \<Rightarrow> json \<Rightarrow> int \<Rightarrow> delivery" where
  "classify_failure status body minimum =
     (if fcm_error_code body ''UNREGISTERED'' then InvalidDevice
      else if fcm_error_code body ''SENDER_ID_MISMATCH'' \<or> status = 400 \<or> status = 403 \<or> status = 404 then PermanentFailure
      else if status = 401 \<or> status = 429 \<or> 500 \<le> status then Retry minimum
      else PermanentFailure)"

section \<open>The notification service\<close>

text \<open>
  What one delivery meets: the clock each time it is read, whether the assertion could be signed, the
  answers of the token service and of the notification service (\<open>None\<close> is a transport failure, a
  body that is no JSON is \<open>None\<close>), and the random number of the jitter.
\<close>

record push_attempt =
  pa_now_cached :: int
  pa_now_issued :: int
  pa_signed :: bool
  pa_oauth :: "(nat \<times> json option) option"
  pa_now_owner :: int
  pa_now_send :: int
  pa_http :: "(nat \<times> string option \<times> json option) option"
  pa_now_answer :: int
  pa_now_retry :: int
  pa_now_defer :: int
  pa_jitter :: nat

definition successful :: "nat \<Rightarrow> bool" where
  "successful status \<longleftrightarrow> 200 \<le> status \<and> status < 300"

text \<open>The cached access token is used until a minute before it expires.\<close>

type_synonym access = "(string \<times> int) option"

definition issue_token :: "push_attempt \<Rightarrow> (string \<times> int) result" where
  "issue_token a =
     and_then (if pa_signed a then Inr () else Inl ''Could not sign FCM authentication request'') (\<lambda>_.
     and_then (ok_or (pa_oauth a) ''FCM OAuth transport failed'') (\<lambda>(status, body).
     and_then (if successful status then Inr () else Inl ''FCM OAuth rejected authentication'') (\<lambda>_.
     and_then (ok_or body ''Invalid FCM OAuth response'') (\<lambda>body.
     and_then (ok_or (json_text (json_field body ''access_token'')) ''Missing FCM access token'') (\<lambda>token.
     Inr (token, pa_now_issued a + clamp 60 3600 (unwrap_or (json_i64 (json_field body ''expires_in'')) 3600)))))))"

definition fcm_token :: "push_attempt \<Rightarrow> access \<Rightarrow> string result \<times> access" where
  "fcm_token a cached =
     (case cached of
        Some (token, expiry) \<Rightarrow> if pa_now_cached a + 60 < expiry then (Inr token, cached)
          else (case issue_token a of Inl e \<Rightarrow> (Inl e, cached) | Inr t \<Rightarrow> (Inr (fst t), Some t))
      | None \<Rightarrow> (case issue_token a of Inl e \<Rightarrow> (Inl e, cached) | Inr t \<Rightarrow> (Inr (fst t), Some t)))"

text \<open>The message that leaves the server.\<close>

record push_message =
  msg_access :: string
  msg_token :: string
  msg_event :: string
  msg_transaction :: string
  msg_subject :: string
  msg_session :: string
  msg_title :: string
  msg_body :: string
  msg_expires :: int
  msg_ttl :: int

definition fcm_send ::
  "(string \<Rightarrow> int option) \<Rightarrow> push_attempt \<Rightarrow> string \<Rightarrow> string \<Rightarrow> push_outbox_row \<Rightarrow> access
     \<Rightarrow> delivery \<times> access \<times> push_message list" where
  "fcm_send rfc2822 a token device row cached =
     (let expires = sat_i64 (out_created row + 86400) in
      case remaining_ttl expires (pa_now_send a) of
        None \<Rightarrow> (PermanentFailure, cached, [])
      | Some ttl \<Rightarrow>
          let message = \<lparr>msg_access = token, msg_token = device, msg_event = out_event row,
            msg_transaction = out_transaction row, msg_subject = out_subject row, msg_session = out_session row,
            msg_title = out_title row, msg_body = out_body row, msg_expires = expires, msg_ttl = ttl\<rparr> in
          case pa_http a of
            None \<Rightarrow> (Retry 60, cached, [message])
          | Some (status, header, body) \<Rightarrow>
              (if successful status then Sent
               else classify_failure status (unwrap_or body JNull) (retry_after rfc2822 header (pa_now_answer a)),
               if status = 401 then None else cached, [message]))"

section \<open>The worker\<close>

definition current_device :: "auth_db \<Rightarrow> string \<Rightarrow> int \<Rightarrow> string option" where
  "current_device s event stamp =
     first_row (concat (map (\<lambda>r. map dev_token (filter (\<lambda>d. dev_installation d = out_installation r \<and> dev_subject d = out_subject r
         \<and> dev_session d = out_session r \<and> live_session s (dev_subject d) (dev_session d) stamp) (push_devices s)))
       (filter (\<lambda>r. out_event r = event \<and> stamp - 86400 < out_created r \<and> out_attempts r < 12) (push_outbox s))))"

definition owned :: "auth_db \<Rightarrow> push_outbox_row \<Rightarrow> int \<Rightarrow> bool" where
  "owned s r stamp \<longleftrightarrow> list_ex (\<lambda>d. dev_installation d = out_installation r \<and> dev_subject d = out_subject r
     \<and> dev_session d = out_session r \<and> live_session s (dev_subject d) (dev_session d) stamp) (push_devices s)"

definition purge :: "int \<Rightarrow> auth_db \<Rightarrow> auth_db" where
  "purge stamp s = s\<lparr>push_outbox := filter (\<lambda>r. \<not> (out_created r \<le> stamp - 86400 \<or> 12 \<le> out_attempts r \<or> \<not> owned s r stamp))
     (push_outbox s)\<rparr>"

definition due_rows :: "int \<Rightarrow> auth_db \<Rightarrow> push_outbox_row list" where
  "due_rows stamp s = take 20 (sort_key (\<lambda>r. (out_next_attempt r, out_created r))
     (filter (\<lambda>r. out_next_attempt r \<le> stamp) (push_outbox s)))"

definition delete_event :: "string \<Rightarrow> auth_db \<Rightarrow> auth_db" where
  "delete_event event s = s\<lparr>push_outbox := filter (\<lambda>r. out_event r \<noteq> event) (push_outbox s)\<rparr>"

definition defer_due :: "string \<Rightarrow> int \<Rightarrow> int \<Rightarrow> auth_db \<Rightarrow> auth_db" where
  "defer_due event next_attempt stamp s = s\<lparr>push_outbox := map (\<lambda>r. if out_next_attempt r \<le> stamp
     then r\<lparr>out_attempts := out_attempts r + (if out_event r = event then 1 else 0), out_next_attempt := next_attempt\<rparr> else r)
     (push_outbox s)\<rparr>"

definition retry_event :: "string \<Rightarrow> int \<Rightarrow> auth_db \<Rightarrow> auth_db" where
  "retry_event event next_attempt s = s\<lparr>push_outbox := map (\<lambda>r. if out_event r = event
     then r\<lparr>out_attempts := out_attempts r + 1, out_next_attempt := next_attempt\<rparr> else r) (push_outbox s)\<rparr>"

definition forget_device :: "string \<Rightarrow> string \<Rightarrow> auth_db \<Rightarrow> auth_db" where
  "forget_device installation token s = s\<lparr>push_devices :=
     filter (\<lambda>d. \<not> (dev_installation d = installation \<and> dev_token d = token)) (push_devices s)\<rparr>"

definition settle_delivery :: "push_attempt \<Rightarrow> push_outbox_row \<Rightarrow> string \<Rightarrow> delivery \<Rightarrow> auth_db \<Rightarrow> auth_db" where
  "settle_delivery a row device d s =
     (case d of
        Sent \<Rightarrow> delete_event (out_event row) s
      | PermanentFailure \<Rightarrow> delete_event (out_event row) s
      | InvalidDevice \<Rightarrow> delete_event (out_event row) (forget_device (out_installation row) device s)
      | Retry minimum \<Rightarrow> retry_event (out_event row)
          (sat_i64 (pa_now_retry a + retry_delay minimum (out_attempts row) (pa_jitter a))) s)"

text \<open>One row of the batch, as it was fetched; the flag says that the batch stops.\<close>

definition deliver_row ::
  "(string \<Rightarrow> int option) \<Rightarrow> string list \<Rightarrow> push_attempt \<Rightarrow> push_outbox_row \<Rightarrow> auth_db \<times> access
     \<Rightarrow> (auth_db \<times> access) \<times> push_message list \<times> bool" where
  "deliver_row rfc2822 allowed a row = (\<lambda>(s, cached).
     if out_subject row \<notin> set allowed then ((delete_event (out_event row) s, cached), [], False)
     else (case fcm_token a cached of
        (Inl _, cached') \<Rightarrow> ((defer_due (out_event row)
            (sat_i64 (pa_now_retry a + retry_delay 60 (out_attempts row) (pa_jitter a))) (pa_now_defer a) s, cached'), [], True)
      | (Inr token, cached') \<Rightarrow>
          (case current_device s (out_event row) (pa_now_owner a) of
             None \<Rightarrow> ((delete_event (out_event row) s, cached'), [], False)
           | Some device \<Rightarrow>
               let (d, cached'', messages) = fcm_send rfc2822 a token device row cached' in
               ((settle_delivery a row device d s, cached''), messages, False))))"

primrec deliver_rows ::
  "(string \<Rightarrow> int option) \<Rightarrow> string list \<Rightarrow> (string \<Rightarrow> push_attempt) \<Rightarrow> push_outbox_row list \<Rightarrow> auth_db \<times> access
     \<Rightarrow> (auth_db \<times> access) \<times> push_message list" where
  "deliver_rows rfc2822 allowed world [] st = (st, [])"
| "deliver_rows rfc2822 allowed world (row # rows) st =
     (let (st', messages, stop) = deliver_row rfc2822 allowed (world (out_event row)) row st in
      if stop then (st', messages)
      else let (st'', more) = deliver_rows rfc2822 allowed world rows st' in (st'', messages @ more))"

definition forget_dead_devices :: "int \<Rightarrow> auth_db \<Rightarrow> auth_db" where
  "forget_dead_devices stamp s = s\<lparr>push_devices :=
     filter (\<lambda>d. list_ex (\<lambda>r. pse_id_hash r = dev_session d \<and> stamp < pse_expires r) (pocket_sessions s)) (push_devices s)\<rparr>"

definition drain ::
  "(string \<Rightarrow> int option) \<Rightarrow> string list \<Rightarrow> int \<Rightarrow> (string \<Rightarrow> push_attempt) \<Rightarrow> auth_db \<times> access
     \<Rightarrow> (auth_db \<times> access) \<times> push_message list" where
  "drain rfc2822 allowed stamp world = (\<lambda>(s, cached).
     let s1 = purge stamp s; ((s2, cached'), messages) = deliver_rows rfc2822 allowed world (due_rows stamp s1) (s1, cached) in
     ((forget_dead_devices stamp s2, cached'), messages))"

section \<open>Notifying the partner\<close>

definition first_line :: "string \<Rightarrow> string" where
  "first_line s = (let line = takeWhile (\<lambda>c. c \<noteq> CHR 0x0A) s in
     if length line < length s \<and> line \<noteq> [] \<and> last line = CHR 0x0D then butlast line else line)"

definition notification_title :: "string \<Rightarrow> write_request \<Rightarrow> string" where
  "notification_title username p = username @ '' added '' @
     (if wr_kind p = ''expense'' then ''an expense'' else if wr_kind p = ''income'' then ''income''
      else if wr_kind p = ''transfer'' then ''a transfer'' else if wr_kind p = ''reallocate'' then ''a budget move''
      else ''a transaction'')"

definition notification_body :: "write_request \<Rightarrow> string \<Rightarrow> string" where
  "notification_body p currency =
     wr_amount p @ '' '' @ currency @ '' '' @ [CHR 0xC2, CHR 0xB7] @ '' '' @ take_chars 160 (first_line (wr_description p))"

text \<open>
  The end of \<open>create_db_transaction\<close>: a newly recorded transaction fills the outbox in the same database
  transaction, a repeated operation does not. \<open>sides\<close> are those of the recorded request.
\<close>

definition create_and_notify ::
  "'d platform \<Rightarrow> write_env \<Rightarrow> string list \<Rightarrow> (string \<Rightarrow> string) \<Rightarrow> int \<Rightarrow> (string \<times> string) api \<Rightarrow> write_request
     \<Rightarrow> db \<times> auth_db \<Rightarrow> (json \<times> db \<times> auth_db) api option" where
  "create_and_notify P W allowed new_event stamp session payload = (\<lambda>(db, s).
     returned (create_db_transaction P W session payload db) (\<lambda>(r, db').
     if find_operation db (wr_operation_id payload) \<noteq> None then Some (Inr (r, db', s))
     else Some (and_then session (\<lambda>(subject, username).
       and_then (normalize_db_transaction_write UNALLOCATED payload) (\<lambda>p.
       and_then (request_sides db p) (\<lambda>sd.
       and_then (internal (enqueue new_event (wr_operation_id p) (wr_transaction_id p) subject allowed
         (notification_title username p) (notification_body p (input_currency_of p sd)) stamp s)) (\<lambda>s'.
       Inr (r, db', s'))))))))"

end
