(* ===== verification/PushSteps.thy ===== *)
theory PushSteps
  imports Push SessionSteps
begin

text \<open>
  The outbox over time: what the worker and the requests of the sign-in change of it, how often a notice
  is sent, and the machine in which the worker, the recording of transactions and the sign-in interleave.
\<close>

section \<open>Notices\<close>

text \<open>A row keeps its notice while it is in the outbox: only its attempts and its next attempt change.\<close>

definition same_notice :: "push_outbox_row \<Rightarrow> push_outbox_row \<Rightarrow> bool" where
  "same_notice r r' \<longleftrightarrow> r' = r\<lparr>out_attempts := out_attempts r', out_next_attempt := out_next_attempt r'\<rparr>"

lemma same_notice_fields:
  assumes "same_notice r r'"
  shows "out_event r' = out_event r" "out_operation r' = out_operation r" "out_transaction r' = out_transaction r"
    "out_title r' = out_title r" "out_body r' = out_body r" "out_installation r' = out_installation r"
    "out_subject r' = out_subject r" "out_session r' = out_session r" "out_created r' = out_created r"
proof -
  from assms obtain a n where "r' = r\<lparr>out_attempts := a, out_next_attempt := n\<rparr>" unfolding same_notice_def by blast
  then show "out_event r' = out_event r" "out_operation r' = out_operation r" "out_transaction r' = out_transaction r"
    "out_title r' = out_title r" "out_body r' = out_body r" "out_installation r' = out_installation r"
    "out_subject r' = out_subject r" "out_session r' = out_session r" "out_created r' = out_created r"
    by simp_all
qed

lemma same_notice_refl [simp]: "same_notice r r"
  by (simp add: same_notice_def)

lemma same_notice_trans: "same_notice a b \<Longrightarrow> same_notice b c \<Longrightarrow> same_notice a c"
  unfolding same_notice_def by (cases a; cases b; cases c) simp

text \<open>The worker only drops rows and devices; a row that stays keeps its notice and its attempts do not fall.\<close>

definition worn :: "auth_db \<Rightarrow> auth_db \<Rightarrow> bool" where
  "worn s s' \<longleftrightarrow> pocket_sessions s' = pocket_sessions s \<and> set (push_devices s') \<subseteq> set (push_devices s)
     \<and> (\<exists>keep f. push_outbox s' = map f (filter keep (push_outbox s))
          \<and> (\<forall>r. same_notice r (f r) \<and> out_attempts r \<le> out_attempts (f r)))
     \<and> (\<exists>keep. push_devices s' = filter keep (push_devices s))"

lemma worn_refl: "worn s s"
  unfolding worn_def by (intro conjI exI [of _ "\<lambda>_. True"] exI [of _ id]) simp_all

lemma worn_trans:
  assumes "worn a b" "worn b c"
  shows "worn a c"
proof -
  from assms(1) obtain k f d where 1: "push_outbox b = map f (filter k (push_outbox a))"
    "\<forall>r. same_notice r (f r) \<and> out_attempts r \<le> out_attempts (f r)" "push_devices b = filter d (push_devices a)"
    unfolding worn_def by blast
  from assms(2) obtain l g e where 2: "push_outbox c = map g (filter l (push_outbox b))"
    "\<forall>r. same_notice r (g r) \<and> out_attempts r \<le> out_attempts (g r)" "push_devices c = filter e (push_devices b)"
    unfolding worn_def by blast
  have "push_outbox c = map (g \<circ> f) (filter (\<lambda>r. k r \<and> l (f r)) (push_outbox a))"
    by (simp add: 1(1) 2(1) filter_map comp_def conj_commute)
  moreover have "\<forall>r. same_notice r ((g \<circ> f) r) \<and> out_attempts r \<le> out_attempts ((g \<circ> f) r)"
    using 1(2) 2(2) same_notice_trans order_trans unfolding comp_def by blast
  moreover have "push_devices c = filter (\<lambda>x. d x \<and> e x) (push_devices a)" by (simp add: 1(3) 2(3) conj_commute)
  ultimately show ?thesis using assms unfolding worn_def by (metis subset_trans)
qed

lemma worn_filter: "pocket_sessions s' = pocket_sessions s \<Longrightarrow> push_devices s' = filter d (push_devices s) \<Longrightarrow>
    push_outbox s' = filter k (push_outbox s) \<Longrightarrow> worn s s'"
  unfolding worn_def by (intro conjI exI [of _ k] exI [of _ id] exI [of _ d]) auto

lemma worn_map: "pocket_sessions s' = pocket_sessions s \<Longrightarrow> push_devices s' = push_devices s \<Longrightarrow>
    push_outbox s' = map f (push_outbox s) \<Longrightarrow> (\<And>r. same_notice r (f r) \<and> out_attempts r \<le> out_attempts (f r)) \<Longrightarrow> worn s s'"
  unfolding worn_def by (intro conjI exI [of _ "\<lambda>_. True"] exI [of _ f]) auto

lemma worn_steps:
  "worn s (purge stamp s)" "worn s (delete_event event s)" "worn s (forget_device i token s)" "worn s (forget_dead_devices stamp s)"
  "worn s (retry_event event n s)" "worn s (defer_due event n stamp s)"
proof -
  show "worn s (purge stamp s)"
    by (rule worn_filter [where d = "\<lambda>_. True" and k = "\<lambda>r. \<not> (out_created r \<le> stamp - 86400 \<or> 12 \<le> out_attempts r \<or> \<not> owned s r stamp)"])
      (simp_all add: purge_def)
  show "worn s (delete_event event s)"
    by (rule worn_filter [where d = "\<lambda>_. True" and k = "\<lambda>r. out_event r \<noteq> event"]) (simp_all add: delete_event_def)
  show "worn s (forget_device i token s)"
    by (rule worn_filter [where d = "\<lambda>d. \<not> (dev_installation d = i \<and> dev_token d = token)" and k = "\<lambda>_. True"])
      (simp_all add: forget_device_def)
  show "worn s (forget_dead_devices stamp s)"
    by (rule worn_filter [where d = "\<lambda>d. list_ex (\<lambda>r. pse_id_hash r = dev_session d \<and> stamp < pse_expires r) (pocket_sessions s)"
        and k = "\<lambda>_. True"]) (simp_all add: forget_dead_devices_def)
  show "worn s (retry_event event n s)"
    by (rule worn_map [where f = "\<lambda>r. if out_event r = event
        then r\<lparr>out_attempts := out_attempts r + 1, out_next_attempt := n\<rparr> else r"])
      (simp_all add: retry_event_def same_notice_def)
  show "worn s (defer_due event n stamp s)"
    by (rule worn_map [where f = "\<lambda>r. if out_next_attempt r \<le> stamp
        then r\<lparr>out_attempts := out_attempts r + (if out_event r = event then 1 else 0), out_next_attempt := n\<rparr> else r"])
      (simp_all add: defer_due_def same_notice_def)
qed

lemma worn_settle: "worn s (settle_delivery a row device d s)"
proof (cases d)
  case InvalidDevice
  have "worn s (delete_event (out_event row) (forget_device (out_installation row) device s))"
    by (rule worn_trans) (rule worn_steps)+
  with InvalidDevice show ?thesis by (simp add: settle_delivery_def)
qed (simp_all add: settle_delivery_def worn_steps)

lemma deliver_row_worn: "deliver_row rfc allowed a row (s, c) = ((s', c'), ms, stop) \<Longrightarrow> worn s s'"
  using worn_steps worn_settle
  by (auto simp: deliver_row_def Let_def split: if_splits prod.splits sum.splits option.splits)

lemma deliver_rows_worn: "deliver_rows rfc allowed world rows (s, c) = ((s', c'), ms) \<Longrightarrow> worn s s'"
proof (induction rows arbitrary: s c s' c' ms)
  case Nil
  then show ?case by (simp add: worn_refl)
next
  case (Cons row rows)
  obtain s1 c1 m1 stop where 1: "deliver_row rfc allowed (world (out_event row)) row (s, c) = ((s1, c1), m1, stop)"
    by (metis prod.exhaust)
  show ?case
  proof (cases stop)
    case True
    with Cons.prems 1 deliver_row_worn [OF 1] show ?thesis by simp
  next
    case False
    with Cons.prems 1 obtain m2 where "deliver_rows rfc allowed world rows (s1, c1) = ((s', c'), m2)"
      by (auto split: prod.splits)
    from Cons.IH [OF this] deliver_row_worn [OF 1] show ?thesis by (blast intro: worn_trans)
  qed
qed

section \<open>How often a notice is sent\<close>

definition sends :: "push_message list \<Rightarrow> string \<Rightarrow> int" where
  "sends msgs event = int (length (filter (\<lambda>m. msg_event m = event) msgs))"

lemma sends_append: "sends (a @ b) e = sends a e + sends b e"
  by (simp add: sends_def)

lemma sends_simps [simp]: "sends [] e = 0" "sends (m # ms) e = (if msg_event m = e then 1 else 0) + sends ms e"
  by (simp_all add: sends_def)

text \<open>No notice has been sent more often than its row has been attempted, nor more than twelve times.\<close>

definition sent_sound :: "auth_db \<Rightarrow> push_message list \<Rightarrow> bool" where
  "sent_sound s msgs \<longleftrightarrow> (\<forall>r\<in>set (push_outbox s). sends msgs (out_event r) \<le> out_attempts r) \<and> (\<forall>e. sends msgs e \<le> 12)"

lemma worn_row:
  assumes "worn s s'" "r' \<in> set (push_outbox s')"
  obtains r where "r \<in> set (push_outbox s)" "same_notice r r'" "out_attempts r \<le> out_attempts r'"
  using assms unfolding worn_def by auto

lemma sent_sound_worn:
  assumes "worn s s'" "sent_sound s msgs"
  shows "sent_sound s' msgs"
  unfolding sent_sound_def
proof (intro conjI ballI)
  fix r' assume "r' \<in> set (push_outbox s')"
  with assms(1) obtain r where "r \<in> set (push_outbox s)" "same_notice r r'" "out_attempts r \<le> out_attempts r'" by (rule worn_row)
  with assms(2) show "sends msgs (out_event r') \<le> out_attempts r'" by (force simp: sent_sound_def same_notice_fields(1))
qed (use assms(2) in \<open>simp add: sent_sound_def\<close>)

lemma fcm_send_messages:
  assumes "fcm_send rfc a token device row c = (d, c', ms)"
  shows "length ms \<le> 1" "m \<in> set ms \<Longrightarrow> msg_event m = out_event row"
  using assms by (auto simp: fcm_send_def Let_def split: option.splits prod.splits)

lemma first_row_Some: "first_row xs = Some x \<Longrightarrow> x \<in> set xs"
  by (cases xs) (simp_all add: first_row_def)

lemma current_device_Some:
  assumes "current_device s event stamp = Some token"
  obtains r d where "r \<in> set (push_outbox s)" "out_event r = event" "stamp - 86400 < out_created r" "out_attempts r < 12"
    "d \<in> set (push_devices s)" "dev_token d = token" "dev_installation d = out_installation r" "dev_subject d = out_subject r"
    "dev_session d = out_session r" "live_session s (dev_subject d) (dev_session d) stamp"
proof -
  from assms have "token \<in> set (concat (map (\<lambda>r. map dev_token (filter (\<lambda>d. dev_installation d = out_installation r \<and> dev_subject d = out_subject r
         \<and> dev_session d = out_session r \<and> live_session s (dev_subject d) (dev_session d) stamp) (push_devices s)))
       (filter (\<lambda>r. out_event r = event \<and> stamp - 86400 < out_created r \<and> out_attempts r < 12) (push_outbox s))))"
    unfolding current_device_def by (rule first_row_Some)
  then show ?thesis using that by auto
qed

lemma settle_sound:
  assumes "sent_sound s msgs" "fcm_send rfc a token device row c = (d, c', ms)"
    and "r \<in> set (push_outbox s)" "out_event r = out_event row" "out_attempts r < 12"
    and "distinct (map out_event (push_outbox s))"
  shows "sent_sound (settle_delivery a row device d s) (msgs @ ms)"
proof -
  have once: "sends ms e \<le> (if e = out_event row then 1 else 0)" for e
    using fcm_send_messages [OF assms(2)] by (cases ms) auto
  have only: "x = r" if "x \<in> set (push_outbox s)" "out_event x = out_event row" for x
    by (rule inj_onD [of out_event "set (push_outbox s)"]) (use assms(3,4,6) that in \<open>simp_all add: distinct_map\<close>)
  have bound: "sends (msgs @ ms) e \<le> 12" for e
  proof (cases "e = out_event row")
    case True
    from assms(1,3) have "sends msgs (out_event r) \<le> out_attempts r" by (simp add: sent_sound_def)
    with True assms(4,5) once [of e] show ?thesis by (simp add: sends_append)
  next
    case False
    from assms(1) have "sends msgs e \<le> 12" by (simp add: sent_sound_def)
    with False once [of e] show ?thesis by (simp add: sends_append)
  qed
  have others: "sends (msgs @ ms) (out_event x) \<le> out_attempts x" if "x \<in> set (push_outbox s)" "out_event x \<noteq> out_event row" for x
    using once [of "out_event x"] assms(1) that by (auto simp: sends_append sent_sound_def)
  have own: "sends (msgs @ ms) (out_event x) \<le> out_attempts x + 1" if "x \<in> set (push_outbox s)" "out_event x = out_event row" for x
    using once [of "out_event x"] assms(1) that by (auto simp: sends_append sent_sound_def)
  show ?thesis
    unfolding sent_sound_def
    using bound others own
    by (auto simp: settle_delivery_def delete_event_def forget_device_def retry_event_def split: delivery.splits)
qed

lemma deliver_row_sound:
  assumes "deliver_row rfc allowed a row (s, c) = ((s', c'), ms, stop)" "sent_sound s msgs" "distinct (map out_event (push_outbox s))"
  shows "sent_sound s' (msgs @ ms)"
proof (cases "ms = []")
  case True
  with sent_sound_worn [OF deliver_row_worn [OF assms(1)] assms(2)] show ?thesis by simp
next
  case False
  with assms(1) obtain token device c1 d where
    device: "current_device s (out_event row) (pa_now_owner a) = Some device" and
    sent: "fcm_send rfc a token device row c1 = (d, c', ms)" and s': "s' = settle_delivery a row device d s"
    by (auto simp: deliver_row_def Let_def split: if_splits prod.splits sum.splits option.splits)
  from device obtain r where "r \<in> set (push_outbox s)" "out_event r = out_event row" "out_attempts r < 12"
    by (rule current_device_Some)
  from settle_sound [OF assms(2) sent this assms(3)] show ?thesis by (simp add: s')
qed

lemma worn_distinct:
  assumes "worn s s'" "distinct (map out_event (push_outbox s))"
  shows "distinct (map out_event (push_outbox s'))"
proof -
  from assms(1) obtain k f where f: "push_outbox s' = map f (filter k (push_outbox s))" "\<forall>r. same_notice r (f r) \<and> out_attempts r \<le> out_attempts (f r)"
    unfolding worn_def by blast
  then have "map out_event (push_outbox s') = map out_event (filter k (push_outbox s))" by (simp add: same_notice_fields(1))
  with assms(2) show ?thesis by (simp add: distinct_map_filter)
qed

lemma deliver_rows_sound:
  assumes "deliver_rows rfc allowed world rows (s, c) = ((s', c'), ms)" "sent_sound s msgs" "distinct (map out_event (push_outbox s))"
  shows "sent_sound s' (msgs @ ms)"
  using assms
proof (induction rows arbitrary: s c ms msgs)
  case (Cons row rows)
  obtain s1 c1 m1 stop where 1: "deliver_row rfc allowed (world (out_event row)) row (s, c) = ((s1, c1), m1, stop)"
    by (metis prod.exhaust)
  note sound = deliver_row_sound [OF 1 Cons.prems(2,3)] and distinct = worn_distinct [OF deliver_row_worn [OF 1] Cons.prems(3)]
  show ?case
  proof (cases stop)
    case True
    with Cons.prems(1) 1 sound show ?thesis by simp
  next
    case False
    with Cons.prems(1) 1 obtain m2 where "deliver_rows rfc allowed world rows (s1, c1) = ((s', c'), m2)" "ms = m1 @ m2"
      by (auto split: prod.splits)
    with Cons.IH [OF this(1) sound distinct] show ?thesis by simp
  qed
qed simp

section \<open>The worker and the requests\<close>

text \<open>A part of the sign-in leaves the outbox as it is, and keeps the owners of installations and tokens unique.\<close>

definition owners_unique :: "auth_db \<Rightarrow> bool" where
  "owners_unique s \<longleftrightarrow> distinct (map dev_installation (push_devices s)) \<and> distinct (map dev_token (push_devices s))"

definition tidy :: "auth_db \<Rightarrow> auth_db \<Rightarrow> bool" where
  "tidy s t \<longleftrightarrow> push_outbox t = push_outbox s \<and> (owners_unique s \<longrightarrow> owners_unique t)"

locale steady_relation = quiet_relation +
  assumes creates: "obeys R (create_pocket_session_in E now fresh subject username)"
      "obeys R (create_mobile_handoff_in E now fresh i)"
    and registers: "obeys R (register installation t subject k now)"
    and links: "obeys R (insert_google_session E a email t x now fresh)"
begin

lemma issue: "obeys R (issue_pocket_login E h st i now1 now2 fresh)"
  unfolding issue_pocket_login_def by (auto intro!: rules changes creates consume revoke_previous split: option.split)

lemma login: "obeys R (begin_pocket_id_login E st v now1 now2)"
  unfolding begin_pocket_id_login_def by (rule authorization)

lemma step: "auth_step E w w' \<Longrightarrow> R (w_db w) (w_db w')"
proof (induction rule: auth_step.induct)
  case (begin_login st v now1 now2 w r s)
  from obeysD [OF login this] show ?case by simp
qed (auto dest: obeysD [OF begin_mobile] obeysD [OF finish] obeysD [OF issue] obeysD [OF redeem] obeysD [OF creates(1)]
    obeysD [OF current] obeysD [OF logout_mobile] obeysD [OF logout] obeysD [OF registers] obeysD [OF remove]
    obeysD [OF google_authorization] obeysD [OF oauth_state] obeysD [OF links] obeysD [OF access] intro: account)

end

lemma owners_filter:
  "owners_unique s \<Longrightarrow> push_devices t = filter P (push_devices s) \<Longrightarrow> owners_unique t"
  by (simp add: owners_unique_def distinct_map_filter)

lemma tidy_same: "push_outbox t = push_outbox s \<Longrightarrow> push_devices t = push_devices s \<Longrightarrow> tidy s t"
  by (simp add: tidy_def owners_unique_def)

lemma owners_replaced:
  assumes "distinct (map dev_installation ds)" "distinct (map dev_token ds)"
    and only: "\<And>d. d \<in> set ds \<Longrightarrow> dev_token d = dev_token row \<Longrightarrow> dev_installation d = dev_installation row"
    and f: "f = (\<lambda>d. if dev_installation d = dev_installation row then row else d)"
  shows "distinct (map (dev_token \<circ> f) ds)" "distinct (map (dev_installation \<circ> f) ds)"
proof -
  have i: "x = y" if "x \<in> set ds" "y \<in> set ds" "dev_installation x = dev_installation y" for x y
    by (rule inj_onD [of dev_installation "set ds"]) (use assms(1) that in \<open>simp_all add: distinct_map\<close>)
  have t: "x = y" if "x \<in> set ds" "y \<in> set ds" "dev_token x = dev_token y" for x y
    by (rule inj_onD [of dev_token "set ds"]) (use assms(2) that in \<open>simp_all add: distinct_map\<close>)
  have "inj_on (dev_token \<circ> f) (set ds)"
  proof (rule inj_onI)
    fix x y assume xy: "x \<in> set ds" "y \<in> set ds" "(dev_token \<circ> f) x = (dev_token \<circ> f) y"
    show "x = y"
      by (cases "dev_installation x = dev_installation row"; cases "dev_installation y = dev_installation row")
        (use xy only [of x] only [of y] i [of x y] t [of x y] in \<open>simp_all add: f\<close>)
  qed
  with assms(1) show "distinct (map (dev_token \<circ> f) ds)" by (simp add: distinct_map)
  have "map (dev_installation \<circ> f) ds = map dev_installation ds" by (simp add: f)
  then show "distinct (map (dev_installation \<circ> f) ds)" using assms(1) by metis
qed

lemma tidy_register: "obeys tidy (register installation t subject k now)"
  unfolding obeys_def
proof
  fix s :: auth_db
  let ?ds = "filter (\<lambda>d. \<not> (dev_token d = t \<and> dev_installation d \<noteq> installation)) (push_devices s)"
  let ?row = "\<lparr>dev_installation = installation, dev_subject = subject, dev_session = k, dev_token = t, dev_updated = now\<rparr>"
  have "owners_unique (snd (register installation t subject k now s))" if "owners_unique s"
  proof -
    from that have d: "distinct (map dev_installation ?ds)" "distinct (map dev_token ?ds)"
      by (simp_all add: owners_unique_def distinct_map_filter)
    have only: "dev_installation d = dev_installation ?row" if "d \<in> set ?ds" "dev_token d = dev_token ?row" for d
      using that by simp
    show ?thesis
    proof (cases "list_ex (\<lambda>d. dev_installation d = installation) ?ds")
      case True
      with owners_replaced [OF d only refl] d(1) show ?thesis
        by (simp add: owners_unique_def register_def Let_def action_defs comp_def)
    next
      case False
      with d show ?thesis by (auto simp: owners_unique_def register_def Let_def action_defs list_ex_iff)
    qed
  qed
  moreover have "push_outbox (snd (register installation t subject k now s)) = push_outbox s"
    by (simp add: register_def Let_def action_defs)
  ultimately show "tidy s (snd (register installation t subject k now s))" by (simp add: tidy_def)
qed

interpretation tidy: steady_relation tidy
proof unfold_locales
  show "obeys tidy (register installation t subject k now)" for installation t subject k now by (rule tidy_register)
  show "tidy s (s\<lparr>push_devices := filter D (push_devices s)\<rparr>)" for s D
    using owners_filter [of s "s\<lparr>push_devices := filter D (push_devices s)\<rparr>" D] by (simp add: tidy_def)
  show "obeys tidy (create_pocket_session_in E now fresh subject username)" for E now fresh subject username
    unfolding obeys_def by (auto intro!: tidy_same simp: create_pocket_session_in_def insert_pocket_session_def action_defs)
  show "obeys tidy (create_mobile_handoff_in E now fresh i)" for E now fresh i
    unfolding obeys_def
    by (auto intro!: tidy_same simp: create_mobile_handoff_in_def insert_handoff_def action_defs split: option.split)
  show "obeys tidy (insert_google_session E a email t x now fresh)" for E a email t x now fresh
    unfolding obeys_def
    by (cases "encrypt_secret E t") (auto intro!: tidy_same simp: insert_google_session_def action_defs)
  show "tidy a c" if "tidy a b" "tidy b c" for a b c using that by (simp add: tidy_def)
qed (simp_all add: tidy_same)

section \<open>The rows of the outbox\<close>

definition rows_well :: "auth_db \<Rightarrow> bool" where
  "rows_well s \<longleftrightarrow> distinct (map out_event (push_outbox s))
     \<and> distinct (map (\<lambda>r. (out_operation r, out_installation r)) (push_outbox s))
     \<and> (\<forall>r\<in>set (push_outbox s). char_count (out_title r) \<le> 100 \<and> char_count (out_body r) \<le> 250 \<and> 0 \<le> out_attempts r)"

lemma rows_well_worn:
  assumes "worn s s'" "rows_well s"
  shows "rows_well s'"
proof -
  from assms(1) obtain k f where f: "push_outbox s' = map f (filter k (push_outbox s))" "\<forall>r. same_notice r (f r) \<and> out_attempts r \<le> out_attempts (f r)"
    unfolding worn_def by blast
  then have "map (\<lambda>r. (out_operation r, out_installation r)) (push_outbox s') = map (\<lambda>r. (out_operation r, out_installation r)) (filter k (push_outbox s))"
    by (simp add: same_notice_fields)
  moreover have "char_count (out_title r') \<le> 100 \<and> char_count (out_body r') \<le> 250 \<and> 0 \<le> out_attempts r'" if "r' \<in> set (push_outbox s')" for r'
  proof -
    from assms(1) that obtain r where "r \<in> set (push_outbox s)" "same_notice r r'" "out_attempts r \<le> out_attempts r'" by (rule worn_row)
    with assms(2) show ?thesis by (fastforce simp: rows_well_def same_notice_fields)
  qed
  ultimately show ?thesis
    using worn_distinct [OF assms(1)] assms(2) by (simp add: rows_well_def distinct_map_filter)
qed

lemma take_chars_count: "char_count (take_chars n s) \<le> n"
  by (induction n s rule: take_chars.induct) (auto simp: char_count_def continuation_byte_def split: if_splits)

text \<open>Queueing a notice appends rows for devices of the recipients.\<close>

lemma insert_outbox_rows:
  assumes "insert_outbox r s = Inr s'"
  obtains "s' = s" | "s' = s\<lparr>push_outbox := push_outbox s @ [r]\<rparr>" "out_event r \<notin> out_event ` set (push_outbox s)"
    "(out_operation r, out_installation r) \<notin> (\<lambda>x. (out_operation x, out_installation x)) ` set (push_outbox s)"
proof (cases "s' = s")
  case False
  with assms show ?thesis by (intro that(2)) (force simp: insert_outbox_def list_ex_iff split: if_splits)+
qed (rule that(1))

lemma enqueue_invariant:
  assumes "enqueue new_event operation i actor allowed title body stamp s = Inr s'" "P s"
    and "\<And>t d. P t \<Longrightarrow> d \<in> set (recipients s actor stamp) \<Longrightarrow> dev_subject d \<in> set allowed \<Longrightarrow>
      new_event (dev_installation d) \<notin> out_event ` set (push_outbox t) \<Longrightarrow>
      (operation, dev_installation d) \<notin> (\<lambda>x. (out_operation x, out_installation x)) ` set (push_outbox t) \<Longrightarrow>
      P (t\<lparr>push_outbox := push_outbox t @ [outbox_row_of new_event operation i title body stamp d]\<rparr>)"
  shows "P s'"
proof (rule fold_result_invariant [OF assms(1) [unfolded enqueue_def]])
  fix t d t'
  assume "P t" "d \<in> set (recipients s actor stamp)"
    and "(if dev_subject d \<notin> set allowed then Inr t else insert_outbox (outbox_row_of new_event operation i title body stamp d) t) = Inr t'"
  then show "P t'"
    using assms(3) [of t d] by (auto split: if_splits simp: outbox_row_of_def elim: insert_outbox_rows)
qed (fact assms(2))

lemma enqueue_well:
  assumes "enqueue new_event operation i actor allowed title body stamp s = Inr s'" "rows_well s"
  shows "rows_well s'"
  by (rule enqueue_invariant [OF assms(1), where P = rows_well])
    (use assms(2) in \<open>auto simp: rows_well_def outbox_row_of_def take_chars_count\<close>)

lemma enqueue_only_outbox:
  assumes "enqueue new_event operation i actor allowed title body stamp s = Inr s'"
  shows "\<exists>rows. s' = s\<lparr>push_outbox := push_outbox s @ rows\<rparr> \<and> (\<forall>r\<in>set rows. out_attempts r = 0
    \<and> (\<exists>d\<in>set (recipients s actor stamp). r = outbox_row_of new_event operation i title body stamp d))"
proof (rule enqueue_invariant [OF assms, where P = "\<lambda>s'. \<exists>rows. s' = s\<lparr>push_outbox := push_outbox s @ rows\<rparr> \<and> (\<forall>r\<in>set rows. out_attempts r = 0
    \<and> (\<exists>d\<in>set (recipients s actor stamp). r = outbox_row_of new_event operation i title body stamp d))"])
  show "\<exists>rows. s = s\<lparr>push_outbox := push_outbox s @ rows\<rparr> \<and> (\<forall>r\<in>set rows. out_attempts r = 0
    \<and> (\<exists>d\<in>set (recipients s actor stamp). r = outbox_row_of new_event operation i title body stamp d))"
    by (rule exI [of _ "[]"]) simp
next
  fix t d
  assume "\<exists>rows. t = s\<lparr>push_outbox := push_outbox s @ rows\<rparr> \<and> (\<forall>r\<in>set rows. out_attempts r = 0
      \<and> (\<exists>d\<in>set (recipients s actor stamp). r = outbox_row_of new_event operation i title body stamp d))"
    and d: "d \<in> set (recipients s actor stamp)"
  then obtain rows where "t = s\<lparr>push_outbox := push_outbox s @ rows\<rparr>" "\<forall>r\<in>set rows. out_attempts r = 0
      \<and> (\<exists>d\<in>set (recipients s actor stamp). r = outbox_row_of new_event operation i title body stamp d)" by blast
  with d show "\<exists>rows. t\<lparr>push_outbox := push_outbox t @ [outbox_row_of new_event operation i title body stamp d]\<rparr>
      = s\<lparr>push_outbox := push_outbox s @ rows\<rparr> \<and> (\<forall>r\<in>set rows. out_attempts r = 0
      \<and> (\<exists>d\<in>set (recipients s actor stamp). r = outbox_row_of new_event operation i title body stamp d))"
    by (intro exI [of _ "rows @ [outbox_row_of new_event operation i title body stamp d]"]) (auto simp: outbox_row_of_def)
qed

text \<open>An attempt at a row charges that row alone, and no more than once.\<close>

definition charged :: "string \<Rightarrow> auth_db \<Rightarrow> auth_db \<Rightarrow> bool" where
  "charged event s s' \<longleftrightarrow> (\<forall>r'\<in>set (push_outbox s'). \<exists>r\<in>set (push_outbox s). same_notice r r'
     \<and> out_attempts r' \<le> out_attempts r + (if out_event r = event then 1 else 0))"

lemma charged_steps:
  "charged event s (delete_event event' s)" "charged event s (delete_event event' (forget_device i token s))"
  "charged event s (retry_event event n s)" "charged event s (defer_due event n stamp s)"
  by (force simp: charged_def delete_event_def forget_device_def retry_event_def defer_due_def same_notice_def)+

lemma charged_settle: "charged (out_event row) s (settle_delivery a row device d s)"
  by (cases d) (simp_all add: settle_delivery_def charged_steps)

lemma deliver_row_charged: "deliver_row rfc allowed a row (s, c) = ((s', c'), ms, stop) \<Longrightarrow> charged (out_event row) s s'"
  using charged_steps charged_settle
  by (auto simp: deliver_row_def Let_def split: if_splits prod.splits sum.splits option.splits)

text \<open>Twelve attempts at most; the rows that are still to be delivered have had fewer.\<close>

definition capped :: "push_outbox_row list \<Rightarrow> auth_db \<Rightarrow> bool" where
  "capped rows s \<longleftrightarrow> distinct (map out_event rows) \<and> (\<forall>r\<in>set (push_outbox s). out_attempts r \<le> 12
     \<and> (out_event r \<in> out_event ` set rows \<longrightarrow> out_attempts r < 12))"

lemma capped_charged:
  assumes "capped (row # rows) s" "charged (out_event row) s s'"
  shows "capped rows s'" "capped [] s'"
proof -
  have "out_attempts r' \<le> 12 \<and> (out_event r' \<in> out_event ` set rows \<longrightarrow> out_attempts r' < 12)" if "r' \<in> set (push_outbox s')" for r'
  proof -
    from assms(2) that obtain r where r: "r \<in> set (push_outbox s)" "same_notice r r'"
      "out_attempts r' \<le> out_attempts r + (if out_event r = out_event row then 1 else 0)" unfolding charged_def by blast
    from assms(1) r(1) have "out_attempts r \<le> 12" "out_event r \<in> out_event ` set (row # rows) \<longrightarrow> out_attempts r < 12"
      unfolding capped_def by blast+
    moreover from assms(1) have "out_event row \<notin> out_event ` set rows" by (simp add: capped_def)
    ultimately show ?thesis using r(3) same_notice_fields(1) [OF r(2)] by (auto split: if_splits)
  qed
  then show "capped rows s'" "capped [] s'" using assms(1) by (auto simp: capped_def)
qed

lemma capped_purge: "rows_well s \<Longrightarrow> capped (due_rows stamp (purge now s)) (purge now s)"
  by (auto simp: capped_def due_rows_def purge_def rows_well_def distinct_map_filter distinct_map
      intro!: inj_on_subset [of out_event "set (push_outbox s)"] dest!: in_set_takeD)

section \<open>The machine\<close>

text \<open>
  The worker empties its batch row by row, and between two rows the requests go on: the sign-in, and
  transactions that queue notices. \<open>pw_sent\<close> is a ghost, the messages that have left the server.
\<close>

record push_world =
  pw_auth :: auth_world
  pw_access :: access
  pw_start :: int
  pw_batch :: "push_outbox_row list option"
  pw_sent :: "push_message list"

definition initial_push :: push_world where
  "initial_push = \<lparr>pw_auth = initial_world, pw_access = None, pw_start = 0, pw_batch = None, pw_sent = []\<rparr>"

definition pw_db :: "push_world \<Rightarrow> auth_db" where
  "pw_db p = w_db (pw_auth p)"

definition with_db :: "auth_db \<Rightarrow> push_world \<Rightarrow> push_world" where
  "with_db s p = p\<lparr>pw_auth := (pw_auth p)\<lparr>w_db := s\<rparr>\<rparr>"

lemma with_db_simps [simp]:
  "pw_db (with_db s p) = s" "pw_access (with_db s p) = pw_access p" "pw_start (with_db s p) = pw_start p"
  "pw_batch (with_db s p) = pw_batch p" "pw_sent (with_db s p) = pw_sent p" "with_db s (with_db t p) = with_db s p"
  "pw_db (p\<lparr>pw_access := c\<rparr>) = pw_db p" "pw_db (p\<lparr>pw_start := n\<rparr>) = pw_db p"
  "pw_db (p\<lparr>pw_batch := b\<rparr>) = pw_db p" "pw_db (p\<lparr>pw_sent := l\<rparr>) = pw_db p" "pw_db (p\<lparr>pw_auth := w\<rparr>) = w_db w"
  by (simp_all add: pw_db_def with_db_def)

text \<open>A random identifier of an event has not been used for a message before.\<close>

inductive push_step :: "(string \<Rightarrow> int option) \<Rightarrow> auth_env \<Rightarrow> push_world \<Rightarrow> push_world \<Rightarrow> bool" for rfc E where
  signed: "auth_step E (pw_auth p) w \<Longrightarrow> push_step rfc E p (p\<lparr>pw_auth := w\<rparr>)"
| queued: "enqueue new_event operation i actor (allowed_subjects E) title body stamp (pw_db p) = Inr s \<Longrightarrow>
    (\<forall>d\<in>set (push_devices (pw_db p)). new_event (dev_installation d) \<notin> msg_event ` set (pw_sent p)) \<Longrightarrow>
    push_step rfc E p (with_db s p)"
| started: "pw_batch p = None \<Longrightarrow> s = purge stamp (pw_db p) \<Longrightarrow>
    push_step rfc E p (with_db s p\<lparr>pw_start := stamp, pw_batch := Some (due_rows stamp s)\<rparr>)"
| delivered: "pw_batch p = Some (row # rows) \<Longrightarrow>
    deliver_row rfc (allowed_subjects E) a row (pw_db p, pw_access p) = ((s, c), ms, stop) \<Longrightarrow>
    push_step rfc E p (with_db s p\<lparr>pw_access := c, pw_batch := Some (if stop then [] else rows), pw_sent := pw_sent p @ ms\<rparr>)"
| finished: "pw_batch p = Some [] \<Longrightarrow>
    push_step rfc E p (with_db (forget_dead_devices (pw_start p) (pw_db p)) p\<lparr>pw_batch := None\<rparr>)"

inductive push_steps :: "(string \<Rightarrow> int option) \<Rightarrow> auth_env \<Rightarrow> push_world \<Rightarrow> push_world \<Rightarrow> bool" for rfc E where
  none: "push_steps rfc E p p"
| more: "push_steps rfc E p p' \<Longrightarrow> push_step rfc E p' p'' \<Longrightarrow> push_steps rfc E p p''"

lemma push_steps_trans: "push_steps rfc E q r \<Longrightarrow> push_steps rfc E p q \<Longrightarrow> push_steps rfc E p r"
  by (induction rule: push_steps.induct) (auto intro: push_steps.more)

text \<open>A step that keeps the rows of the outbox, but for their attempts, or drops them.\<close>

lemma push_step_cases:
  assumes "push_step rfc E p p'"
  obtains (quiet) "worn (pw_db p) (pw_db p')" "pw_sent p' = pw_sent p" "pw_batch p' = pw_batch p \<or> pw_batch p' = None"
      "push_outbox (pw_db p') = push_outbox (pw_db p)"
  | (signed) w where "auth_step E (pw_auth p) w" "p' = p\<lparr>pw_auth := w\<rparr>"
  | (queued) new_event operation i actor title body stamp s where
      "enqueue new_event operation i actor (allowed_subjects E) title body stamp (pw_db p) = Inr s" "p' = with_db s p"
      "\<forall>d\<in>set (push_devices (pw_db p)). new_event (dev_installation d) \<notin> msg_event ` set (pw_sent p)"
  | (started) stamp where "pw_batch p = None"
      "p' = with_db (purge stamp (pw_db p)) p\<lparr>pw_start := stamp, pw_batch := Some (due_rows stamp (purge stamp (pw_db p)))\<rparr>"
  | (delivered) row rows a s c ms stop where "pw_batch p = Some (row # rows)"
      "deliver_row rfc (allowed_subjects E) a row (pw_db p, pw_access p) = ((s, c), ms, stop)"
      "p' = with_db s p\<lparr>pw_access := c, pw_batch := Some (if stop then [] else rows), pw_sent := pw_sent p @ ms\<rparr>"
  using assms
proof cases
  case finished
  then have "worn (pw_db p) (pw_db p')" "push_outbox (pw_db p') = push_outbox (pw_db p)"
    using worn_steps(4) by (simp_all add: forget_dead_devices_def)
  with finished that(1) show ?thesis by simp
qed (use that in blast)+

text \<open>The invariant.\<close>

definition push_sound :: "push_world \<Rightarrow> bool" where
  "push_sound p \<longleftrightarrow> owners_unique (pw_db p) \<and> rows_well (pw_db p) \<and> sent_sound (pw_db p) (pw_sent p)
     \<and> capped (unwrap_or (pw_batch p) []) (pw_db p)"

lemma push_sound_initial: "push_sound initial_push"
  by (simp add: push_sound_def initial_push_def pw_db_def initial_world_def empty_auth_def owners_unique_def rows_well_def
      sent_sound_def capped_def unwrap_or_def)

lemma same_outbox_sound:
  assumes "push_outbox t = push_outbox s"
  shows "rows_well t = rows_well s" "sent_sound t msgs = sent_sound s msgs" "capped rows t = capped rows s"
  by (simp_all add: rows_well_def sent_sound_def capped_def assms)

lemma worn_owners: "worn s t \<Longrightarrow> owners_unique s \<Longrightarrow> owners_unique t"
  unfolding worn_def using owners_filter by blast

lemma enqueue_sound:
  assumes "enqueue new_event operation i actor allowed title body stamp s = Inr s'" "sent_sound s msgs" "capped rows s"
    and "\<forall>d\<in>set (push_devices s). new_event (dev_installation d) \<notin> msg_event ` set msgs"
  shows "sent_sound s' msgs" "capped rows s'" "push_devices s' = push_devices s"
proof -
  from enqueue_only_outbox [OF assms(1)] obtain new where s': "s' = s\<lparr>push_outbox := push_outbox s @ new\<rparr>"
    and new: "\<forall>r\<in>set new. out_attempts r = 0 \<and> (\<exists>d\<in>set (recipients s actor stamp). r = outbox_row_of new_event operation i title body stamp d)"
    by blast
  have "sends msgs (out_event r) = 0" if "r \<in> set new" for r
  proof -
    from new that obtain d where "d \<in> set (push_devices s)" "out_event r = new_event (dev_installation d)"
      by (auto simp: recipients_def outbox_row_of_def)
    with assms(4) have "out_event r \<notin> msg_event ` set msgs" by simp
    then show ?thesis by (force simp: sends_def filter_empty_conv image_iff)
  qed
  with new assms(2) show "sent_sound s' msgs" by (auto simp: s' sent_sound_def)
  from new assms(3) show "capped rows s'" by (auto simp: s' capped_def)
  show "push_devices s' = push_devices s" by (simp add: s')
qed

lemma push_sound_step:
  assumes "push_step rfc E p p'" "push_sound p"
  shows "push_sound p'"
  using assms(1)
proof (cases rule: push_step_cases)
  case quiet
  moreover from quiet(3) assms(2) have "capped (unwrap_or (pw_batch p') []) (pw_db p)"
    by (auto simp: push_sound_def unwrap_or_def capped_def split: option.splits)
  ultimately show ?thesis
    using assms(2) worn_owners [OF quiet(1)] by (simp add: push_sound_def same_outbox_sound [OF quiet(4)])
next
  case (signed w)
  from tidy.step [OF signed(1)] have "tidy (pw_db p) (w_db w)" by (simp add: pw_db_def)
  with assms(2) signed(2) show ?thesis by (simp add: push_sound_def tidy_def same_outbox_sound [of "w_db w" "pw_db p"])
next
  case (queued new_event operation i actor title body stamp s)
  from assms(2) have "sent_sound (pw_db p) (pw_sent p)" "capped (unwrap_or (pw_batch p) []) (pw_db p)" by (simp_all add: push_sound_def)
  from enqueue_sound [OF queued(1) this queued(3)] enqueue_well [OF queued(1)] assms(2) queued(2) show ?thesis
    by (simp add: push_sound_def owners_unique_def)
next
  case (started stamp)
  note w = worn_steps(1) [where s = "pw_db p" and stamp = stamp]
  from assms(2) worn_owners [OF w] rows_well_worn [OF w] sent_sound_worn [OF w] capped_purge [where s = "pw_db p"] started(2)
  show ?thesis by (simp add: push_sound_def unwrap_or_def)
next
  case (delivered row rows a s c ms stop)
  note w = deliver_row_worn [OF delivered(2)]
  from assms(2) delivered(1) have "capped (row # rows) (pw_db p)" by (simp add: push_sound_def unwrap_or_def)
  from capped_charged [OF this deliver_row_charged [OF delivered(2)]]
  have "capped (unwrap_or (pw_batch p') []) (pw_db p')" by (simp add: delivered(3) unwrap_or_def)
  moreover from assms(2) have "sent_sound (pw_db p) (pw_sent p)" "distinct (map out_event (push_outbox (pw_db p)))"
    by (simp_all add: push_sound_def rows_well_def)
  from deliver_row_sound [OF delivered(2) this] have "sent_sound (pw_db p') (pw_sent p')" by (simp add: delivered(3))
  ultimately show ?thesis
    using assms(2) worn_owners [OF w] rows_well_worn [OF w] by (simp add: push_sound_def delivered(3))
qed

lemma push_sound_steps: "push_steps rfc E p p' \<Longrightarrow> push_sound p \<Longrightarrow> push_sound p'"
  by (induction rule: push_steps.induct) (auto intro: push_sound_step)

text \<open>A drain is the worker's own steps, from the beginning of a batch to its end.\<close>

lemma deliver_rows_steps:
  assumes "deliver_rows rfc (allowed_subjects E) world rows (pw_db p, pw_access p) = ((s, c), ms)" "pw_batch p = Some rows"
  shows "push_steps rfc E p (with_db s p\<lparr>pw_access := c, pw_batch := Some [], pw_sent := pw_sent p @ ms\<rparr>)"
  using assms
proof (induction rows arbitrary: p ms)
  case Nil
  then have "with_db s p\<lparr>pw_access := c, pw_batch := Some [], pw_sent := pw_sent p @ ms\<rparr> = p"
    by (cases p) (simp add: with_db_def pw_db_def)
  then show ?case using push_steps.none by metis
next
  case (Cons row rows)
  obtain s1 c1 m1 stop where 1: "deliver_row rfc (allowed_subjects E) (world (out_event row)) row (pw_db p, pw_access p) = ((s1, c1), m1, stop)"
    by (metis prod.exhaust)
  let ?p = "with_db s1 p\<lparr>pw_access := c1, pw_batch := Some (if stop then [] else rows), pw_sent := pw_sent p @ m1\<rparr>"
  note first = push_steps.more [OF push_steps.none push_step.delivered [OF Cons.prems(2) 1]]
  show ?case
  proof (cases stop)
    case True
    with first Cons.prems(1) 1 show ?thesis by simp
  next
    case False
    with Cons.prems(1) 1 obtain m2 where 2: "deliver_rows rfc (allowed_subjects E) world rows (s1, c1) = ((s, c), m2)" "ms = m1 @ m2"
      by (auto split: prod.splits)
    with False have rest: "push_steps rfc E ?p (with_db s ?p\<lparr>pw_access := c, pw_batch := Some [], pw_sent := pw_sent ?p @ m2\<rparr>)"
      by (intro Cons.IH) simp_all
    have same: "with_db s ?p\<lparr>pw_access := c, pw_batch := Some [], pw_sent := pw_sent ?p @ m2\<rparr>
        = with_db s p\<lparr>pw_access := c, pw_batch := Some [], pw_sent := pw_sent p @ ms\<rparr>"
      by (simp add: with_db_def 2(2))
    from push_steps_trans [OF rest first] show ?thesis unfolding same .
  qed
qed

lemma drain_steps:
  assumes "drain rfc (allowed_subjects E) stamp world (pw_db p, pw_access p) = ((s, c), ms)" "pw_batch p = None"
  shows "push_steps rfc E p (with_db s p\<lparr>pw_access := c, pw_start := stamp, pw_sent := pw_sent p @ ms\<rparr>)"
proof -
  let ?s = "purge stamp (pw_db p)"
  let ?p = "with_db ?s p\<lparr>pw_start := stamp, pw_batch := Some (due_rows stamp ?s)\<rparr>"
  from assms(1) obtain s2 where 2: "deliver_rows rfc (allowed_subjects E) world (due_rows stamp ?s) (?s, pw_access p) = ((s2, c), ms)"
    "s = forget_dead_devices stamp s2" by (auto simp: drain_def Let_def split: prod.splits)
  let ?q = "with_db s2 ?p\<lparr>pw_access := c, pw_batch := Some [], pw_sent := pw_sent ?p @ ms\<rparr>"
  have "push_steps rfc E ?p ?q" by (rule deliver_rows_steps [where world = world]) (simp_all add: 2(1))
  from push_steps_trans [OF this push_steps.more [OF push_steps.none push_step.started [OF assms(2) refl]]]
  have steps: "push_steps rfc E p ?q" .
  have last: "push_step rfc E ?q (with_db (forget_dead_devices (pw_start ?q) (pw_db ?q)) ?q\<lparr>pw_batch := None\<rparr>)"
    by (rule push_step.finished) simp
  have same: "with_db (forget_dead_devices (pw_start ?q) (pw_db ?q)) ?q\<lparr>pw_batch := None\<rparr>
      = with_db s p\<lparr>pw_access := c, pw_start := stamp, pw_sent := pw_sent p @ ms\<rparr>"
    using assms(2) by (simp add: with_db_def pw_db_def 2(2))
  from push_steps.more [OF steps last] show ?thesis unfolding same .
qed

section \<open>Who receives a message\<close>

lemma deliver_row_recipient:
  assumes "deliver_row rfc allowed a row (s, c) = ((s', c'), ms, stop)" "m \<in> set ms"
  obtains r d ps where "r \<in> set (push_outbox s)" "out_event r = msg_event m" "out_attempts r < 12" "out_subject row \<in> set allowed"
    "msg_event m = out_event row" "d \<in> set (push_devices s)" "dev_token d = msg_token m" "dev_installation d = out_installation r"
    "dev_subject d = out_subject r" "dev_session d = out_session r" "ps \<in> set (pocket_sessions s)" "pse_id_hash ps = dev_session d"
    "pse_subject ps = dev_subject d" "pa_now_owner a < pse_expires ps" "pa_now_owner a - 86400 < out_created r"
    "msg_subject m = out_subject row" "msg_session m = out_session row" "msg_transaction m = out_transaction row"
    "msg_title m = out_title row" "msg_body m = out_body row" "msg_expires m = sat_i64 (out_created row + 86400)"
    "0 < msg_ttl m" "msg_ttl m \<le> 86400"
proof -
  from assms obtain token device c1 d where device: "current_device s (out_event row) (pa_now_owner a) = Some device"
    and sent: "fcm_send rfc a token device row c1 = (d, c', ms)" and allowed: "out_subject row \<in> set allowed"
    by (auto simp: deliver_row_def Let_def split: if_splits prod.splits sum.splits option.splits)
  from sent assms(2) have m: "msg_token m = device" "msg_event m = out_event row" "msg_subject m = out_subject row"
    "msg_session m = out_session row" "msg_transaction m = out_transaction row" "msg_title m = out_title row" "msg_body m = out_body row"
    "msg_expires m = sat_i64 (out_created row + 86400)" "0 < msg_ttl m" "msg_ttl m \<le> 86400"
    by (auto simp: fcm_send_def Let_def remaining_ttl_def split: option.splits prod.splits if_splits)
  from device obtain r d where "r \<in> set (push_outbox s)" "out_event r = out_event row" "pa_now_owner a - 86400 < out_created r"
    "out_attempts r < 12" "d \<in> set (push_devices s)" "dev_token d = device" "dev_installation d = out_installation r"
    "dev_subject d = out_subject r" "dev_session d = out_session r" "live_session s (dev_subject d) (dev_session d) (pa_now_owner a)"
    by (rule current_device_Some)
  with m allowed that show ?thesis by (auto simp: live_session_def list_ex_iff)
qed

text \<open>The rows of the batch are still in the outbox, with the same notice.\<close>

definition batch_current :: "push_world \<Rightarrow> bool" where
  "batch_current p \<longleftrightarrow> (\<forall>b\<in>set (unwrap_or (pw_batch p) []). \<exists>r\<in>set (push_outbox (pw_db p)). same_notice b r)"

lemma deliver_row_outcome:
  assumes "deliver_row rfc allowed a row (s, c) = ((s', c'), ms, stop)"
  shows "s' = delete_event (out_event row) s \<or> (\<exists>device d. s' = settle_delivery a row device d s)
    \<or> (\<exists>n stamp. s' = defer_due (out_event row) n stamp s)"
  using assms by (auto simp: deliver_row_def Let_def split: if_splits prod.splits sum.splits option.splits)

lemma deliver_row_others:
  assumes "deliver_row rfc allowed a row (s, c) = ((s', c'), ms, stop)" "r \<in> set (push_outbox s)" "out_event r \<noteq> out_event row"
  shows "\<exists>r'\<in>set (push_outbox s'). same_notice r r'"
proof -
  have delete: "\<exists>r'\<in>set (push_outbox (delete_event (out_event row) t)). same_notice r r'" if "push_outbox t = push_outbox s" for t
    using assms(2,3) by (intro bexI [of _ r]) (simp_all add: delete_event_def that)
  have "\<exists>r'\<in>set (push_outbox (retry_event (out_event row) n s)). same_notice r r'" for n
    using assms(2,3) by (intro bexI [of _ r]) (force simp: retry_event_def)+
  with delete have settle: "\<exists>r'\<in>set (push_outbox (settle_delivery a row device d s)). same_notice r r'" for device d
    by (cases d) (simp_all add: settle_delivery_def forget_device_def)
  have "\<exists>r'\<in>set (push_outbox (defer_due (out_event row) n stamp s)). same_notice r r'" for n stamp
  proof -
    let ?f = "\<lambda>r. if out_next_attempt r \<le> stamp
      then r\<lparr>out_attempts := out_attempts r + (if out_event r = out_event row then 1 else 0), out_next_attempt := n\<rparr> else r"
    obtain f where f: "push_outbox (defer_due (out_event row) n stamp s) = map f (push_outbox s)" "same_notice r (f r)"
      by (rule that [of ?f]) (simp_all add: defer_due_def same_notice_def)
    from assms(2) have "f r \<in> set (push_outbox (defer_due (out_event row) n stamp s))" by (simp add: f(1))
    with f(2) show ?thesis by blast
  qed
  with settle delete [OF refl] deliver_row_outcome [OF assms(1)] show ?thesis by blast
qed

lemma batch_current_step:
  assumes "push_step rfc E p p'" "push_sound p" "batch_current p"
  shows "batch_current p'"
  using assms(1)
proof (cases rule: push_step_cases)
  case quiet
  from quiet(3) have "set (unwrap_or (pw_batch p') []) \<subseteq> set (unwrap_or (pw_batch p) [])" by (auto simp: unwrap_or_def)
  with assms(3) quiet(4) show ?thesis by (auto simp: batch_current_def)
next
  case (signed w)
  from tidy.step [OF signed(1)] have "push_outbox (w_db w) = push_outbox (pw_db p)" by (simp add: pw_db_def tidy_def)
  with signed(2) assms(3) show ?thesis by (simp add: batch_current_def)
next
  case (queued new_event operation i actor title body stamp s)
  from enqueue_only_outbox [OF queued(1)] obtain rows where "push_outbox s = push_outbox (pw_db p) @ rows" by auto
  with queued(2) assms(3) show ?thesis by (fastforce simp: batch_current_def)
next
  case (started stamp)
  then show ?thesis
    by (fastforce simp: batch_current_def unwrap_or_def due_rows_def dest: in_set_takeD intro: same_notice_refl)
next
  case (delivered row rows a s c ms stop)
  from assms(2) delivered(1) have d: "out_event row \<notin> out_event ` set rows"
    by (simp add: push_sound_def capped_def unwrap_or_def)
  have "\<exists>r'\<in>set (push_outbox s). same_notice b r'" if "b \<in> set rows" for b
  proof -
    from assms(3) delivered(1) that obtain r where r: "r \<in> set (push_outbox (pw_db p))" "same_notice b r"
      by (auto simp: batch_current_def unwrap_or_def)
    moreover from d that same_notice_fields(1) [OF r(2)] have "out_event r \<noteq> out_event row" by force
    ultimately obtain r' where "r' \<in> set (push_outbox s)" "same_notice r r'" using deliver_row_others [OF delivered(2)] by blast
    with r(2) show ?thesis by (blast intro: same_notice_trans)
  qed
  then show ?thesis by (simp add: batch_current_def unwrap_or_def delivered(3))
qed

lemma reachable_push:
  assumes "push_steps rfc E initial_push p"
  shows "push_sound p \<and> batch_current p"
proof -
  have "push_steps rfc E p0 p \<Longrightarrow> push_sound p0 \<Longrightarrow> batch_current p0 \<Longrightarrow> push_sound p \<and> batch_current p" for p0
    by (induction rule: push_steps.induct) (blast intro: push_sound_step batch_current_step)+
  from this [OF assms push_sound_initial] show ?thesis
    by (simp add: batch_current_def initial_push_def unwrap_or_def)
qed

text \<open>A notice that stays in the outbox stays as it was created, and a drain leaves no old one.\<close>

lemma push_step_notice:
  assumes "push_step rfc E p p'" "rows_well (pw_db p)" "r \<in> set (push_outbox (pw_db p))" "r' \<in> set (push_outbox (pw_db p'))"
    and "out_event r' = out_event r"
  shows "same_notice r r'"
proof -
  have unique: "x = r" if "x \<in> set (push_outbox (pw_db p))" "out_event x = out_event r" for x
    by (rule inj_onD [of out_event "set (push_outbox (pw_db p))"]) (use assms(2,3) that in \<open>simp_all add: rows_well_def distinct_map\<close>)
  have worn: ?thesis if "worn (pw_db p) (pw_db p')"
  proof -
    from that assms(4) obtain x where "x \<in> set (push_outbox (pw_db p))" "same_notice x r'" by (rule worn_row)
    with unique [of x] assms(5) same_notice_fields(1) show ?thesis by fastforce
  qed
  from assms(1) show ?thesis
  proof (cases rule: push_step_cases)
    case quiet
    then show ?thesis using worn by blast
  next
    case (signed w)
    from tidy.step [OF signed(1)] have "push_outbox (w_db w) = push_outbox (pw_db p)" by (simp add: pw_db_def tidy_def)
    with signed(2) assms(4,5) unique [of r'] show ?thesis by simp
  next
    case (queued new_event operation i actor title body stamp s)
    from enqueue_only_outbox [OF queued(1)] obtain rows where rows: "push_outbox s = push_outbox (pw_db p) @ rows" by auto
    moreover from enqueue_well [OF queued(1) assms(2)] have "distinct (map out_event (push_outbox s))" by (simp add: rows_well_def)
    ultimately have "out_event ` set rows \<inter> out_event ` set (push_outbox (pw_db p)) = {}" by auto
    with rows queued(2) assms(3,4,5) have "r' \<in> set (push_outbox (pw_db p))" by force
    with unique [of r'] assms(5) show ?thesis by simp
  next
    case started
    then show ?thesis using worn worn_steps(1) by simp
  next
    case delivered
    then show ?thesis using worn deliver_row_worn by simp
  qed
qed

lemma start_drops_old:
  assumes "push_step rfc E p p'" "pw_batch p = None" "pw_batch p' \<noteq> None" "r \<in> set (push_outbox (pw_db p'))"
  shows "pw_start p' - 86400 < out_created r"
  using assms(1)
proof (cases rule: push_step_cases)
  case (signed w) with assms show ?thesis by simp
next
  case (started stamp) with assms show ?thesis by (auto simp: purge_def)
qed (use assms in auto)

section \<open>What is queued\<close>

lemma enqueue_rows:
  assumes "distinct (map dev_installation ds)" "inj_on new_event (dev_installation ` set ds)"
    and "\<And>d r. d \<in> set ds \<Longrightarrow> r \<in> set (push_outbox t) \<Longrightarrow> out_event r \<noteq> new_event (dev_installation d)"
    and "\<And>d r. d \<in> set ds \<Longrightarrow> r \<in> set (push_outbox t) \<Longrightarrow> out_operation r = operation \<Longrightarrow> out_installation r \<noteq> dev_installation d"
  shows "fold_result (\<lambda>s d. if dev_subject d \<notin> set allowed then Inr s
       else insert_outbox (outbox_row_of new_event operation i title body stamp d) s) t ds
    = Inr (t\<lparr>push_outbox := push_outbox t @ map (outbox_row_of new_event operation i title body stamp)
         (filter (\<lambda>d. dev_subject d \<in> set allowed) ds)\<rparr>)"
  using assms
proof (induction ds arbitrary: t)
  case (Cons d ds)
  let ?row = "outbox_row_of new_event operation i title body stamp d"
  let ?t = "if dev_subject d \<in> set allowed then t\<lparr>push_outbox := push_outbox t @ [?row]\<rparr> else t"
  have "insert_outbox ?row t = Inr (t\<lparr>push_outbox := push_outbox t @ [?row]\<rparr>)"
    using Cons.prems(3,4) [of d] by (auto simp: insert_outbox_def list_ex_iff outbox_row_of_def)
  moreover have "fold_result (\<lambda>s d. if dev_subject d \<notin> set allowed then Inr s
       else insert_outbox (outbox_row_of new_event operation i title body stamp d) s) ?t ds
    = Inr (?t\<lparr>push_outbox := push_outbox ?t @ map (outbox_row_of new_event operation i title body stamp)
         (filter (\<lambda>d. dev_subject d \<in> set allowed) ds)\<rparr>)"
  proof (rule Cons.IH)
    show "distinct (map dev_installation ds)" "inj_on new_event (dev_installation ` set ds)"
      using Cons.prems(1,2) by (auto intro: inj_on_subset)
    fix e r assume e: "e \<in> set ds" "r \<in> set (push_outbox ?t)"
    then have old: "r \<in> set (push_outbox t) \<or> r = ?row" by (auto split: if_splits)
    have other: "dev_installation e \<noteq> dev_installation d" using e(1) Cons.prems(1) by (force simp: image_iff)
    with Cons.prems(2) e(1) have "new_event (dev_installation e) \<noteq> new_event (dev_installation d)" by (auto simp: inj_on_def)
    with old e(1) Cons.prems(3) [of e r] show "out_event r \<noteq> new_event (dev_installation e)" by (auto simp: outbox_row_of_def)
    show "out_installation r \<noteq> dev_installation e" if "out_operation r = operation"
    proof (cases "r = ?row")
      case True
      with other show ?thesis by (simp add: outbox_row_of_def)
    next
      case False
      with that old e(1) Cons.prems(4) [of e r] show ?thesis by auto
    qed
  qed
  ultimately show ?case by (simp split: if_splits)
qed simp

lemma enqueue_exact:
  assumes "distinct (map dev_installation (push_devices s))" "inj_on new_event (dev_installation ` set (push_devices s))"
    and "\<forall>d\<in>set (push_devices s). new_event (dev_installation d) \<notin> out_event ` set (push_outbox s)"
    and "operation \<notin> out_operation ` set (push_outbox s)"
  shows "enqueue new_event operation i actor allowed title body stamp s
    = Inr (s\<lparr>push_outbox := push_outbox s @ map (outbox_row_of new_event operation i title body stamp)
         (filter (\<lambda>d. dev_subject d \<in> set allowed) (recipients s actor stamp))\<rparr>)"
proof -
  have sub: "set (recipients s actor stamp) \<subseteq> set (push_devices s)" by (auto simp: recipients_def)
  show ?thesis
    unfolding enqueue_def
  proof (rule enqueue_rows)
    show "distinct (map dev_installation (recipients s actor stamp))" using assms(1) by (simp add: recipients_def distinct_map_filter)
    show "inj_on new_event (dev_installation ` set (recipients s actor stamp))" by (rule inj_on_subset [OF assms(2) image_mono [OF sub]])
  qed (use assms(3,4) sub in force)+
qed

section \<open>The delays\<close>

lemma retry_base_bounds: "60 \<le> retry_base n" "retry_base n \<le> 15360"
proof -
  have "(2::int) ^ 0 \<le> 2 ^ nat (clamp 0 8 n)" "(2::int) ^ nat (clamp 0 8 n) \<le> 2 ^ 8"
    by (rule power_increasing; simp add: clamp_def)+
  then show "60 \<le> retry_base n" "retry_base n \<le> 15360" by (simp_all add: retry_base_def)
qed

lemma retry_base_mono: "n \<le> m \<Longrightarrow> retry_base n \<le> retry_base m"
  unfolding retry_base_def by (intro mult_left_mono power_increasing nat_mono) (auto simp: clamp_def)

section \<open>Reachable states\<close>

lemma batch_notice:
  assumes "push_steps rfc E initial_push p" "pw_batch p = Some (row # rows)" "r \<in> set (push_outbox (pw_db p))"
    and "out_event r = out_event row"
  shows "same_notice row r"
proof -
  from reachable_push [OF assms(1)] assms(2) obtain x where x: "x \<in> set (push_outbox (pw_db p))" "same_notice row x"
    by (auto simp: batch_current_def unwrap_or_def)
  have "x = r"
    by (rule inj_onD [of out_event "set (push_outbox (pw_db p))"])
      (use reachable_push [OF assms(1)] x assms(3,4) same_notice_fields(1) [OF x(2)] in
        \<open>simp_all add: push_sound_def rows_well_def distinct_map\<close>)
  with x show ?thesis by simp
qed

lemma reachable_run:
  assumes "push_steps rfc E p (run 0)" "\<And>n. push_step rfc E (run n) (run (Suc n))"
  shows "push_steps rfc E p (run n)"
  by (induction n) (auto intro: assms push_steps.more)

end
