(* ===== verification/PushProperties.thy ===== *)
theory PushProperties
  imports PushSteps SessionProperties TransactionProperties
begin

text \<open>
  What the notifications promise while the worker, the sign-in and the recording of transactions interleave,
  and a sample run from the empty database to a delivered notice.
\<close>

text \<open>
  C17: A notice is sent at most twelve times. Whatever sign-ins, transactions and drains are interleaved from
  the empty database, no notice has been sent more than twelve times, and one that is still in the
  outbox no more often than its row has been attempted.
\<close>

theorem notifications_bounded:
  assumes "push_steps rfc E initial_push p"
  shows "sends (pw_sent p) event \<le> 12
     \<and> (\<forall>r\<in>set (push_outbox (pw_db p)). sends (pw_sent p) (out_event r) \<le> out_attempts r)"
  using reachable_push [OF assms] by (simp add: push_sound_def sent_sound_def)

text \<open>
  C19: The tables of the notifications stay well-formed. In every reachable state an installation and a token
  belong to one device each, an event identifies one row of the outbox and an operation has one row per
  installation; titles have at most 100 and texts at most 250 characters, and the attempts are from 0 to 12.
\<close>

theorem push_tables_well_formed:
  assumes "push_steps rfc E initial_push p"
  shows "distinct (map dev_installation (push_devices (pw_db p))) \<and> distinct (map dev_token (push_devices (pw_db p)))
     \<and> distinct (map out_event (push_outbox (pw_db p)))
     \<and> distinct (map (\<lambda>r. (out_operation r, out_installation r)) (push_outbox (pw_db p)))
     \<and> (\<forall>r\<in>set (push_outbox (pw_db p)). char_count (out_title r) \<le> 100 \<and> char_count (out_body r) \<le> 250
          \<and> 0 \<le> out_attempts r \<and> out_attempts r \<le> 12)"
  using reachable_push [OF assms] by (simp add: push_sound_def owners_unique_def rows_well_def capped_def)

text \<open>
  C18: A message goes to the current owner of the device only. When the worker delivers a row of its batch
  in a reachable state, every message that leaves is for an allowed recipient whose installation is at
  that moment registered, with that token, by that recipient and session, the session being live; it
  carries the notice of the outbox, which is younger than a day, and lives for at most a day.
\<close>

theorem sent_to_current_owner:
  assumes "push_steps rfc E initial_push p" "pw_batch p = Some (row # rows)"
    and "deliver_row rfc (allowed_subjects E) a row (pw_db p, pw_access p) = ((s, c), ms, stop)" "m \<in> set ms"
  shows "\<exists>r\<in>set (push_outbox (pw_db p)). \<exists>d\<in>set (push_devices (pw_db p)). \<exists>ps\<in>set (pocket_sessions (pw_db p)).
     out_subject r \<in> set (allowed_subjects E) \<and> pa_now_owner a - 86400 < out_created r
     \<and> dev_token d = msg_token m \<and> dev_installation d = out_installation r \<and> dev_subject d = out_subject r
     \<and> dev_session d = out_session r \<and> pse_id_hash ps = dev_session d \<and> pse_subject ps = dev_subject d
     \<and> pa_now_owner a < pse_expires ps \<and> msg_event m = out_event r \<and> msg_subject m = out_subject r
     \<and> msg_session m = out_session r \<and> msg_transaction m = out_transaction r \<and> msg_title m = out_title r
     \<and> msg_body m = out_body r \<and> msg_expires m = sat_i64 (out_created r + 86400) \<and> 0 < msg_ttl m \<and> msg_ttl m \<le> 86400"
proof (rule deliver_row_recipient [OF assms(3,4)])
  fix r d ps
  assume r: "r \<in> set (push_outbox (pw_db p))" "out_event r = msg_event m" "msg_event m = out_event row"
    and rest: "out_subject row \<in> set (allowed_subjects E)" "d \<in> set (push_devices (pw_db p))" "dev_token d = msg_token m"
      "dev_installation d = out_installation r" "dev_subject d = out_subject r" "dev_session d = out_session r"
      "ps \<in> set (pocket_sessions (pw_db p))" "pse_id_hash ps = dev_session d" "pse_subject ps = dev_subject d"
      "pa_now_owner a < pse_expires ps" "pa_now_owner a - 86400 < out_created r" "msg_subject m = out_subject row"
      "msg_session m = out_session row" "msg_transaction m = out_transaction row" "msg_title m = out_title row"
      "msg_body m = out_body row" "msg_expires m = sat_i64 (out_created row + 86400)" "0 < msg_ttl m" "msg_ttl m \<le> 86400"
  have "same_notice row r" by (rule batch_notice [OF assms(1,2) r(1)]) (use r in simp)
  with r rest show ?thesis
    by (intro bexI [of _ r] bexI [of _ d] bexI [of _ ps]) (simp_all add: same_notice_fields)
qed

text \<open>
  C20: Every notice leaves the outbox. In a run from a reachable state in which the worker keeps starting
  drains and the clock of these goes beyond every bound, each row that is ever in the outbox is gone later,
  delivered or not: nothing is retried for ever.
\<close>

theorem outbox_empties:
  assumes "push_steps rfc E initial_push (run 0)" "\<And>n. push_step rfc E (run n) (run (Suc n))"
    and "\<And>n stamp. \<exists>m\<ge>n. pw_batch (run m) = None \<and> pw_batch (run (Suc m)) \<noteq> None \<and> stamp \<le> pw_start (run (Suc m))"
    and "r \<in> set (push_outbox (pw_db (run n)))"
  shows "\<exists>m\<ge>n. out_event r \<notin> out_event ` set (push_outbox (pw_db (run m)))"
proof (rule ccontr)
  assume "\<not> ?thesis"
  then have stays: "out_event r \<in> out_event ` set (push_outbox (pw_db (run m)))" if "n \<le> m" for m using that by blast
  have well: "rows_well (pw_db (run m))" for m
    using reachable_push [OF reachable_run [OF assms(1,2)], of m] by (simp add: push_sound_def)
  have same: "\<exists>x\<in>set (push_outbox (pw_db (run (n + k)))). same_notice r x" for k
  proof (induction k)
    case 0
    show ?case using assms(4) by (auto intro: bexI [of _ r])
  next
    case (Suc k)
    then obtain x where x: "x \<in> set (push_outbox (pw_db (run (n + k))))" "same_notice r x" by blast
    from stays [of "n + Suc k"] obtain y where y: "y \<in> set (push_outbox (pw_db (run (n + Suc k))))" "out_event y = out_event r" by auto
    from y(2) same_notice_fields(1) [OF x(2)] have "out_event y = out_event x" by simp
    from push_step_notice [OF assms(2) well x(1) _ this] y(1) have "same_notice x y" by simp
    with x(2) y(1) show ?case by (blast intro: same_notice_trans)
  qed
  from assms(3) [of n "out_created r + 86400"] obtain m where m: "n \<le> m" "pw_batch (run m) = None" "pw_batch (run (Suc m)) \<noteq> None"
    "out_created r + 86400 \<le> pw_start (run (Suc m))" by blast
  from same [of "Suc m - n"] m(1) obtain x where "x \<in> set (push_outbox (pw_db (run (Suc m))))" "same_notice r x" by auto
  with start_drops_old [OF assms(2) m(2,3)] m(4) same_notice_fields(9) show False by fastforce
qed

text \<open>
  The delay of a retry is exponential and bounded. It is never below the minimum of the provider nor below the
  base of the attempt, which grows from one minute to 256 minutes, exceeds the larger of the two by at most half
  of the base, and a provider that asks for less than a minute, or for nothing readable, counts as a minute.
\<close>

theorem retry_delay_bounds:
  assumes "minimum \<le> 2 ^ 62"
  shows "max minimum (retry_base n) \<le> retry_delay minimum n random
     \<and> retry_delay minimum n random \<le> max minimum (retry_base n) + retry_base n div 2
     \<and> 60 \<le> retry_base n \<and> retry_base n \<le> 15360 \<and> (n \<le> n' \<longrightarrow> retry_base n \<le> retry_base n')
     \<and> 60 \<le> retry_after rfc header stamp"
proof -
  define base where "base = retry_base n"
  define j where "j = int random mod (base div 2 + 1)"
  have base: "60 \<le> base" "base \<le> 15360" using retry_base_bounds by (simp_all add: base_def)
  then have j: "0 \<le> j" "j \<le> base div 2"
    using pos_mod_bound [of "base div 2 + 1" "int random"] by (simp_all add: j_def)
  have top: "base \<le> max minimum base" "max minimum base \<le> 2 ^ 62" using assms base by simp_all
  have "sat_i64 (max minimum base + j) = max minimum base + j"
    using base j top unfolding sat_i64_def by simp
  then have "retry_delay minimum n random = max minimum base + j"
    by (simp add: retry_delay_def Let_def base_def j_def)
  with j base retry_base_mono [of n n'] show ?thesis by (simp add: retry_after_def base_def)
qed

text \<open>What a successful recording with its notices has done.\<close>

lemma internal_Inr: "internal e = Inr x \<longleftrightarrow> e = Inr x"
  by (cases e) (simp_all add: internal_def map_err_def)

lemma create_and_notify_E:
  assumes "create_and_notify P W allowed new_event stamp (Inr (subject, username)) payload (db, s) = Some (Inr (r, db', s'))"
  shows "create_db_transaction P W (Inr (subject, username)) payload db = Some (Inr (r, db'))"
    and "find_operation db (wr_operation_id payload) \<noteq> None \<Longrightarrow> s' = s"
    and "find_operation db (wr_operation_id payload) = None \<Longrightarrow>
      \<exists>p sd. normalize_db_transaction_write UNALLOCATED payload = Inr p \<and> wr_operation_id p = wr_operation_id payload
        \<and> wr_transaction_id p = wr_transaction_id payload \<and> request_sides db p = Inr sd
        \<and> enqueue new_event (wr_operation_id payload) (wr_transaction_id payload) subject allowed
            (notification_title username p) (notification_body p (input_currency_of p sd)) stamp s = Inr s'"
  using assms
  by (auto simp: create_and_notify_def returned_def result_simps normalize_ids internal_Inr split: option.splits sum.splits if_splits)

text \<open>The outbox only speaks of operations that are recorded; the recording of one keeps this.\<close>

definition outbox_known :: "db \<Rightarrow> auth_db \<Rightarrow> bool" where
  "outbox_known db s \<longleftrightarrow> out_operation ` set (push_outbox s) \<subseteq> op_id ` set (operations_table db)"

lemma recipients_of:
  "filter (\<lambda>d. dev_subject d \<in> set allowed) (recipients s subject stamp)
    = filter (\<lambda>d. dev_subject d \<noteq> subject \<and> dev_subject d \<in> set allowed
        \<and> (\<exists>x\<in>set (pocket_sessions s). pse_id_hash x = dev_session d \<and> pse_subject x = dev_subject d \<and> stamp < pse_expires x))
        (push_devices s)"
  unfolding recipients_def live_session_def filter_filter by (rule filter_cong) (auto simp: list_ex_iff)

lemma notified_later:
  assumes "(write_step Ps)\<^sup>*\<^sup>* db db'" "books_ok db" "wr_operation_id payload \<in> op_ids db"
    and "create_and_notify P W allowed new_event stamp (Inr who) payload (db', s) = Some (Inr (r, db'', s'))"
  shows "s' = s"
proof -
  obtain subject username where who: "who = (subject, username)" by (cases who)
  from write_steps_operations [OF assms(1,2)] assms(3) have "wr_operation_id payload \<in> op_ids db'" by blast
  then have "find_operation db' (wr_operation_id payload) \<noteq> None" by (simp only: find_operation_ids)
  then show ?thesis by (rule create_and_notify_E(2) [OF assms(4) [unfolded who]])
qed

text \<open>
  C21: The partner is notified of a transaction once. Recording a new transaction appends to the outbox exactly
  one notice for every device that is bound to a session, not yet expired, of another allowed member
  of the household, none for the member who recorded it, and changes nothing else in the tables of the
  sign-in; the notice names the operation, the transaction, the device with its owner and session, and what was
  added. A repeated operation queues nothing, immediately or after any later recordings, edits and
  deletions of the household, whoever repeats it and whatever the outbox holds by then. (The outbox speaks of recorded operations only, which
  is kept; the event identifiers are fresh, as random ones are.)
\<close>

theorem partner_notified_once:
  assumes "create_and_notify P W allowed new_event stamp (Inr (subject, username)) payload (db, s) = Some (Inr (r, db', s'))"
    and "owners_unique s" "inj_on new_event (dev_installation ` set (push_devices s))"
    and "\<forall>d\<in>set (push_devices s). new_event (dev_installation d) \<notin> out_event ` set (push_outbox s)"
    and "books_ok db" "outbox_known db s"
  shows "(if find_operation db (wr_operation_id payload) \<noteq> None then s' = s
      else \<exists>p sd. normalize_db_transaction_write UNALLOCATED payload = Inr p \<and> request_sides db p = Inr sd
        \<and> s' = s\<lparr>push_outbox := push_outbox s @ map (\<lambda>d.
            \<lparr>out_event = new_event (dev_installation d), out_operation = wr_operation_id payload, out_transaction = wr_transaction_id payload,
             out_title = take_chars 100 (notification_title username p),
             out_body = take_chars 250 (notification_body p (input_currency_of p sd)), out_installation = dev_installation d,
             out_subject = dev_subject d, out_session = dev_session d, out_created = stamp, out_next_attempt = stamp, out_attempts = 0\<rparr>)
          (filter (\<lambda>d. dev_subject d \<noteq> subject \<and> dev_subject d \<in> set allowed
             \<and> (\<exists>x\<in>set (pocket_sessions s). pse_id_hash x = dev_session d \<and> pse_subject x = dev_subject d \<and> stamp < pse_expires x))
             (push_devices s))\<rparr>)
     \<and> books_ok db' \<and> outbox_known db' s'
     \<and> (\<forall>Ps db1 again P' W' allowed' new_event' stamp' who t r' db2 t'. (write_step Ps)\<^sup>*\<^sup>* db' db1
          \<and> wr_operation_id again = wr_operation_id payload
          \<and> create_and_notify P' W' allowed' new_event' stamp' (Inr who) again (db1, t) = Some (Inr (r', db2, t')) \<longrightarrow> t' = t)"
proof -
  note run = create_and_notify_E [OF assms(1)]
  note ops = create_operations [OF run(1) assms(5)]
  have ok: "books_ok db'" using write_step_sound [OF write_step.recorded [OF singletonI run(1)] assms(5)] by simp
  have again: "\<forall>Ps db1 again P' W' allowed' new_event' stamp' who t r' db2 t'. (write_step Ps)\<^sup>*\<^sup>* db' db1
      \<and> wr_operation_id again = wr_operation_id payload
      \<and> create_and_notify P' W' allowed' new_event' stamp' (Inr who) again (db1, t) = Some (Inr (r', db2, t')) \<longrightarrow> t' = t"
    using notified_later [OF _ ok] ops by (metis insertI1)
  show ?thesis
  proof (cases "find_operation db (wr_operation_id payload) = None")
    case False
    with run(2) have "s' = s" by simp
    moreover have "outbox_known db' s" using ops assms(6) by (auto simp: outbox_known_def op_ids_def)
    ultimately show ?thesis using False by (intro conjI again ok) simp_all
  next
    case True
    then have new: "wr_operation_id payload \<notin> out_operation ` set (push_outbox s)"
      using find_operation_ids [of db "wr_operation_id payload"] assms(6) by (auto simp: outbox_known_def op_ids_def)
    from run(3) [OF True] obtain p sd where p: "normalize_db_transaction_write UNALLOCATED payload = Inr p" "request_sides db p = Inr sd"
      "enqueue new_event (wr_operation_id payload) (wr_transaction_id payload) subject allowed
         (notification_title username p) (notification_body p (input_currency_of p sd)) stamp s = Inr s'" by blast
    note s' = p(3) [unfolded enqueue_exact [OF assms(2) [unfolded owners_unique_def, THEN conjunct1] assms(3,4) new] recipients_of
      outbox_row_of_def, unfolded sum.inject, symmetric]
    have "outbox_known db' s'" using assms(6) ops by (auto simp: outbox_known_def s' op_ids_def [symmetric])
    with True p(1,2) s' show ?thesis by (intro conjI again ok) simp_all
  qed
qed

section \<open>A sample run\<close>

text \<open>The app of the household member signs in and registers its device; a transaction of another member is
  queued, and the worker delivers its notice.\<close>

definition app_headers :: request_headers where
  "app_headers = \<lparr>hd_origin = None, hd_authorization = Some (Some (''Bearer '' @ sample_token (CHR ''d''))), hd_cookie = None\<rparr>"

definition phone :: push_device_row where
  "phone = \<lparr>dev_installation = ''phone'', dev_subject = ''ana'', dev_session = sample_token (CHR ''d''),
     dev_token = ''phone-token'', dev_updated = 6\<rparr>"

definition with_phone :: auth_db where
  "with_phone = (sample_session (CHR ''d'') 4)\<lparr>push_devices := [phone]\<rparr>"

definition sample_event :: "string \<Rightarrow> string" where
  "sample_event installation = ''event-'' @ installation"

definition notice_row :: push_outbox_row where
  "notice_row = \<lparr>out_event = ''event-phone'', out_operation = ''op'', out_transaction = ''tx'', out_title = ''Ben added an expense'',
     out_body = ''1 EUR'', out_installation = ''phone'', out_subject = ''ana'', out_session = sample_token (CHR ''d''),
     out_created = 10, out_next_attempt = 10, out_attempts = 0\<rparr>"

definition with_notice :: auth_db where
  "with_notice = with_phone\<lparr>push_outbox := [notice_row]\<rparr>"

definition good_attempt :: push_attempt where
  "good_attempt = \<lparr>pa_now_cached = 21, pa_now_issued = 21, pa_signed = True,
     pa_oauth = Some (200, Some (JObj [(''access_token'', JStr ''key'')])), pa_now_owner = 22, pa_now_send = 22,
     pa_http = Some (200, None, None), pa_now_answer = 23, pa_now_retry = 23, pa_now_defer = 23, pa_jitter = 0\<rparr>"

definition notice_message :: push_message where
  "notice_message = \<lparr>msg_access = ''key'', msg_token = ''phone-token'', msg_event = ''event-phone'', msg_transaction = ''tx'',
     msg_subject = ''ana'', msg_session = sample_token (CHR ''d''), msg_title = ''Ben added an expense'', msg_body = ''1 EUR'',
     msg_expires = 86410, msg_ttl = 86388\<rparr>"

lemmas notice_defs = phone_def with_phone_def notice_row_def with_notice_def sample_session_def empty_auth_def SESSION_TTL_SECONDS_def

lemma app_lookup: "current_pocket_session sample_auth app_headers 5 (sample_session (CHR ''d'') 4)
    = (Inr (Some \<lparr>act_id_hash = sample_token (CHR ''d''), act_subject = ''ana'', act_username = ''ana'',
         act_expires = 4 + SESSION_TTL_SECONDS\<rparr>), sample_session (CHR ''d'') 4)"
proof -
  have "pocket_session_id_from_headers app_headers = Some (sample_token (CHR ''d''))"
    by (simp add: pocket_session_id_from_headers_def bearer_session_id_from_headers_def app_headers_def header_text_def strip_prefix_def starts_with_def)
  then show ?thesis by (simp add: current_pocket_session_def Let_def SESSION_TTL_SECONDS_def sample_defs)
qed

lemma phone_registered: "register ''phone'' ''phone-token'' ''ana'' (sample_token (CHR ''d'')) 6 (sample_session (CHR ''d'') 4) = (Inr (), with_phone)"
  by (simp add: register_def Let_def with_phone_def phone_def sample_defs)

lemma phone_live: "live_session with_phone ''ana'' (sample_token (CHR ''d'')) stamp \<longleftrightarrow> stamp < 2592004"
  by (simp add: live_session_def notice_defs)

lemma notice_queued: "enqueue sample_event ''op'' ''tx'' ''ben'' [''ana''] ''Ben added an expense'' ''1 EUR'' 10 with_phone = Inr with_notice"
proof -
  have "recipients with_phone ''ben'' 10 = [phone]" using phone_live [of 10]
    by (simp add: recipients_def) (simp add: with_phone_def phone_def)
  moreover have "take_chars 100 ''Ben added an expense'' = ''Ben added an expense''" "take_chars 250 ''1 EUR'' = ''1 EUR''"
    by code_simp+
  ultimately show ?thesis
    by (simp add: enqueue_def insert_outbox_def outbox_row_of_def) (simp add: notice_defs sample_event_def)
qed

lemma signed_steps: "auth_steps E w w' \<Longrightarrow> pw_auth p = w \<Longrightarrow> push_steps rfc E p (p\<lparr>pw_auth := w'\<rparr>)"
proof (induction arbitrary: rule: auth_steps.induct)
  case (none w)
  then have "p\<lparr>pw_auth := w\<rparr> = p" by simp
  then show ?case using push_steps.none by metis
next
  case (more w w' w'')
  have "push_step rfc E (p\<lparr>pw_auth := w'\<rparr>) (p\<lparr>pw_auth := w'\<rparr>\<lparr>pw_auth := w''\<rparr>)"
    by (rule push_step.signed) (simp add: more.hyps(2))
  with more.IH [OF more.prems] show ?case by (auto intro: push_steps.more)
qed

lemma notice_kept: "purge 20 with_notice = with_notice" "due_rows 20 with_notice = [notice_row]"
proof -
  have "owned with_notice notice_row 20" using phone_live [of 20]
    by (simp add: owned_def live_session_def) (simp add: notice_defs)
  then show "purge 20 with_notice = with_notice" by (simp add: purge_def) (simp add: notice_defs)
  show "due_rows 20 with_notice = [notice_row]" by (simp add: due_rows_def) (simp add: notice_defs)
qed

lemma notice_delivered:
  "deliver_row (\<lambda>_. None) [''ana''] good_attempt notice_row (with_notice, None)
     = ((with_phone, Some (''key'', 3621)), [notice_message], False)"
proof -
  have token: "fcm_token good_attempt None = (Inr ''key'', Some (''key'', 3621))"
    by (simp add: fcm_token_def issue_token_def good_attempt_def successful_def ok_or_def json_field_def unwrap_or_def clamp_def json_text_def json_i64_def)
  have device: "current_device with_notice ''event-phone'' 22 = Some ''phone-token''"
    using phone_live [of 22] by (simp add: current_device_def live_session_def) (simp add: notice_defs first_row_def)
  have send: "fcm_send (\<lambda>_. None) good_attempt ''key'' ''phone-token'' notice_row (Some (''key'', 3621))
      = (Sent, Some (''key'', 3621), [notice_message])"
    by (simp add: fcm_send_def good_attempt_def notice_row_def notice_message_def remaining_ttl_def sat_i64_def successful_def Let_def)
  have "settle_delivery good_attempt notice_row ''phone-token'' Sent with_notice = with_phone"
    by (simp add: settle_delivery_def delete_event_def) (simp add: notice_defs)
  with token device send show ?thesis
    by (simp add: deliver_row_def) (simp add: notice_row_def good_attempt_def)
qed

text \<open>The states of the run: with the notice queued, with the batch fetched, and with the notice sent.\<close>

lemma initial_fields: "pw_batch initial_push = None" "pw_sent initial_push = []" "pw_access initial_push = None" "pw_auth initial_push = initial_world"
  by (simp_all add: initial_push_def)

lemma notice_run:
  obtains w where "push_steps (\<lambda>_. None) sample_auth initial_push (initial_push\<lparr>pw_auth := w\<rparr>)" "w_db w = with_notice"
proof -
  obtain w where w: "auth_steps sample_auth initial_world w" "w_db w = sample_session (CHR ''d'') 4" by (rule app_run)
  let ?a = "\<lparr>act_id_hash = sample_token (CHR ''d''), act_subject = ''ana'', act_username = ''ana'', act_expires = 4 + SESSION_TTL_SECONDS\<rparr>"
  let ?w1 = "w\<lparr>w_db := sample_session (CHR ''d'') 4, w_active := ?a # w_active w\<rparr>"
  let ?w2 = "?w1\<lparr>w_db := with_phone\<rparr>"
  have 1: "auth_step sample_auth w ?w1" by (rule auth_step.lookup [of _ app_headers 5]) (simp add: w(2) app_lookup)
  have 2: "auth_step sample_auth ?w1 ?w2"
    by (rule auth_step.add_device [of ?a _ "''phone''" "''phone-token''" 6]) (simp_all add: phone_registered)
  have "push_steps (\<lambda>_. None) sample_auth initial_push (initial_push\<lparr>pw_auth := ?w2\<rparr>)"
    by (rule signed_steps [OF auth_steps.more [OF auth_steps.more [OF w(1) 1] 2]]) (simp add: initial_fields)
  moreover have "push_step (\<lambda>_. None) sample_auth (initial_push\<lparr>pw_auth := ?w2\<rparr>) (with_db with_notice (initial_push\<lparr>pw_auth := ?w2\<rparr>))"
    by (rule push_step.queued [of sample_event "''op''" "''tx''" "''ben''" _ "''Ben added an expense''" "''1 EUR''" 10])
      (simp_all add: notice_queued sample_allowed initial_fields)
  ultimately have "push_steps (\<lambda>_. None) sample_auth initial_push (with_db with_notice (initial_push\<lparr>pw_auth := ?w2\<rparr>))"
    by (rule push_steps.more)
  then show ?thesis using that [of "?w2\<lparr>w_db := with_notice\<rparr>"] by (simp add: with_db_def)
qed

lemma batch_run:
  obtains p where "push_steps (\<lambda>_. None) sample_auth initial_push p" "pw_db p = with_notice" "pw_access p = None"
    "pw_batch p = Some [notice_row]" "pw_sent p = []"
proof -
  obtain w where w: "push_steps (\<lambda>_. None) sample_auth initial_push (initial_push\<lparr>pw_auth := w\<rparr>)" "w_db w = with_notice"
    by (rule notice_run)
  from push_step.started [of "initial_push\<lparr>pw_auth := w\<rparr>" with_notice 20 "\<lambda>_. None" sample_auth]
  have "push_step (\<lambda>_. None) sample_auth (initial_push\<lparr>pw_auth := w\<rparr>)
      (with_db with_notice (initial_push\<lparr>pw_auth := w\<rparr>)\<lparr>pw_start := 20, pw_batch := Some [notice_row]\<rparr>)"
    by (simp add: w(2) notice_kept initial_fields)
  from that [OF push_steps.more [OF w(1) this]] show ?thesis by (simp add: initial_fields)
qed

lemma sent_run:
  obtains p where "push_steps (\<lambda>_. None) sample_auth initial_push p" "pw_db p = with_phone" "pw_sent p = [notice_message]"
proof -
  obtain p where p: "push_steps (\<lambda>_. None) sample_auth initial_push p" "pw_db p = with_notice" "pw_access p = None"
    "pw_batch p = Some [notice_row]" "pw_sent p = []" by (rule batch_run)
  from push_step.delivered [OF p(4), where rfc = "\<lambda>_. None" and E = sample_auth and stop = False] notice_delivered
  have "push_step (\<lambda>_. None) sample_auth p
      (with_db with_phone p\<lparr>pw_access := Some (''key'', 3621), pw_batch := Some [], pw_sent := [notice_message]\<rparr>)"
    by (simp add: p sample_allowed)
  from that [OF push_steps.more [OF p(1) this]] show ?thesis by simp
qed

theorem notifications_bounded_witness:
  "\<exists>p. push_steps (\<lambda>_. None) sample_auth initial_push p \<and> sends (pw_sent p) ''event-phone'' = 1
     \<and> sends (pw_sent p) ''event-phone'' \<le> 12"
proof -
  obtain p where p: "push_steps (\<lambda>_. None) sample_auth initial_push p" "pw_sent p = [notice_message]" by (rule sent_run)
  from notifications_bounded [OF p(1), of "''event-phone''"] p show ?thesis
    by (intro exI [of _ p]) (simp add: notice_message_def)
qed

theorem push_tables_well_formed_witness:
  "\<exists>p. push_steps (\<lambda>_. None) sample_auth initial_push p \<and> push_outbox (pw_db p) = [notice_row]
     \<and> distinct (map dev_token (push_devices (pw_db p))) \<and> char_count (out_title notice_row) \<le> 100"
proof -
  obtain p where p: "push_steps (\<lambda>_. None) sample_auth initial_push p" "pw_db p = with_notice" by (rule batch_run)
  have "push_outbox with_notice = [notice_row]" by (simp add: with_notice_def)
  with push_tables_well_formed [OF p(1)] p show ?thesis by auto
qed

theorem sent_to_current_owner_witness:
  "\<exists>d\<in>set (push_devices with_notice). dev_token d = msg_token notice_message \<and> dev_session d = msg_session notice_message
     \<and> msg_ttl notice_message \<le> 86400"
proof -
  obtain p where p: "push_steps (\<lambda>_. None) sample_auth initial_push p" "pw_db p = with_notice" "pw_access p = None"
    "pw_batch p = Some [notice_row]" by (rule batch_run)
  have "deliver_row (\<lambda>_. None) (allowed_subjects sample_auth) good_attempt notice_row (pw_db p, pw_access p)
      = ((with_phone, Some (''key'', 3621)), [notice_message], False)" by (simp add: p notice_delivered sample_allowed)
  from sent_to_current_owner [OF p(1,4) this, of notice_message] p(2) show ?thesis by auto
qed

text \<open>A run for ever: the notice is dropped at the first late drain, and the drains go on.\<close>

definition idle_run :: "auth_world \<Rightarrow> nat \<Rightarrow> push_world" where
  "idle_run w n = (let p = initial_push\<lparr>pw_auth := w\<rparr> in
     if n = 0 then p
     else with_db (if n = 1 then with_phone else sample_session (CHR ''d'') 4) p
       \<lparr>pw_start := 10 ^ 7 * int ((n + 1) div 2), pw_batch := if odd n then Some [] else None\<rparr>)"

lemma late_drain:
  assumes "10 ^ 7 \<le> stamp"
  shows "purge stamp with_notice = with_phone" "purge stamp (sample_session (CHR ''d'') 4) = sample_session (CHR ''d'') 4"
    "due_rows stamp with_phone = []" "due_rows stamp (sample_session (CHR ''d'') 4) = []"
    "forget_dead_devices stamp with_phone = sample_session (CHR ''d'') 4"
    "forget_dead_devices stamp (sample_session (CHR ''d'') 4) = sample_session (CHR ''d'') 4"
  using assms by (simp_all add: purge_def due_rows_def forget_dead_devices_def notice_defs)

lemma idle_step:
  assumes "w_db w = with_notice"
  shows "push_step (\<lambda>_. None) E (idle_run w n) (idle_run w (Suc n))"
proof (cases "odd n")
  case True
  then obtain k where n: "n = 2 * k + 1" by (auto elim: oddE)
  have "push_step (\<lambda>_. None) E (idle_run w n)
      (with_db (forget_dead_devices (pw_start (idle_run w n)) (pw_db (idle_run w n))) (idle_run w n)\<lparr>pw_batch := None\<rparr>)"
    by (rule push_step.finished) (simp add: idle_run_def Let_def n)
  moreover have "forget_dead_devices (pw_start (idle_run w n)) (pw_db (idle_run w n)) = sample_session (CHR ''d'') 4"
    by (simp add: idle_run_def Let_def n late_drain)
  ultimately show ?thesis by (cases "k = 0") (simp_all add: idle_run_def Let_def n with_db_def initial_push_def)
next
  case False
  then obtain k where n: "n = 2 * k" by (auto elim: evenE)
  let ?s = "if n = 0 then with_phone else sample_session (CHR ''d'') 4"
  have s: "?s = purge (10 ^ 7 * (int k + 1)) (pw_db (idle_run w n))" "due_rows (10 ^ 7 * (int k + 1)) ?s = []"
    by (simp_all add: idle_run_def Let_def n late_drain assms)
  have "push_step (\<lambda>_. None) E (idle_run w n)
      (with_db ?s (idle_run w n)\<lparr>pw_start := 10 ^ 7 * (int k + 1), pw_batch := Some (due_rows (10 ^ 7 * (int k + 1)) ?s)\<rparr>)"
    by (rule push_step.started [OF _ s(1)]) (simp add: idle_run_def Let_def n initial_fields)
  then show ?thesis unfolding s(2) by (cases "k = 0") (simp_all add: idle_run_def Let_def n with_db_def initial_push_def algebra_simps)
qed

theorem outbox_empties_witness:
  "\<exists>w. w_db w = with_notice \<and> (\<exists>m. ''event-phone'' \<notin> out_event ` set (push_outbox (pw_db (idle_run w m))))"
proof -
  obtain w where w: "push_steps (\<lambda>_. None) sample_auth initial_push (initial_push\<lparr>pw_auth := w\<rparr>)" "w_db w = with_notice"
    by (rule notice_run)
  have start: "push_steps (\<lambda>_. None) sample_auth initial_push (idle_run w 0)" using w(1) by (simp add: idle_run_def Let_def)
  have drains: "\<exists>m\<ge>n. pw_batch (idle_run w m) = None \<and> pw_batch (idle_run w (Suc m)) \<noteq> None \<and> stamp \<le> pw_start (idle_run w (Suc m))" for n stamp
  proof (intro exI conjI)
    let ?m = "2 * (n + nat stamp)"
    show "n \<le> ?m" by simp
    show "pw_batch (idle_run w ?m) = None" "pw_batch (idle_run w (Suc ?m)) \<noteq> None" by (simp_all add: idle_run_def Let_def initial_fields)
    show "stamp \<le> pw_start (idle_run w (Suc ?m))" by (simp add: idle_run_def Let_def)
  qed
  have row: "notice_row \<in> set (push_outbox (pw_db (idle_run w 0)))" using w(2) by (simp add: idle_run_def Let_def with_notice_def)
  from outbox_empties [OF start idle_step [OF w(2)] drains row] w(2) show ?thesis by (auto simp: notice_row_def)
qed

theorem retry_delay_bounds_witness: "retry_delay 90 3 7 \<le> max 90 480 + 240 \<and> 480 \<le> retry_delay 90 3 7"
  using retry_delay_bounds [of 90 3 7 3 "\<lambda>_. None" None 0] by (simp add: retry_base_def clamp_def)

theorem partner_notified_once_witness:
  "\<exists>r db' s' row. create_and_notify sample_platform tx_env [''ana''] sample_event 10 (Inr (''me'', ''Me'')) tx_request (tx_db, with_phone)
       = Some (Inr (r, db', s'))
     \<and> push_outbox s' = [row] \<and> out_installation row = ''phone'' \<and> out_title row = ''Me added a transfer''"
proof -
  obtain r v where run: "create_db_transaction sample_platform tx_env (Inr (''me'', ''Me'')) tx_request tx_db = Some (Inr (r, tx_after v))"
    using tx_run by blast
  have distinct: "owners_unique with_phone" "push_outbox with_phone = []" by (simp_all add: owners_unique_def notice_defs)
  have found: "find_operation tx_db (wr_operation_id tx_request) = None" by (rule tx_db_ok)
  have receiver: "filter (\<lambda>d. dev_subject d \<noteq> ''me'' \<and> dev_subject d \<in> set [''ana''] \<and> (\<exists>x\<in>set (pocket_sessions with_phone).
      pse_id_hash x = dev_session d \<and> pse_subject x = dev_subject d \<and> 10 < pse_expires x)) (push_devices with_phone) = [phone]"
    using phone_live [of 10] by (simp add: live_session_def list_ex_iff) (simp add: with_phone_def phone_def)
  have queued: "\<exists>s'. enqueue sample_event i t ''me'' [''ana''] title body 10 with_phone = Inr s'" for i t title body
    using distinct by (subst enqueue_exact) (simp_all add: owners_unique_def with_phone_def)
  then obtain g where g: "\<And>i t title body. enqueue sample_event i t ''me'' [''ana''] title body 10 with_phone = Inr (g i t title body)"
    by metis
  obtain s' where s': "create_and_notify sample_platform tx_env [''ana''] sample_event 10 (Inr (''me'', ''Me'')) tx_request (tx_db, with_phone)
      = Some (Inr (r, tx_after v, s'))"
    using run found tx_sides [of tx_db] by (simp add: create_and_notify_def tx_normal internal_def map_err_def g)
  have title: "take_chars 100 (notification_title ''Me'' tx_request) = ''Me added a transfer''" by code_simp
  have fresh: "inj_on sample_event (dev_installation ` set (push_devices with_phone))"
    "\<forall>d\<in>set (push_devices with_phone). sample_event (dev_installation d) \<notin> out_event ` set (push_outbox with_phone)"
    "outbox_known tx_db with_phone"
    using distinct(2) by (simp_all add: with_phone_def outbox_known_def)
  from partner_notified_once [OF s' distinct(1) fresh(1,2) tx_db_ok(1) fresh(3)] found obtain sd where
    "push_outbox s' = map (\<lambda>d.
       \<lparr>out_event = sample_event (dev_installation d), out_operation = wr_operation_id tx_request, out_transaction = wr_transaction_id tx_request,
        out_title = take_chars 100 (notification_title ''Me'' tx_request),
        out_body = take_chars 250 (notification_body tx_request (input_currency_of tx_request sd)), out_installation = dev_installation d,
        out_subject = dev_subject d, out_session = dev_session d, out_created = 10, out_next_attempt = 10, out_attempts = 0\<rparr>) [phone]"
    by (simp only: receiver distinct(2) tx_normal sum.inject append_Nil not_not if_False simp_thms) (auto simp: distinct(2))
  with s' title show ?thesis by (auto simp: phone_def)
qed

end
