(* ===== verification/ImportDecimal.thy ===== *)
theory ImportDecimal
  imports Platform Valuation
begin

text \<open>
  The arithmetic of the workbook importer (\<open>bin/presto-admin.rs\<close>): it adds decimals digit by digit on
  their texts, and values a transaction with ratios of its own, as a reference for \<open>finance_model.rs\<close>.
  The facts below say that both agree with the arithmetic of the server.
\<close>

section \<open>Parsing\<close>

definition valid_decimal_text :: "string \<Rightarrow> bool" where
  "valid_decimal_text text =
     (let value = trim text;
          parts = split_on is_exponent_mark (snd (split_sign value));
          mantissa = hd parts
      in value \<noteq> [] \<and> length parts \<le> 2
         \<and> (case tl parts of [] \<Rightarrow> True | item # _ \<Rightarrow> parse_i32 item \<noteq> None)
         \<and> list_all (\<lambda>c. c = CHR ''.'' \<or> is_digit c) mantissa
         \<and> filter is_digit mantissa \<noteq> [] \<and> length (filter (\<lambda>c. c = CHR ''.'') mantissa) \<le> 1)"

record exact_decimal =
  xd_negative :: bool
  xd_digits :: string
  xd_scale :: nat

definition trim_leading_zeros :: "string \<Rightarrow> string" where
  "trim_leading_zeros s = (let trimmed = dropWhile (\<lambda>c. c = CHR ''0'') s in if trimmed = [] then ''0'' else trimmed)"

text \<open>The digits after the point: none without a point.\<close>

definition fraction_digits :: "string \<Rightarrow> nat" where
  "fraction_digits mantissa = length (dropWhile (\<lambda>c. c \<noteq> CHR ''.'') mantissa) - 1"

definition exact_of :: "bool \<Rightarrow> string \<Rightarrow> int \<Rightarrow> exact_decimal result" where
  "exact_of negative mantissa exponent =
     (let digits = filter (\<lambda>c. c \<noteq> CHR ''.'') mantissa;
          scale0 = int (fraction_digits mantissa) - exponent;
          digits' = (if scale0 < 0 then digits @ replicate (nat (- scale0)) CHR ''0'' else digits);
          scale' = (if scale0 < 0 then 0 else scale0)
      in if 10000 < scale' then Inl ''Decimal scale exceeds the supported import limit.''
         else Inr \<lparr>xd_negative = negative, xd_digits = trim_leading_zeros digits', xd_scale = nat scale'\<rparr>)"

definition parse_exact_decimal :: "string \<Rightarrow> exact_decimal result" where
  "parse_exact_decimal text =
     (if \<not> valid_decimal_text text then Inl ''Invalid decimal source value.''
      else let (negative, unsigned) = split_sign (trim text);
               parts = split_on is_exponent_mark unsigned
           in and_then (case tl parts of [] \<Rightarrow> Inr 0
                | item # _ \<Rightarrow> ok_or (parse_i32 item) ''decimal exponent is out of range'') (\<lambda>exponent.
              if 10000 < \<bar>exponent\<bar> then Inl ''Decimal exponent exceeds the supported import limit.''
              else exact_of negative (hd parts) exponent))"

section \<open>Printing\<close>

text \<open>The trailing zeros of a fraction go, and then the point if it is the last character.\<close>

definition drop_fraction_zeros :: "string \<Rightarrow> string" where
  "drop_fraction_zeros s =
     (let t = rev (dropWhile (\<lambda>c. c = CHR ''0'') (rev s)) in if ends_with t ''.'' then butlast t else t)"

definition format_exact_decimal :: "exact_decimal \<Rightarrow> string" where
  "format_exact_decimal d =
     (let digits = trim_leading_zeros (xd_digits d) in
      if digits = ''0'' then ''0''
      else let padded = (if length digits \<le> xd_scale d
                 then replicate (xd_scale d + 1 - length digits) CHR ''0'' @ digits else digits);
               split_at = length padded - xd_scale d;
               text = (if 0 < xd_scale d
                 then drop_fraction_zeros (take split_at padded @ ''.'' @ drop split_at padded) else digits)
           in if xd_negative d then ''-'' @ text else text)"

section \<open>Digit by digit\<close>

text \<open>Both numbers from their last digits on: \<open>u8\<close> holds two digits and a carry.\<close>

fun add_reversed :: "string \<Rightarrow> string \<Rightarrow> bool \<Rightarrow> string" where
  "add_reversed [] [] carry = (if carry then ''1'' else [])"
| "add_reversed (a # l) [] carry =
     (let sum = digit_value a + of_bool carry in digit_char (sum mod 10) # add_reversed l [] (10 \<le> sum))"
| "add_reversed [] (b # r) carry =
     (let sum = digit_value b + of_bool carry in digit_char (sum mod 10) # add_reversed [] r (10 \<le> sum))"
| "add_reversed (a # l) (b # r) carry =
     (let sum = digit_value a + digit_value b + of_bool carry in digit_char (sum mod 10) # add_reversed l r (10 \<le> sum))"

definition add_magnitudes :: "string \<Rightarrow> string \<Rightarrow> string" where
  "add_magnitudes left right = rev (add_reversed (rev left) (rev right) False)"

fun subtract_reversed :: "string \<Rightarrow> string \<Rightarrow> int \<Rightarrow> string" where
  "subtract_reversed [] smaller borrow = []"
| "subtract_reversed (a # larger) smaller borrow =
     (let difference = int (digit_value a) - borrow - (case smaller of [] \<Rightarrow> 0 | b # _ \<Rightarrow> int (digit_value b)) in
      if difference < 0 then digit_char (nat (difference + 10)) # subtract_reversed larger (tl smaller) 1
      else digit_char (nat difference) # subtract_reversed larger (tl smaller) 0)"

text \<open>\<open>while result.len() > 1 && result.last() == '0'\<close>, on the reversed digits.\<close>

fun pop_zeros :: "string \<Rightarrow> string" where
  "pop_zeros (a # b # s) = (if a = CHR ''0'' then pop_zeros (b # s) else a # b # s)"
| "pop_zeros s = s"

definition subtract_magnitudes :: "string \<Rightarrow> string \<Rightarrow> string" where
  "subtract_magnitudes larger smaller = pop_zeros (rev (subtract_reversed (rev larger) (rev smaller) 0))"

datatype ordering = Less | Equal | Greater

definition compare_magnitudes :: "string \<Rightarrow> string \<Rightarrow> ordering" where
  "compare_magnitudes left right =
     (let l = trim_leading_zeros left; r = trim_leading_zeros right in
      if length l < length r then Less else if length r < length l then Greater
      else if l < r then Less else if r < l then Greater else Equal)"

definition add_exact_decimals :: "string \<Rightarrow> string \<Rightarrow> string result" where
  "add_exact_decimals left right =
     and_then (parse_exact_decimal left) (\<lambda>l.
     and_then (parse_exact_decimal right) (\<lambda>r.
     let scale' = max (xd_scale l) (xd_scale r);
         ls = xd_digits l @ replicate (scale' - xd_scale l) CHR ''0'';
         rs = xd_digits r @ replicate (scale' - xd_scale r) CHR ''0'';
         (negative, digits) =
           (if xd_negative l = xd_negative r then (xd_negative l, add_magnitudes ls rs)
            else case compare_magnitudes ls rs of
                Greater \<Rightarrow> (xd_negative l, subtract_magnitudes ls rs)
              | Less \<Rightarrow> (xd_negative r, subtract_magnitudes rs ls)
              | Equal \<Rightarrow> (False, ''0''))
     in Inr (format_exact_decimal \<lparr>xd_negative = negative, xd_digits = trim_leading_zeros digits, xd_scale = scale'\<rparr>)))"

definition decimal_absolute :: "string \<Rightarrow> string result" where
  "decimal_absolute text =
     and_then (parse_exact_decimal text) (\<lambda>d. Inr (format_exact_decimal (d\<lparr>xd_negative := False\<rparr>)))"

definition negate_decimal :: "string \<Rightarrow> string result" where
  "negate_decimal text =
     and_then (parse_exact_decimal text) (\<lambda>d.
     Inr (format_exact_decimal (if list_ex (\<lambda>c. c \<noteq> CHR ''0'') (xd_digits d)
       then d\<lparr>xd_negative := \<not> xd_negative d\<rparr> else d)))"

definition decimal_is_zero :: "string \<Rightarrow> bool result" where
  "decimal_is_zero text =
     and_then (parse_exact_decimal text) (\<lambda>d. Inr (\<not> list_ex (\<lambda>c. c \<noteq> CHR ''0'') (xd_digits d)))"

definition positive_decimal :: "string \<Rightarrow> bool" where
  "positive_decimal text \<longleftrightarrow> \<not> starts_with (trim_start text) ''-'' \<and> valid_decimal_text text
     \<and> list_ex (\<lambda>c. is_digit c \<and> c \<noteq> CHR ''0'') (takeWhile (\<lambda>c. \<not> is_exponent_mark c) text)"

definition add_decimal_delta ::
  "(string \<times> string \<rightharpoonup> string) \<Rightarrow> string \<times> string \<Rightarrow> string \<Rightarrow> (string \<times> string \<rightharpoonup> string) result" where
  "add_decimal_delta totals key delta =
     (let old = (case totals key of None \<Rightarrow> ''0'' | Some t \<Rightarrow> t) in
      and_then (add_exact_decimals old delta) (\<lambda>s. Inr (totals(key \<mapsto> s))))"

section \<open>The importer reads what the server reads\<close>

definition exact_value :: "exact_decimal \<Rightarrow> rat" where
  "exact_value d = (if xd_negative d then - 1 else 1) * of_nat (digits_value (xd_digits d)) / 10 ^ xd_scale d"

definition exact_ok :: "exact_decimal \<Rightarrow> bool" where
  "exact_ok d \<longleftrightarrow> list_all is_digit (xd_digits d) \<and> xd_digits d \<noteq> [] \<and> xd_scale d \<le> 10000"

lemma zero_digit [simp]: "is_digit CHR ''0''" "digit_value CHR ''0'' = 0"
  by (simp_all add: is_digit_def digit_value_def)

lemma zeros_digits [simp]: "list_all is_digit (replicate n CHR ''0'')"
  by (induction n) simp_all

lemma digits_value_zero [simp]: "digits_value ''0'' = 0"
  by (simp add: digits_value_def)

lemma list_all_dropWhile: "list_all P xs \<Longrightarrow> list_all P (dropWhile Q xs)"
  by (induction xs) auto

lemma digits_value_dropWhile: "digits_value (dropWhile (\<lambda>c. c = CHR ''0'') s) = digits_value s"
  by (induction s) (simp_all add: digits_value_Cons)

lemma trim_leading_zeros [simp]:
  "digits_value (trim_leading_zeros s) = digits_value s" "trim_leading_zeros s \<noteq> []"
  "list_all is_digit s \<Longrightarrow> list_all is_digit (trim_leading_zeros s)"
proof -
  have "digits_value s = 0" if "dropWhile (\<lambda>c. c = CHR ''0'') s = []"
    using digits_value_dropWhile [of s] that by simp
  then show "digits_value (trim_leading_zeros s) = digits_value s"
    by (cases "dropWhile (\<lambda>c. c = CHR ''0'') s = []") (simp_all add: trim_leading_zeros_def digits_value_dropWhile digits_value_Cons)
  show "trim_leading_zeros s \<noteq> []" by (simp add: trim_leading_zeros_def Let_def)
  show "list_all is_digit (trim_leading_zeros s)" if "list_all is_digit s"
    using list_all_dropWhile [OF that] by (simp add: trim_leading_zeros_def Let_def)
qed

definition plain_mantissa :: "string \<Rightarrow> bool" where
  "plain_mantissa m \<longleftrightarrow> list_all (\<lambda>c. c = CHR ''.'' \<or> is_digit c) m \<and> length (filter (\<lambda>c. c = CHR ''.'') m) \<le> 1"

lemma no_point: "list_all is_digit m \<Longrightarrow> filter (\<lambda>c. c = CHR ''.'') m = [] \<and> filter (\<lambda>c. c \<noteq> CHR ''.'') m = m"
  by (induction m) auto

lemma scan_plain:
  "plain_mantissa m \<Longrightarrow> scan_mantissa m False f acc = Inr (f + int (fraction_digits m), acc @ filter (\<lambda>c. c \<noteq> CHR ''.'') m)"
proof (induction m arbitrary: acc)
  case (Cons c m)
  show ?case
  proof (cases "c = CHR ''.''")
    case True
    with Cons.prems have "list_all is_digit m"
      by (auto simp: plain_mantissa_def list_all_iff filter_empty_conv)
    with True scan_mantissa_digits [of m "[]" True f acc] no_point [of m] show ?thesis
      by (simp add: fraction_digits_def)
  next
    case False
    with Cons.prems have "is_digit c" "plain_mantissa m" by (simp_all add: plain_mantissa_def)
    with Cons.IH [of "acc @ [c]"] False show ?thesis by (simp add: fraction_digits_def)
  qed
qed (simp add: fraction_digits_def)

lemma scan_dotted: "scan_mantissa m True f acc = Inr x \<Longrightarrow> list_all is_digit m"
  by (induction m arbitrary: f acc) (auto split: if_splits)

lemma scan_plain_iff: "(\<exists>x. scan_mantissa m False f acc = Inr x) \<longleftrightarrow> plain_mantissa m"
proof
  show "\<exists>x. scan_mantissa m False f acc = Inr x" if "plain_mantissa m" using scan_plain [OF that] by blast
  assume "\<exists>x. scan_mantissa m False f acc = Inr x"
  then show "plain_mantissa m"
  proof (induction m arbitrary: f acc)
    case (Cons c m)
    show ?case
    proof (cases "c = CHR ''.''")
      case True
      with Cons.prems have m: "list_all is_digit m" by (auto dest: scan_dotted)
      with True no_point [OF m] show ?thesis by (auto simp: plain_mantissa_def list_all_iff)
    next
      case False
      with Cons.prems have "is_digit c" "\<exists>x. scan_mantissa m False f (acc @ [c]) = Inr x" by (auto split: if_splits)
      with Cons.IH [of f "acc @ [c]"] False show ?thesis by (simp add: plain_mantissa_def)
    qed
  qed (simp add: plain_mantissa_def)
qed

lemma filter_digits:
  assumes "plain_mantissa m"
  shows "filter is_digit m = filter (\<lambda>c. c \<noteq> CHR ''.'') m"
proof -
  have "list_all (\<lambda>c. c = CHR ''.'' \<or> is_digit c) m" using assms by (simp add: plain_mantissa_def)
  moreover have "\<not> is_digit CHR ''.''" by (simp add: is_digit_def)
  ultimately show ?thesis by (induction m) auto
qed

lemma exact_of_value:
  assumes "exact_of neg m x = Inr e" "plain_mantissa m"
  shows "\<exists>d. finish_decimal neg (filter (\<lambda>c. c \<noteq> CHR ''.'') m) (int (fraction_digits m) - x) = Inr d \<and> dec_value d = exact_value e"
    and "exact_ok e"
proof -
  show "\<exists>d. finish_decimal neg (filter (\<lambda>c. c \<noteq> CHR ''.'') m) (int (fraction_digits m) - x) = Inr d \<and> dec_value d = exact_value e"
    using assms(1) by (auto simp: exact_of_def finish_decimal_def Let_def dec_value_normalized split: if_splits)
      (simp_all add: dec_value_def exact_value_def)
  have "list_all is_digit (filter (\<lambda>c. c \<noteq> CHR ''.'') m)" using assms(2) by (auto simp: plain_mantissa_def list_all_iff)
  then show "exact_ok e" using assms(1)
    by (auto simp: exact_of_def exact_ok_def Let_def list_all_append split: if_splits)
qed


lemma valid_text_iff:
  "valid_decimal_text t \<longleftrightarrow> trim t \<noteq> [] \<and> (let parts = split_on is_exponent_mark (snd (split_sign (trim t))) in
     length parts \<le> 2 \<and> (case tl parts of [] \<Rightarrow> True | item # _ \<Rightarrow> parse_i32 item \<noteq> None)
     \<and> plain_mantissa (hd parts) \<and> filter (\<lambda>c. c \<noteq> CHR ''.'') (hd parts) \<noteq> [])"
proof -
  have "list_all (\<lambda>c. c = CHR ''.'' \<or> is_digit c) m \<and> filter is_digit m \<noteq> [] \<and> length (filter (\<lambda>c. c = CHR ''.'') m) \<le> 1
      \<longleftrightarrow> plain_mantissa m \<and> filter (\<lambda>c. c \<noteq> CHR ''.'') m \<noteq> []" for m
    using filter_digits [of m] by (auto simp: plain_mantissa_def)
  then show ?thesis unfolding valid_decimal_text_def Let_def by simp
qed

lemma parse_exact_value:
  assumes "parse_exact_decimal t = Inr e"
  shows "\<exists>d. decimal_parse t = Inr d \<and> dec_value d = exact_value e" "exact_ok e"
proof -
  obtain neg rest where sign: "split_sign (trim t) = (neg, rest)" by (cases "split_sign (trim t)")
  let ?parts = "split_on is_exponent_mark rest"
  from assms sign have v: "trim t \<noteq> []" "length ?parts \<le> 2" "case tl ?parts of [] \<Rightarrow> True | item # _ \<Rightarrow> parse_i32 item \<noteq> None"
    "plain_mantissa (hd ?parts)" "filter (\<lambda>c. c \<noteq> CHR ''.'') (hd ?parts) \<noteq> []"
    by (auto simp: parse_exact_decimal_def valid_text_iff Let_def split: if_splits)
  from assms sign v obtain x where x: "parse_exponent ?parts = Inr x" "exact_of neg (hd ?parts) x = Inr e"
    by (auto simp: parse_exact_decimal_def parse_exponent_def result_simps not_less split: if_splits list.splits)
  note ex = exact_of_value [OF x(2) v(4)]
  then show "\<exists>d. decimal_parse t = Inr d \<and> dec_value d = exact_value e" "exact_ok e"
    using v x(1) scan_plain [OF v(4), of 0 "[]"] by (auto simp: decimal_parse_def sign Let_def)
qed

lemma parse_exact_total:
  assumes "decimal_parse t = Inr d"
  shows "\<exists>e. parse_exact_decimal t = Inr e"
proof -
  obtain neg rest where sign: "split_sign (trim t) = (neg, rest)" by (cases "split_sign (trim t)")
  let ?parts = "split_on is_exponent_mark rest"
  from assms obtain x f ds where x: "trim t \<noteq> []" "parse_exponent ?parts = Inr x" "scan_mantissa (hd ?parts) False 0 [] = Inr (f, ds)"
    "ds \<noteq> []" "finish_decimal neg ds (f - x) = Inr d"
    by (auto simp: decimal_parse_def sign Let_def result_simps split: if_splits)
  from x(3) scan_plain_iff have m: "plain_mantissa (hd ?parts)" by blast
  with x(3) scan_plain [OF m, of 0 "[]"] have ds: "f = int (fraction_digits (hd ?parts))" "ds = filter (\<lambda>c. c \<noteq> CHR ''.'') (hd ?parts)" by simp_all
  from x(2) have e: "length ?parts \<le> 2" "case tl ?parts of [] \<Rightarrow> True | item # _ \<Rightarrow> parse_i32 item \<noteq> None"
    "(case tl ?parts of [] \<Rightarrow> Inr 0 | item # _ \<Rightarrow> ok_or (parse_i32 item) ''decimal exponent is out of range'') = Inr x" "\<bar>x\<bar> \<le> 10000"
    by (auto simp: parse_exponent_def result_simps not_less split: if_splits list.splits)
  have "valid_decimal_text t" using x(1,4) e(1,2) m by (simp add: valid_text_iff sign ds)
  moreover have "\<exists>e. exact_of neg (hd ?parts) x = Inr e"
    using x(5) by (auto simp: exact_of_def finish_decimal_def Let_def ds split: if_splits)
  ultimately show ?thesis using e(3,4) by (auto simp: parse_exact_decimal_def sign)
qed

section \<open>The importer prints what the server prints\<close>

lemma plain_text_layout:
  "plain_text n s = (let p = replicate (s + 1 - length (nat_to_string n)) CHR ''0'' @ nat_to_string n in
     take (length p - s) p @ (if s = 0 then [] else CHR ''.'' # drop (length p - s) p))"
  using length_nat_to_string_pos [of n]
  by (auto simp: plain_text_def decimal_format_def Let_def not_le Suc_diff_le simp del: length_greater_0_conv)

lemma plain_text_Suc: "plain_text n (Suc s) = plain_text (n div 10) s @ (if s = 0 then ''.'' else []) @ [digit_char (n mod 10)]"
proof -
  let ?p = "\<lambda>n s. replicate (s + 1 - length (nat_to_string n)) CHR ''0'' @ nat_to_string n"
  have "?p n (Suc s) = ?p (n div 10) s @ [digit_char (n mod 10)]"
  proof (cases "n < 10")
    case True
    then have "nat_to_string n = [digit_char n]" "nat_to_string (n div 10) = ''0''" "n mod 10 = n"
      by (simp_all add: nat_to_string.simps [of n] nat_to_string.simps [of 0] digit_char_eval)
    then show ?thesis by (simp add: replicate_append_same)
  next
    case False
    then have "nat_to_string n = nat_to_string (n div 10) @ [digit_char (n mod 10)]" by (simp add: nat_to_string.simps [of n])
    then show ?thesis by simp
  qed
  moreover have "s < length (?p (n div 10) s)" using length_nat_to_string_pos [of "n div 10"] by (simp del: length_greater_0_conv)
  ultimately show ?thesis by (simp add: plain_text_layout Let_def)
qed

lemma digit_char_zero: "k < 10 \<Longrightarrow> digit_char k = CHR ''0'' \<longleftrightarrow> k = 0"
  by (metis digit_value_digit_char zero_digit(2) digit_char_eval(1))

lemma drop_fraction_zeros_plain:
  assumes "0 < s"
  shows "drop_fraction_zeros (plain_text n s) = decimal_format (decimal_normalized \<lparr>coefficient = int n, scale = s\<rparr>)"
  using assms
proof (induction s arbitrary: n)
  case (Suc s)
  have c: "int n smod 10 = int (n mod 10)" "int n sdiv 10 = int (n div 10)"
    by (simp_all add: smod_mod_positive sdiv_div_nonneg zmod_int zdiv_int)
  show ?case
  proof (cases "n mod 10 = 0")
    case False
    then have d: "digit_char (n mod 10) \<noteq> CHR ''0''" by (simp add: digit_char_zero)
    have "is_digit (digit_char (n mod 10))" by simp
    then have "digit_char (n mod 10) \<noteq> CHR ''.''" by auto
    with d have "drop_fraction_zeros (plain_text n (Suc s)) = plain_text n (Suc s)"
      by (simp add: drop_fraction_zeros_def plain_text_Suc ends_with_def starts_with_def)
    with False show ?thesis by (simp add: decimal_normalized_def c plain_text_def)
  next
    case True
    then have zero: "digit_char (n mod 10) = CHR ''0''" by (simp add: digit_char_eval)
    have step: "decimal_normalized \<lparr>coefficient = int n, scale = Suc s\<rparr> = decimal_normalized \<lparr>coefficient = int (n div 10), scale = s\<rparr>"
      using True by (simp add: decimal_normalized_def c)
    show ?thesis
    proof (cases "s = 0")
      case True
      have "drop_fraction_zeros (plain_text n (Suc s)) = plain_text (n div 10) 0"
        by (simp add: plain_text_Suc zero True drop_fraction_zeros_def ends_with_def starts_with_def)
      then show ?thesis unfolding step by (simp add: True decimal_normalized_def plain_text_def)
    next
      case False
      then have "drop_fraction_zeros (plain_text n (Suc s)) = drop_fraction_zeros (plain_text (n div 10) s)"
        by (simp add: plain_text_Suc zero drop_fraction_zeros_def)
      with Suc.IH [of "n div 10"] False show ?thesis unfolding step by simp
    qed
  qed
qed simp

text \<open>Digits without leading zeros are the printed number.\<close>

lemma trimmed_digits:
  assumes "list_all is_digit s" "s \<noteq> []"
  shows "trim_leading_zeros s = nat_to_string (digits_value s)"
proof -
  have printed: "ds = nat_to_string (digits_value ds)" if "list_all is_digit ds" "ds \<noteq> []" "hd ds \<noteq> CHR ''0'' \<or> length ds = 1" for ds
    using that
  proof (induction ds rule: rev_induct)
    case (snoc d ds)
    have d: "digit_value d < 10" "digit_char (digit_value d) = d" using snoc.prems(1) by simp_all
    show ?case
    proof (cases "ds = []")
      case True
      with d show ?thesis by (simp add: digits_value_def nat_to_string.simps)
    next
      case False
      with snoc have ds: "ds = nat_to_string (digits_value ds)" "hd ds \<noteq> CHR ''0''" by simp_all
      have "digits_value ds \<noteq> 0"
      proof
        assume "digits_value ds = 0"
        with ds(1) have "ds = ''0''" by (simp add: nat_to_string.simps digit_char_eval)
        with ds(2) show False by simp
      qed
      then have "\<not> digits_value (ds @ [d]) < 10" by simp
      moreover have "(10 * digits_value ds + digit_value d) div 10 = digits_value ds" "(10 * digits_value ds + digit_value d) mod 10 = digit_value d"
        using d(1) by simp_all
      ultimately show ?thesis using ds(1) d(2) by (subst nat_to_string.simps) simp
    qed
  qed simp
  have "hd (trim_leading_zeros s) \<noteq> CHR ''0'' \<or> length (trim_leading_zeros s) = 1"
    using hd_dropWhile [of "\<lambda>c. c = CHR ''0''" s] by (auto simp: trim_leading_zeros_def Let_def)
  from printed [OF _ _ this] assms show ?thesis by simp
qed

lemma normalized_zero: "normalized_loop 0 s = \<lparr>coefficient = 0, scale = 0\<rparr>"
  by (induction s) simp_all

lemma normalized_negated: "normalized_loop (- c) s = decimal_negated (normalized_loop c s)"
  by (induction s arbitrary: c) (simp_all add: decimal_negated_def smod_10_eq_0_iff signed_divide_int_def)

lemma decimal_format_negated: "0 < coefficient d \<Longrightarrow> decimal_format (decimal_negated d) = ''-'' @ decimal_format d"
  by (simp add: decimal_format_plain decimal_negated_def)

lemma format_exact:
  assumes "exact_ok e"
  shows "\<exists>d. canonical d \<and> format_exact_decimal e = decimal_format d \<and> dec_value d = exact_value e"
proof -
  let ?n = "digits_value (xd_digits e)" and ?s = "xd_scale e"
  let ?m = "decimal_normalized \<lparr>coefficient = int ?n, scale = ?s\<rparr>"
  let ?d = "decimal_normalized \<lparr>coefficient = (if xd_negative e then - int ?n else int ?n), scale = ?s\<rparr>"
  have digits: "trim_leading_zeros (xd_digits e) = nat_to_string ?n" using assms by (intro trimmed_digits) (simp_all add: exact_ok_def)
  have zero: "nat_to_string ?n = ''0'' \<longleftrightarrow> ?n = 0"
    using nat_to_string_inject [of ?n 0] by (simp add: nat_to_string.simps [of 0] digit_char_eval)
  have m: "decimal_format ?m = (if 0 < ?s then drop_fraction_zeros (plain_text ?n ?s) else nat_to_string ?n)"
    by (simp add: drop_fraction_zeros_plain) (simp add: decimal_normalized_def decimal_format_def Let_def)
  have "format_exact_decimal e = decimal_format ?d"
  proof (cases "?n = 0")
    case True
    then have "format_exact_decimal e = ''0''" using zero by (simp add: format_exact_decimal_def digits Let_def)
    with True show ?thesis
      by (simp add: decimal_normalized_def normalized_zero decimal_format_def Let_def nat_to_string.simps digit_char_eval)
  next
    case False
    then have "format_exact_decimal e = (if xd_negative e then ''-'' else []) @ decimal_format ?m"
      using zero unfolding m by (auto simp: format_exact_decimal_def digits Let_def plain_text_layout)
    moreover have "0 < dec_value ?m" using False by (simp add: dec_value_normalized) (simp add: dec_value_def)
    then have "0 < coefficient ?m" by (simp add: dec_value_def zero_less_divide_iff)
    ultimately show ?thesis
      by (simp add: decimal_normalized_def normalized_negated decimal_format_negated)
  qed
  moreover have "canonical ?d" using assms by (intro canonical_normalized) (simp add: exact_ok_def)
  moreover have "dec_value ?d = exact_value e" by (simp add: dec_value_normalized) (simp add: dec_value_def exact_value_def)
  ultimately show ?thesis by blast
qed

section \<open>Digit by digit\<close>

lemma digits_value_rev_Cons [simp]: "digits_value (rev (c # cs)) = 10 * digits_value (rev cs) + digit_value c"
  by simp

lemma carried: "s < 20 \<Longrightarrow> s mod 10 + 10 * of_bool (10 \<le> s) = (s :: nat)"
  by (auto simp: le_mod_geq not_le)

lemma add_reversed_value:
  assumes "list_all is_digit l" "list_all is_digit r"
  shows "digits_value (rev (add_reversed l r carry)) = digits_value (rev l) + digits_value (rev r) + of_bool carry
    \<and> list_all is_digit (add_reversed l r carry)"
  using assms
proof (induction l r carry rule: add_reversed.induct)
  case (1 carry)
  then show ?case by (simp add: digits_value_def digit_value_def is_digit_def)
next
  case (2 a l carry)
  define s where "s = digit_value a + of_bool carry"
  have "digit_value a < 10" "digit_value a < 10" using 2 by simp_all
  with carried [of s] have s: "s mod 10 + 10 * of_bool (10 \<le> s) = digit_value a + of_bool carry" by (simp add: s_def of_bool_def)
  have eq: "add_reversed (a # l) [] carry = digit_char (s mod 10) # add_reversed l [] (10 \<le> s)" by (simp add: s_def Let_def)
  from "2.IH" [OF s_def] "2.prems" s show ?case unfolding eq by simp
next
  case (3 b r carry)
  define s where "s = digit_value b + of_bool carry"
  have "digit_value b < 10" "digit_value b < 10" using 3 by simp_all
  with carried [of s] have s: "s mod 10 + 10 * of_bool (10 \<le> s) = digit_value b + of_bool carry" by (simp add: s_def of_bool_def)
  have eq: "add_reversed [] (b # r) carry = digit_char (s mod 10) # add_reversed [] r (10 \<le> s)" by (simp add: s_def Let_def)
  from "3.IH" [OF s_def] "3.prems" s show ?case unfolding eq by simp
next
  case (4 a l b r carry)
  define s where "s = digit_value a + digit_value b + of_bool carry"
  have "digit_value a < 10" "digit_value b < 10" using 4 by simp_all
  with carried [of s] have s: "s mod 10 + 10 * of_bool (10 \<le> s) = digit_value a + digit_value b + of_bool carry" by (simp add: s_def of_bool_def)
  have eq: "add_reversed (a # l) (b # r) carry = digit_char (s mod 10) # add_reversed l r (10 \<le> s)" by (simp add: s_def Let_def)
  from "4.IH" [OF s_def] "4.prems" s show ?case unfolding eq by simp
qed

lemma add_magnitudes_value:
  assumes "list_all is_digit l" "list_all is_digit r"
  shows "digits_value (add_magnitudes l r) = digits_value l + digits_value r" "list_all is_digit (add_magnitudes l r)"
  using add_reversed_value [of "rev l" "rev r" False] assms by (simp_all add: add_magnitudes_def)

lemma subtract_reversed_value:
  assumes "list_all is_digit l" "list_all is_digit r" "borrow \<in> {0, 1}"
    and "int (digits_value (rev r)) + borrow \<le> int (digits_value (rev l))"
  shows "int (digits_value (rev (subtract_reversed l r borrow))) = int (digits_value (rev l)) - int (digits_value (rev r)) - borrow
    \<and> list_all is_digit (subtract_reversed l r borrow)"
  using assms
proof (induction l r borrow rule: subtract_reversed.induct)
  case (1 r borrow)
  then show ?case by auto
next
  case (2 a l r borrow)
  define b where "b = (case r of [] \<Rightarrow> 0 | b # _ \<Rightarrow> int (digit_value b))"
  define d where "d = int (digit_value a) - borrow - b"
  have r: "int (digits_value (rev r)) = 10 * int (digits_value (rev (tl r))) + b" "list_all is_digit (tl r)" "0 \<le> b" "b < 10"
    using 2(4) by (cases r; simp add: b_def)+
  have a: "digit_value a < 10" "list_all is_digit l" using 2(3) by simp_all
  have l: "int (digits_value (rev (a # l))) = 10 * int (digits_value (rev l)) + int (digit_value a)" by simp
  note IH = 2(1,2) [OF refl, folded b_def, folded d_def]
  show ?case
  proof (cases "d < 0")
    case True
    then have "int (digits_value (rev (tl r))) + 1 \<le> int (digits_value (rev l))"
      using 2(6) r(1) unfolding l by (simp add: d_def)
    from IH(1) [OF True a(2) r(2) _ this] have "int (digits_value (rev (subtract_reversed l (tl r) 1))) =
        int (digits_value (rev l)) - int (digits_value (rev (tl r))) - 1" "list_all is_digit (subtract_reversed l (tl r) 1)" by simp_all
    moreover have "subtract_reversed (a # l) r borrow = digit_char (nat (d + 10)) # subtract_reversed l (tl r) 1"
      using True by (simp add: d_def b_def Let_def)
    moreover have "0 \<le> d + 10" "nat (d + 10) < 10" using True 2(5) a(1) r(3,4) by (auto simp: d_def)
    ultimately show ?thesis using r(1) unfolding l by (simp add: d_def)
  next
    case False
    then have "int (digits_value (rev (tl r))) + 0 \<le> int (digits_value (rev l))"
      using 2(5,6) r(1,3) a(1) unfolding l by (auto simp: d_def)
    from IH(2) [OF False a(2) r(2) _ this] have "int (digits_value (rev (subtract_reversed l (tl r) 0))) =
        int (digits_value (rev l)) - int (digits_value (rev (tl r)))" "list_all is_digit (subtract_reversed l (tl r) 0)" by simp_all
    moreover have "subtract_reversed (a # l) r borrow = digit_char (nat d) # subtract_reversed l (tl r) 0"
      using False by (simp add: d_def b_def Let_def)
    moreover have "nat d < 10" using False 2(5) a(1) r(3) by (auto simp: d_def)
    ultimately show ?thesis using r(1) False unfolding l by (simp add: d_def)
  qed
qed

lemma pop_zeros: "digits_value (pop_zeros s) = digits_value s" "list_all is_digit s \<Longrightarrow> list_all is_digit (pop_zeros s)"
  by (induction s rule: pop_zeros.induct) (simp_all add: digits_value_Cons)

lemma subtract_magnitudes_value:
  assumes "list_all is_digit l" "list_all is_digit r" "digits_value r \<le> digits_value l"
  shows "digits_value (subtract_magnitudes l r) = digits_value l - digits_value r" "list_all is_digit (subtract_magnitudes l r)"
proof -
  have "int (digits_value (rev (subtract_reversed (rev l) (rev r) 0))) = int (digits_value l) - int (digits_value r)"
    "list_all is_digit (subtract_reversed (rev l) (rev r) 0)"
    using subtract_reversed_value [of "rev l" "rev r" 0] assms by simp_all
  then show "digits_value (subtract_magnitudes l r) = digits_value l - digits_value r" "list_all is_digit (subtract_magnitudes l r)"
    unfolding subtract_magnitudes_def pop_zeros(1) by (arith, simp add: pop_zeros)
qed

lemma nat_to_string_length: "length (nat_to_string m) < length (nat_to_string n) \<Longrightarrow> m < n"
proof (induction n arbitrary: m rule: nat_to_string.induct)
  case (1 n)
  show ?case
  proof (cases "n < 10")
    case True
    then have "length (nat_to_string n) = 1" by (simp add: nat_to_string.simps)
    with "1.prems" show ?thesis using length_nat_to_string_pos [of m] by simp
  next
    case False
    then have n: "length (nat_to_string n) = Suc (length (nat_to_string (n div 10)))" by (simp add: nat_to_string.simps [of n])
    show ?thesis
    proof (cases "m < 10")
      case m: False
      then have "length (nat_to_string m) = Suc (length (nat_to_string (m div 10)))" by (simp add: nat_to_string.simps [of m])
      with n "1.prems" have "m div 10 < n div 10" using "1.IH" [OF False, of "m div 10"] by simp
      then show ?thesis by simp
    qed (use False in simp)
  qed
qed

lemma compare_magnitudes_value:
  assumes "list_all is_digit l" "list_all is_digit r" "l \<noteq> []" "r \<noteq> []"
  shows "compare_magnitudes l r = (if digits_value l < digits_value r then Less else if digits_value r < digits_value l then Greater else Equal)"
proof -
  let ?l = "nat_to_string (digits_value l)" and ?r = "nat_to_string (digits_value r)"
  have "?l < ?r \<longleftrightarrow> digits_value l < digits_value r" "?r < ?l \<longleftrightarrow> digits_value r < digits_value l" if "length ?l = length ?r"
    using that digits_less_iff [of ?l ?r] digits_less_iff [of ?r ?l] by simp_all
  with nat_to_string_length [of "digits_value l" "digits_value r"] nat_to_string_length [of "digits_value r" "digits_value l"]
  show ?thesis using assms by (auto simp: compare_magnitudes_def trimmed_digits Let_def not_less le_less)
qed

text \<open>The sum of two parsed decimals, at their common scale.\<close>

lemma digits_value_scaled [simp]: "digits_value (ds @ replicate n CHR ''0'') = digits_value ds * 10 ^ n"
  by (simp add: digits_value_append)


lemma add_exact_value:
  assumes "add_exact_decimals l r = Inr t"
  obtains a b c where "parse_exact_decimal l = Inr a" "parse_exact_decimal r = Inr b" "t = format_exact_decimal c" "exact_ok c"
    "exact_value c = exact_value a + exact_value b"
proof -
  from assms obtain a b where p: "parse_exact_decimal l = Inr a" "parse_exact_decimal r = Inr b"
    by (auto simp: add_exact_decimals_def result_simps)
  note ok = parse_exact_value(2) [OF p(1)] parse_exact_value(2) [OF p(2)]
  define s where "s = max (xd_scale a) (xd_scale b)"
  define ls where "ls = xd_digits a @ replicate (s - xd_scale a) CHR ''0''"
  define rs where "rs = xd_digits b @ replicate (s - xd_scale b) CHR ''0''"
  have digits: "list_all is_digit ls" "list_all is_digit rs" "ls \<noteq> []" "rs \<noteq> []" using ok by (simp_all add: ls_def rs_def exact_ok_def)
  have vals: "exact_value a = (if xd_negative a then - 1 else 1) * of_nat (digits_value ls) / 10 ^ s"
    "exact_value b = (if xd_negative b then - 1 else 1) * of_nat (digits_value rs) / 10 ^ s"
  proof -
    have scaled: "of_nat (digits_value (xd_digits x @ replicate (s - xd_scale x) CHR ''0'')) / (10 :: rat) ^ s
        = of_nat (digits_value (xd_digits x)) / 10 ^ xd_scale x" if "xd_scale x \<le> s" for x
    proof -
      have "(10 :: rat) ^ s = 10 ^ (s - xd_scale x) * 10 ^ xd_scale x" using that by (simp flip: power_add)
      then show ?thesis by simp
    qed
    show "exact_value a = (if xd_negative a then - 1 else 1) * of_nat (digits_value ls) / 10 ^ s"
      "exact_value b = (if xd_negative b then - 1 else 1) * of_nat (digits_value rs) / 10 ^ s"
      using scaled [of a] scaled [of b] by (simp_all add: exact_value_def ls_def rs_def s_def)
  qed
  define sign digits where "sign = (if xd_negative a = xd_negative b then xd_negative a
      else case compare_magnitudes ls rs of Greater \<Rightarrow> xd_negative a | Less \<Rightarrow> xd_negative b | Equal \<Rightarrow> False)"
    and "digits = (if xd_negative a = xd_negative b then add_magnitudes ls rs
      else case compare_magnitudes ls rs of Greater \<Rightarrow> subtract_magnitudes ls rs | Less \<Rightarrow> subtract_magnitudes rs ls | Equal \<Rightarrow> ''0'')"
  let ?c = "\<lparr>xd_negative = sign, xd_digits = trim_leading_zeros digits, xd_scale = s\<rparr>"
  have d: "list_all is_digit digits"
    using digits by (auto simp: digits_def compare_magnitudes_value add_magnitudes_value subtract_magnitudes_value)
  have "exact_value ?c = exact_value a + exact_value b"
    unfolding vals using digits
    by (auto simp: exact_value_def digits_def sign_def compare_magnitudes_value add_magnitudes_value subtract_magnitudes_value
        add_divide_distrib [symmetric] of_nat_diff not_less diff_divide_distrib [symmetric])
  moreover have "exact_ok ?c" using ok d by (simp add: exact_ok_def s_def)
  moreover have "t = format_exact_decimal ?c"
    using assms p by (auto simp: add_exact_decimals_def Let_def s_def [symmetric] ls_def [symmetric] rs_def [symmetric] sign_def digits_def
        split: if_splits ordering.splits)
  ultimately show ?thesis using that p by blast
qed

section \<open>The arithmetic of the importer and of the server\<close>

lemma add_exact_iff: "add_exact_decimals l r = Inr t \<longleftrightarrow> add_decimal_text l r = Inr t"
proof -
  have sum: "add_decimal_text l r = Inr u" if u: "add_exact_decimals l r = Inr u" for u
  proof (rule add_exact_value [OF u])
    fix a b c
    assume c: "parse_exact_decimal l = Inr a" "parse_exact_decimal r = Inr b" "u = format_exact_decimal c" "exact_ok c"
      "exact_value c = exact_value a + exact_value b"
    from parse_exact_value(1) [OF c(1)] parse_exact_value(1) [OF c(2)] obtain da db where
      d: "decimal_parse l = Inr da" "decimal_parse r = Inr db" "dec_value da = exact_value a" "dec_value db = exact_value b" by blast
    from format_exact [OF c(4)] obtain d where e: "canonical d" "format_exact_decimal c = decimal_format d" "dec_value d = exact_value c" by blast
    have "d = decimal_add da db"
      using d e c(5) by (intro canonical_unique) (simp_all add: canonical_add parse_canonical dec_value_add)
    with c(3) d e show "add_decimal_text l r = Inr u" by (simp add: add_decimal_text_def)
  qed
  moreover have "\<exists>u. add_exact_decimals l r = Inr u" if "add_decimal_text l r = Inr t"
  proof -
    from that obtain da db where "decimal_parse l = Inr da" "decimal_parse r = Inr db" by (auto simp: add_decimal_text_def result_simps)
    from parse_exact_total [OF this(1)] parse_exact_total [OF this(2)] show ?thesis
      by (auto simp: add_exact_decimals_def Let_def split: prod.split)
  qed
  ultimately show ?thesis by auto
qed

lemma exact_text:
  assumes "parse_exact_decimal t = Inr e"
  shows "text_value t = exact_value e" "amount t"
  using parse_exact_value(1) [OF assms] by (auto simp: amount_iff)

lemma format_exact_text:
  assumes "exact_ok e"
  shows "canonical_text (format_exact_decimal e)" "text_value (format_exact_decimal e) = exact_value e"
  using format_exact [OF assms] by auto

lemma some_digit: "list_all is_digit ds \<Longrightarrow> list_ex (\<lambda>c. c \<noteq> CHR ''0'') ds \<longleftrightarrow> 0 < digits_value ds"
proof (induction ds)
  case (Cons c cs)
  have "is_digit c" using Cons.prems by simp
  then have "digit_value c = 0 \<longleftrightarrow> c = CHR ''0''" by (metis digit_char_digit_value digit_char_eval(1) zero_digit(2))
  with Cons show ?case by (auto simp: digits_value_Cons)
qed simp

lemma decimal_is_zero_iff:
  assumes "decimal_is_zero t = Inr b"
  shows "b \<longleftrightarrow> text_value t = 0"
proof -
  from assms obtain e where e: "parse_exact_decimal t = Inr e" "b \<longleftrightarrow> \<not> list_ex (\<lambda>c. c \<noteq> CHR ''0'') (xd_digits e)"
    by (auto simp: decimal_is_zero_def result_simps)
  with parse_exact_value(2) [OF e(1)] show ?thesis by (simp add: exact_text(1) [OF e(1)] exact_value_def exact_ok_def some_digit)
qed

lemma decimal_absolute_value: "decimal_absolute t = Inr u \<Longrightarrow> canonical_text u \<and> text_value u = \<bar>text_value t\<bar>"
proof -
  assume "decimal_absolute t = Inr u"
  then obtain e where e: "parse_exact_decimal t = Inr e" "u = format_exact_decimal (e\<lparr>xd_negative := False\<rparr>)"
    by (auto simp: decimal_absolute_def result_simps)
  have "exact_ok (e\<lparr>xd_negative := False\<rparr>)" using parse_exact_value(2) [OF e(1)] by (simp add: exact_ok_def)
  from format_exact_text [OF this] show ?thesis by (simp add: e(2) exact_text(1) [OF e(1)] exact_value_def abs_mult)
qed

lemma negate_decimal_iff: "negate_decimal t = Inr u \<longleftrightarrow> subtract_decimal_text ''0'' t = Inr u"
proof -
  have neg: "subtract_decimal_text ''0'' t = Inr v" if v: "negate_decimal t = Inr v" for v
  proof -
    from v obtain e where e: "parse_exact_decimal t = Inr e"
      and u: "v = format_exact_decimal (if list_ex (\<lambda>c. c \<noteq> CHR ''0'') (xd_digits e) then e\<lparr>xd_negative := \<not> xd_negative e\<rparr> else e)"
      by (auto simp: negate_decimal_def result_simps)
    note ok = parse_exact_value(2) [OF e]
    let ?n = "if list_ex (\<lambda>c. c \<noteq> CHR ''0'') (xd_digits e) then e\<lparr>xd_negative := \<not> xd_negative e\<rparr> else e"
    have "exact_ok ?n" using ok by (simp add: exact_ok_def)
    note f = format_exact_text [OF this, folded u]
    have "exact_value ?n = - exact_value e" using ok by (auto simp: exact_value_def exact_ok_def some_digit)
    with f(2) have "text_value v = - text_value t" by (simp add: exact_text(1) [OF e])
    moreover obtain w where w: "subtract_decimal_text ''0'' t = Inr w" using money.sub_total [OF money.zero_amt exact_text(2) [OF e]] by blast
    ultimately have "w = v" using money.sub_val [OF w] f(1) by (intro money.canon_unique) (simp_all add: zero_text)
    with w show ?thesis by simp
  qed
  moreover have "\<exists>v. negate_decimal t = Inr v" if "subtract_decimal_text ''0'' t = Inr u"
  proof -
    from money.sub_args [OF that] obtain d where "decimal_parse t = Inr d" by (auto simp: amount_iff)
    from parse_exact_total [OF this] show ?thesis by (auto simp: negate_decimal_def)
  qed
  ultimately show ?thesis by auto
qed

end
