(* ===== verification/ImportValuation.thy ===== *)
theory ImportValuation
  imports ImportDecimal
begin

text \<open>
  The reference valuation of \<open>bin/presto-admin.rs\<close>: the formulas of the workbook on ratios of their own,
  which a shadow run compares with the valuations of the server.
\<close>

section \<open>Ratios\<close>

text \<open>\<open>FormulaRatio\<close> has the fields of \<open>Ratio\<close>.\<close>

definition formula_new :: "int \<Rightarrow> int \<Rightarrow> ratio result" where
  "formula_new n d =
     (if d = 0 then Inl ''The sheet-formula oracle encountered a zero denominator.''
      else if d < 0 then Inr \<lparr>numerator = - n, denominator = - d\<rparr>
      else Inr \<lparr>numerator = n, denominator = d\<rparr>)"

definition formula_one :: ratio where
  "formula_one = \<lparr>numerator = 1, denominator = 1\<rparr>"

definition formula_from_decimal :: "string \<Rightarrow> ratio result" where
  "formula_from_decimal text =
     and_then (parse_exact_decimal text) (\<lambda>decimal.
     let magnitude = int (digits_value (xd_digits decimal)) in
     formula_new (if xd_negative decimal then - magnitude else magnitude) (10 ^ xd_scale decimal))"

definition formula_multiply :: "ratio \<Rightarrow> ratio \<Rightarrow> ratio result" where
  "formula_multiply a b = formula_new (numerator a * numerator b) (denominator a * denominator b)"

definition formula_divide :: "ratio \<Rightarrow> ratio \<Rightarrow> ratio result" where
  "formula_divide a b = formula_new (numerator a * denominator b) (denominator a * numerator b)"

definition formula_rounded :: "ratio \<Rightarrow> int" where
  "formula_rounded r =
     (let scaled = numerator r * 100;
          magnitude = (if scaled < 0 then - scaled else scaled);
          quot = magnitude sdiv denominator r;
          twice_remainder = magnitude smod denominator r * 2;
          exact_half = (twice_remainder = denominator r);
          round_up = denominator r < twice_remainder \<or> (exact_half \<and> quot smod 2 \<noteq> 0);
          rounded = (if round_up then quot + 1 else quot)
      in if scaled < 0 then - rounded else rounded)"

definition round_half_even_2 :: "ratio \<Rightarrow> string" where
  "round_half_even_2 r = format_exact_decimal
     \<lparr>xd_negative = formula_rounded r < 0, xd_digits = nat_to_string (nat \<bar>formula_rounded r\<bar>), xd_scale = 2\<rparr>"

section \<open>The formulas\<close>

definition eq_ignore_case :: "string \<Rightarrow> string \<Rightarrow> bool" where
  "eq_ignore_case a b \<longleftrightarrow> map ascii_lower a = map ascii_lower b"

definition formula_reference_quote :: "string \<Rightarrow> string \<Rightarrow> rate_observation list \<Rightarrow> ratio result" where
  "formula_reference_quote currency as_of observations =
     (if eq_ignore_case currency ''EUR'' then Inr formula_one
      else and_then (ok_or (last_max obs_date
             (filter (\<lambda>r. eq_ignore_case (obs_currency r) currency \<and> obs_date r \<le> as_of) observations))
           ''The formula oracle has no prior FX observation.'') (\<lambda>observation.
         and_then (formula_from_decimal (currency_units_per_eur observation)) (\<lambda>quote.
         if numerator quote \<le> 0 then Inl ''The formula oracle requires positive FX observations.'' else Inr quote)))"

record formula_valuation =
  formula_from_native :: string
  formula_from_eur :: string
  formula_to_native :: string
  formula_to_eur :: string

definition formula_reference_valuation ::
  "string \<Rightarrow> string \<Rightarrow> string \<Rightarrow> string \<Rightarrow> string \<Rightarrow> string \<Rightarrow> rate_observation list \<Rightarrow> formula_valuation result" where
  "formula_reference_valuation amount_text input from_currency to_amount to_currency as_of observations =
     and_then (formula_from_decimal amount_text) (\<lambda>amt.
     and_then (formula_from_decimal to_amount) (\<lambda>received.
     let input = map ascii_upper input; from_currency = map ascii_upper from_currency; to_currency = map ascii_upper to_currency in
     and_then (formula_reference_quote input as_of observations) (\<lambda>input_quote.
     and_then (formula_reference_quote from_currency as_of observations) (\<lambda>from_quote.
     and_then (formula_reference_quote to_currency as_of observations) (\<lambda>to_quote.
     and_then (if input = ''EUR'' then Inr formula_one else formula_from_decimal ''1.02'') (\<lambda>source_adjustment.
     and_then (formula_divide source_adjustment input_quote) (\<lambda>from_eur_rate.
     and_then (if input = from_currency then Inr formula_one
        else and_then (formula_multiply source_adjustment from_quote) (\<lambda>m. formula_divide m input_quote)) (\<lambda>from_native_rate.
     and_then (formula_divide formula_one to_quote) (\<lambda>to_eur_rate.
     and_then (formula_multiply amt from_native_rate) (\<lambda>from_native.
     and_then (formula_multiply amt from_eur_rate) (\<lambda>from_eur.
     and_then (formula_multiply received to_eur_rate) (\<lambda>to_eur.
     Inr \<lparr>formula_from_native = round_half_even_2 from_native, formula_from_eur = round_half_even_2 from_eur,
       formula_to_native = round_half_even_2 received, formula_to_eur = round_half_even_2 to_eur\<rparr>))))))))))))"

section \<open>Ratios of the same value\<close>

lemma formula_new_value:
  assumes "d \<noteq> 0"
  shows "\<exists>r. formula_new n d = Inr r \<and> ratio_ok r \<and> ratio_value r = of_int n / of_int d"
  using assms by (auto simp: formula_new_def ratio_ok_def ratio_value_def)

lemma formula_from_decimal_value:
  assumes "decimal_parse t = Inr d"
  shows "\<exists>r. formula_from_decimal t = Inr r \<and> ratio_ok r \<and> ratio_value r = dec_value d"
proof -
  obtain e where e: "parse_exact_decimal t = Inr e" using parse_exact_total [OF assms] by blast
  have v: "dec_value d = exact_value e" using parse_exact_value(1) [OF e] assms by auto
  show ?thesis
    using formula_new_value [of "10 ^ xd_scale e" "if xd_negative e then - int (digits_value (xd_digits e)) else int (digits_value (xd_digits e))"]
    by (auto simp: formula_from_decimal_def e v exact_value_def Let_def)
qed

lemma formula_multiply_value:
  "ratio_ok a \<Longrightarrow> ratio_ok b \<Longrightarrow> \<exists>r. formula_multiply a b = Inr r \<and> ratio_ok r \<and> ratio_value r = ratio_value a * ratio_value b"
  using formula_new_value [of "denominator a * denominator b" "numerator a * numerator b"]
  by (simp add: formula_multiply_def ratio_ok_def ratio_value_def)

lemma formula_divide_value:
  "ratio_ok a \<Longrightarrow> ratio_ok b \<Longrightarrow> ratio_value b \<noteq> 0
     \<Longrightarrow> \<exists>r. formula_divide a b = Inr r \<and> ratio_ok r \<and> ratio_value r = ratio_value a / ratio_value b"
  using formula_new_value [of "denominator a * numerator b" "numerator a * denominator b"]
  by (auto simp: formula_divide_def ratio_ok_def ratio_value_def)

lemma half_even_near:
  assumes "ratio_ok r"
  shows "2 * \<bar>of_int (rounded_coefficient r s HalfEven) - ratio_value r * 10 ^ s\<bar> \<le> 1"
    and "2 * \<bar>of_int (rounded_coefficient r s HalfEven) - ratio_value r * 10 ^ s\<bar> = 1 \<Longrightarrow> even (rounded_coefficient r s HalfEven)"
proof -
  let ?k = "rounded_coefficient r s HalfEven"
  let ?x = "of_int ?k - ratio_value r * 10 ^ s :: rat"
  have d: "(0 :: rat) < of_int (denominator r)" using assms by (simp add: ratio_ok_def)
  then have "of_int (?k * denominator r - numerator r * 10 ^ s) = of_int (denominator r) * ?x"
    by (simp add: ratio_value_def field_simps)
  then have scaled: "of_int (2 * \<bar>?k * denominator r - numerator r * 10 ^ s\<bar>) = of_int (denominator r) * (2 * \<bar>?x\<bar>)"
    using d by (simp only: of_int_mult of_int_abs of_int_numeral abs_mult)
  have "2 * \<bar>?k * denominator r - numerator r * 10 ^ s\<bar> \<le> denominator r"
    using assms by (intro rounded_coefficient_nearest) simp_all
  then have "of_int (2 * \<bar>?k * denominator r - numerator r * 10 ^ s\<bar>) \<le> (of_int (denominator r) :: rat)"
    by (rule of_int_le_iff [THEN iffD2])
  with d show "2 * \<bar>?x\<bar> \<le> 1" unfolding scaled by simp
  show "even ?k" if "2 * \<bar>?x\<bar> = 1"
  proof -
    have "of_int (2 * \<bar>?k * denominator r - numerator r * 10 ^ s\<bar>) = (of_int (denominator r) :: rat)" unfolding scaled that by simp
    then have "2 * \<bar>?k * denominator r - numerator r * 10 ^ s\<bar> = denominator r" by (rule of_int_eq_iff [THEN iffD1])
    then show ?thesis by (rule rounded_coefficient_tie_even [OF assms])
  qed
qed

lemma half_even_unique:
  assumes "2 * \<bar>of_int j - x\<bar> \<le> (1 :: rat)" "2 * \<bar>of_int k - x\<bar> \<le> 1"
    and "2 * \<bar>of_int j - x\<bar> = 1 \<Longrightarrow> even j" "2 * \<bar>of_int k - x\<bar> = 1 \<Longrightarrow> even k"
  shows "j = k"
proof (rule ccontr)
  assume "j \<noteq> k"
  have b: "2 * (of_int j - x) \<le> 1" "- 1 \<le> 2 * (of_int j - x)" "2 * (of_int k - x) \<le> 1" "- 1 \<le> 2 * (of_int k - x)"
    using assms(1,2) by (auto simp: abs_if split: if_splits)
  then have "of_int (j - k) \<le> (of_int 1 :: rat)" "of_int (k - j) \<le> (of_int 1 :: rat)" by simp_all
  then have "j - k \<le> 1" "k - j \<le> 1" unfolding of_int_le_iff by simp_all
  with \<open>j \<noteq> k\<close> consider "j = k + 1" | "k = j + 1" by linarith
  then show False
  proof cases
    case 1
    then have "(of_int j :: rat) = of_int k + 1" by simp
    with b have "2 * \<bar>of_int j - x\<bar> = 1" "2 * \<bar>of_int k - x\<bar> = 1" by (auto simp: abs_if)
    with assms(3,4) 1 show False by simp
  next
    case 2
    then have "(of_int k :: rat) = of_int j + 1" by simp
    with b have "2 * \<bar>of_int j - x\<bar> = 1" "2 * \<bar>of_int k - x\<bar> = 1" by (auto simp: abs_if)
    with assms(3,4) 2 show False by simp
  qed
qed

lemma half_even_value:
  assumes "ratio_ok a" "ratio_ok b" "ratio_value a = ratio_value b"
  shows "rounded_coefficient a s HalfEven = rounded_coefficient b s HalfEven"
  by (rule half_even_unique [of _ "ratio_value b * 10 ^ s"])
    (use half_even_near [OF assms(1), of s] half_even_near [OF assms(2), of s] assms(3) in simp_all)

text \<open>The rounding of the reference is the rounding of the server.\<close>

lemma formula_rounded_eq:
  assumes "ratio_ok r"
  shows "formula_rounded r = rounded_coefficient r 2 HalfEven"
proof -
  have d: "0 < denominator r" using assms by (simp add: ratio_ok_def)
  define F where "F = (\<lambda>m. let q = m sdiv denominator r; t = m smod denominator r * 2; e = (t = denominator r);
       u = denominator r < t \<or> (e \<and> q smod 2 \<noteq> 0) in if u then q + 1 else q)"
  have F: "F m = round_magnitude HalfEven m (denominator r)" if "0 \<le> m" for m
    using that d by (auto simp: F_def round_magnitude_def round_increment_def Let_def sdiv_div_nonneg smod_mod_positive)
  have "formula_rounded r = (if numerator r * 100 < 0 then - F (- (numerator r * 100)) else F (numerator r * 100))"
    by (simp only: formula_rounded_def F_def Let_def split: if_split) simp
  with F [of "- (numerator r * 100)"] F [of "numerator r * 100"] show ?thesis
    by (simp add: rounded_coefficient_magnitude [OF d])
qed

lemma round_half_even_2_eq:
  assumes "ratio_ok r" "ratio_ok r'" "ratio_value r = ratio_value r'"
  shows "round_half_even_2 r = decimal_format (ratio_round_decimal r' 2 HalfEven)"
proof -
  let ?k = "rounded_coefficient r' 2 HalfEven"
  have k: "formula_rounded r = ?k" using formula_rounded_eq [OF assms(1)] half_even_value [OF assms] by simp
  let ?e = "\<lparr>xd_negative = ?k < 0, xd_digits = nat_to_string (nat \<bar>?k\<bar>), xd_scale = 2\<rparr>"
  have "exact_ok ?e" by (simp add: exact_ok_def)
  from format_exact [OF this] obtain d where d: "canonical d" "format_exact_decimal ?e = decimal_format d" "dec_value d = exact_value ?e" by blast
  have "exact_value ?e = of_int ?k / 10 ^ 2" by (cases "?k < 0") (simp_all add: exact_value_def)
  with d(1,3) have "d = ratio_round_decimal r' 2 HalfEven"
    by (intro canonical_unique) (simp_all add: canonical_round dec_value_round)
  with d(2) show ?thesis by (simp add: round_half_even_2_def k)
qed

section \<open>The quotes\<close>

definition currencies :: "string set" where
  "currencies = {''EUR'', ''PHP'', ''USD''}"

lemma currency_cases:
  assumes "c \<in> currencies" "c' \<in> currencies"
  shows "eq_ignore_case c c' \<longleftrightarrow> c = c'" "map ascii_upper c = c"
proof -
  have u: "ascii_upper (CHR ''E'') = CHR ''E''" "ascii_upper (CHR ''U'') = CHR ''U''" "ascii_upper (CHR ''R'') = CHR ''R''"
    "ascii_upper (CHR ''P'') = CHR ''P''" "ascii_upper (CHR ''H'') = CHR ''H''" "ascii_upper (CHR ''S'') = CHR ''S''" "ascii_upper (CHR ''D'') = CHR ''D''"
    by code_simp+
  have l: "ascii_lower (CHR ''E'') = CHR ''e''" "ascii_lower (CHR ''U'') = CHR ''u''" "ascii_lower (CHR ''R'') = CHR ''r''"
    "ascii_lower (CHR ''P'') = CHR ''p''" "ascii_lower (CHR ''H'') = CHR ''h''" "ascii_lower (CHR ''S'') = CHR ''s''" "ascii_lower (CHR ''D'') = CHR ''d''"
    by code_simp+
  show "eq_ignore_case c c' \<longleftrightarrow> c = c'" "map ascii_upper c = c"
    using assms by (auto simp: currencies_def eq_ignore_case_def u l)
qed

lemma formula_quote_value:
  assumes "select_prior_rate c as_of obs = Inr s" "decimal_parse (rate_quote s) = Inr d" "c \<in> currencies"
    and "\<forall>r\<in>set obs. obs_currency r \<in> currencies"
  shows "\<exists>q. formula_reference_quote c as_of obs = Inr q \<and> ratio_ok q \<and> ratio_value q = dec_value d"
proof (cases "c = ''EUR''")
  case True
  then have "formula_reference_quote c as_of obs = Inr formula_one" by (simp add: formula_reference_quote_def eq_ignore_case_def)
  moreover have "d = \<lparr>coefficient = 1, scale = 0\<rparr>" using assms(1,2) True by (auto simp: select_prior_rate_def parse_one)
  ultimately show ?thesis by (simp add: formula_one_def ratio_ok_def ratio_value_def dec_value_def)
next
  case False
  have eur: "''EUR'' \<in> currencies" by (simp add: currencies_def)
  have same: "filter (\<lambda>r. eq_ignore_case (obs_currency r) c \<and> obs_date r \<le> as_of) obs = filter (\<lambda>r. obs_currency r = c \<and> obs_date r \<le> as_of) obs"
    using assms(3,4) by (intro filter_cong) (auto simp: currency_cases)
  from assms(1) False obtain o' where o': "last_max obs_date (filter (\<lambda>r. obs_currency r = c \<and> obs_date r \<le> as_of) obs) = Some o'"
    "rate_quote s = currency_units_per_eur o'"
    by (auto simp: select_prior_rate_def result_simps split: if_splits)
  from formula_from_decimal_value [OF assms(2)] obtain q where q: "formula_from_decimal (rate_quote s) = Inr q" "ratio_ok q" "ratio_value q = dec_value d" by blast
  from select_prior_rate_positive [OF assms(1)] assms(2) have "0 < ratio_value q" using q(3) by auto
  with q(2) have "0 < numerator q" by (simp add: ratio_ok_def ratio_value_def zero_less_divide_iff)
  then show ?thesis using q o' False currency_cases(1) [OF assms(3) eur] by (simp add: formula_reference_quote_def same)
qed

lemma formula_one_value: "ratio_ok formula_one" "ratio_value formula_one = 1"
  by (simp_all add: formula_one_def ratio_ok_def ratio_value_def)

lemma formula_source_rates:
  assumes "ratio_ok iq" "ratio_value iq \<noteq> 0" "ratio_ok fq"
  shows "\<exists>adj e n. (if ic = ''EUR'' then Inr formula_one else formula_from_decimal ''1.02'') = Inr adj
    \<and> formula_divide adj iq = Inr e \<and> ratio_ok e \<and> ratio_value e = source_adjustment_of ic / ratio_value iq
    \<and> (if ic = fc then Inr formula_one else and_then (formula_multiply adj fq) (\<lambda>m. formula_divide m iq)) = Inr n \<and> ratio_ok n
    \<and> ratio_value n = (if ic = fc then 1 else source_adjustment_of ic * ratio_value fq / ratio_value iq)"
proof -
  from formula_from_decimal_value [OF parse_adjustment] obtain adj0 where
    a0: "formula_from_decimal ''1.02'' = Inr adj0" "ratio_ok adj0" "ratio_value adj0 = 102 / 100"
    by (auto simp: SOURCE_FX_ADJUSTMENT_def dec_value_def)
  obtain adj where adj: "(if ic = ''EUR'' then Inr formula_one else formula_from_decimal ''1.02'') = Inr adj" "ratio_ok adj"
    "ratio_value adj = source_adjustment_of ic"
  proof (cases "ic = ''EUR''")
    case True
    then show ?thesis using formula_one_value by (intro that [of formula_one]) (simp_all add: source_adjustment_of_def)
  next
    case False
    then show ?thesis using a0 by (intro that [of adj0]) (simp_all add: source_adjustment_of_def)
  qed
  from formula_divide_value [OF adj(2) assms(1,2)] obtain e where
    e: "formula_divide adj iq = Inr e" "ratio_ok e" "ratio_value e = source_adjustment_of ic / ratio_value iq" by (auto simp: adj(3))
  have "\<exists>n. (if ic = fc then Inr formula_one else and_then (formula_multiply adj fq) (\<lambda>m. formula_divide m iq)) = Inr n \<and> ratio_ok n
    \<and> ratio_value n = (if ic = fc then 1 else source_adjustment_of ic * ratio_value fq / ratio_value iq)"
  proof (cases "ic = fc")
    case True
    then show ?thesis using formula_one_value by simp
  next
    case False
    from formula_multiply_value [OF adj(2) assms(3)] obtain m where m: "formula_multiply adj fq = Inr m" "ratio_ok m"
      "ratio_value m = source_adjustment_of ic * ratio_value fq" by (auto simp: adj(3))
    from formula_divide_value [OF m(2) assms(1,2)] m False show ?thesis by simp
  qed
  with adj e show ?thesis by blast
qed

end
