(* ===== verification/ImportProperties.thy ===== *)
theory ImportProperties
  imports ImportValuation TransactionSamples
begin

text \<open>
  The arithmetic of the workbook importer against the arithmetic of the server: both add the same texts to
  the same texts, and the reference valuation of a shadow run is the valuation of the server.
\<close>

text \<open>For currencies the household uses, the formulas of the workbook give the four amounts of the server.\<close>

lemma formula_reference_agrees:
  assumes "calculate_valuation a ic fc b tc as_of obs HalfEven = Inr v"
    and "{ic, fc, tc} \<subseteq> currencies" "\<forall>r\<in>set obs. obs_currency r \<in> currencies"
  shows "formula_reference_valuation a ic fc b tc as_of obs = Inr
    \<lparr>formula_from_native = amount_native (from_side v), formula_from_eur = amount_eur (from_side v),
     formula_to_native = amount_native (to_side v), formula_to_eur = amount_eur (to_side v)\<rparr>"
  using assms(1)
proof (rule calculate_valuation_cases)
  fix da db ri rf rt di df dt e n t
  assume p: "decimal_parse a = Inr da" "decimal_parse b = Inr db"
    and r: "select_prior_rate ic as_of obs = Inr ri" "select_prior_rate fc as_of obs = Inr rf" "select_prior_rate tc as_of obs = Inr rt"
    and q: "decimal_parse (rate_quote ri) = Inr di" "decimal_parse (rate_quote rf) = Inr df" "decimal_parse (rate_quote rt) = Inr dt"
    and ok: "ratio_ok e" "ratio_ok n" "ratio_ok t"
    and vals: "ratio_value e = source_adjustment_of ic / dec_value di"
      "ratio_value n = (if ic = fc then 1 else source_adjustment_of ic * dec_value df / dec_value di)" "ratio_value t = 1 / dec_value dt"
    and out: "amount_eur (from_side v) = decimal_format (ratio_round_decimal (ratio_multiply (decimal_as_ratio da) e) 2 HalfEven)"
      "amount_native (from_side v) = decimal_format (ratio_round_decimal (ratio_multiply (decimal_as_ratio da) n) 2 HalfEven)"
      "amount_eur (to_side v) = decimal_format (ratio_round_decimal (ratio_multiply (decimal_as_ratio db) t) 2 HalfEven)"
      "amount_native (to_side v) = decimal_format (ratio_round_decimal (decimal_as_ratio db) 2 HalfEven)"
  have c: "ic \<in> currencies" "fc \<in> currencies" "tc \<in> currencies" using assms(2) by simp_all
  note upper = currency_cases(2) [OF c(1) c(1)] currency_cases(2) [OF c(2) c(1)] currency_cases(2) [OF c(3) c(1)]
  from formula_from_decimal_value [OF p(1)] formula_from_decimal_value [OF p(2)] obtain fa fb where
    f: "formula_from_decimal a = Inr fa" "ratio_ok fa" "ratio_value fa = dec_value da"
      "formula_from_decimal b = Inr fb" "ratio_ok fb" "ratio_value fb = dec_value db" by blast
  from formula_quote_value [OF r(1) q(1) c(1) assms(3)] formula_quote_value [OF r(2) q(2) c(2) assms(3)]
    formula_quote_value [OF r(3) q(3) c(3) assms(3)] obtain iq fq tq where
    i: "formula_reference_quote ic as_of obs = Inr iq" "ratio_ok iq" "ratio_value iq = dec_value di" and
    fr: "formula_reference_quote fc as_of obs = Inr fq" "ratio_ok fq" "ratio_value fq = dec_value df" and
    t: "formula_reference_quote tc as_of obs = Inr tq" "ratio_ok tq" "ratio_value tq = dec_value dt" by blast
  have nz: "ratio_value iq \<noteq> 0" "ratio_value tq \<noteq> 0"
    by (rule select_prior_rate_positive [OF r(1)], use q i in simp) (rule select_prior_rate_positive [OF r(3)], use q t in simp)
  from formula_source_rates [OF i(2) nz(1) fr(2), of ic fc] obtain adj e' n' where
    rates: "(if ic = ''EUR'' then Inr formula_one else formula_from_decimal ''1.02'') = Inr adj" "formula_divide adj iq = Inr e'"
      "(if ic = fc then Inr formula_one else and_then (formula_multiply adj fq) (\<lambda>m. formula_divide m iq)) = Inr n'" and
    e': "ratio_ok e'" "ratio_value e' = ratio_value e" and n': "ratio_ok n'" "ratio_value n' = ratio_value n"
    by (auto simp: vals i(3) fr(3))
  from formula_divide_value [OF formula_one_value(1) t(2) nz(2)] obtain t' where
    t': "formula_divide formula_one tq = Inr t'" "ratio_ok t'" "ratio_value t' = 1 / dec_value dt" by (auto simp: t(3) formula_one_value)
  from formula_multiply_value [OF f(2) n'(1)] formula_multiply_value [OF f(2) e'(1)] formula_multiply_value [OF f(5) t'(2)] obtain x y z where
    x: "formula_multiply fa n' = Inr x" "ratio_ok x" "ratio_value x = dec_value da * ratio_value n" and
    y: "formula_multiply fa e' = Inr y" "ratio_ok y" "ratio_value y = dec_value da * ratio_value e" and
    z: "formula_multiply fb t' = Inr z" "ratio_ok z" "ratio_value z = dec_value db * ratio_value t"
    by (auto simp: f n'(2) e'(2) t'(3) vals(3))
  have "round_half_even_2 x = amount_native (from_side v)" "round_half_even_2 y = amount_eur (from_side v)"
    "round_half_even_2 z = amount_eur (to_side v)" "round_half_even_2 fb = amount_native (to_side v)"
    unfolding out by (rule round_half_even_2_eq; simp add: x y z f ok money_simps)+
  then show ?thesis
    by (simp add: formula_reference_valuation_def upper f i fr t rates t' x y z Let_def del: if_split)
qed

text \<open>
  C28: The importer computes like the server. It parses exactly the amounts the server parses, it adds two of
  them, digit by digit on their texts, to exactly the text the server's arithmetic gives, and it
  negates one to the text of zero less it, failing on the same texts. And for the currencies the household
  uses, whenever the server values a transaction in its posting mode, the reference valuation, the
  workbook's formulas on ratios of their own, gives the same four texts: the amounts in the currencies of both
  accounts and in EUR.
\<close>

theorem importer_agrees:
  "((\<exists>e. parse_exact_decimal l = Inr e) \<longleftrightarrow> (\<exists>d. decimal_parse l = Inr d))
   \<and> (add_exact_decimals l r = Inr t \<longleftrightarrow> add_decimal_text l r = Inr t)
   \<and> (negate_decimal l = Inr t \<longleftrightarrow> subtract_decimal_text ''0'' l = Inr t)
   \<and> (calculate_valuation a ic fc b tc as_of obs POSTING_ROUNDING_MODE = Inr v \<longrightarrow>
        {ic, fc, tc} \<subseteq> {''EUR'', ''PHP'', ''USD''} \<longrightarrow> (\<forall>x\<in>set obs. obs_currency x \<in> {''EUR'', ''PHP'', ''USD''}) \<longrightarrow>
        formula_reference_valuation a ic fc b tc as_of obs = Inr
          \<lparr>formula_from_native = amount_native (from_side v), formula_from_eur = amount_eur (from_side v),
           formula_to_native = amount_native (to_side v), formula_to_eur = amount_eur (to_side v)\<rparr>)"
proof (intro conjI impI)
  show "(\<exists>e. parse_exact_decimal l = Inr e) \<longleftrightarrow> (\<exists>d. decimal_parse l = Inr d)"
    using parse_exact_value(1) [of l] parse_exact_total [of l] by blast
qed (rule add_exact_iff negate_decimal_iff
    | erule (2) formula_reference_agrees [unfolded currencies_def, folded POSTING_ROUNDING_MODE_def])+

theorem importer_agrees_witness:
  "add_exact_decimals (whole 40) (whole 2) = Inr (whole 42)
   \<and> formula_reference_valuation (whole 40) ''EUR'' ''EUR'' (whole 40) ''EUR'' ''2026-01-05'' [] = Inr
     \<lparr>formula_from_native = whole 40, formula_from_eur = whole 40, formula_to_native = whole 40, formula_to_eur = whole 40\<rparr>"
proof -
  obtain v where v: "calculate_valuation (whole 40) ''EUR'' ''EUR'' (whole 40) ''EUR'' ''2026-01-05'' [] POSTING_ROUNDING_MODE = Inr v"
    "amount_native (from_side v) = whole 40" "amount_eur (from_side v) = whole 40"
    "amount_native (to_side v) = whole 40" "amount_eur (to_side v) = whole 40"
    using eur_valuation unfolding POSTING_ROUNDING_MODE_def by blast
  have "add_decimal_text (whole 40) (whole 2) = Inr (whole 42)" by (simp add: add_whole)
  then show ?thesis
    using v(1) importer_agrees [of "whole 40" "whole 2" "whole 42" "whole 40" "''EUR''" "''EUR''" "whole 40" "''EUR''" "''2026-01-05''" "[]" v]
    by (simp add: v(2-5))
qed

end
