(* ===== verification/Spec2Isabelle.thy ===== *)
theory Spec2Isabelle
  imports BudgetProperties LedgerProperties MoneyProperties PlanProperties ActivationProperties RequestProperties
    SessionProperties TransactionProperties ReconciliationProperties PushProperties
    ImportProperties
begin

text \<open>
  A verification of the household finance server of \<open>src/server\<close>: its exact money arithmetic, its
  calendar, the valuation of transactions, the budget history, the append-only plan ledger, the
  request handlers that record, edit and delete transactions, reconcile accounts and plan, settle and
  close months, the sign-in of the household and its push notifications; and of the arithmetic with which the
  importer \<open>presto-admin\<close> checks the server's.

  \<^bold>\<open>Parts and theories.\<close> \<open>Prelude\<close> has results with error texts (\<open>anyhow::Result\<close>, \<open>and_then\<close> is
  \<open>?\<close>) and the folds of the code's loops; \<open>RustStd\<close> has the text functions of Rust's standard
  library that the code calls; \<open>OrderedMap\<close> has \<open>BTreeMap\<close> as a sorted association list.
  \<open>finance_model.rs\<close> is \<open>Decimal\<close>, \<open>DecimalText\<close> (the arithmetic on texts, with the locale
  \<open>exact_text\<close>), \<open>CivilDate\<close> and \<open>Valuation\<close>. \<open>budget.rs\<close> is \<open>Platform\<close> (what the code takes from
  chrono, serde and the clock, and the month steps), \<open>Tables\<close> (the tables of \<open>migrations\<close>) and
  \<open>History\<close>. \<open>budget_ledger.rs\<close> is \<open>PlanIncome\<close>, \<open>Movements\<close> and \<open>Coverage\<close>.
  \<open>Activation\<close> is the start of the ledger.
  \<open>server.rs\<close> is \<open>Http\<close> (the API errors), \<open>Validation\<close> (the checks of a request), \<open>Plans\<close> (categories,
  monthly budgets and the expected income), \<open>Closing\<close> (settling an income, closing a month),
  \<open>AuthTables\<close>, \<open>Sessions\<close> and \<open>GoogleSessions\<close> (signing in and out). \<open>SessionSteps\<close> lets the requests of
  the sign-in interleave. \<open>TransactionRows\<close> resolves the accounts and categories of a transaction,
  \<open>TransactionWrites\<close> records it, \<open>TransactionChanges\<close> edits and deletes it, and \<open>Reconciliation\<close> reconciles
  accounts with observed balances. \<open>Postings\<close>, \<open>Books\<close> and \<open>Reconciled\<close> hold what these handlers do to
  balances and rows; \<open>Books\<close> abstracts the database to rows with their revisions, on which a handler is an
  event. \<open>push.rs\<close> is \<open>Push\<close>, and \<open>PushSteps\<close> lets its worker run beside the other requests.
  \<open>bin/presto-admin.rs\<close> is \<open>ImportDecimal\<close>, its decimals on digit texts, and \<open>ImportValuation\<close>, its
  reference valuation.
  \<open>Samples\<close> is a concrete household and \<open>TransactionSamples\<close> one with two accounts; \<open>MoneyProperties\<close>,
  \<open>BudgetProperties\<close>, \<open>LedgerProperties\<close>, \<open>PlanProperties\<close>, \<open>ActivationProperties\<close>, \<open>RequestProperties\<close>,
  \<open>SessionProperties\<close>, \<open>TransactionProperties\<close>, \<open>ReconciliationProperties\<close>, \<open>PushProperties\<close>
  and \<open>ImportProperties\<close> state the
  properties and apply them to these.

  \<^bold>\<open>Lemmas.\<close> The lemmas of a component state its contract: a text operation computes the rational sum
  (\<open>exact_text\<close>), an operation of the ledger only appends (\<open>grows_to\<close>), a handler that succeeds passed its
  checks (the rules named \<open>..._E\<close>), an action of the sign-in keeps or drops rows (the locale
  \<open>quiet_core\<close>, which \<open>quiet_relation\<close> extends to the actions that begin a login and \<open>steady_relation\<close> to
  all steps). A reconciliation is a sequence of \<open>adjust_event\<close>s of the books, one per account. The properties are a few steps over them.

  \<^bold>\<open>State.\<close> An operation on a \<open>SqliteConnection\<close> is a function of the database \<open>db\<close>, a record with one
  list of rows per table in \<open>rowid\<close> order, to an error or the next database. A query is a filter or
  join of these lists; \<open>ORDER BY\<close> is a stable sort. An error aborts the transaction around the
  operation, so that the database of a failing operation is dropped, as \<open>Inl\<close> does.
  Foreign keys are not checked again by the model: every key the modelled code inserts is read from
  the table it refers to, apart from the Unallocated category, which activation inserts.

  The handlers of \<open>Plans\<close> and \<open>Closing\<close> give an API error or the response with the next database. The
  statements of the sign-in code are mostly outside a transaction, so that its actions return the
  database with an error too, and \<open>atomically\<close> marks the transactions. A step of \<open>SessionSteps\<close> is the
  part of a handler between two waits for the network; two statements of one part are not separated,
  and reading the access token of a Google session is one step with the refresh it may ask the network for.
  The worker of the notifications settles one row of the outbox per step, so that a request of the
  sign-in or a new notification can come between two rows.

  \<^bold>\<open>Parameters.\<close> \<open>platform\<close> holds the calendar of chrono, the reading of the JSON columns and the
  clock. The calendar is also instantiated with \<open>civil_chrono\<close>, built on the calendar of \<open>CivilDate\<close>,
  and \<open>month_calendar\<close> states the laws the month loops need.

  \<^bold>\<open>Integers.\<close> \<open>i64\<close> values are \<open>int\<close>, with \<open>wrap_i64\<close> in the calendar and saturation in the retry policy
  written out where the code can leave the type; \<open>CivilDate\<close> shows in which range nothing wraps.

  \<^bold>\<open>Termination.\<close> The loops over months compare texts, so that they end only while the month texts
  increase: \<open>while_months\<close> is a partial function and \<open>sync_returns\<close> and \<open>history_returns\<close> show that it
  ends for every month before 9999-12.

  \<open>auth_env\<close> holds the configuration of the sign-in with the digests, codecs and ciphers of other crates
  and the answers of the identity providers; a random identifier and a reading of the clock are
  arguments of the operation that makes them.

  \<open>write_env\<close> and \<open>reconcile_env\<close> hold the switches of the configuration, the parser of UUIDs and the date
  arithmetic of SQLite.

  \<^bold>\<open>Not modelled.\<close> The correction of categories, the preview of a reconciliation and the handlers that only
  list or read, backup and restore, and of the importer \<open>presto-admin\<close> all but its arithmetic. The HTTP routes and response headers, the rendering of JSON and HTML, the readers of
  workbooks, the network clients and the start of the process: they are I/O around the modelled core.
\<close>

end
